(* ===== verification/Prelude.thy ===== *)
theory Prelude
  imports Main "HOL-Library.Word" "HOL-Library.Sublist"
begin

text \<open>
  Shared vocabulary of the Serviq development: Python exceptions as values, the result type and
  its sequencing, timestamps, the fragment of Python's \<open>str\<close> and \<open>list\<close> methods the services
  use, and generic facts on lists and sums.

  A Python \<open>str\<close> is a \<open>string\<close> whose characters stand for the code points 0 to 255; the
  character classes below (\<open>isspace\<close>, \<open>lower\<close>) are Python's on that range.  A timestamp is
  an integer number of microseconds, the resolution of \<open>datetime\<close>.
\<close>

named_theorems result_simps \<open>inversion rules for sequenced results\<close>
named_theorems store_simps \<open>effects of the persistence operations on the tables\<close>
named_theorems table_intros \<open>preservation of table predicates\<close>

section \<open>Results\<close>

text \<open>
  One constructor per exception class the modelled code raises; the domain failures of a module are
  grouped under their base class.
\<close>

datatype chunking_error =
    EmptyInput | InvalidSegments | TokenEmptySegment | InvalidPolicy | ChunkLimitExceeded

datatype normalization_error =
    SourceTypeUnsupported | InputTooLarge | InvalidUtf8 | TextInvalid | PdfMalformed | PdfEncrypted
  | PdfPageLimitExceeded | HtmlMalformed | OutputTooLarge | SegmentLimitExceeded | EmptyContent

datatype workforce_error =
    DisabledWorkforceUser
  | WorkforceIdentityProfile

datatype organization_error =
    OrganizationNotFound
  | OrganizationSettingsForbidden
  | OrganizationSlugConflict
  | OwnerRoleUnavailable

datatype membership_error =
    MembershipAccessNotFound
  | MembershipForbidden
  | MembershipRoleInvalid
  | LastActiveOwnerConflict

datatype invitation_error =
    InvitationAccessNotFound
  | InvitationForbidden
  | InvitationRoleInvalid
  | InvitationConflict
  | InvitationLifecycleConflict
  | InvitationVerifiedEmailRequired
  | InvitationAcceptanceRejected

datatype secret_store_error =
    SecretNotFound
  | SecretDecryption

datatype provider_error =
    ProviderNotFound
  | ProviderForbidden
  | ProviderConflict
  | ProviderReferenced
  | ProviderSecretCleanup
  | ProviderTestRateLimited int
  | ProviderTestUnavailable
  | ProviderTestStale
  | ModelConfigurationNotFound
  | ModelConfigurationAliasConflict
  | ModelConfigurationProviderIneligible
  | ModelConfigurationReferenced

datatype exn =
    ValueError
  | TypeError
  | KeyError
  | RuntimeError
  | MultipleResultsFound
  | SQLAlchemyError
  | IntegrityError
  | ObjectStorageError
  | ObjectNotFoundError
  | TenantMembershipAccessError
  | OSError
  | InvitationEmailError
  | KnowledgeSourceForbiddenError
  | KnowledgeSourceNotFoundError
  | KnowledgeSourceDisabledError
  | KnowledgeSourceQuotaExceededError
  | KnowledgeStorageQuotaExceededError
  | KnowledgeUploadConcurrencyLimitedError int
  | KnowledgeQuotaUnavailableError
  | KnowledgeUploadCleanupUnavailableError
  | KnowledgeUploadCleanupStateError
  | KnowledgeUploadValidationError
  | KnowledgeUploadTooLargeError
  | OutboxSerializationError
  | BrokerUnavailableError
  | BufferError
  | KafkaException
  | RateLimitUnavailableError
  | KnowledgeUploadRateLimitUnavailableError
  | JSONDecodeError
  | UnicodeDecodeError
  | ValidationError
  | PdfError
  | AssertionError
  | RecursionError
  | WorkforceIdentityError workforce_error
  | OrganizationError organization_error
  | MemberManagementError membership_error
  | InvitationError invitation_error
  | SecretStoreError secret_store_error
  | ProviderManagementError provider_error
  | KnowledgeChunkingError chunking_error
  | KnowledgeNormalizationError normalization_error

text \<open>The exception classes of the API modules under the names of the source.\<close>

abbreviation DisabledWorkforceUserError :: exn where
  "DisabledWorkforceUserError \<equiv> WorkforceIdentityError DisabledWorkforceUser"

abbreviation WorkforceIdentityProfileError :: exn where
  "WorkforceIdentityProfileError \<equiv> WorkforceIdentityError WorkforceIdentityProfile"

abbreviation OrganizationNotFoundError :: exn where
  "OrganizationNotFoundError \<equiv> OrganizationError OrganizationNotFound"

abbreviation OrganizationSettingsForbiddenError :: exn where
  "OrganizationSettingsForbiddenError \<equiv> OrganizationError OrganizationSettingsForbidden"

abbreviation OrganizationSlugConflictError :: exn where
  "OrganizationSlugConflictError \<equiv> OrganizationError OrganizationSlugConflict"

abbreviation OwnerRoleUnavailableError :: exn where
  "OwnerRoleUnavailableError \<equiv> OrganizationError OwnerRoleUnavailable"

abbreviation MembershipAccessNotFoundError :: exn where
  "MembershipAccessNotFoundError \<equiv> MemberManagementError MembershipAccessNotFound"

abbreviation MembershipForbiddenError :: exn where
  "MembershipForbiddenError \<equiv> MemberManagementError MembershipForbidden"

abbreviation MembershipRoleInvalidError :: exn where
  "MembershipRoleInvalidError \<equiv> MemberManagementError MembershipRoleInvalid"

abbreviation LastActiveOwnerConflictError :: exn where
  "LastActiveOwnerConflictError \<equiv> MemberManagementError LastActiveOwnerConflict"

abbreviation InvitationAccessNotFoundError :: exn where
  "InvitationAccessNotFoundError \<equiv> InvitationError InvitationAccessNotFound"

abbreviation InvitationForbiddenError :: exn where
  "InvitationForbiddenError \<equiv> InvitationError InvitationForbidden"

abbreviation InvitationRoleInvalidError :: exn where
  "InvitationRoleInvalidError \<equiv> InvitationError InvitationRoleInvalid"

abbreviation InvitationConflictError :: exn where
  "InvitationConflictError \<equiv> InvitationError InvitationConflict"

abbreviation InvitationLifecycleConflictError :: exn where
  "InvitationLifecycleConflictError \<equiv> InvitationError InvitationLifecycleConflict"

abbreviation InvitationVerifiedEmailRequiredError :: exn where
  "InvitationVerifiedEmailRequiredError \<equiv> InvitationError InvitationVerifiedEmailRequired"

abbreviation InvitationAcceptanceRejectedError :: exn where
  "InvitationAcceptanceRejectedError \<equiv> InvitationError InvitationAcceptanceRejected"

abbreviation SecretNotFoundError :: exn where
  "SecretNotFoundError \<equiv> SecretStoreError SecretNotFound"

abbreviation SecretDecryptionError :: exn where
  "SecretDecryptionError \<equiv> SecretStoreError SecretDecryption"

abbreviation ProviderNotFoundError :: exn where
  "ProviderNotFoundError \<equiv> ProviderManagementError ProviderNotFound"

abbreviation ProviderForbiddenError :: exn where
  "ProviderForbiddenError \<equiv> ProviderManagementError ProviderForbidden"

abbreviation ProviderConflictError :: exn where
  "ProviderConflictError \<equiv> ProviderManagementError ProviderConflict"

abbreviation ProviderReferencedError :: exn where
  "ProviderReferencedError \<equiv> ProviderManagementError ProviderReferenced"

abbreviation ProviderSecretCleanupError :: exn where
  "ProviderSecretCleanupError \<equiv> ProviderManagementError ProviderSecretCleanup"

abbreviation ProviderTestRateLimitedError :: "int \<Rightarrow> exn" where
  "ProviderTestRateLimitedError n \<equiv> ProviderManagementError (ProviderTestRateLimited n)"

abbreviation ProviderTestUnavailableError :: exn where
  "ProviderTestUnavailableError \<equiv> ProviderManagementError ProviderTestUnavailable"

abbreviation ProviderTestStaleError :: exn where
  "ProviderTestStaleError \<equiv> ProviderManagementError ProviderTestStale"

abbreviation ModelConfigurationNotFoundError :: exn where
  "ModelConfigurationNotFoundError \<equiv> ProviderManagementError ModelConfigurationNotFound"

abbreviation ModelConfigurationAliasConflictError :: exn where
  "ModelConfigurationAliasConflictError \<equiv> ProviderManagementError ModelConfigurationAliasConflict"

abbreviation ModelConfigurationProviderIneligibleError :: exn where
  "ModelConfigurationProviderIneligibleError \<equiv> ProviderManagementError ModelConfigurationProviderIneligible"

abbreviation ModelConfigurationReferencedError :: exn where
  "ModelConfigurationReferencedError \<equiv> ProviderManagementError ModelConfigurationReferenced"

type_synonym 'a result = "exn + 'a"

definition bind_result :: "'a result \<Rightarrow> ('a \<Rightarrow> 'b result) \<Rightarrow> 'b result" where
  "bind_result m f = (case m of Inl e \<Rightarrow> Inl e | Inr x \<Rightarrow> f x)"

lemma bind_result_simps [simp]:
  "bind_result (Inl e) f = Inl e"
  "bind_result (Inr x) f = f x"
  by (simp_all add: bind_result_def)

lemma bind_result_Inr_iff [result_simps]:
  "bind_result m f = Inr y \<longleftrightarrow> (\<exists>x. m = Inr x \<and> f x = Inr y)"
  by (cases m) auto

lemma bind_result_Inl_iff [result_simps]:
  "bind_result m f = Inl e \<longleftrightarrow> m = Inl e \<or> (\<exists>x. m = Inr x \<and> f x = Inl e)"
  by (cases m) auto

lemma bind_result_cong [fundef_cong]:
  assumes "m = m'" and "\<And>x. m' = Inr x \<Longrightarrow> f x = g x"
  shows "bind_result m f = bind_result m' g"
  using assms by (cases m') auto

text \<open>\<open>if not c: raise e\<close>\<close>

definition guard :: "bool \<Rightarrow> exn \<Rightarrow> unit result" where
  "guard c e = (if c then Inr () else Inl e)"

lemma guard_Inr_iff [result_simps]: "guard c e = Inr u \<longleftrightarrow> c"
  by (simp add: guard_def)

lemma guard_Inl_iff [result_simps]: "guard c e = Inl e' \<longleftrightarrow> \<not> c \<and> e' = e"
  by (auto simp: guard_def)

lemma guard_simps [simp]: "guard True e = Inr ()" "guard False e = Inl e"
  by (simp_all add: guard_def)

section \<open>Time\<close>

type_synonym timestamp = int

abbreviation seconds :: "int \<Rightarrow> int" where
  "seconds n \<equiv> n * 1000000"

abbreviation minutes :: "int \<Rightarrow> int" where
  "minutes n \<equiv> n * 60000000"

text \<open>\<open>math.ceil((a - b).total_seconds())\<close> for a difference given in microseconds.\<close>

definition ceil_seconds :: "int \<Rightarrow> int" where
  "ceil_seconds d = - ((- d) div 1000000)"

lemma ceil_seconds_bounds:
  "d \<le> seconds (ceil_seconds d)" "seconds (ceil_seconds d) < d + 1000000"
  unfolding ceil_seconds_def by linarith+

section \<open>Python strings\<close>

definition ord :: "char \<Rightarrow> nat" where
  "ord c = of_char c"

definition is_space :: "char \<Rightarrow> bool" where
  "is_space c \<longleftrightarrow> (9 \<le> ord c \<and> ord c \<le> 13) \<or> (28 \<le> ord c \<and> ord c \<le> 32) \<or> ord c = 133 \<or> ord c = 160"

definition lower_char :: "char \<Rightarrow> char" where
  "lower_char c =
     (if (65 \<le> ord c \<and> ord c \<le> 90) \<or> (192 \<le> ord c \<and> ord c \<le> 222 \<and> ord c \<noteq> 215)
      then char_of (ord c + 32) else c)"

definition lower :: "string \<Rightarrow> string" where
  "lower s = map lower_char s"

definition lstrip :: "string \<Rightarrow> string" where
  "lstrip s = dropWhile is_space s"

definition rstrip :: "string \<Rightarrow> string" where
  "rstrip s = rev (dropWhile is_space (rev s))"

definition strip :: "string \<Rightarrow> string" where
  "strip s = rstrip (lstrip s)"

definition startswith :: "string \<Rightarrow> string \<Rightarrow> bool" where
  "startswith s p \<longleftrightarrow> take (length p) s = p"

text \<open>\<open>s.split(c)\<close> for a one-character separator; the result is never empty.\<close>

fun split_on :: "char \<Rightarrow> string \<Rightarrow> string list" where
  "split_on c [] = [[]]"
| "split_on c (x # xs) =
     (if x = c then [] # split_on c xs
      else (case split_on c xs of [] \<Rightarrow> [[x]] | y # ys \<Rightarrow> (x # y) # ys))"

text \<open>\<open>sep.join(parts)\<close>\<close>

fun join :: "string \<Rightarrow> string list \<Rightarrow> string" where
  "join sep [] = []"
| "join sep [s] = s"
| "join sep (s # t # ss) = s @ sep @ join sep (t # ss)"

lemma is_space_lstrip_hd: "lstrip s = c # cs \<Longrightarrow> \<not> is_space c"
  unfolding lstrip_def by (metis hd_dropWhile list.distinct(1) list.sel(1))

lemma length_lstrip_le: "length (lstrip s) \<le> length s"
  unfolding lstrip_def by (rule length_dropWhile_le)

lemma length_rstrip_le: "length (rstrip s) \<le> length s"
  unfolding rstrip_def using length_dropWhile_le[of is_space "rev s"] by simp

lemma length_strip_le: "length (strip s) \<le> length s"
  unfolding strip_def using length_rstrip_le[of "lstrip s"] length_lstrip_le[of s] by linarith

lemma set_lstrip: "set (lstrip s) \<subseteq> set s"
  unfolding lstrip_def by (auto dest: set_dropWhileD)

lemma set_rstrip: "set (rstrip s) \<subseteq> set s"
  unfolding rstrip_def by (auto dest: set_dropWhileD)

lemma set_strip: "set (strip s) \<subseteq> set s"
  unfolding strip_def using set_rstrip set_lstrip by blast

lemma rstrip_prefix: "\<exists>w. lstrip s = rstrip (lstrip s) @ w \<and> (\<forall>c \<in> set w. is_space c)"
proof -
  let ?t = "rev (lstrip s)"
  have "?t = takeWhile is_space ?t @ dropWhile is_space ?t" by simp
  then have "lstrip s = rev (dropWhile is_space ?t) @ rev (takeWhile is_space ?t)"
    by (metis rev_append rev_rev_ident)
  then show ?thesis
    unfolding rstrip_def by (metis set_rev set_takeWhileD)
qed

lemma strip_no_space: "(\<forall>c \<in> set s. \<not> is_space c) \<Longrightarrow> strip s = s"
proof -
  assume s: "\<forall>c \<in> set s. \<not> is_space c"
  then have "lstrip s = s" unfolding lstrip_def by (cases s) auto
  moreover have "rstrip s = s"
  proof (cases "rev s")
    case (Cons c cs)
    then have "c \<in> set s" by (metis list.set_intros(1) set_rev)
    with s have "\<not> is_space c" by blast
    with Cons show ?thesis unfolding rstrip_def by (metis dropWhile.simps(2) rev_rev_ident)
  qed (simp add: rstrip_def)
  ultimately show ?thesis by (simp add: strip_def)
qed

lemma split_on_neq_Nil [simp]: "split_on c s \<noteq> []"
  by (induction s) (auto split: list.splits)

lemma split_on_no_sep: "c \<notin> set s \<Longrightarrow> split_on c s = [s]"
  by (induction s) auto

lemma split_on_append_sep:
  "c \<notin> set s \<Longrightarrow> split_on c (s @ c # t) = s # split_on c t"
  by (induction s) auto

lemma join_split_on: "join [c] (split_on c s) = s"
proof (induction s)
  case Nil
  then show ?case by simp
next
  case (Cons x xs)
  obtain y ys where "split_on c xs = y # ys" by (cases "split_on c xs") auto
  with Cons.IH show ?case by (cases ys) auto
qed

section \<open>Lists and sums\<close>

text \<open>\<open>scalar_one_or_none\<close>: at most one row may match.\<close>

definition one_or_none :: "'a list \<Rightarrow> 'a option result" where
  "one_or_none rows = (case rows of [] \<Rightarrow> Inr None | [r] \<Rightarrow> Inr (Some r) | _ \<Rightarrow> Inl MultipleResultsFound)"

lemma one_or_none_simps [simp]:
  "one_or_none [] = Inr None" "one_or_none [r] = Inr (Some r)"
  by (simp_all add: one_or_none_def)

lemma one_or_none_Some: "one_or_none rows = Inr (Some r) \<longleftrightarrow> rows = [r]"
  by (auto simp: one_or_none_def split: list.splits)

lemma one_or_none_None: "one_or_none rows = Inr None \<longleftrightarrow> rows = []"
  by (auto simp: one_or_none_def split: list.splits)

lemma one_or_none_filter: "one_or_none (filter P xs) = Inr (Some r) \<Longrightarrow> r \<in> set xs \<and> P r"
  unfolding one_or_none_Some by (drule arg_cong[where f = set]) (auto simp del: set_filter simp: set_filter)

lemma filter_key_unique:
  "distinct (map key xs) \<Longrightarrow> x \<in> set xs \<Longrightarrow> filter (\<lambda>y. key y = key x \<and> P y) xs = (if P x then [x] else [])"
proof (induction xs)
  case Nil
  then show ?case by simp
next
  case (Cons a xs)
  show ?case
  proof (cases "x = a")
    case True
    with Cons.prems have "\<forall>y \<in> set xs. key y \<noteq> key a" by (auto simp: image_iff)
    then have "filter (\<lambda>y. key y = key a \<and> P y) xs = []" by (auto simp: filter_empty_conv)
    with True show ?thesis by simp
  next
    case False
    with Cons.prems have "x \<in> set xs" "key a \<noteq> key x" by (auto simp: rev_image_eqI)
    with Cons show ?thesis by simp
  qed
qed

lemma sum_list_filter_split:
  "sum_list (map f (filter P xs)) + sum_list (map f (filter (\<lambda>x. \<not> P x) xs)) = (sum_list (map f xs) :: int)"
  by (induction xs) auto

lemma sum_list_filter_mono:
  "(\<And>x. x \<in> set xs \<Longrightarrow> 0 \<le> (f x :: int)) \<Longrightarrow> sum_list (map f (filter P xs)) \<le> sum_list (map f xs)"
  by (induction xs) (auto simp: add_increasing)

lemma length_filter_map_same:
  "(\<And>x. x \<in> set xs \<Longrightarrow> P (g x) = P x) \<Longrightarrow> length (filter P (map g xs)) = length (filter P xs)"
  by (induction xs) auto

lemma filter_map_same:
  "(\<And>x. x \<in> set xs \<Longrightarrow> P (g x) = P x) \<Longrightarrow> filter P (map g xs) = map g (filter P xs)"
  by (induction xs) auto

lemma filter_commute: "filter P (filter Q xs) = filter Q (filter P xs)"
  by (induction xs) auto

lemma distinct_map_filterI: "distinct (map f xs) \<Longrightarrow> distinct (map f (filter P xs))"
  by (rule distinct_map_filter)

end
