(* ===== verification/Identifiers.thy ===== *)
theory Identifiers
  imports Prelude
begin

text \<open>
  UUID values and the object keys built from them: \<open>services/api/app/core/object_storage.py\<close>
  (key classes), \<open>parse_knowledge_raw_object_key\<close> of \<open>services/api/app/modules/knowledge/quota.py\<close>
  and the key helpers of the worker jobs.  A UUID is its 128-bit integer; \<open>str(uuid)\<close> and
  \<open>UUID(text)\<close> are those of Python's \<open>uuid\<close> module.
\<close>

type_synonym uuid = "128 word"

section \<open>Text form of a UUID\<close>

definition hex_digit :: "nat \<Rightarrow> char" where
  "hex_digit n = ''0123456789abcdef'' ! n"

text \<open>\<open>'%0wx' % n\<close> for a number below \<open>16 ^ w\<close>\<close>

fun to_hex :: "nat \<Rightarrow> nat \<Rightarrow> string" where
  "to_hex 0 n = []"
| "to_hex (Suc w) n = to_hex w (n div 16) @ [hex_digit (n mod 16)]"

definition uuid_str :: "uuid \<Rightarrow> string" where
  "uuid_str u =
     (let h = to_hex 32 (unat u)
      in take 8 h @ ''-'' @ take 4 (drop 8 h) @ ''-'' @ take 4 (drop 12 h) @ ''-''
         @ take 4 (drop 16 h) @ ''-'' @ drop 20 h)"

section \<open>\<open>UUID(text)\<close>\<close>

definition hex_value :: "char \<Rightarrow> nat option" where
  "hex_value c =
     (if 48 \<le> ord c \<and> ord c \<le> 57 then Some (ord c - 48)
      else if 97 \<le> ord c \<and> ord c \<le> 102 then Some (ord c - 87)
      else if 65 \<le> ord c \<and> ord c \<le> 70 then Some (ord c - 55)
      else None)"

text \<open>The digits of \<open>int(text, 16)\<close>: at least one, single underscores only between digits.\<close>

fun hex_digits :: "nat \<Rightarrow> string \<Rightarrow> nat option" where
  "hex_digits acc [] = Some acc"
| "hex_digits acc (c # cs) =
     (case hex_value c of
        Some d \<Rightarrow> hex_digits (16 * acc + d) cs
      | None \<Rightarrow>
          if c = CHR ''_'' then
            (case cs of
               [] \<Rightarrow> None
             | c' # cs' \<Rightarrow>
                 (case hex_value c' of
                    Some d \<Rightarrow> hex_digits (16 * acc + d) cs'
                  | None \<Rightarrow> None))
          else None)"

definition hex_number :: "string \<Rightarrow> nat option" where
  "hex_number s =
     (case s of
        [] \<Rightarrow> None
      | c # cs \<Rightarrow> (case hex_value c of None \<Rightarrow> None | Some d \<Rightarrow> hex_digits d cs))"

definition hex_prefixed :: "string \<Rightarrow> nat option" where
  "hex_prefixed s =
     (if startswith s ''0x'' \<or> startswith s ''0X'' then
        (let t = drop 2 s in hex_number (if startswith t ''_'' then drop 1 t else t))
      else hex_number s)"

definition py_int16 :: "string \<Rightarrow> int option" where
  "py_int16 s =
     (let t = strip s
      in if startswith t ''+'' then map_option int (hex_prefixed (drop 1 t))
         else if startswith t ''-'' then map_option (\<lambda>n. - int n) (hex_prefixed (drop 1 t))
         else map_option int (hex_prefixed t))"

text \<open>\<open>s.replace(old, '')\<close> for a non-empty \<open>old\<close>\<close>

function remove_all :: "string \<Rightarrow> string \<Rightarrow> string" where
  "remove_all old s =
     (if s = [] \<or> old = [] then s
      else if startswith s old then remove_all old (drop (length old) s)
      else hd s # remove_all old (tl s))"
  by pat_completeness auto
termination
  by (relation "measure (\<lambda>(old, s). length s)") auto

declare remove_all.simps [simp del]

definition strip_chars :: "string \<Rightarrow> string \<Rightarrow> string" where
  "strip_chars cs s =
     rev (dropWhile (\<lambda>c. c \<in> set cs) (rev (dropWhile (\<lambda>c. c \<in> set cs) s)))"

definition py_uuid :: "string \<Rightarrow> uuid result" where
  "py_uuid s =
     (let h = filter (\<lambda>c. c \<noteq> CHR ''-'')
                (strip_chars ''{}'' (remove_all ''uuid:'' (remove_all ''urn:'' s)))
      in if length h \<noteq> 32 then Inl ValueError
         else (case py_int16 h of
                 None \<Rightarrow> Inl ValueError
               | Some n \<Rightarrow> if 0 \<le> n \<and> n < 2 ^ 128 then Inr (word_of_int n) else Inl ValueError))"

section \<open>Object keys\<close>

record KnowledgeRawObjectKey =
  raw_tenant_id :: uuid
  raw_source_id :: uuid
  raw_object_id :: uuid

definition knowledge_raw_key :: "uuid \<Rightarrow> uuid \<Rightarrow> uuid \<Rightarrow> KnowledgeRawObjectKey" where
  "knowledge_raw_key t s i = \<lparr>raw_tenant_id = t, raw_source_id = s, raw_object_id = i\<rparr>"

definition raw_key_value :: "KnowledgeRawObjectKey \<Rightarrow> string" where
  "raw_key_value k =
     ''tenants/'' @ uuid_str (raw_tenant_id k) @ ''/knowledge/'' @ uuid_str (raw_source_id k)
     @ ''/raw/'' @ uuid_str (raw_object_id k)"

text \<open>The worker's own spelling of the same key.\<close>

definition worker_knowledge_raw_key :: "uuid \<Rightarrow> uuid \<Rightarrow> uuid \<Rightarrow> string" where
  "worker_knowledge_raw_key t s i =
     ''tenants/'' @ uuid_str t @ ''/knowledge/'' @ uuid_str s @ ''/raw/'' @ uuid_str i"

definition parse_knowledge_raw_object_key ::
  "string \<Rightarrow> uuid \<Rightarrow> uuid \<Rightarrow> KnowledgeRawObjectKey result" where
  "parse_knowledge_raw_object_key value tenant_id source_id =
     (let parts = split_on (CHR ''/'') value
      in if length parts \<noteq> 6 \<or> parts ! 0 \<noteq> ''tenants'' \<or> parts ! 2 \<noteq> ''knowledge'' \<or> parts ! 4 \<noteq> ''raw''
         then Inl ValueError
         else bind_result (py_uuid (parts ! 1)) (\<lambda>parsed_tenant.
              bind_result (py_uuid (parts ! 3)) (\<lambda>parsed_source.
              bind_result (py_uuid (parts ! 5)) (\<lambda>parsed_object.
              if parsed_tenant \<noteq> tenant_id \<or> parsed_source \<noteq> source_id then Inl ValueError
              else (let key = knowledge_raw_key parsed_tenant parsed_source parsed_object
                    in if raw_key_value key \<noteq> value then Inl ValueError else Inr key)))))"

section \<open>Facts on the text form\<close>

lemma hex_digit_props:
  assumes "n < 16"
  shows "hex_value (hex_digit n) = Some n" "hex_digit n \<noteq> CHR ''-''" "hex_digit n \<noteq> CHR ''/''"
    "hex_digit n \<noteq> CHR ''u''" "hex_digit n \<noteq> CHR ''x''" "hex_digit n \<noteq> CHR ''X''"
    "hex_digit n \<noteq> CHR ''+''" "hex_digit n \<notin> set ''{}''" "\<not> is_space (hex_digit n)"
    "hex_digit n \<noteq> CHR ''[''"
proof -
  from assms have "n \<in> {0,1,2,3,4,5,6,7,8,9,10,11,12,13,14,15}" by simp arith
  then show "hex_value (hex_digit n) = Some n" "hex_digit n \<noteq> CHR ''-''" "hex_digit n \<noteq> CHR ''/''"
    "hex_digit n \<noteq> CHR ''u''" "hex_digit n \<noteq> CHR ''x''" "hex_digit n \<noteq> CHR ''X''"
    "hex_digit n \<noteq> CHR ''+''" "hex_digit n \<notin> set ''{}''" "\<not> is_space (hex_digit n)"
    "hex_digit n \<noteq> CHR ''[''"
    by (auto simp: hex_digit_def hex_value_def ord_def is_space_def)
qed

lemma length_to_hex [simp]: "length (to_hex w n) = w"
  by (induction w n rule: to_hex.induct) auto

lemma set_to_hex: "c \<in> set (to_hex w n) \<Longrightarrow> \<exists>d < 16. c = hex_digit d"
  by (induction w n rule: to_hex.induct) (auto intro: exI[of _ "_ mod 16"])

lemma hex_digits_append:
  "(\<And>c. c \<in> set s \<Longrightarrow> \<exists>d < 16. c = hex_digit d) \<Longrightarrow>
     hex_digits acc (s @ t) = (case hex_digits acc s of None \<Rightarrow> None | Some a \<Rightarrow> hex_digits a t)"
proof (induction s arbitrary: acc)
  case (Cons c s)
  from Cons.prems obtain d where "d < 16" "c = hex_digit d" by auto
  with Cons show ?case by (simp add: hex_digit_props)
qed simp

lemma hex_digits_to_hex:
  "hex_digits acc (to_hex w n) = Some (acc * 16 ^ w + n mod 16 ^ w)"
proof (induction w n arbitrary: acc rule: to_hex.induct)
  case (2 w n)
  have "hex_digits acc (to_hex (Suc w) n) = hex_digits (acc * 16 ^ w + n div 16 mod 16 ^ w) [hex_digit (n mod 16)]"
    using 2 by (subst to_hex.simps, subst hex_digits_append) (auto dest: set_to_hex)
  also have "\<dots> = Some (16 * (acc * 16 ^ w + n div 16 mod 16 ^ w) + n mod 16)"
    by (simp add: hex_digit_props)
  finally have "hex_digits acc (to_hex (Suc w) n) =
      Some (16 * (acc * 16 ^ w + n div 16 mod 16 ^ w) + n mod 16)" .
  moreover have "16 * (n div 16 mod 16 ^ w) + n mod 16 = n mod 16 ^ Suc w"
    by (simp add: mod_mult2_eq)
  ultimately show ?case by (simp add: algebra_simps)
qed simp

lemma uuid_str_set: "c \<in> set (uuid_str u) \<Longrightarrow> c = CHR ''-'' \<or> (\<exists>d < 16. c = hex_digit d)"
  unfolding uuid_str_def Let_def
  using set_take_subset set_drop_subset
  by (auto dest!: in_set_takeD in_set_dropD dest: set_to_hex)

lemma uuid_str_chars:
  "CHR ''/'' \<notin> set (uuid_str u)" "CHR ''u'' \<notin> set (uuid_str u)" "CHR ''{'' \<notin> set (uuid_str u)"
  "CHR ''}'' \<notin> set (uuid_str u)"
  using uuid_str_set[of _ u] hex_digit_props by fastforce+

lemma uuid_str_no_dash: "filter (\<lambda>c. c \<noteq> CHR ''-'') (uuid_str u) = to_hex 32 (unat u)"
proof -
  let ?h = "to_hex 32 (unat u)"
  have nd: "CHR ''-'' \<notin> set ?h" using set_to_hex hex_digit_props(2) by fastforce
  then have keep: "filter (\<lambda>c. c \<noteq> CHR ''-'') t = t" if "set t \<subseteq> set ?h" for t
    using that by (auto simp: filter_id_conv)
  have "filter (\<lambda>c. c \<noteq> CHR ''-'') (uuid_str u) =
        take 8 ?h @ take 4 (drop 8 ?h) @ take 4 (drop 12 ?h) @ take 4 (drop 16 ?h) @ drop 20 ?h"
    unfolding uuid_str_def Let_def filter_append
    by (simp add: keep set_take_subset set_drop_subset subset_trans[OF set_take_subset set_drop_subset])
  also have "\<dots> = take 8 ?h @ take 4 (drop 8 ?h) @ take 4 (drop 12 ?h) @ drop 16 ?h"
    using append_take_drop_id[of 4 "drop 16 ?h"] by simp
  also have "\<dots> = take 8 ?h @ take 4 (drop 8 ?h) @ drop 12 ?h"
    using append_take_drop_id[of 4 "drop 12 ?h"] by simp
  also have "\<dots> = ?h"
    using append_take_drop_id[of 4 "drop 8 ?h"] by simp
  finally show ?thesis .
qed

lemma remove_all_absent: "old \<noteq> [] \<Longrightarrow> hd old \<notin> set s \<Longrightarrow> remove_all old s = s"
proof (induction s)
  case Nil
  then show ?case by (simp add: remove_all.simps)
next
  case (Cons c s)
  then have "\<not> startswith (c # s) old" by (cases old) (auto simp: startswith_def)
  with Cons show ?case by (subst remove_all.simps) auto
qed

lemma strip_chars_absent: "(\<forall>c \<in> set s. c \<notin> set cs) \<Longrightarrow> strip_chars cs s = s"
proof -
  assume s: "\<forall>c \<in> set s. c \<notin> set cs"
  have "dropWhile (\<lambda>c. c \<in> set cs) t = t" if "set t \<subseteq> set s" for t
    using that s by (cases t) auto
  then show ?thesis by (simp add: strip_chars_def)
qed

lemma py_int16_to_hex: "0 < w \<Longrightarrow> n < 16 ^ w \<Longrightarrow> py_int16 (to_hex w n) = Some (int n)"
proof -
  assume w: "0 < w" and n: "n < 16 ^ w"
  let ?h = "to_hex w n"
  have hd: "c \<in> set ?h \<Longrightarrow> \<exists>d < 16. c = hex_digit d" for c by (rule set_to_hex)
  have strip: "strip ?h = ?h" by (rule strip_no_space) (use hd hex_digit_props in blast)
  obtain c cs where cs: "?h = c # cs" using w by (cases ?h) (metis length_to_hex less_irrefl list.size(3), blast)
  obtain d where d: "d < 16" "c = hex_digit d" using hd cs by auto
  have nosign: "\<not> startswith ?h ''+''" "\<not> startswith ?h ''-''"
    using cs d hex_digit_props[of d] by (auto simp: startswith_def)
  have noprefix: "\<not> startswith ?h ''0x''" "\<not> startswith ?h ''0X''"
  proof -
    have "cs ! 0 \<noteq> CHR ''x'' \<and> cs ! 0 \<noteq> CHR ''X''" if "cs \<noteq> []"
    proof -
      from that have "cs ! 0 \<in> set ?h" using cs by simp
      from hd[OF this] show ?thesis using hex_digit_props(5,6) by metis
    qed
    then show "\<not> startswith ?h ''0x''" "\<not> startswith ?h ''0X''"
      using cs by (cases cs; simp add: startswith_def)+
  qed
  have "hex_number ?h = hex_digits 0 ?h" using cs d by (simp add: hex_number_def hex_digit_props)
  then have "hex_number ?h = Some n" using n by (simp add: hex_digits_to_hex)
  then show ?thesis using strip nosign noprefix by (simp add: py_int16_def hex_prefixed_def)
qed

lemma py_uuid_uuid_str [simp]: "py_uuid (uuid_str u) = Inr u"
proof -
  have "remove_all ''urn:'' (uuid_str u) = uuid_str u" "remove_all ''uuid:'' (uuid_str u) = uuid_str u"
    using uuid_str_chars[of u] by (simp_all add: remove_all_absent)
  moreover have "strip_chars ''{}'' (uuid_str u) = uuid_str u"
    using uuid_str_chars[of u] by (intro strip_chars_absent) auto
  moreover have "unat u < 16 ^ 32" using unsigned_less[of u] by simp
  then have "py_int16 (to_hex 32 (unat u)) = Some (uint u)"
    by (subst py_int16_to_hex) auto
  moreover have "uint u < 2 ^ 128" using uint_lt2p[of u] by simp
  ultimately show ?thesis by (simp add: py_uuid_def uuid_str_no_dash)
qed

lemma uuid_str_inject [simp]: "uuid_str u = uuid_str v \<longleftrightarrow> u = v"
  by (metis py_uuid_uuid_str Inr_inject)

lemma length_uuid_str: "length (uuid_str u) = 36"
  by (simp add: uuid_str_def Let_def)

lemma split_raw_key:
  "split_on (CHR ''/'') (raw_key_value k) =
     [''tenants'', uuid_str (raw_tenant_id k), ''knowledge'', uuid_str (raw_source_id k), ''raw'',
      uuid_str (raw_object_id k)]"
proof -
  have "raw_key_value k = ''tenants'' @ CHR ''/'' # uuid_str (raw_tenant_id k) @ CHR ''/'' # ''knowledge''
      @ CHR ''/'' # uuid_str (raw_source_id k) @ CHR ''/'' # ''raw'' @ CHR ''/'' # uuid_str (raw_object_id k)"
    by (simp add: raw_key_value_def)
  then show ?thesis
    by (simp only: split_on_append_sep split_on_no_sep uuid_str_chars not_False_eq_True)
       (simp add: split_on_append_sep split_on_no_sep uuid_str_chars)
qed

section \<open>Properties\<close>

text \<open>
  C19: \<open>parse_knowledge_raw_object_key\<close> accepts a text exactly when it is the generated key of an
  object of the given tenant and source, and then returns that key: no other spelling of the
  identifiers, no foreign tenant or source and no extra path segment is accepted.
\<close>

theorem parse_raw_key_iff:
  "parse_knowledge_raw_object_key v t s = Inr k \<longleftrightarrow>
     (\<exists>i. k = knowledge_raw_key t s i \<and> v = raw_key_value k)"
proof
  assume "parse_knowledge_raw_object_key v t s = Inr k"
  then show "\<exists>i. k = knowledge_raw_key t s i \<and> v = raw_key_value k"
    by (auto simp: parse_knowledge_raw_object_key_def Let_def bind_result_Inr_iff split: if_splits)
next
  assume "\<exists>i. k = knowledge_raw_key t s i \<and> v = raw_key_value k"
  then show "parse_knowledge_raw_object_key v t s = Inr k"
    by (auto simp: parse_knowledge_raw_object_key_def Let_def split_raw_key knowledge_raw_key_def)
qed

lemma raw_key_value_inject: "raw_key_value k = raw_key_value k' \<longleftrightarrow> k = k'"
proof
  assume "raw_key_value k = raw_key_value k'"
  then have "split_on (CHR ''/'') (raw_key_value k) = split_on (CHR ''/'') (raw_key_value k')" by simp
  then show "k = k'" unfolding split_raw_key by (cases k, cases k') simp
qed simp

lemma worker_key_eq: "worker_knowledge_raw_key t s i = raw_key_value (knowledge_raw_key t s i)"
  by (simp add: worker_knowledge_raw_key_def raw_key_value_def knowledge_raw_key_def)

end
