(* ===== verification/Database.thy ===== *)
theory Database
  imports Identifiers "HOL-Library.Product_Lexorder"
begin

text \<open>
  The PostgreSQL tables the knowledge, tenancy and outbox code shares: one record per ORM class
  (\<open>modules/knowledge/models.py\<close>, \<open>modules/tenancy/models.py\<close>, \<open>models/outbox.py\<close>), the CHECK,
  UNIQUE and FOREIGN KEY constraints of the Alembic migrations as executable predicates, and the
  transactions of \<open>AsyncSession\<close>.

  A table is the list of its rows.  \<open>session.flush()\<close> and the commit at the end of
  \<open>async with session.begin()\<close> reject a state that violates a constraint; a body that raises is
  rolled back.  Values the database or the runtime chooses (\<open>uuid4()\<close>, \<open>uuidv7()\<close>, \<open>now()\<close>,
  \<open>datetime.now(UTC)\<close>) are arguments of the operations that use them.
\<close>

section \<open>Rows\<close>

datatype source_type = Url | Sitemap | Pdf | Markdown | TextFile

datatype access_scope = Customer | Internal

datatype source_status = SourcePending | Syncing | Ready | SourceFailed | Disabled

datatype cleanup_status = Prepared | Pending | Referenced | Succeeded | Exhausted

datatype outbox_status = OutboxPending | Published | OutboxFailed

datatype document_status = DocumentActive | Deprecated | DocumentFailed

datatype tenant_status = TenantActive | TenantSuspended | TenantDeleted

datatype user_status = UserActive | UserDisabled

datatype membership_status = Active | Suspended

datatype invitation_status = InvitationPending | Accepted | Revoked | InvitationExpired

datatype provider = Openai | Anthropic | Gemini | Openrouter

datatype connection_status = Untested | ConnectionActive | Invalid | ConnectionDisabled

datatype model_purpose = Generation | Embedding | Rerank

datatype json =
    JNull
  | JBool bool
  | JInt int
  | JStr string
  | JArr "json list"
  | JObj "(string \<times> json) list"

record KnowledgeSource =
  ks_id :: uuid
  ks_tenant_id :: uuid
  ks_source_type :: source_type
  ks_name :: string
  ks_source_uri :: "string option"
  ks_object_key :: "string option"
  ks_object_size_bytes :: "int option"
  ks_access_scope :: access_scope
  ks_status :: source_status
  ks_sync_version :: int
  ks_last_synced_at :: "timestamp option"
  ks_last_error_code :: "string option"
  ks_created_by :: uuid
  ks_created_at :: timestamp
  ks_updated_at :: timestamp

record KnowledgeUploadCleanup =
  uc_id :: uuid
  uc_tenant_id :: uuid
  uc_source_id :: uuid
  uc_object_id :: uuid
  uc_object_key :: string
  uc_status :: cleanup_status
  uc_attempt_count :: int
  uc_next_attempt_at :: "timestamp option"
  uc_last_error_code :: "string option"
  uc_resolved_at :: "timestamp option"
  uc_created_at :: timestamp
  uc_updated_at :: timestamp

record KnowledgeUploadReservation =
  ur_id :: uuid
  ur_tenant_id :: uuid
  ur_source_id :: uuid
  ur_reserved_bytes :: int
  ur_cleanup_id :: "uuid option"
  ur_lease_expires_at :: timestamp
  ur_created_at :: timestamp
  ur_updated_at :: timestamp

record KnowledgeDocument =
  kd_id :: uuid
  kd_tenant_id :: uuid
  kd_source_id :: uuid
  kd_canonical_uri :: "string option"
  kd_title :: string
  kd_content_hash :: string
  kd_document_version :: int
  kd_status :: document_status
  kd_fetched_at :: "timestamp option"
  kd_created_at :: timestamp
  kd_updated_at :: timestamp

record OutboxEvent =
  oe_id :: uuid
  oe_tenant_id :: "uuid option"
  oe_event_type :: string
  oe_schema_version :: int
  oe_aggregate_type :: string
  oe_aggregate_id :: string
  oe_payload :: json
  oe_correlation_id :: string
  oe_causation_id :: "string option"
  oe_status :: outbox_status
  oe_attempts :: int
  oe_next_attempt_at :: timestamp
  oe_published_at :: "timestamp option"

record Organization =
  og_id :: uuid
  og_slug :: string
  og_display_name :: string
  og_status :: tenant_status
  og_default_locale :: string
  og_created_at :: timestamp
  og_updated_at :: timestamp

record User =
  us_id :: uuid
  us_oidc_issuer :: string
  us_oidc_subject :: string
  us_email :: string
  us_display_name :: string
  us_status :: user_status
  us_created_at :: timestamp
  us_updated_at :: timestamp

record Membership =
  mb_id :: uuid
  mb_tenant_id :: uuid
  mb_user_id :: uuid
  mb_status :: membership_status
  mb_created_by_invitation_id :: "uuid option"
  mb_created_at :: timestamp
  mb_updated_at :: timestamp

text \<open>
  No code reads or writes the timestamps of \<open>roles\<close>, nor the surrogate identifiers and timestamps of
  the association tables; the records below leave these columns out.
\<close>

record Role =
  ro_id :: uuid
  ro_tenant_id :: "uuid option"
  ro_key :: string
  ro_display_name :: string
  ro_is_system :: bool

record RolePermission =
  rp_role_id :: uuid
  rp_permission_key :: string

record MembershipRole =
  mr_membership_id :: uuid
  mr_role_id :: uuid

record OrganizationInvitation =
  iv_id :: uuid
  iv_tenant_id :: uuid
  iv_email_normalized :: string
  iv_token_hash :: string
  iv_status :: invitation_status
  iv_invited_by_user_id :: uuid
  iv_accepted_by_user_id :: "uuid option"
  iv_expires_at :: timestamp
  iv_accepted_at :: "timestamp option"
  iv_revoked_at :: "timestamp option"
  iv_created_at :: timestamp
  iv_updated_at :: timestamp

record OrganizationInvitationRole =
  ir_invitation_id :: uuid
  ir_role_id :: uuid

record ProviderConnection =
  pc_id :: uuid
  pc_tenant_id :: uuid
  pc_provider :: provider
  pc_display_name :: string
  pc_secret_ref :: string
  pc_status :: connection_status
  pc_last_tested_at :: "timestamp option"
  pc_last_error_code :: "string option"
  pc_created_by :: uuid
  pc_created_at :: timestamp
  pc_updated_at :: timestamp

record ModelConfiguration =
  mc_id :: uuid
  mc_tenant_id :: uuid
  mc_provider_connection_id :: uuid
  mc_alias :: string
  mc_upstream_model :: string
  mc_purpose :: model_purpose
  mc_enabled :: bool
  mc_created_at :: timestamp
  mc_updated_at :: timestamp

record ModelConfigurationReference =
  cr_id :: uuid
  cr_tenant_id :: uuid
  cr_model_configuration_id :: uuid
  cr_reference_kind :: string
  cr_reference_id :: uuid
  cr_created_at :: timestamp

record db =
  tenants :: "Organization list"
  users :: "User list"
  memberships :: "Membership list"
  roles :: "Role list"
  role_permissions :: "RolePermission list"
  membership_roles :: "MembershipRole list"
  invitations :: "OrganizationInvitation list"
  invitation_roles :: "OrganizationInvitationRole list"
  connections :: "ProviderConnection list"
  model_configs :: "ModelConfiguration list"
  model_references :: "ModelConfigurationReference list"
  sources :: "KnowledgeSource list"
  cleanups :: "KnowledgeUploadCleanup list"
  reservations :: "KnowledgeUploadReservation list"
  documents :: "KnowledgeDocument list"
  outbox :: "OutboxEvent list"

abbreviation tenant_ids :: "db \<Rightarrow> uuid set" where
  "tenant_ids d \<equiv> og_id ` set (tenants d)"

abbreviation user_ids :: "db \<Rightarrow> uuid set" where
  "user_ids d \<equiv> us_id ` set (users d)"

definition empty_db :: db where
  "empty_db = \<lparr>tenants = [], users = [], memberships = [], roles = [], role_permissions = [],
     membership_roles = [], invitations = [], invitation_roles = [], connections = [], model_configs = [],
     model_references = [], sources = [], cleanups = [], reservations = [], documents = [], outbox = []\<rparr>"

text \<open>A database with one tenant and one user, the starting point of the concrete runs below.\<close>

definition sample_tenant :: Organization where
  "sample_tenant = \<lparr>og_id = 1, og_slug = ''acme'', og_display_name = ''Acme'', og_status = TenantActive,
     og_default_locale = ''en'', og_created_at = 0, og_updated_at = 0\<rparr>"

definition sample_user :: User where
  "sample_user = \<lparr>us_id = 2, us_oidc_issuer = ''iss'', us_oidc_subject = ''sub'', us_email = ''a@b.c'',
     us_display_name = ''Ann'', us_status = UserActive, us_created_at = 0, us_updated_at = 0\<rparr>"

definition sample_db :: db where
  "sample_db = empty_db\<lparr>tenants := [sample_tenant], users := [sample_user]\<rparr>"

section \<open>Constraints of the migrations\<close>

definition max_file_bytes :: int where
  "max_file_bytes = 25 * 1024 * 1024"

definition source_row_ok :: "db \<Rightarrow> KnowledgeSource \<Rightarrow> bool" where
  "source_row_ok d r \<longleftrightarrow>
     1 \<le> length (ks_name r) \<and> length (ks_name r) \<le> 160 \<and>
     ((ks_source_type r \<in> {Url, Sitemap} \<and> ks_source_uri r \<noteq> None) \<or>
      (ks_source_type r \<in> {Pdf, Markdown, TextFile} \<and> ks_object_key r \<noteq> None)) \<and>
     ks_tenant_id r \<in> tenant_ids d \<and> ks_created_by r \<in> user_ids d"

definition source_size_ok :: "KnowledgeSource \<Rightarrow> bool" where
  "source_size_ok r \<longleftrightarrow>
     (case ks_object_size_bytes r of None \<Rightarrow> True | Some n \<Rightarrow> 0 \<le> n \<and> n \<le> max_file_bytes)"

definition sources_ok :: "db \<Rightarrow> bool" where
  "sources_ok d \<longleftrightarrow> distinct (map ks_id (sources d)) \<and>
     list_all (\<lambda>r. source_row_ok d r \<and> source_size_ok r) (sources d)"

definition cleanup_row_ok :: "db \<Rightarrow> KnowledgeUploadCleanup \<Rightarrow> bool" where
  "cleanup_row_ok d r \<longleftrightarrow>
     0 \<le> uc_attempt_count r \<and> uc_attempt_count r \<le> 3 \<and>
     ((uc_status r \<in> {Prepared, Pending} \<and> uc_next_attempt_at r \<noteq> None \<and> uc_resolved_at r = None) \<or>
      (uc_status r \<in> {Referenced, Succeeded, Exhausted} \<and> uc_next_attempt_at r = None
         \<and> uc_resolved_at r \<noteq> None)) \<and>
     uc_tenant_id r \<in> tenant_ids d"

definition cleanups_ok :: "db \<Rightarrow> bool" where
  "cleanups_ok d \<longleftrightarrow> distinct (map uc_id (cleanups d)) \<and>
     distinct (map (\<lambda>r. (uc_tenant_id r, uc_source_id r)) (cleanups d)) \<and>
     distinct (map uc_object_key (cleanups d)) \<and> list_all (cleanup_row_ok d) (cleanups d)"

definition reservation_row_ok :: "db \<Rightarrow> KnowledgeUploadReservation \<Rightarrow> bool" where
  "reservation_row_ok d r \<longleftrightarrow>
     0 \<le> ur_reserved_bytes r \<and> ur_reserved_bytes r \<le> max_file_bytes \<and> ur_tenant_id r \<in> tenant_ids d"

definition reservations_ok :: "db \<Rightarrow> bool" where
  "reservations_ok d \<longleftrightarrow> distinct (map ur_id (reservations d)) \<and>
     distinct (map (\<lambda>r. (ur_tenant_id r, ur_source_id r)) (reservations d)) \<and>
     distinct (map ur_cleanup_id (filter (\<lambda>r. ur_cleanup_id r \<noteq> None) (reservations d))) \<and>
     list_all (reservation_row_ok d) (reservations d)"

definition documents_ok :: "db \<Rightarrow> bool" where
  "documents_ok d \<longleftrightarrow> distinct (map kd_id (documents d)) \<and>
     list_all (\<lambda>r. kd_tenant_id r \<in> tenant_ids d \<and> kd_source_id r \<in> ks_id ` set (sources d)) (documents d) \<and>
     distinct (map (\<lambda>r. (kd_source_id r, kd_canonical_uri r, kd_document_version r))
       (filter (\<lambda>r. kd_canonical_uri r \<noteq> None) (documents d)))"

definition outbox_ok :: "db \<Rightarrow> bool" where
  "outbox_ok d \<longleftrightarrow> distinct (map oe_id (outbox d)) \<and>
     list_all (\<lambda>r. case oe_tenant_id r of None \<Rightarrow> True | Some t \<Rightarrow> t \<in> tenant_ids d) (outbox d)"

definition tenant_row_ok :: "Organization \<Rightarrow> bool" where
  "tenant_row_ok r \<longleftrightarrow> 3 \<le> length (og_slug r) \<and> length (og_slug r) \<le> 63 \<and>
     1 \<le> length (og_display_name r) \<and> length (og_display_name r) \<le> 120"

definition tenants_ok :: "db \<Rightarrow> bool" where
  "tenants_ok d \<longleftrightarrow> distinct (map og_id (tenants d)) \<and> distinct (map og_slug (tenants d)) \<and>
     list_all tenant_row_ok (tenants d)"

definition users_ok :: "db \<Rightarrow> bool" where
  "users_ok d \<longleftrightarrow> distinct (map us_id (users d)) \<and>
     distinct (map (\<lambda>r. (us_oidc_issuer r, us_oidc_subject r)) (users d))"

definition memberships_ok :: "db \<Rightarrow> bool" where
  "memberships_ok d \<longleftrightarrow> distinct (map mb_id (memberships d)) \<and>
     distinct (map (\<lambda>r. (mb_tenant_id r, mb_user_id r)) (memberships d)) \<and>
     list_all (\<lambda>r. mb_tenant_id r \<in> tenant_ids d \<and> mb_user_id r \<in> user_ids d \<and>
       (case mb_created_by_invitation_id r of None \<Rightarrow> True | Some i \<Rightarrow> i \<in> iv_id ` set (invitations d)))
       (memberships d)"

definition roles_ok :: "db \<Rightarrow> bool" where
  "roles_ok d \<longleftrightarrow> distinct (map ro_id (roles d)) \<and> distinct (map (\<lambda>r. (ro_tenant_id r, ro_key r)) (roles d)) \<and>
     list_all (\<lambda>r. 2 \<le> length (ro_key r) \<and> length (ro_key r) \<le> 64 \<and>
       1 \<le> length (ro_display_name r) \<and> length (ro_display_name r) \<le> 80 \<and>
       (case ro_tenant_id r of None \<Rightarrow> True | Some t \<Rightarrow> t \<in> tenant_ids d)) (roles d)"

definition role_permissions_ok :: "db \<Rightarrow> bool" where
  "role_permissions_ok d \<longleftrightarrow>
     distinct (map (\<lambda>r. (rp_role_id r, rp_permission_key r)) (role_permissions d)) \<and>
     list_all (\<lambda>r. 2 \<le> length (rp_permission_key r) \<and> length (rp_permission_key r) \<le> 120 \<and>
       rp_role_id r \<in> ro_id ` set (roles d)) (role_permissions d)"

definition membership_roles_ok :: "db \<Rightarrow> bool" where
  "membership_roles_ok d \<longleftrightarrow>
     distinct (map (\<lambda>r. (mr_membership_id r, mr_role_id r)) (membership_roles d)) \<and>
     list_all (\<lambda>r. mr_membership_id r \<in> mb_id ` set (memberships d) \<and> mr_role_id r \<in> ro_id ` set (roles d))
       (membership_roles d)"

definition invitation_row_ok :: "db \<Rightarrow> OrganizationInvitation \<Rightarrow> bool" where
  "invitation_row_ok d r \<longleftrightarrow>
     3 \<le> length (iv_email_normalized r) \<and> length (iv_email_normalized r) \<le> 320 \<and>
     iv_tenant_id r \<in> tenant_ids d \<and> iv_invited_by_user_id r \<in> user_ids d \<and>
     (case iv_accepted_by_user_id r of None \<Rightarrow> True | Some u \<Rightarrow> u \<in> user_ids d)"

definition invitations_ok :: "db \<Rightarrow> bool" where
  "invitations_ok d \<longleftrightarrow> distinct (map iv_id (invitations d)) \<and> distinct (map iv_token_hash (invitations d)) \<and>
     distinct (map (\<lambda>r. (iv_tenant_id r, iv_email_normalized r))
       (filter (\<lambda>r. iv_status r = InvitationPending) (invitations d))) \<and>
     list_all (invitation_row_ok d) (invitations d)"

definition invitation_roles_ok :: "db \<Rightarrow> bool" where
  "invitation_roles_ok d \<longleftrightarrow>
     distinct (map (\<lambda>r. (ir_invitation_id r, ir_role_id r)) (invitation_roles d)) \<and>
     list_all (\<lambda>r. ir_invitation_id r \<in> iv_id ` set (invitations d) \<and> ir_role_id r \<in> ro_id ` set (roles d))
       (invitation_roles d)"

definition connections_ok :: "db \<Rightarrow> bool" where
  "connections_ok d \<longleftrightarrow> distinct (map pc_id (connections d)) \<and>
     distinct (map (\<lambda>r. (pc_tenant_id r, pc_display_name r)) (connections d)) \<and>
     list_all (\<lambda>r. 1 \<le> length (pc_display_name r) \<and> length (pc_display_name r) \<le> 80 \<and>
       1 \<le> length (pc_secret_ref r) \<and> pc_tenant_id r \<in> tenant_ids d \<and> pc_created_by r \<in> user_ids d)
       (connections d)"

definition model_configs_ok :: "db \<Rightarrow> bool" where
  "model_configs_ok d \<longleftrightarrow> distinct (map mc_id (model_configs d)) \<and>
     distinct (map (\<lambda>r. (mc_tenant_id r, mc_alias r)) (model_configs d)) \<and>
     list_all (\<lambda>r. 1 \<le> length (mc_alias r) \<and> length (mc_alias r) \<le> 80 \<and>
       1 \<le> length (mc_upstream_model r) \<and> length (mc_upstream_model r) \<le> 160 \<and>
       mc_tenant_id r \<in> tenant_ids d \<and> mc_provider_connection_id r \<in> pc_id ` set (connections d))
       (model_configs d)"

definition model_references_ok :: "db \<Rightarrow> bool" where
  "model_references_ok d \<longleftrightarrow> distinct (map cr_id (model_references d)) \<and>
     distinct (map (\<lambda>r. (cr_tenant_id r, cr_model_configuration_id r, cr_reference_kind r, cr_reference_id r))
       (model_references d)) \<and>
     list_all (\<lambda>r. 1 \<le> length (cr_reference_kind r) \<and> length (cr_reference_kind r) \<le> 80 \<and>
       cr_tenant_id r \<in> tenant_ids d \<and>
       (cr_tenant_id r, cr_model_configuration_id r) \<in> (\<lambda>m. (mc_tenant_id m, mc_id m)) ` set (model_configs d))
       (model_references d)"

text \<open>The tables of the workforce and of the providers, and all tables.\<close>

definition workforce_ok :: "db \<Rightarrow> bool" where
  "workforce_ok d \<longleftrightarrow> tenants_ok d \<and> users_ok d \<and> memberships_ok d \<and> roles_ok d \<and> role_permissions_ok d
     \<and> membership_roles_ok d \<and> invitations_ok d \<and> invitation_roles_ok d"

definition providers_ok :: "db \<Rightarrow> bool" where
  "providers_ok d \<longleftrightarrow> connections_ok d \<and> model_configs_ok d \<and> model_references_ok d"

definition schema_ok :: "db \<Rightarrow> bool" where
  "schema_ok d \<longleftrightarrow> sources_ok d \<and> cleanups_ok d \<and> reservations_ok d \<and> documents_ok d \<and> outbox_ok d
     \<and> workforce_ok d \<and> providers_ok d"

lemmas workforce_defs =
  workforce_ok_def tenants_ok_def users_ok_def memberships_ok_def roles_ok_def role_permissions_ok_def
  membership_roles_ok_def invitations_ok_def invitation_row_ok_def invitation_roles_ok_def

lemmas provider_defs = providers_ok_def connections_ok_def model_configs_ok_def model_references_ok_def

lemmas constraint_defs =
  schema_ok_def sources_ok_def source_row_ok_def source_size_ok_def cleanups_ok_def cleanup_row_ok_def
  reservations_ok_def reservation_row_ok_def documents_ok_def outbox_ok_def workforce_defs provider_defs

lemma schema_ok_memberships: "schema_ok d \<Longrightarrow> memberships_ok d"
  by (simp add: schema_ok_def workforce_ok_def)

text \<open>
  The constraints of a table depend on that table and on the tables it refers to.  The workforce and
  provider constraints read their own tables only, and the knowledge constraints none but tenants and
  users of those.
\<close>

lemma workforce_ok_cong:
  assumes "tenants d' = tenants d" "users d' = users d" "memberships d' = memberships d" "roles d' = roles d"
    "role_permissions d' = role_permissions d" "membership_roles d' = membership_roles d"
    "invitations d' = invitations d" "invitation_roles d' = invitation_roles d"
  shows "workforce_ok d' = workforce_ok d"
  using assms by (simp add: workforce_defs[abs_def] cong: option.case_cong)

lemma providers_ok_cong:
  assumes "tenants d' = tenants d" "users d' = users d" "connections d' = connections d"
    "model_configs d' = model_configs d" "model_references d' = model_references d"
  shows "providers_ok d' = providers_ok d"
  using assms by (simp add: provider_defs)

lemma constraints_knowledge_tables [simp]:
  "workforce_ok (d\<lparr>sources := xs\<rparr>) = workforce_ok d" "providers_ok (d\<lparr>sources := xs\<rparr>) = providers_ok d"
  "workforce_ok (d\<lparr>cleanups := cs\<rparr>) = workforce_ok d" "providers_ok (d\<lparr>cleanups := cs\<rparr>) = providers_ok d"
  "workforce_ok (d\<lparr>reservations := rs\<rparr>) = workforce_ok d" "providers_ok (d\<lparr>reservations := rs\<rparr>) = providers_ok d"
  "workforce_ok (d\<lparr>documents := ds\<rparr>) = workforce_ok d" "providers_ok (d\<lparr>documents := ds\<rparr>) = providers_ok d"
  "workforce_ok (d\<lparr>outbox := es\<rparr>) = workforce_ok d" "providers_ok (d\<lparr>outbox := es\<rparr>) = providers_ok d"
  by (rule workforce_ok_cong providers_ok_cong; simp)+

lemma constraints_cleanups [simp]:
  "sources_ok (d\<lparr>cleanups := cs\<rparr>) = sources_ok d"
  "reservations_ok (d\<lparr>cleanups := cs\<rparr>) = reservations_ok d"
  "documents_ok (d\<lparr>cleanups := cs\<rparr>) = documents_ok d"
  "outbox_ok (d\<lparr>cleanups := cs\<rparr>) = outbox_ok d"
  by (simp_all add: sources_ok_def source_row_ok_def reservations_ok_def reservation_row_ok_def[abs_def]
      documents_ok_def outbox_ok_def cong: option.case_cong)

lemma constraints_reservations [simp]:
  "sources_ok (d\<lparr>reservations := rs\<rparr>) = sources_ok d"
  "cleanups_ok (d\<lparr>reservations := rs\<rparr>) = cleanups_ok d"
  "documents_ok (d\<lparr>reservations := rs\<rparr>) = documents_ok d"
  "outbox_ok (d\<lparr>reservations := rs\<rparr>) = outbox_ok d"
  by (simp_all add: sources_ok_def source_row_ok_def cleanups_ok_def cleanup_row_ok_def[abs_def]
      documents_ok_def outbox_ok_def cong: option.case_cong)

section \<open>Transactions\<close>

type_synonym 'a tx = "db \<Rightarrow> ('a \<times> db) result"

definition tx_return :: "'a \<Rightarrow> 'a tx" where
  "tx_return x d = Inr (x, d)"

definition tx_raise :: "exn \<Rightarrow> 'a tx" where
  "tx_raise e d = Inl e"

definition tx_bind :: "'a tx \<Rightarrow> ('a \<Rightarrow> 'b tx) \<Rightarrow> 'b tx" where
  "tx_bind m f d = (case m d of Inl e \<Rightarrow> Inl e | Inr (x, d') \<Rightarrow> f x d')"

definition tx_read :: "(db \<Rightarrow> 'a) \<Rightarrow> 'a tx" where
  "tx_read f d = Inr (f d, d)"

definition tx_query :: "(db \<Rightarrow> 'a result) \<Rightarrow> 'a tx" where
  "tx_query f d = (case f d of Inl e \<Rightarrow> Inl e | Inr x \<Rightarrow> Inr (x, d))"

definition tx_write :: "(db \<Rightarrow> db) \<Rightarrow> unit tx" where
  "tx_write g d = Inr ((), g d)"

definition tx_guard :: "bool \<Rightarrow> exn \<Rightarrow> unit tx" where
  "tx_guard c e d = (if c then Inr ((), d) else Inl e)"

definition flush :: "unit tx" where
  "flush d = (if schema_ok d then Inr ((), d) else Inl IntegrityError)"

text \<open>\<open>try: ... except e: raise e' from None\<close>\<close>

definition tx_rethrow :: "exn \<Rightarrow> exn \<Rightarrow> 'a tx \<Rightarrow> 'a tx" where
  "tx_rethrow e e' m d = (case m d of Inl x \<Rightarrow> Inl (if x = e then e' else x) | Inr p \<Rightarrow> Inr p)"

text \<open>
  How the database answers a transaction: it commits; it becomes unavailable and the work is
  rolled back; or it commits and the acknowledgement is lost, so the caller sees an exception.
\<close>

datatype commit_outcome = Committed | Aborted | CommittedUnacknowledged

definition in_txn :: "commit_outcome \<Rightarrow> 'a tx \<Rightarrow> db \<Rightarrow> 'a result \<times> db" where
  "in_txn c m d =
     (if c = Aborted then (Inl SQLAlchemyError, d)
      else (case m d of
              Inl e \<Rightarrow> (Inl e, d)
            | Inr (x, d') \<Rightarrow>
                if \<not> schema_ok d' then (Inl IntegrityError, d)
                else if c = Committed then (Inr x, d')
                else (Inl SQLAlchemyError, d')))"

lemma tx_bind_Inr_iff [result_simps]:
  "tx_bind m f d = Inr (y, d'') \<longleftrightarrow> (\<exists>x d'. m d = Inr (x, d') \<and> f x d' = Inr (y, d''))"
  by (auto simp: tx_bind_def split: sum.splits prod.splits)

lemma tx_return_Inr_iff [result_simps]: "tx_return x d = Inr (y, d') \<longleftrightarrow> y = x \<and> d' = d"
  by (auto simp: tx_return_def)

lemma tx_raise_Inr_iff [result_simps]: "tx_raise e d = Inr p \<longleftrightarrow> False"
  by (simp add: tx_raise_def)

lemma tx_read_Inr_iff [result_simps]: "tx_read f d = Inr (y, d') \<longleftrightarrow> y = f d \<and> d' = d"
  by (auto simp: tx_read_def)

lemma tx_query_Inr_iff [result_simps]: "tx_query f d = Inr (y, d') \<longleftrightarrow> f d = Inr y \<and> d' = d"
  by (auto simp: tx_query_def split: sum.splits)

lemma tx_write_Inr_iff [result_simps]: "tx_write g d = Inr (y, d') \<longleftrightarrow> d' = g d"
  by (auto simp: tx_write_def)

lemma tx_guard_Inr_iff [result_simps]: "tx_guard c e d = Inr (y, d') \<longleftrightarrow> c \<and> d' = d"
  by (auto simp: tx_guard_def)

lemma flush_Inr_iff [result_simps]: "flush d = Inr (y, d') \<longleftrightarrow> schema_ok d \<and> d' = d"
  by (auto simp: flush_def)

lemma tx_rethrow_Inr_iff [result_simps]: "tx_rethrow e e' m d = Inr p \<longleftrightarrow> m d = Inr p"
  by (auto simp: tx_rethrow_def split: sum.splits)

lemmas tx_defs =
  tx_bind_def tx_return_def tx_raise_def tx_read_def tx_query_def tx_write_def tx_guard_def flush_def

text \<open>What a caller may conclude from a transaction, by the resulting database.\<close>

lemma in_txn_cases [consumes 1, case_names unchanged committed]:
  assumes "in_txn c m d = (r, d')"
  obtains "d' = d" "\<And>x. r \<noteq> Inr x"
  | x where "m d = Inr (x, d')" "schema_ok d'" "r = Inr x \<or> (\<exists>e. r = Inl e)"
  using assms by (auto simp: in_txn_def split: if_splits sum.splits prod.splits)

lemma in_txn_Inr: "in_txn c m d = (Inr x, d') \<Longrightarrow> m d = Inr (x, d') \<and> schema_ok d' \<and> c = Committed"
  by (auto simp: in_txn_def split: if_splits sum.splits prod.splits)

lemma in_txn_schema: "in_txn c m d = (r, d') \<Longrightarrow> schema_ok d \<Longrightarrow> schema_ok d'"
  by (auto elim: in_txn_cases)

text \<open>An invariant kept by the body of a transaction is kept by every way it can end.\<close>

lemma in_txn_invariant:
  assumes "in_txn c m d = (r, d')" and "I d"
    and "\<And>x e. m d = Inr (x, e) \<Longrightarrow> schema_ok e \<Longrightarrow> I e"
  shows "I d'"
  using assms(1) by (cases rule: in_txn_cases) (use assms(2,3) in auto)

end
