(* ===== verification/Knowledge_Store.thy ===== *)
theory Knowledge_Store
  imports Database
begin

text \<open>
  \<open>services/api/app/modules/knowledge/repository.py\<close>: the tenant-scoped queries and updates on
  knowledge sources, upload cleanups, upload reservations and the outbox, one definition per
  function, in the order of the file.  A \<open>SELECT ... FOR UPDATE\<close> is its query: transactions are
  serialised by the row locks, so a transaction is one step of the model.
\<close>

section \<open>Sources and outbox\<close>

definition list_knowledge_sources :: "uuid \<Rightarrow> db \<Rightarrow> KnowledgeSource list" where
  "list_knowledge_sources t d =
     sort_key (\<lambda>r. (ks_created_at r, ks_id r)) (filter (\<lambda>r. ks_tenant_id r = t) (sources d))"

definition get_knowledge_source_for_update :: "uuid \<Rightarrow> uuid \<Rightarrow> db \<Rightarrow> KnowledgeSource option result" where
  "get_knowledge_source_for_update t s d =
     one_or_none (filter (\<lambda>r. ks_id r = s \<and> ks_tenant_id r = t) (sources d))"

definition add_outbox_event ::
  "uuid \<Rightarrow> timestamp \<Rightarrow> uuid \<Rightarrow> string \<Rightarrow> string \<Rightarrow> string \<Rightarrow> json \<Rightarrow> string \<Rightarrow> db \<Rightarrow> db" where
  "add_outbox_event event_id db_now t etype atype aid payload correlation d =
     d\<lparr>outbox := outbox d @
        [\<lparr>oe_id = event_id, oe_tenant_id = Some t, oe_event_type = etype, oe_schema_version = 1,
          oe_aggregate_type = atype, oe_aggregate_id = aid, oe_payload = payload,
          oe_correlation_id = correlation, oe_causation_id = None, oe_status = OutboxPending,
          oe_attempts = 0, oe_next_attempt_at = db_now, oe_published_at = None\<rparr>]\<rparr>"

definition new_knowledge_source ::
  "uuid \<Rightarrow> uuid \<Rightarrow> source_type \<Rightarrow> string \<Rightarrow> string \<Rightarrow> access_scope \<Rightarrow> uuid \<Rightarrow> timestamp \<Rightarrow> KnowledgeSource" where
  "new_knowledge_source s t stype name uri scope by now =
     \<lparr>ks_id = s, ks_tenant_id = t, ks_source_type = stype, ks_name = name, ks_source_uri = Some uri,
      ks_object_key = None, ks_object_size_bytes = None, ks_access_scope = scope,
      ks_status = SourcePending, ks_sync_version = 0, ks_last_synced_at = None,
      ks_last_error_code = None, ks_created_by = by, ks_created_at = now, ks_updated_at = now\<rparr>"

definition new_file_knowledge_source ::
  "uuid \<Rightarrow> uuid \<Rightarrow> source_type \<Rightarrow> string \<Rightarrow> string \<Rightarrow> int \<Rightarrow> access_scope \<Rightarrow> uuid \<Rightarrow> timestamp \<Rightarrow> KnowledgeSource"
  where
  "new_file_knowledge_source s t stype name key sz scope by now =
     \<lparr>ks_id = s, ks_tenant_id = t, ks_source_type = stype, ks_name = name, ks_source_uri = None,
      ks_object_key = Some key, ks_object_size_bytes = Some sz, ks_access_scope = scope,
      ks_status = SourcePending, ks_sync_version = 0, ks_last_synced_at = None,
      ks_last_error_code = None, ks_created_by = by, ks_created_at = now, ks_updated_at = now\<rparr>"

definition add_source :: "KnowledgeSource \<Rightarrow> db \<Rightarrow> db" where
  "add_source r d = d\<lparr>sources := sources d @ [r]\<rparr>"

definition save_source :: "KnowledgeSource \<Rightarrow> db \<Rightarrow> db" where
  "save_source r d = d\<lparr>sources := map (\<lambda>x. if ks_id x = ks_id r then r else x) (sources d)\<rparr>"

section \<open>Quota state\<close>

definition lock_tenant_for_knowledge_quota :: "uuid \<Rightarrow> unit tx" where
  "lock_tenant_for_knowledge_quota t d = tx_guard (t \<in> tenant_ids d) RuntimeError d"

definition expired_unlinked :: "uuid \<Rightarrow> timestamp \<Rightarrow> KnowledgeUploadReservation \<Rightarrow> bool" where
  "expired_unlinked t now r \<longleftrightarrow>
     ur_tenant_id r = t \<and> ur_cleanup_id r = None \<and> ur_lease_expires_at r \<le> now"

definition delete_expired_unlinked_upload_reservations :: "uuid \<Rightarrow> timestamp \<Rightarrow> int tx" where
  "delete_expired_unlinked_upload_reservations t now d =
     (let count = length (filter (expired_unlinked t now) (reservations d))
      in if count \<noteq> 0
         then Inr (int count, d\<lparr>reservations := filter (\<lambda>r. \<not> expired_unlinked t now r) (reservations d)\<rparr>)
         else Inr (0, d))"

definition tenant_sources :: "uuid \<Rightarrow> db \<Rightarrow> KnowledgeSource list" where
  "tenant_sources t d = filter (\<lambda>r. ks_tenant_id r = t) (sources d)"

definition tenant_reservations :: "uuid \<Rightarrow> db \<Rightarrow> KnowledgeUploadReservation list" where
  "tenant_reservations t d = filter (\<lambda>r. ur_tenant_id r = t) (reservations d)"

text \<open>\<open>coalesce(sum(object_size_bytes), 0)\<close>: SQL's \<open>sum\<close> skips NULL.\<close>

definition source_bytes :: "KnowledgeSource \<Rightarrow> int" where
  "source_bytes r = (case ks_object_size_bytes r of None \<Rightarrow> 0 | Some n \<Rightarrow> n)"

definition held :: "timestamp \<Rightarrow> KnowledgeUploadReservation \<Rightarrow> bool" where
  "held now r \<longleftrightarrow> ur_cleanup_id r \<noteq> None \<or> ur_lease_expires_at r > now"

definition active :: "timestamp \<Rightarrow> KnowledgeUploadReservation \<Rightarrow> bool" where
  "active now r \<longleftrightarrow> ur_lease_expires_at r > now"

definition get_knowledge_quota_usage ::
  "uuid \<Rightarrow> timestamp \<Rightarrow> db \<Rightarrow> int \<times> int \<times> int \<times> int \<times> int \<times> timestamp option" where
  "get_knowledge_quota_usage t now d =
     (let committed = tenant_sources t d;
          held_rows = filter (held now) (tenant_reservations t d);
          active_rows = filter (active now) (tenant_reservations t d)
      in (int (length committed), sum_list (map source_bytes committed),
          int (length held_rows), sum_list (map ur_reserved_bytes held_rows),
          int (length active_rows),
          if active_rows = [] then None
          else Some (fold min (map ur_lease_expires_at (tl active_rows)) (ur_lease_expires_at (hd active_rows)))))"

definition unknown_size :: "uuid \<Rightarrow> KnowledgeSource \<Rightarrow> bool" where
  "unknown_size t r \<longleftrightarrow> ks_tenant_id r = t \<and> ks_object_key r \<noteq> None \<and> ks_object_size_bytes r = None"

definition list_unknown_file_source_sizes :: "uuid \<Rightarrow> db \<Rightarrow> (uuid \<times> string) list" where
  "list_unknown_file_source_sizes t d =
     map (\<lambda>r. (ks_id r, the (ks_object_key r))) (filter (unknown_size t) (sources d))"

definition set_file_source_size_if_unknown :: "uuid \<Rightarrow> uuid \<Rightarrow> string \<Rightarrow> int \<Rightarrow> db \<Rightarrow> db" where
  "set_file_source_size_if_unknown t s key sz d =
     d\<lparr>sources := map (\<lambda>r. if ks_tenant_id r = t \<and> ks_id r = s \<and> ks_object_key r = Some key
                            \<and> ks_object_size_bytes r = None
                         then r\<lparr>ks_object_size_bytes := Some sz\<rparr> else r) (sources d)\<rparr>"

section \<open>Reservations\<close>

definition add_upload_reservation ::
  "uuid \<Rightarrow> uuid \<Rightarrow> uuid \<Rightarrow> int \<Rightarrow> timestamp \<Rightarrow> timestamp \<Rightarrow> db \<Rightarrow> db" where
  "add_upload_reservation rid t s bytes lease now d =
     d\<lparr>reservations := reservations d @
        [\<lparr>ur_id = rid, ur_tenant_id = t, ur_source_id = s, ur_reserved_bytes = bytes, ur_cleanup_id = None,
          ur_lease_expires_at = lease, ur_created_at = now, ur_updated_at = now\<rparr>]\<rparr>"

definition find_reservation :: "uuid \<Rightarrow> uuid \<Rightarrow> db \<Rightarrow> KnowledgeUploadReservation option result" where
  "find_reservation t rid d =
     one_or_none (filter (\<lambda>r. ur_id r = rid \<and> ur_tenant_id r = t) (reservations d))"

definition save_reservation :: "KnowledgeUploadReservation \<Rightarrow> db \<Rightarrow> db" where
  "save_reservation r d =
     d\<lparr>reservations := map (\<lambda>x. if ur_id x = ur_id r then r else x) (reservations d)\<rparr>"

definition bind_upload_reservation_to_cleanup :: "uuid \<Rightarrow> uuid \<Rightarrow> uuid \<Rightarrow> timestamp \<Rightarrow> unit tx" where
  "bind_upload_reservation_to_cleanup t rid cid now =
     tx_bind (tx_query (find_reservation t rid)) (\<lambda>found.
       case found of
         None \<Rightarrow> tx_raise RuntimeError
       | Some r \<Rightarrow>
           if ur_cleanup_id r \<noteq> None then tx_raise RuntimeError
           else tx_write (save_reservation (r\<lparr>ur_cleanup_id := Some cid, ur_updated_at := now\<rparr>)))"

definition expire_upload_concurrency_lease_for_cleanup :: "uuid \<Rightarrow> uuid \<Rightarrow> timestamp \<Rightarrow> db \<Rightarrow> db" where
  "expire_upload_concurrency_lease_for_cleanup t cid now d =
     d\<lparr>reservations := map (\<lambda>r. if ur_tenant_id r = t \<and> ur_cleanup_id r = Some cid \<and> ur_lease_expires_at r > now
                              then r\<lparr>ur_lease_expires_at := now, ur_updated_at := now\<rparr> else r)
                         (reservations d)\<rparr>"

definition release_upload_reservation :: "uuid \<Rightarrow> uuid \<Rightarrow> db \<Rightarrow> db" where
  "release_upload_reservation t rid d =
     d\<lparr>reservations := filter (\<lambda>r. \<not> (ur_tenant_id r = t \<and> ur_id r = rid)) (reservations d)\<rparr>"

definition release_upload_reservation_for_cleanup :: "uuid \<Rightarrow> uuid \<Rightarrow> db \<Rightarrow> db" where
  "release_upload_reservation_for_cleanup t cid d =
     d\<lparr>reservations := filter (\<lambda>r. \<not> (ur_tenant_id r = t \<and> ur_cleanup_id r = Some cid)) (reservations d)\<rparr>"

definition count_upload_reservations :: "uuid option \<Rightarrow> db \<Rightarrow> int" where
  "count_upload_reservations t d =
     int (length (case t of None \<Rightarrow> reservations d | Some u \<Rightarrow> tenant_reservations u d))"

section \<open>Cleanups\<close>

definition add_upload_cleanup_intent ::
  "uuid \<Rightarrow> uuid \<Rightarrow> uuid \<Rightarrow> uuid \<Rightarrow> string \<Rightarrow> timestamp \<Rightarrow> timestamp \<Rightarrow> db \<Rightarrow> db" where
  "add_upload_cleanup_intent cid t s oid key due now d =
     d\<lparr>cleanups := cleanups d @
        [\<lparr>uc_id = cid, uc_tenant_id = t, uc_source_id = s, uc_object_id = oid, uc_object_key = key,
          uc_status = Prepared, uc_attempt_count = 0, uc_next_attempt_at = Some due,
          uc_last_error_code = None, uc_resolved_at = None, uc_created_at = now, uc_updated_at = now\<rparr>]\<rparr>"

definition get_upload_cleanup :: "uuid \<Rightarrow> uuid \<Rightarrow> db \<Rightarrow> KnowledgeUploadCleanup option result" where
  "get_upload_cleanup t cid d =
     one_or_none (filter (\<lambda>r. uc_id r = cid \<and> uc_tenant_id r = t) (cleanups d))"

definition get_upload_cleanup_for_update :: "uuid \<Rightarrow> uuid \<Rightarrow> db \<Rightarrow> KnowledgeUploadCleanup option result" where
  "get_upload_cleanup_for_update t cid d =
     one_or_none (filter (\<lambda>r. uc_id r = cid \<and> uc_tenant_id r = t) (cleanups d))"

definition save_cleanup :: "KnowledgeUploadCleanup \<Rightarrow> db \<Rightarrow> db" where
  "save_cleanup r d = d\<lparr>cleanups := map (\<lambda>x. if uc_id x = uc_id r then r else x) (cleanups d)\<rparr>"

definition cleanup_due :: "timestamp \<Rightarrow> KnowledgeUploadCleanup \<Rightarrow> bool" where
  "cleanup_due now r \<longleftrightarrow> uc_status r \<in> {Prepared, Pending} \<and>
     (case uc_next_attempt_at r of None \<Rightarrow> False | Some due \<Rightarrow> due \<le> now)"

definition list_due_upload_cleanup_ids :: "timestamp \<Rightarrow> nat \<Rightarrow> db \<Rightarrow> (uuid \<times> uuid) list" where
  "list_due_upload_cleanup_ids now limit d =
     map (\<lambda>r. (uc_tenant_id r, uc_id r))
       (take limit (sort_key (\<lambda>r. (the (uc_next_attempt_at r), uc_id r)) (filter (cleanup_due now) (cleanups d))))"

definition CLEANUP_STATUSES :: "cleanup_status list" where
  "CLEANUP_STATUSES = [Prepared, Pending, Referenced, Succeeded, Exhausted]"

definition count_upload_cleanups_by_status :: "db \<Rightarrow> (cleanup_status \<times> int) list" where
  "count_upload_cleanups_by_status d =
     map (\<lambda>st. (st, int (length (filter (\<lambda>r. uc_status r = st) (cleanups d))))) CLEANUP_STATUSES"

definition mark_upload_cleanup_pending ::
  "KnowledgeUploadCleanup \<Rightarrow> timestamp \<Rightarrow> string \<Rightarrow> timestamp \<Rightarrow> KnowledgeUploadCleanup result" where
  "mark_upload_cleanup_pending c next_at err now =
     (if uc_status c \<notin> {Prepared, Pending} then Inl ValueError
      else Inr (c\<lparr>uc_status := Pending, uc_next_attempt_at := Some next_at, uc_last_error_code := Some err,
                  uc_resolved_at := None, uc_updated_at := now\<rparr>))"

definition mark_upload_cleanup_referenced ::
  "KnowledgeUploadCleanup \<Rightarrow> timestamp \<Rightarrow> KnowledgeUploadCleanup result" where
  "mark_upload_cleanup_referenced c now =
     (if uc_status c \<noteq> Prepared then Inl ValueError
      else Inr (c\<lparr>uc_status := Referenced, uc_next_attempt_at := None, uc_last_error_code := None,
                  uc_resolved_at := Some now, uc_updated_at := now\<rparr>))"

definition mark_upload_cleanup_succeeded ::
  "KnowledgeUploadCleanup \<Rightarrow> timestamp \<Rightarrow> KnowledgeUploadCleanup result" where
  "mark_upload_cleanup_succeeded c now =
     (if uc_status c = Referenced then Inl ValueError
      else if uc_status c = Exhausted then Inl ValueError
      else Inr (c\<lparr>uc_status := Succeeded, uc_next_attempt_at := None, uc_last_error_code := None,
                  uc_resolved_at := Some now, uc_updated_at := now\<rparr>))"

definition mark_upload_cleanup_exhausted ::
  "KnowledgeUploadCleanup \<Rightarrow> string \<Rightarrow> timestamp \<Rightarrow> KnowledgeUploadCleanup result" where
  "mark_upload_cleanup_exhausted c err now =
     (if uc_status c \<notin> {Prepared, Pending} then Inl ValueError
      else Inr (c\<lparr>uc_status := Exhausted, uc_next_attempt_at := None, uc_last_error_code := Some err,
                  uc_resolved_at := Some now, uc_updated_at := now\<rparr>))"

lemmas mark_defs =
  mark_upload_cleanup_pending_def mark_upload_cleanup_referenced_def mark_upload_cleanup_succeeded_def
  mark_upload_cleanup_exhausted_def

section \<open>Frame lemmas\<close>

text \<open>Each write changes one table.\<close>

lemma write_frames [store_simps]:
  "sources (add_outbox_event ev dn tn et at ai pl co d) = sources d"
  "cleanups (add_outbox_event ev dn tn et at ai pl co d) = cleanups d"
  "reservations (add_outbox_event ev dn tn et at ai pl co d) = reservations d"
  "sources (add_source r d) = sources d @ [r]"
  "cleanups (add_source r d) = cleanups d"
  "reservations (add_source r d) = reservations d"
  "outbox (add_source r d) = outbox d"
  "tenants (add_source r d) = tenants d"
  "cleanups (save_source r d) = cleanups d"
  "reservations (save_source r d) = reservations d"
  "outbox (save_source r d) = outbox d"
  "sources (add_upload_reservation i t s n l w d) = sources d"
  "cleanups (add_upload_reservation i t s n l w d) = cleanups d"
  "sources (save_reservation q d) = sources d"
  "cleanups (save_reservation q d) = cleanups d"
  "sources (expire_upload_concurrency_lease_for_cleanup t x w d) = sources d"
  "cleanups (expire_upload_concurrency_lease_for_cleanup t x w d) = cleanups d"
  "sources (release_upload_reservation t i d) = sources d"
  "cleanups (release_upload_reservation t i d) = cleanups d"
  "sources (release_upload_reservation_for_cleanup t x d) = sources d"
  "cleanups (release_upload_reservation_for_cleanup t x d) = cleanups d"
  "sources (add_upload_cleanup_intent x t s o' k u w d) = sources d"
  "reservations (add_upload_cleanup_intent x t s o' k u w d) = reservations d"
  "cleanups (set_file_source_size_if_unknown t s k n d) = cleanups d"
  "reservations (set_file_source_size_if_unknown t s k n d) = reservations d"
  "sources (save_cleanup c d) = sources d"
  "reservations (save_cleanup c d) = reservations d"
  "outbox (save_cleanup c d) = outbox d"
  by (simp_all add: add_outbox_event_def add_source_def save_source_def add_upload_reservation_def
      save_reservation_def expire_upload_concurrency_lease_for_cleanup_def release_upload_reservation_def
      release_upload_reservation_for_cleanup_def add_upload_cleanup_intent_def
      set_file_source_size_if_unknown_def save_cleanup_def)

lemma tenants_frames [store_simps]:
  "tenants (add_outbox_event ev dn tn et at ai pl co d) = tenants d"
  "tenants (save_source r d) = tenants d"
  "tenants (add_upload_reservation i t s n l w d) = tenants d"
  "tenants (save_reservation q d) = tenants d"
  "tenants (expire_upload_concurrency_lease_for_cleanup t x w d) = tenants d"
  "tenants (release_upload_reservation t i d) = tenants d"
  "tenants (release_upload_reservation_for_cleanup t x d) = tenants d"
  "tenants (add_upload_cleanup_intent x t s o' k u w d) = tenants d"
  "tenants (save_cleanup c d) = tenants d"
  by (simp_all add: add_outbox_event_def save_source_def add_upload_reservation_def
      save_reservation_def expire_upload_concurrency_lease_for_cleanup_def release_upload_reservation_def
      release_upload_reservation_for_cleanup_def add_upload_cleanup_intent_def save_cleanup_def)

lemma delete_expired_Inr:
  "delete_expired_unlinked_upload_reservations t now d = Inr (n, d') \<longleftrightarrow>
     n = int (length (filter (expired_unlinked t now) (reservations d))) \<and>
     d' = d\<lparr>reservations := filter (\<lambda>r. \<not> expired_unlinked t now r) (reservations d)\<rparr>"
proof -
  have "filter (expired_unlinked t now) (reservations d) = [] \<Longrightarrow>
        filter (\<lambda>r. \<not> expired_unlinked t now r) (reservations d) = reservations d"
    by (metis (no_types, lifting) filter_True filter_empty_conv)
  then show ?thesis
    by (auto simp: delete_expired_unlinked_upload_reservations_def Let_def)
qed

lemma lock_tenant_Inr [result_simps]:
  "lock_tenant_for_knowledge_quota t d = Inr (u, d') \<longleftrightarrow> t \<in> tenant_ids d \<and> d' = d"
  by (auto simp: lock_tenant_for_knowledge_quota_def tx_guard_def)

text \<open>A locked row is the row of the table with that identifier.\<close>

lemma get_upload_cleanup_for_update_Some:
  assumes "get_upload_cleanup_for_update t cid d = Inr (Some c)"
  shows "c \<in> set (cleanups d)" "uc_id c = cid" "uc_tenant_id c = t"
  using one_or_none_filter[OF assms[unfolded get_upload_cleanup_for_update_def]] by auto

lemma get_upload_cleanup_for_update_row:
  assumes "cleanups_ok d" "c \<in> set (cleanups d)"
  shows "get_upload_cleanup_for_update (uc_tenant_id c) (uc_id c) d = Inr (Some c)"
  using filter_key_unique[of uc_id "cleanups d" c "\<lambda>r. uc_tenant_id r = uc_tenant_id c"] assms
  by (simp add: get_upload_cleanup_for_update_def one_or_none_Some cleanups_ok_def)

lemma find_reservation_Some:
  assumes "find_reservation t rid d = Inr (Some r)"
  shows "r \<in> set (reservations d)" "ur_id r = rid" "ur_tenant_id r = t"
  using one_or_none_filter[OF assms[unfolded find_reservation_def]] by auto

lemma get_knowledge_source_for_update_Some:
  assumes "get_knowledge_source_for_update t s d = Inr (Some r)"
  shows "r \<in> set (sources d)" "ks_id r = s" "ks_tenant_id r = t"
  using one_or_none_filter[OF assms[unfolded get_knowledge_source_for_update_def]] by auto

text \<open>A write-back by primary key replaces exactly that row.\<close>

lemma set_save_cleanup:
  "set (cleanups (save_cleanup c d)) =
     {r \<in> set (cleanups d). uc_id r \<noteq> uc_id c} \<union> (if uc_id c \<in> uc_id ` set (cleanups d) then {c} else {})"
  by (auto simp: save_cleanup_def image_iff)

lemma map_uc_id_save_cleanup [simp]: "map uc_id (cleanups (save_cleanup c d)) = map uc_id (cleanups d)"
  by (auto simp: save_cleanup_def)

end
