(* ===== verification/Quota.thy ===== *)
theory Quota
  imports Knowledge_Store
begin

text \<open>
  \<open>services/api/app/modules/knowledge/quota.py\<close>: tenant quota reservation and the measurement of
  legacy file sizes.  Logging is left out.  \<open>storage.head\<close> is the argument \<open>head\<close>, which returns
  the content length or the error it raises; the current time, \<open>uuid4()\<close> and the outcome of each
  database transaction are arguments.
\<close>

definition KNOWLEDGE_SOURCE_LIMIT :: int where
  "KNOWLEDGE_SOURCE_LIMIT = 100"

definition KNOWLEDGE_STORED_BYTE_LIMIT :: int where
  "KNOWLEDGE_STORED_BYTE_LIMIT = 1024 * 1024 * 1024"

definition KNOWLEDGE_CONCURRENT_UPLOAD_LIMIT :: int where
  "KNOWLEDGE_CONCURRENT_UPLOAD_LIMIT = 3"

definition KNOWLEDGE_UPLOAD_LEASE :: int where
  "KNOWLEDGE_UPLOAD_LEASE = minutes 10"

definition MAX_KNOWLEDGE_FILE_BYTES :: int where
  "MAX_KNOWLEDGE_FILE_BYTES = 25 * 1024 * 1024"

lemmas quota_limits =
  KNOWLEDGE_SOURCE_LIMIT_def KNOWLEDGE_STORED_BYTE_LIMIT_def KNOWLEDGE_CONCURRENT_UPLOAD_LIMIT_def
  KNOWLEDGE_UPLOAD_LEASE_def MAX_KNOWLEDGE_FILE_BYTES_def

record KnowledgeQuotaUsage =
  committed_sources :: int
  committed_bytes :: int
  held_sources :: int
  held_bytes :: int
  active_uploads :: int
  earliest_active_lease :: "timestamp option"

definition charged_sources :: "KnowledgeQuotaUsage \<Rightarrow> int" where
  "charged_sources u = committed_sources u + held_sources u"

definition charged_bytes :: "KnowledgeQuotaUsage \<Rightarrow> int" where
  "charged_bytes u = committed_bytes u + held_bytes u"

record KnowledgeUploadReservationClaim =
  rc_reservation_id :: uuid
  rc_source_id :: uuid
  rc_reserved_bytes :: int
  rc_lease_expires_at :: timestamp

definition usage_from_row ::
  "int \<times> int \<times> int \<times> int \<times> int \<times> timestamp option \<Rightarrow> KnowledgeQuotaUsage" where
  "usage_from_row row =
     (case row of (cs, cb, hs, hb, au, lease) \<Rightarrow>
        \<lparr>committed_sources = cs, committed_bytes = cb, held_sources = hs, held_bytes = hb,
         active_uploads = au, earliest_active_lease = lease\<rparr>)"

section \<open>Legacy sizes\<close>

text \<open>The measuring loop; \<open>ObjectNotFoundError\<close> is a subclass of \<open>ObjectStorageError\<close>.\<close>

fun measure_legacy ::
  "(KnowledgeRawObjectKey \<Rightarrow> int result) \<Rightarrow> uuid \<Rightarrow> (uuid \<times> string) list \<Rightarrow> (uuid \<times> string \<times> int) list result"
  where
  "measure_legacy head t [] = Inr []"
| "measure_legacy head t ((s, key) # rest) =
     (case bind_result (parse_knowledge_raw_object_key key t s) head of
        Inl e \<Rightarrow>
          if e \<in> {ObjectStorageError, ObjectNotFoundError, ValueError, TypeError}
          then Inl KnowledgeQuotaUnavailableError else Inl e
      | Inr n \<Rightarrow>
          if \<not> (0 \<le> n \<and> n \<le> MAX_KNOWLEDGE_FILE_BYTES) then Inl KnowledgeQuotaUnavailableError
          else bind_result (measure_legacy head t rest) (\<lambda>ms. Inr ((s, key, n) # ms)))"

definition set_measured :: "uuid \<Rightarrow> (uuid \<times> string \<times> int) list \<Rightarrow> db \<Rightarrow> db" where
  "set_measured t ms d =
     fold (\<lambda>(s, key, n). set_file_source_size_if_unknown t s key n) ms d"

definition reconcile_legacy_file_sizes ::
  "commit_outcome \<Rightarrow> commit_outcome \<Rightarrow> (KnowledgeRawObjectKey \<Rightarrow> int result) \<Rightarrow> uuid \<Rightarrow> db \<Rightarrow> int result \<times> db"
  where
  "reconcile_legacy_file_sizes c1 c2 head t d =
     (case in_txn c1 (tx_read (list_unknown_file_source_sizes t)) d of
        (Inl e, d1) \<Rightarrow> (Inl e, d1)
      | (Inr unknown, d1) \<Rightarrow>
          if unknown = [] then (Inr 0, d1)
          else (case measure_legacy head t unknown of
                  Inl e \<Rightarrow> (Inl e, d1)
                | Inr measured \<Rightarrow>
                    (case in_txn c2
                            (tx_bind (lock_tenant_for_knowledge_quota t) (\<lambda>_.
                             tx_bind (tx_write (set_measured t measured)) (\<lambda>_. flush))) d1 of
                       (Inl e, d2) \<Rightarrow> (Inl e, d2)
                     | (Inr _, d2) \<Rightarrow> (Inr (int (length measured)), d2))))"

section \<open>Reservation\<close>

definition assert_source_capacity :: "uuid \<Rightarrow> timestamp \<Rightarrow> KnowledgeQuotaUsage tx" where
  "assert_source_capacity t now =
     tx_bind (lock_tenant_for_knowledge_quota t) (\<lambda>_.
     tx_bind (delete_expired_unlinked_upload_reservations t now) (\<lambda>reclaimed.
     tx_bind (tx_read (\<lambda>d. usage_from_row (get_knowledge_quota_usage t now d))) (\<lambda>usage.
       if charged_sources usage \<ge> KNOWLEDGE_SOURCE_LIMIT
       then tx_raise KnowledgeSourceQuotaExceededError
       else tx_return usage)))"

definition concurrency_retry_after :: "KnowledgeQuotaUsage \<Rightarrow> timestamp \<Rightarrow> int" where
  "concurrency_retry_after usage now =
     (case earliest_active_lease usage of None \<Rightarrow> 1 | Some e \<Rightarrow> max (ceil_seconds (e - now)) 1)"

definition reserve_file_upload_body :: "uuid \<Rightarrow> uuid \<Rightarrow> int \<Rightarrow> timestamp \<Rightarrow> uuid \<Rightarrow> unit tx" where
  "reserve_file_upload_body t s bytes now rid =
     tx_bind (lock_tenant_for_knowledge_quota t) (\<lambda>_.
     tx_bind (delete_expired_unlinked_upload_reservations t now) (\<lambda>reclaimed.
     tx_bind (tx_read (list_unknown_file_source_sizes t)) (\<lambda>unknown.
       if unknown \<noteq> [] then tx_raise KnowledgeQuotaUnavailableError
       else
     tx_bind (tx_read (\<lambda>d. usage_from_row (get_knowledge_quota_usage t now d))) (\<lambda>usage.
       if charged_sources usage \<ge> KNOWLEDGE_SOURCE_LIMIT
       then tx_raise KnowledgeSourceQuotaExceededError
       else if charged_bytes usage + bytes > KNOWLEDGE_STORED_BYTE_LIMIT
       then tx_raise KnowledgeStorageQuotaExceededError
       else if active_uploads usage \<ge> KNOWLEDGE_CONCURRENT_UPLOAD_LIMIT
       then tx_raise (KnowledgeUploadConcurrencyLimitedError (concurrency_retry_after usage now))
       else
     tx_bind (tx_write (add_upload_reservation rid t s bytes (now + KNOWLEDGE_UPLOAD_LEASE) now)) (\<lambda>_.
     flush)))))"

definition reserve_file_upload ::
  "commit_outcome \<Rightarrow> uuid \<Rightarrow> uuid \<Rightarrow> int \<Rightarrow> timestamp \<Rightarrow> uuid \<Rightarrow> db
     \<Rightarrow> KnowledgeUploadReservationClaim result \<times> db" where
  "reserve_file_upload c t s bytes now rid d =
     (if \<not> (0 \<le> bytes \<and> bytes \<le> MAX_KNOWLEDGE_FILE_BYTES) then (Inl ValueError, d)
      else (case in_txn c (reserve_file_upload_body t s bytes now rid) d of
              (Inl e, d') \<Rightarrow> (Inl e, d')
            | (Inr _, d') \<Rightarrow>
                (Inr \<lparr>rc_reservation_id = rid, rc_source_id = s, rc_reserved_bytes = bytes,
                      rc_lease_expires_at = now + KNOWLEDGE_UPLOAD_LEASE\<rparr>, d')))"

definition finalize_body ::
  "uuid \<Rightarrow> KnowledgeUploadReservationClaim \<Rightarrow> int \<Rightarrow> timestamp \<Rightarrow> unit tx" where
  "finalize_body t adm bytes now =
     tx_bind (lock_tenant_for_knowledge_quota t) (\<lambda>_.
     tx_bind (delete_expired_unlinked_upload_reservations t now) (\<lambda>reclaimed.
     tx_bind (tx_read (list_unknown_file_source_sizes t)) (\<lambda>unknown.
       if unknown \<noteq> [] then tx_raise KnowledgeQuotaUnavailableError
       else
     tx_bind (tx_query (find_reservation t (rc_reservation_id adm))) (\<lambda>found.
       case found of
         None \<Rightarrow> tx_raise KnowledgeQuotaUnavailableError
       | Some r \<Rightarrow>
           if ur_source_id r \<noteq> rc_source_id adm \<or> ur_cleanup_id r \<noteq> None \<or> ur_reserved_bytes r \<noteq> 0
              \<or> ur_lease_expires_at r \<le> now
           then tx_raise KnowledgeQuotaUnavailableError
           else
     tx_bind (tx_read (\<lambda>d. usage_from_row (get_knowledge_quota_usage t now d))) (\<lambda>usage.
       if charged_bytes usage + bytes > KNOWLEDGE_STORED_BYTE_LIMIT
       then tx_raise KnowledgeStorageQuotaExceededError
       else
     tx_bind (tx_write (save_reservation (r\<lparr>ur_reserved_bytes := bytes, ur_updated_at := now\<rparr>))) (\<lambda>_.
     flush))))))"

definition finalize_file_upload_reservation ::
  "commit_outcome \<Rightarrow> uuid \<Rightarrow> KnowledgeUploadReservationClaim \<Rightarrow> int \<Rightarrow> timestamp \<Rightarrow> db
     \<Rightarrow> KnowledgeUploadReservationClaim result \<times> db" where
  "finalize_file_upload_reservation c t adm bytes now d =
     (if \<not> (0 \<le> bytes \<and> bytes \<le> MAX_KNOWLEDGE_FILE_BYTES) then (Inl ValueError, d)
      else if rc_reserved_bytes adm \<noteq> 0 then (Inl ValueError, d)
      else (case in_txn c (finalize_body t adm bytes now) d of
              (Inl e, d') \<Rightarrow> (Inl e, d')
            | (Inr _, d') \<Rightarrow> (Inr (adm\<lparr>rc_reserved_bytes := bytes\<rparr>), d')))"

definition release_unlinked_reservation ::
  "commit_outcome \<Rightarrow> uuid \<Rightarrow> uuid \<Rightarrow> db \<Rightarrow> unit result \<times> db" where
  "release_unlinked_reservation c t rid d =
     in_txn c (tx_bind (tx_write (release_upload_reservation t rid)) (\<lambda>_. flush)) d"

section \<open>What a tenant is charged\<close>

text \<open>
  The amount a tenant is charged under a weight per source row and per reservation row; every
  reservation row counts, whether or not its lease has expired.  The two instances are the number
  of source slots and the number of stored bytes.
\<close>

definition tenant_charge ::
  "(KnowledgeSource \<Rightarrow> int) \<Rightarrow> (KnowledgeUploadReservation \<Rightarrow> int) \<Rightarrow> uuid \<Rightarrow> db \<Rightarrow> int" where
  "tenant_charge ws wr t d =
     sum_list (map ws (tenant_sources t d)) + sum_list (map wr (tenant_reservations t d))"

definition slots_charged :: "uuid \<Rightarrow> db \<Rightarrow> int" where
  "slots_charged = tenant_charge (\<lambda>_. 1) (\<lambda>_. 1)"

definition bytes_charged :: "uuid \<Rightarrow> db \<Rightarrow> int" where
  "bytes_charged = tenant_charge source_bytes ur_reserved_bytes"

text \<open>The tenant is within its quota and every stored file has a known size.\<close>

definition quota_ok :: "uuid \<Rightarrow> db \<Rightarrow> bool" where
  "quota_ok t d \<longleftrightarrow>
     slots_charged t d \<le> KNOWLEDGE_SOURCE_LIMIT \<and> bytes_charged t d \<le> KNOWLEDGE_STORED_BYTE_LIMIT \<and>
     list_unknown_file_source_sizes t d = []"

locale charge_weights =
  fixes ws :: "KnowledgeSource \<Rightarrow> int"
    and wr :: "KnowledgeUploadReservation \<Rightarrow> int"
  assumes ws_nonneg: "source_size_ok r \<Longrightarrow> 0 \<le> ws r"
    and wr_nonneg: "0 \<le> ur_reserved_bytes q \<Longrightarrow> 0 \<le> wr q"
    and wr_bytes: "ur_reserved_bytes q = ur_reserved_bytes q' \<Longrightarrow> wr q = wr q'"
begin

lemma charge_cong:
  "sources d = sources d' \<Longrightarrow> reservations d = reservations d' \<Longrightarrow>
     tenant_charge ws wr t d = tenant_charge ws wr t d'"
  by (simp add: tenant_charge_def tenant_sources_def tenant_reservations_def)

lemma charge_add_source:
  "tenant_charge ws wr t (add_source r d) =
     tenant_charge ws wr t d + (if ks_tenant_id r = t then ws r else 0)"
  by (simp add: tenant_charge_def tenant_sources_def tenant_reservations_def add_source_def)

lemma charge_add_reservation:
  "tenant_charge ws wr t (d\<lparr>reservations := reservations d @ [q]\<rparr>) =
     tenant_charge ws wr t d + (if ur_tenant_id q = t then wr q else 0)"
  by (simp add: tenant_charge_def tenant_sources_def tenant_reservations_def)

lemma charge_drop_reservations:
  assumes "reservations_ok d"
  shows "tenant_charge ws wr t (d\<lparr>reservations := filter P (reservations d)\<rparr>) \<le> tenant_charge ws wr t d"
proof -
  have "0 \<le> wr q" if "q \<in> set (reservations d)" for q
    using assms that by (auto simp: reservations_ok_def reservation_row_ok_def list_all_iff intro: wr_nonneg)
  then have "sum_list (map wr (filter (\<lambda>q. ur_tenant_id q = t) (filter P (reservations d))))
             \<le> sum_list (map wr (filter (\<lambda>q. ur_tenant_id q = t) (reservations d)))"
    unfolding filter_commute[of "\<lambda>q. ur_tenant_id q = t" P] by (intro sum_list_filter_mono) auto
  then show ?thesis by (simp add: tenant_charge_def tenant_sources_def tenant_reservations_def)
qed

lemma charge_drop_reservation:
  assumes "reservations_ok d" "q \<in> set (reservations d)"
  shows "tenant_charge ws wr t
           (d\<lparr>reservations := filter (\<lambda>x. \<not> (ur_tenant_id x = ur_tenant_id q \<and> ur_id x = ur_id q)) (reservations d)\<rparr>)
         = tenant_charge ws wr t d - (if ur_tenant_id q = t then wr q else 0)"
proof -
  let ?P = "\<lambda>x. ur_id x = ur_id q \<and> ur_tenant_id x = ur_tenant_id q"
  let ?T = "\<lambda>x. ur_tenant_id x = t"
  have one: "filter ?P (reservations d) = [q]"
    using filter_key_unique[of ur_id "reservations d" q] assms by (simp add: reservations_ok_def)
  have "sum_list (map wr (filter ?P (filter ?T (reservations d)))) = (if ur_tenant_id q = t then wr q else 0)"
  proof -
    have "filter ?P (filter ?T (reservations d)) = filter ?T (filter ?P (reservations d))"
      by (rule filter_commute)
    then show ?thesis by (simp only: one) simp
  qed
  moreover have "sum_list (map wr (filter ?P (filter ?T (reservations d))))
      + sum_list (map wr (filter (\<lambda>x. \<not> ?P x) (filter ?T (reservations d))))
      = sum_list (map wr (filter ?T (reservations d)))"
    by (rule sum_list_filter_split)
  ultimately show ?thesis
    by (simp add: tenant_charge_def tenant_sources_def tenant_reservations_def conj_commute)
qed

lemma charge_map_reservations:
  assumes "\<And>q. q \<in> set (reservations d) \<Longrightarrow>
             ur_tenant_id (g q) = ur_tenant_id q \<and> ur_reserved_bytes (g q) = ur_reserved_bytes q"
  shows "tenant_charge ws wr t (d\<lparr>reservations := map g (reservations d)\<rparr>) = tenant_charge ws wr t d"
proof -
  have "filter (\<lambda>q. ur_tenant_id q = t) (map g (reservations d)) =
        map g (filter (\<lambda>q. ur_tenant_id q = t) (reservations d))"
    using assms by (intro filter_map_same) auto
  moreover have "map wr (map g (filter (\<lambda>q. ur_tenant_id q = t) (reservations d))) =
        map wr (filter (\<lambda>q. ur_tenant_id q = t) (reservations d))"
    using assms by (auto intro: wr_bytes)
  ultimately show ?thesis
    by (simp add: tenant_charge_def tenant_sources_def tenant_reservations_def del: map_map map_eq_conv)
qed

lemma charge_save_reservation:
  assumes "distinct (map ur_id (reservations d))" "q \<in> set (reservations d)"
    and "ur_id q' = ur_id q" "ur_tenant_id q' = ur_tenant_id q"
  shows "tenant_charge ws wr t (save_reservation q' d) =
           tenant_charge ws wr t d + (if ur_tenant_id q = t then wr q' - wr q else 0)"
proof -
  have "sum_list (map wr (filter (\<lambda>x. ur_tenant_id x = t) (map (\<lambda>x. if ur_id x = ur_id q' then q' else x) xs)))
        = sum_list (map wr (filter (\<lambda>x. ur_tenant_id x = t) xs)) + (if ur_tenant_id q = t then wr q' - wr q else 0)"
    if "distinct (map ur_id xs)" "q \<in> set xs" for xs
    using that
  proof (induction xs)
    case (Cons a xs)
    show ?case
    proof (cases "a = q")
      case True
      with Cons.prems assms(3) have "map (\<lambda>x. if ur_id x = ur_id q' then q' else x) xs = xs"
        by (intro map_idI) (auto simp: image_iff)
      with True assms(3,4) show ?thesis by simp
    next
      case False
      with Cons.prems have "q \<in> set xs" "ur_id a \<noteq> ur_id q" by (auto simp: rev_image_eqI)
      with Cons assms(3) show ?thesis by simp
    qed
  qed simp
  from this[OF assms(1,2)] show ?thesis
    by (simp add: tenant_charge_def tenant_sources_def tenant_reservations_def save_reservation_def)
qed

end

interpretation slots: charge_weights "\<lambda>_. 1" "\<lambda>_. 1"
  by unfold_locales auto

interpretation bytes: charge_weights source_bytes ur_reserved_bytes
  by unfold_locales (auto simp: source_bytes_def source_size_ok_def split: option.splits)

section \<open>Effect of each operation\<close>

definition reclaim :: "uuid \<Rightarrow> timestamp \<Rightarrow> db \<Rightarrow> db" where
  "reclaim t now d = d\<lparr>reservations := filter (\<lambda>r. \<not> expired_unlinked t now r) (reservations d)\<rparr>"

definition active_count :: "timestamp \<Rightarrow> uuid \<Rightarrow> db \<Rightarrow> int" where
  "active_count now t d = int (length (filter (active now) (tenant_reservations t d)))"

lemma reclaim_frames [simp]:
  "sources (reclaim t now d) = sources d" "cleanups (reclaim t now d) = cleanups d"
  "tenants (reclaim t now d) = tenants d" "tenant_sources u (reclaim t now d) = tenant_sources u d"
  "list_unknown_file_source_sizes u (reclaim t now d) = list_unknown_file_source_sizes u d"
  by (simp_all add: reclaim_def tenant_sources_def list_unknown_file_source_sizes_def)

lemma delete_expired_reclaim [result_simps]:
  "delete_expired_unlinked_upload_reservations t now d = Inr (n, d') \<longleftrightarrow>
     n = int (length (filter (expired_unlinked t now) (reservations d))) \<and> d' = reclaim t now d"
  by (simp add: delete_expired_Inr reclaim_def)

lemma delete_expired_eq:
  "delete_expired_unlinked_upload_reservations t now d =
     Inr (int (length (filter (expired_unlinked t now) (reservations d))), reclaim t now d)"
  by (metis delete_expired_reclaim)

text \<open>After the reclaiming delete, every remaining reservation of the tenant is held.\<close>

lemma held_after_reclaim:
  "filter (held now) (tenant_reservations t (reclaim t now d)) = tenant_reservations t (reclaim t now d)"
  unfolding filter_id_conv by (auto simp: tenant_reservations_def reclaim_def held_def expired_unlinked_def)

lemma sum_list_ones: "sum_list (map (\<lambda>_. 1) xs) = int (length xs)"
  by (induction xs) auto

lemma usage_after_reclaim:
  assumes "usage = usage_from_row (get_knowledge_quota_usage t now (reclaim t now d))"
  shows "charged_sources usage = slots_charged t (reclaim t now d)"
    and "charged_bytes usage = bytes_charged t (reclaim t now d)"
    and "active_uploads usage = active_count now t (reclaim t now d)"
  using assms
  by (simp_all add: get_knowledge_quota_usage_def usage_from_row_def Let_def held_after_reclaim
      charged_sources_def charged_bytes_def slots_charged_def bytes_charged_def tenant_charge_def
      sum_list_ones active_count_def)

lemma reserve_body_effect:
  assumes "reserve_file_upload_body t s b now rid d = Inr (u, d')"
  shows "slots_charged t (reclaim t now d) < KNOWLEDGE_SOURCE_LIMIT"
    and "bytes_charged t (reclaim t now d) + b \<le> KNOWLEDGE_STORED_BYTE_LIMIT"
    and "list_unknown_file_source_sizes t d = []"
    and "active_count now t (reclaim t now d) < KNOWLEDGE_CONCURRENT_UPLOAD_LIMIT"
    and "d' = add_upload_reservation rid t s b (now + KNOWLEDGE_UPLOAD_LEASE) now (reclaim t now d)"
    and "schema_ok d'" "t \<in> tenant_ids d"
  using assms usage_after_reclaim[OF refl, of t now d]
  by (auto simp: reserve_file_upload_body_def result_simps split: if_splits)

lemma finalize_body_effect:
  assumes "finalize_body t adm b now d = Inr (u, d')"
  obtains r where "r \<in> set (reservations (reclaim t now d))" "ur_id r = rc_reservation_id adm"
    "ur_tenant_id r = t" "ur_source_id r = rc_source_id adm" "ur_cleanup_id r = None" "ur_reserved_bytes r = 0"
    "ur_lease_expires_at r > now"
    "bytes_charged t (reclaim t now d) + b \<le> KNOWLEDGE_STORED_BYTE_LIMIT"
    "list_unknown_file_source_sizes t d = []"
    "d' = save_reservation (r\<lparr>ur_reserved_bytes := b, ur_updated_at := now\<rparr>) (reclaim t now d)" "schema_ok d'"
proof -
  let ?d = "reclaim t now d"
  from assms obtain r where r: "find_reservation t (rc_reservation_id adm) ?d = Inr (Some r)"
    and rest: "ur_source_id r = rc_source_id adm" "ur_cleanup_id r = None" "ur_reserved_bytes r = 0"
      "ur_lease_expires_at r > now" "list_unknown_file_source_sizes t d = []"
      "charged_bytes (usage_from_row (get_knowledge_quota_usage t now ?d)) + b \<le> KNOWLEDGE_STORED_BYTE_LIMIT"
      "d' = save_reservation (r\<lparr>ur_reserved_bytes := b, ur_updated_at := now\<rparr>) ?d" "schema_ok d'"
    unfolding finalize_body_def by (auto simp: result_simps split: option.splits if_splits)
  show thesis
    using that[OF find_reservation_Some[OF r] rest(1-4)] rest(5-8) usage_after_reclaim(2)[OF refl, of t now d]
    by simp
qed

lemma assert_source_capacity_effect:
  assumes "assert_source_capacity t now d = Inr (u, d')"
  shows "d' = reclaim t now d" "slots_charged t d' < KNOWLEDGE_SOURCE_LIMIT" "t \<in> tenant_ids d"
  using assms usage_after_reclaim[OF refl, of t now d]
  by (auto simp: assert_source_capacity_def result_simps split: if_splits)

section \<open>Preservation\<close>

lemma quota_ok_cong:
  assumes "sources d = sources d'" "reservations d = reservations d'"
  shows "quota_ok t d = quota_ok t d'"
  using assms slots.charge_cong[OF assms] bytes.charge_cong[OF assms]
  by (simp add: quota_ok_def slots_charged_def bytes_charged_def list_unknown_file_source_sizes_def)

lemma quota_ok_drop [table_intros]:
  assumes "reservations_ok d" "quota_ok u d"
  shows "quota_ok u (d\<lparr>reservations := filter P (reservations d)\<rparr>)"
  using assms slots.charge_drop_reservations[OF assms(1), of u P] bytes.charge_drop_reservations[OF assms(1), of u P]
  by (auto simp: quota_ok_def slots_charged_def bytes_charged_def list_unknown_file_source_sizes_def)

lemma quota_ok_map [table_intros]:
  assumes "\<And>q. q \<in> set (reservations d) \<Longrightarrow>
             ur_tenant_id (g q) = ur_tenant_id q \<and> ur_reserved_bytes (g q) = ur_reserved_bytes q"
    and "quota_ok u d"
  shows "quota_ok u (d\<lparr>reservations := map g (reservations d)\<rparr>)"
  using assms slots.charge_map_reservations[of d g u] bytes.charge_map_reservations[of d g u]
  by (simp add: quota_ok_def slots_charged_def bytes_charged_def list_unknown_file_source_sizes_def)

lemma quota_ok_reclaim: "schema_ok d \<Longrightarrow> quota_ok u d \<Longrightarrow> quota_ok u (reclaim t now d)"
  unfolding reclaim_def by (rule quota_ok_drop) (simp add: schema_ok_def)

lemma quota_ok_add_reservation:
  assumes "quota_ok u d"
    and "t = u \<Longrightarrow> slots_charged t d < KNOWLEDGE_SOURCE_LIMIT \<and> bytes_charged t d + b \<le> KNOWLEDGE_STORED_BYTE_LIMIT"
  shows "quota_ok u (add_upload_reservation rid t s b lease now d)"
  using assms
  by (auto simp: quota_ok_def slots_charged_def bytes_charged_def slots.charge_add_reservation
      bytes.charge_add_reservation add_upload_reservation_def list_unknown_file_source_sizes_def)

lemma list_unknown_add_source:
  "list_unknown_file_source_sizes u (add_source r d) = [] \<longleftrightarrow>
     list_unknown_file_source_sizes u d = [] \<and> \<not> unknown_size u r"
  by (auto simp: list_unknown_file_source_sizes_def add_source_def)

lemma quota_ok_add_source:
  assumes "quota_ok u d" "\<not> unknown_size u r"
    and "ks_tenant_id r = u \<Longrightarrow>
      slots_charged u d < KNOWLEDGE_SOURCE_LIMIT \<and> bytes_charged u d + source_bytes r \<le> KNOWLEDGE_STORED_BYTE_LIMIT"
  shows "quota_ok u (add_source r d)"
  using assms
  by (auto simp: quota_ok_def slots_charged_def bytes_charged_def slots.charge_add_source bytes.charge_add_source
      list_unknown_add_source)

lemma quota_ok_release: "schema_ok d \<Longrightarrow> quota_ok u d \<Longrightarrow> quota_ok u (release_upload_reservation t i d)"
  unfolding release_upload_reservation_def by (rule quota_ok_drop) (simp add: schema_ok_def)

lemma quota_ok_release_for_cleanup:
  "schema_ok d \<Longrightarrow> quota_ok u d \<Longrightarrow> quota_ok u (release_upload_reservation_for_cleanup t i d)"
  unfolding release_upload_reservation_for_cleanup_def by (rule quota_ok_drop) (simp add: schema_ok_def)

lemma quota_ok_expire_lease: "quota_ok u d \<Longrightarrow> quota_ok u (expire_upload_concurrency_lease_for_cleanup t i now d)"
  unfolding expire_upload_concurrency_lease_for_cleanup_def by (rule quota_ok_map) auto

lemma reserve_preserves_quota:
  assumes "schema_ok d" "quota_ok u d" "reserve_file_upload c t s b now rid d = (r, d')"
  shows "quota_ok u d'"
proof -
  obtain r1 where "in_txn c (reserve_file_upload_body t s b now rid) d = (r1, d') \<or> d' = d"
    using assms(3) by (auto simp: reserve_file_upload_def split: if_splits prod.splits sum.splits)
  then show ?thesis
  proof
    assume "in_txn c (reserve_file_upload_body t s b now rid) d = (r1, d')"
    then show ?thesis
    proof (rule in_txn_invariant)
      fix x e assume "reserve_file_upload_body t s b now rid d = Inr (x, e)"
      note eff = reserve_body_effect[OF this]
      show "quota_ok u e"
        unfolding eff(5) by (rule quota_ok_add_reservation) (use assms eff in \<open>auto intro: quota_ok_reclaim\<close>)
    qed (use assms in simp)
  qed (use assms in simp)
qed

lemma finalize_preserves_quota:
  assumes "schema_ok d" "quota_ok u d" "finalize_file_upload_reservation c t adm b now d = (r, d')"
  shows "quota_ok u d'"
proof -
  obtain r1 where "in_txn c (finalize_body t adm b now) d = (r1, d') \<or> d' = d"
    using assms(3) by (auto simp: finalize_file_upload_reservation_def split: if_splits prod.splits sum.splits)
  then show ?thesis
  proof
    assume "in_txn c (finalize_body t adm b now) d = (r1, d')"
    then show ?thesis
    proof (rule in_txn_invariant)
      fix x e assume body: "finalize_body t adm b now d = Inr (x, e)"
      from body obtain q where q: "q \<in> set (reservations (reclaim t now d))" "ur_tenant_id q = t"
        "ur_reserved_bytes q = 0" "bytes_charged t (reclaim t now d) + b \<le> KNOWLEDGE_STORED_BYTE_LIMIT"
        and e: "e = save_reservation (q\<lparr>ur_reserved_bytes := b, ur_updated_at := now\<rparr>) (reclaim t now d)"
        by (rule finalize_body_effect) blast
      have "distinct (map ur_id (reservations (reclaim t now d)))"
        using assms(1) by (auto simp: reclaim_def schema_ok_def reservations_ok_def intro: distinct_map_filterI)
      note upd = slots.charge_save_reservation[OF this q(1)] bytes.charge_save_reservation[OF this q(1)]
      have "quota_ok u (reclaim t now d)" by (rule quota_ok_reclaim[OF assms(1,2)])
      with q show "quota_ok u e"
        by (auto simp: e quota_ok_def slots_charged_def bytes_charged_def upd store_simps
            list_unknown_file_source_sizes_def)
    qed (use assms in simp)
  qed (use assms in simp)
qed

lemma release_unlinked_preserves_quota:
  assumes "schema_ok d" "quota_ok u d" "release_unlinked_reservation c t rid d = (r, d')"
  shows "quota_ok u d'"
  using assms(3) unfolding release_unlinked_reservation_def
  by (rule in_txn_invariant) (use assms in \<open>auto simp: result_simps intro: quota_ok_release\<close>)

section \<open>Properties\<close>

lemma tenant_reservations_add:
  "tenant_reservations t (add_upload_reservation rid t s b lease now d) =
     tenant_reservations t d @
       [\<lparr>ur_id = rid, ur_tenant_id = t, ur_source_id = s, ur_reserved_bytes = b, ur_cleanup_id = None,
         ur_lease_expires_at = lease, ur_created_at = now, ur_updated_at = now\<rparr>]"
  by (simp add: tenant_reservations_def add_upload_reservation_def)

text \<open>
  C2: A granted upload reservation leaves the tenant within all three limits, whatever the state
  before: at most 100 charged source slots, at most 1 GiB charged bytes, at most three active
  leases; no file of the tenant has an unknown size, and the claim names the new reservation row
  with a ten minute lease.
\<close>

theorem reserve_file_upload_within_limits:
  assumes "reserve_file_upload c t s b now rid d = (Inr claim, d')"
  shows "quota_ok t d' \<and> active_count now t d' \<le> 3 \<and> rc_lease_expires_at claim = now + minutes 10 \<and>
     (\<exists>r \<in> set (reservations d'). ur_id r = rc_reservation_id claim \<and> ur_tenant_id r = t \<and>
        ur_source_id r = rc_source_id claim \<and> ur_reserved_bytes r = b \<and> ur_cleanup_id r = None \<and>
        ur_lease_expires_at r = rc_lease_expires_at claim)"
proof -
  from assms have txn: "in_txn c (reserve_file_upload_body t s b now rid) d = (Inr (), d')"
    and claim: "claim = \<lparr>rc_reservation_id = rid, rc_source_id = s, rc_reserved_bytes = b,
                  rc_lease_expires_at = now + KNOWLEDGE_UPLOAD_LEASE\<rparr>"
    by (auto simp: reserve_file_upload_def split: if_splits prod.splits sum.splits)
  note eff = reserve_body_effect[OF in_txn_Inr[OF txn, THEN conjunct1]]
  have "quota_ok t d'"
    using eff(1-3) unfolding eff(5)
    by (simp add: quota_ok_def slots_charged_def bytes_charged_def slots.charge_add_reservation
        bytes.charge_add_reservation add_upload_reservation_def list_unknown_file_source_sizes_def)
  moreover have "active_count now t d' \<le> 3"
    using eff(4) unfolding eff(5) active_count_def tenant_reservations_add
    by (simp add: quota_limits active_def)
  ultimately show ?thesis
    using eff(5) by (auto simp: claim quota_limits add_upload_reservation_def)
qed

theorem reserve_file_upload_within_limits_witness:
  "\<exists>claim d'. reserve_file_upload Committed 1 3 0 1000 4 sample_db = (Inr claim, d') \<and>
     quota_ok 1 d' \<and> active_count 1000 1 d' \<le> 3"
proof -
  have run: "reserve_file_upload Committed 1 3 0 1000 4 sample_db =
     (Inr \<lparr>rc_reservation_id = 4, rc_source_id = 3, rc_reserved_bytes = 0, rc_lease_expires_at = 600001000\<rparr>,
      sample_db\<lparr>reservations := [\<lparr>ur_id = 4, ur_tenant_id = 1, ur_source_id = 3, ur_reserved_bytes = 0,
        ur_cleanup_id = None, ur_lease_expires_at = 600001000, ur_created_at = 1000, ur_updated_at = 1000\<rparr>]\<rparr>)"
    by code_simp
  show ?thesis using reserve_file_upload_within_limits[OF run] run by blast
qed

text \<open>
  The retry hint of a concurrency rejection is at least one second, and some active lease of
  the tenant has expired once that many seconds have passed.
\<close>

theorem concurrency_retry_after_sufficient:
  assumes "reserve_file_upload_body t s b now rid d = Inl (KnowledgeUploadConcurrencyLimitedError n)"
  shows "1 \<le> n \<and> (\<exists>r \<in> set (reservations d). ur_tenant_id r = t \<and> active now r \<and> \<not> active (now + seconds n) r)"
proof -
  let ?d = "reclaim t now d"
  let ?u = "usage_from_row (get_knowledge_quota_usage t now ?d)"
  let ?rows = "filter (active now) (tenant_reservations t ?d)"
  from assms have n: "n = concurrency_retry_after ?u now" and lim: "active_uploads ?u \<ge> 3"
    by (auto simp: reserve_file_upload_body_def tx_defs lock_tenant_for_knowledge_quota_def
        delete_expired_eq quota_limits
        split: if_splits sum.splits prod.splits)
  from lim have ne: "?rows \<noteq> []"
    using usage_after_reclaim(3)[OF refl, of t now d] by (auto simp: active_count_def)
  let ?m = "Min (ur_lease_expires_at ` set ?rows)"
  have "earliest_active_lease ?u = Some ?m"
  proof -
    obtain a as where rows: "?rows = a # as" using ne by (cases ?rows) auto
    have "fold min (map ur_lease_expires_at as) (ur_lease_expires_at a) = Min (set (map ur_lease_expires_at (a # as)))"
      using Min.set_eq_fold[of "ur_lease_expires_at a" "map ur_lease_expires_at as"] by simp
    then show ?thesis using rows
      by (simp add: get_knowledge_quota_usage_def usage_from_row_def Let_def)
  qed
  then have n': "n = max (ceil_seconds (?m - now)) 1" by (simp add: n concurrency_retry_after_def)
  have "finite (ur_lease_expires_at ` set ?rows)" "ur_lease_expires_at ` set ?rows \<noteq> {}"
    using ne by (simp, metis image_is_empty set_empty)
  then have "?m \<in> ur_lease_expires_at ` set ?rows" by (rule Min_in)
  then obtain r where r: "r \<in> set ?rows" "ur_lease_expires_at r = ?m" by auto
  have "?m \<le> now + seconds n" using ceil_seconds_bounds(1)[of "?m - now"] n' by linarith
  then have "\<not> active (now + seconds n) r" using r by (simp add: active_def)
  moreover have "r \<in> set (reservations d)" "ur_tenant_id r = t" "active now r"
    using r(1) by (auto simp: tenant_reservations_def reclaim_def)
  ultimately show ?thesis using n' by auto
qed

definition sample_reservation :: "uuid \<Rightarrow> timestamp \<Rightarrow> KnowledgeUploadReservation" where
  "sample_reservation i lease = \<lparr>ur_id = i, ur_tenant_id = 1, ur_source_id = i, ur_reserved_bytes = 0,
     ur_cleanup_id = None, ur_lease_expires_at = lease, ur_created_at = 0, ur_updated_at = 0\<rparr>"

theorem concurrency_retry_after_sufficient_witness:
  "reserve_file_upload_body 1 9 0 1000 9
     (sample_db\<lparr>reservations := map (\<lambda>i. sample_reservation i 2500000) [5, 6, 7]\<rparr>)
     = Inl (KnowledgeUploadConcurrencyLimitedError 3) \<and> 1 \<le> (3 :: int)"
proof -
  have run: "reserve_file_upload_body 1 9 0 1000 9
     (sample_db\<lparr>reservations := map (\<lambda>i. sample_reservation i 2500000) [5, 6, 7]\<rparr>)
     = Inl (KnowledgeUploadConcurrencyLimitedError 3)"
    by code_simp
  show ?thesis using concurrency_retry_after_sufficient[OF run] run by blast
qed

section \<open>Legacy measurement\<close>

lemma measure_legacy_entries:
  "measure_legacy head t us = Inr ms \<Longrightarrow>
     map (\<lambda>(s, key, n). (s, key)) ms = us \<and>
     list_all (\<lambda>(s, key, n). 0 \<le> n \<and> n \<le> MAX_KNOWLEDGE_FILE_BYTES \<and>
       bind_result (parse_knowledge_raw_object_key key t s) head = Inr n) ms"
  by (induction head t us arbitrary: ms rule: measure_legacy.induct)
     (auto simp: result_simps split: sum.splits if_splits)

definition measure_row :: "uuid \<Rightarrow> (uuid \<times> string \<times> int) list \<Rightarrow> KnowledgeSource \<Rightarrow> KnowledgeSource" where
  "measure_row t ms r = fold (\<lambda>(s, key, n) r.
     if ks_tenant_id r = t \<and> ks_id r = s \<and> ks_object_key r = Some key \<and> ks_object_size_bytes r = None
     then r\<lparr>ks_object_size_bytes := Some n\<rparr> else r) ms r"

lemma set_measured_eq: "set_measured t ms d = d\<lparr>sources := map (measure_row t ms) (sources d)\<rparr>"
proof (induction ms arbitrary: d)
  case Nil
  then show ?case by (simp add: set_measured_def measure_row_def)
next
  case (Cons m ms)
  obtain s key n where m: "m = (s, key, n)" by (cases m)
  have "set_measured t (m # ms) d = set_measured t ms (set_file_source_size_if_unknown t s key n d)"
    by (simp add: set_measured_def m)
  then show ?case
    by (simp add: Cons.IH set_file_source_size_if_unknown_def m measure_row_def)
qed

lemma measure_row_known [simp]:
  "ks_object_size_bytes r \<noteq> None \<Longrightarrow> measure_row t ms r = r"
  by (induction ms arbitrary: r) (auto simp: measure_row_def)

lemma measure_row_skip:
  "(\<forall>(s, key, n) \<in> set ms. \<not> (ks_tenant_id r = t \<and> ks_id r = s \<and> ks_object_key r = Some key)) \<Longrightarrow>
     measure_row t ms r = r"
  by (induction ms) (auto simp: measure_row_def)

lemma measure_row_hit:
  assumes "(ks_id r, the (ks_object_key r)) \<in> set (map (\<lambda>(s, key, n). (s, key)) ms)" "unknown_size t r"
  shows "\<exists>n. (ks_id r, the (ks_object_key r), n) \<in> set ms \<and> measure_row t ms r = r\<lparr>ks_object_size_bytes := Some n\<rparr>"
  using assms
proof (induction ms)
  case (Cons m ms)
  obtain s key n where m: "m = (s, key, n)" by (cases m)
  have row: "ks_tenant_id r = t" "ks_object_key r \<noteq> None" "ks_object_size_bytes r = None"
    using Cons.prems by (auto simp: unknown_size_def)
  show ?case
  proof (cases "s = ks_id r \<and> Some key = ks_object_key r")
    case True
    then have "measure_row t (m # ms) r = measure_row t ms (r\<lparr>ks_object_size_bytes := Some n\<rparr>)"
      using row by (simp add: measure_row_def m)
    moreover have "key = the (ks_object_key r)" using True by (metis option.sel)
    ultimately show ?thesis using True by (intro exI[of _ n]) (auto simp: m)
  next
    case False
    then have "measure_row t (m # ms) r = measure_row t ms r"
      by (auto simp: measure_row_def m)
    moreover have "(ks_id r, the (ks_object_key r)) \<in> set (map (\<lambda>(s, key, n). (s, key)) ms)"
      using Cons.prems(1) False row(2) by (auto simp: m)
    ultimately show ?thesis using Cons.IH[OF _ Cons.prems(2)] by auto
  qed
qed simp

lemma measure_row_effect:
  assumes "measure_legacy head t (list_unknown_file_source_sizes t d) = Inr ms" "r \<in> set (sources d)"
  shows "if unknown_size t r
     then \<exists>n. bind_result (parse_knowledge_raw_object_key (the (ks_object_key r)) t (ks_id r)) head = Inr n
       \<and> measure_row t ms r = r\<lparr>ks_object_size_bytes := Some n\<rparr>
     else measure_row t ms r = r"
proof -
  note ms = measure_legacy_entries[OF assms(1)]
  show ?thesis
  proof (cases "unknown_size t r")
    case True
    with assms(2) have "(ks_id r, the (ks_object_key r)) \<in> set (map (\<lambda>(s, key, n). (s, key)) ms)"
      unfolding conjunct1[OF ms] by (force simp: list_unknown_file_source_sizes_def)
    from measure_row_hit[OF this True] show ?thesis using ms True by (force simp: list_all_iff)
  next
    case False
    then have "ks_tenant_id r \<noteq> t \<or> ks_object_key r = None \<or> ks_object_size_bytes r \<noteq> None"
      by (auto simp: unknown_size_def)
    then have "measure_row t ms r = r" by (auto intro: measure_row_skip)
    with False show ?thesis by simp
  qed
qed

text \<open>Every size the database did not know is the length storage reports; nothing else changes.\<close>

definition sizes_measured :: "(KnowledgeRawObjectKey \<Rightarrow> int result) \<Rightarrow> uuid \<Rightarrow> db \<Rightarrow> db \<Rightarrow> bool" where
  "sizes_measured head t d d' \<longleftrightarrow> list_unknown_file_source_sizes t d' = [] \<and>
     (\<exists>measure. d' = d\<lparr>sources := map measure (sources d)\<rparr> \<and>
        (\<forall>r \<in> set (sources d). if unknown_size t r
           then \<exists>len. bind_result (parse_knowledge_raw_object_key (the (ks_object_key r)) t (ks_id r)) head = Inr len
             \<and> measure r = r\<lparr>ks_object_size_bytes := Some len\<rparr>
           else measure r = r))"

lemma set_measured_complete:
  assumes "measure_legacy head t (list_unknown_file_source_sizes t d) = Inr ms"
  shows "length ms = length (list_unknown_file_source_sizes t d)" "sizes_measured head t d (set_measured t ms d)"
proof -
  note rows = measure_row_effect[OF assms]
  show "length ms = length (list_unknown_file_source_sizes t d)"
    by (subst conjunct1[OF measure_legacy_entries[OF assms], symmetric]) simp
  have "\<not> unknown_size t (measure_row t ms r)" if "r \<in> set (sources d)" for r
    using rows[OF that] by (auto simp: unknown_size_def split: if_splits)
  then have "list_unknown_file_source_sizes t (set_measured t ms d) = []"
    by (auto simp: list_unknown_file_source_sizes_def set_measured_eq filter_empty_conv)
  with rows show "sizes_measured head t d (set_measured t ms d)"
    unfolding sizes_measured_def by (intro conjI exI[of _ "measure_row t ms"]) (simp_all add: set_measured_eq)
qed

lemma sizes_measured_nothing: "list_unknown_file_source_sizes t d = [] \<Longrightarrow> sizes_measured head t d d"
  using set_measured_complete(2)[of head t d "[]"] by (simp add: set_measured_def)

text \<open>
  C16: A measurement pass over the tenant's file sources, whatever storage and the database answer.
  If it returns, no file source of the tenant is without a size: each row that had none got the
  length storage reports for its own canonical key, every other row is as it was, and the result is
  the number of rows measured.  If it fails, nothing was written, with one exception: when the
  commit of the sizes took effect but was not acknowledged, all of them are written.
\<close>

theorem reconcile_legacy_complete:
  assumes "reconcile_legacy_file_sizes c1 c2 head t d = (r, d')"
  shows "(\<forall>n. r = Inr n \<longrightarrow> n = int (length (list_unknown_file_source_sizes t d)) \<and> sizes_measured head t d d') \<and>
    (\<forall>e. r = Inl e \<longrightarrow> d' = d \<or> (c2 = CommittedUnacknowledged \<and> e = SQLAlchemyError \<and> sizes_measured head t d d'))"
proof -
  let ?us = "list_unknown_file_source_sizes t d"
  have listed: "in_txn c1 (tx_read (list_unknown_file_source_sizes t)) d = (Inr ?us, d) \<or>
      (\<exists>e. in_txn c1 (tx_read (list_unknown_file_source_sizes t)) d = (Inl e, d))"
    by (auto simp: in_txn_def tx_read_def)
  have writes: "(q = Inr () \<and> d2 = set_measured t ms d) \<or> (\<exists>e. q = Inl e \<and> (d2 = d \<or>
      (c2 = CommittedUnacknowledged \<and> e = SQLAlchemyError \<and> d2 = set_measured t ms d)))"
    if "in_txn c2 (tx_bind (lock_tenant_for_knowledge_quota t) (\<lambda>_. tx_bind (tx_write (set_measured t ms)) (\<lambda>_. flush))) d = (q, d2)"
    for q d2 ms
    using that by (cases c2)
      (auto simp: in_txn_def tx_defs lock_tenant_for_knowledge_quota_def split: if_splits sum.splits prod.splits)
  show ?thesis
  proof (cases "in_txn c1 (tx_read (list_unknown_file_source_sizes t)) d = (Inr ?us, d) \<and> ?us \<noteq> []")
    case False
    with listed assms sizes_measured_nothing[of t d head] show ?thesis by (auto simp: reconcile_legacy_file_sizes_def)
  next
    case True
    show ?thesis
    proof (cases "measure_legacy head t ?us")
      case (Inl e)
      with True assms show ?thesis by (auto simp: reconcile_legacy_file_sizes_def)
    next
      case (Inr ms)
      obtain q d2 where txn: "in_txn c2 (tx_bind (lock_tenant_for_knowledge_quota t)
          (\<lambda>_. tx_bind (tx_write (set_measured t ms)) (\<lambda>_. flush))) d = (q, d2)" by fastforce
      have res: "d' = d2" "r = (case q of Inl e \<Rightarrow> Inl e | Inr _ \<Rightarrow> Inr (int (length ms)))"
        using assms True Inr txn by (auto simp: reconcile_legacy_file_sizes_def split: sum.splits)
      show ?thesis using writes[OF txn] res set_measured_complete[OF Inr] by auto
    qed
  qed
qed

definition legacy_source :: KnowledgeSource where
  "legacy_source = (new_file_knowledge_source 3 1 Markdown ''guide'' (raw_key_value (knowledge_raw_key 1 3 4)) 0 Customer 2 0)
     \<lparr>ks_object_size_bytes := None\<rparr>"

theorem reconcile_legacy_complete_witness:
  "fst (reconcile_legacy_file_sizes Committed Committed (\<lambda>_. Inr 77) 1 (sample_db\<lparr>sources := [legacy_source]\<rparr>)) = Inr 1 \<and>
   list_unknown_file_source_sizes 1
     (snd (reconcile_legacy_file_sizes Committed Committed (\<lambda>_. Inr 77) 1 (sample_db\<lparr>sources := [legacy_source]\<rparr>))) = [] \<and>
   fst (reconcile_legacy_file_sizes Committed Committed (\<lambda>_. Inl ObjectNotFoundError) 1 (sample_db\<lparr>sources := [legacy_source]\<rparr>))
     = Inl KnowledgeQuotaUnavailableError \<and>
   snd (reconcile_legacy_file_sizes Committed Committed (\<lambda>_. Inl ObjectNotFoundError) 1 (sample_db\<lparr>sources := [legacy_source]\<rparr>))
     = sample_db\<lparr>sources := [legacy_source]\<rparr>"
proof -
  let ?d = "sample_db\<lparr>sources := [legacy_source]\<rparr>"
  let ?r = "reconcile_legacy_file_sizes Committed Committed (\<lambda>_. Inr 77) 1 ?d"
  let ?f = "reconcile_legacy_file_sizes Committed Committed (\<lambda>_. Inl ObjectNotFoundError) 1 ?d"
  have run: "fst ?r = Inr 1" "fst ?f = Inl KnowledgeQuotaUnavailableError" by code_simp+
  then have "?r = (Inr 1, snd ?r)" "?f = (Inl KnowledgeQuotaUnavailableError, snd ?f)" by (simp_all add: prod_eq_iff)
  note both = this[THEN reconcile_legacy_complete]
  have "list_unknown_file_source_sizes 1 (snd ?r) = []" using both(1) by (simp add: sizes_measured_def)
  moreover have "snd ?f = ?d" using both(2) by simp
  ultimately show ?thesis using run by blast
qed

end
