(* ===== verification/Cleanup_Protocol.thy ===== *)
theory Cleanup_Protocol
  imports Quota
begin

text \<open>
  The contract of the upload-cleanup table, shared by the API request path, the API replay and the
  worker: the transitions of one cleanup row (\<open>cleanup_step\<close>), what one transaction may do to the
  tables (\<open>cleanup_effect\<close>), and the locale \<open>cleanup_protocol\<close> in which the consequences are proved
  once for every transaction body that keeps the contract.
\<close>

section \<open>Transitions of a row\<close>

abbreviation open_status :: "cleanup_status \<Rightarrow> bool" where
  "open_status st \<equiv> st = Prepared \<or> st = Pending"

inductive cleanup_step :: "KnowledgeUploadCleanup \<Rightarrow> KnowledgeUploadCleanup \<Rightarrow> bool" where
  arm: "open_status (uc_status c) \<Longrightarrow>
    cleanup_step c (c\<lparr>uc_status := Pending, uc_next_attempt_at := Some due, uc_last_error_code := Some e,
      uc_resolved_at := None, uc_updated_at := now\<rparr>)"
| claim: "open_status (uc_status c) \<Longrightarrow> uc_attempt_count c < 3 \<Longrightarrow>
    cleanup_step c (c\<lparr>uc_status := Pending, uc_attempt_count := uc_attempt_count c + 1,
      uc_next_attempt_at := Some due, uc_last_error_code := err, uc_updated_at := now\<rparr>)"
| retry: "open_status (uc_status c) \<Longrightarrow>
    cleanup_step c (c\<lparr>uc_status := Pending, uc_last_error_code := Some e, uc_updated_at := now\<rparr>)"
| exhaust: "open_status (uc_status c) \<Longrightarrow> n = uc_attempt_count c \<or> n = 3 \<Longrightarrow>
    cleanup_step c (c\<lparr>uc_attempt_count := n, uc_status := Exhausted, uc_next_attempt_at := None,
      uc_last_error_code := Some e, uc_resolved_at := Some now, uc_updated_at := now\<rparr>)"
| succeed: "open_status (uc_status c) \<Longrightarrow>
    cleanup_step c (c\<lparr>uc_status := Succeeded, uc_next_attempt_at := None, uc_last_error_code := None,
      uc_resolved_at := Some now, uc_updated_at := now\<rparr>)"

inductive_cases cleanup_stepE: "cleanup_step c c'"

text \<open>
  The transitions of reconciliation.  (The remaining one, \<open>prepared\<close> to \<open>referenced\<close>, belongs to the
  upload request that commits its source.)  Each leaves an open status, keeps the row's identity
  and never lowers the attempts.
\<close>

lemma cleanup_step_facts:
  assumes "cleanup_step c c'"
  shows "open_status (uc_status c)" "uc_id c' = uc_id c" "uc_tenant_id c' = uc_tenant_id c"
    "uc_source_id c' = uc_source_id c" "uc_object_id c' = uc_object_id c" "uc_object_key c' = uc_object_key c"
    "uc_attempt_count c \<le> 3 \<Longrightarrow> uc_attempt_count c \<le> uc_attempt_count c' \<and> uc_attempt_count c' \<le> 3"
    "uc_status c' = Prepared \<Longrightarrow> False"
    "uc_status c' = Referenced \<Longrightarrow> False"
  using assms by (auto elim!: cleanup_stepE)

section \<open>Effect of a transaction\<close>

definition released :: "uuid \<Rightarrow> uuid \<Rightarrow> db \<Rightarrow> db \<Rightarrow> bool" where
  "released t cid d d' \<longleftrightarrow>
     reservations d' = reservations (release_upload_reservation_for_cleanup t cid d) \<and>
     (\<exists>c \<in> set (cleanups d'). uc_id c = cid \<and> uc_tenant_id c = t \<and> uc_status c \<in> {Referenced, Succeeded})"

definition cleanup_effect :: "uuid \<Rightarrow> uuid \<Rightarrow> db \<Rightarrow> db \<Rightarrow> bool" where
  "cleanup_effect t cid d d' \<longleftrightarrow>
     d' = d\<lparr>cleanups := cleanups d', reservations := reservations d'\<rparr> \<and>
     (cleanups d' = cleanups d \<or>
      (\<exists>c \<in> set (cleanups d). \<exists>c'. uc_id c = cid \<and> uc_tenant_id c = t \<and> cleanup_step c c' \<and>
         cleanups d' = cleanups (save_cleanup c' d))) \<and>
     (reservations d' = reservations d \<or> released t cid d d')"

lemma cleanup_effect_refl [simp]: "cleanup_effect t cid d d"
  by (simp add: cleanup_effect_def)

lemma cleanup_effect_save:
  assumes "c \<in> set (cleanups d)" "cleanup_step c c'"
  shows "cleanup_effect (uc_tenant_id c) (uc_id c) d (save_cleanup c' d)"
  using assms by (auto simp: cleanup_effect_def save_cleanup_def)

lemma cleanup_effect_release:
  assumes "c \<in> set (cleanups d)" "uc_status c \<in> {Referenced, Succeeded}"
  shows "cleanup_effect (uc_tenant_id c) (uc_id c) d (release_upload_reservation_for_cleanup (uc_tenant_id c) (uc_id c) d)"
  using assms by (auto simp: cleanup_effect_def released_def release_upload_reservation_for_cleanup_def)

lemma cleanup_effect_save_release:
  assumes "c \<in> set (cleanups d)" "cleanup_step c c'" "uc_status c' \<in> {Referenced, Succeeded}"
  shows "cleanup_effect (uc_tenant_id c) (uc_id c) d
    (release_upload_reservation_for_cleanup (uc_tenant_id c) (uc_id c) (save_cleanup c' d))"
proof -
  note same = cleanup_step_facts[OF assms(2)]
  have "c' \<in> set (cleanups (save_cleanup c' d))"
    using assms(1) same by (auto simp: save_cleanup_def image_iff)
  then show ?thesis
    using assms same
    by (auto simp: cleanup_effect_def released_def release_upload_reservation_for_cleanup_def save_cleanup_def)
qed

lemmas cleanup_effects =
  cleanup_effect_refl cleanup_effect_save cleanup_effect_release cleanup_effect_save_release

text \<open>Where each row of the table goes.\<close>

lemma cleanup_effect_row:
  assumes "cleanup_effect t cid d d'" "cleanups_ok d" "c \<in> set (cleanups d)"
  shows "c \<in> set (cleanups d') \<or> (uc_id c = cid \<and> uc_tenant_id c = t \<and> (\<exists>c' \<in> set (cleanups d'). cleanup_step c c'))"
proof (cases "cleanups d' = cleanups d")
  case False
  with assms(1) obtain a a' where a: "a \<in> set (cleanups d)" "uc_id a = cid" "uc_tenant_id a = t" "cleanup_step a a'"
    and d': "cleanups d' = cleanups (save_cleanup a' d)"
    by (auto simp: cleanup_effect_def)
  note same = cleanup_step_facts[OF a(4)]
  show ?thesis
  proof (cases "uc_id c = cid")
    case True
    with assms(2,3) a(1,2) have "c = a" by (auto simp: cleanups_ok_def dest: map_inj_on[rotated] inj_onD distinct_map[THEN iffD1, THEN conjunct2])
    then show ?thesis using a same by (auto simp: d' set_save_cleanup image_iff)
  next
    case False
    then show ?thesis using assms(3) a same by (auto simp: d' set_save_cleanup)
  qed
qed (use assms in auto)

lemma cleanup_effect_row_back:
  assumes "cleanup_effect t cid d d'" "c' \<in> set (cleanups d')"
  shows "c' \<in> set (cleanups d) \<or> (\<exists>c \<in> set (cleanups d). cleanup_step c c')"
  using assms by (auto simp: cleanup_effect_def set_save_cleanup split: if_splits)

lemma cleanup_effect_other_tables:
  assumes "cleanup_effect t cid d d'"
  shows "sources d' = sources d" "tenants d' = tenants d" "outbox d' = outbox d" "documents d' = documents d"
proof -
  have d': "d' = d\<lparr>cleanups := cleanups d', reservations := reservations d'\<rparr>"
    using assms by (simp add: cleanup_effect_def)
  show "sources d' = sources d" "tenants d' = tenants d" "outbox d' = outbox d" "documents d' = documents d"
    by (subst d', simp)+
qed

lemma cleanup_effect_quota:
  assumes "cleanup_effect t cid d d'" "schema_ok d" "quota_ok u d"
  shows "quota_ok u d'"
proof -
  have "reservations d' = reservations d \<or> reservations d' = reservations (release_upload_reservation_for_cleanup t cid d)"
    using assms(1) by (auto simp: cleanup_effect_def released_def)
  then show ?thesis
    using quota_ok_cong[of d' d u] quota_ok_cong[of d' "release_upload_reservation_for_cleanup t cid d" u]
      quota_ok_release_for_cleanup[OF assms(2,3), of t cid] cleanup_effect_other_tables[OF assms(1)] assms(3)
    by (auto simp: store_simps)
qed

text \<open>A resolved row is never changed again.\<close>

lemma cleanup_effect_terminal:
  assumes "cleanup_effect t cid d d'" "schema_ok d" "c \<in> set (cleanups d)" "\<not> open_status (uc_status c)"
  shows "c \<in> set (cleanups d')"
  using cleanup_effect_row[OF assms(1) _ assms(3)] assms(2,4) cleanup_step_facts(1)
  unfolding schema_ok_def by blast

text \<open>The quota hold of a cleanup is given up only once its object is referenced or confirmed deleted.\<close>

lemma cleanup_effect_hold:
  assumes "cleanup_effect t cid d d'" "r \<in> set (reservations d)" "r \<notin> set (reservations d')"
  shows "\<exists>c \<in> set (cleanups d'). ur_cleanup_id r = Some (uc_id c) \<and> ur_tenant_id r = uc_tenant_id c \<and>
    uc_status c \<in> {Referenced, Succeeded}"
proof -
  have rel: "released t cid d d'" using assms by (auto simp: cleanup_effect_def)
  then have "ur_tenant_id r = t" "ur_cleanup_id r = Some cid"
    using assms(2,3) by (auto simp: released_def release_upload_reservation_for_cleanup_def)
  with rel show ?thesis unfolding released_def by metis
qed

section \<open>The constraints hold after every transition\<close>

lemma cleanup_step_row_ok:
  assumes "cleanup_step c c'" "cleanup_row_ok d c" "tenants d' = tenants d"
  shows "cleanup_row_ok d' c'"
  using assms(1) by cases (use assms(2,3) in \<open>auto simp: cleanup_row_ok_def\<close>)

lemma map_save_cleanup:
  assumes "cleanups_ok d" "c \<in> set (cleanups d)" "uc_id c' = uc_id c" "f c' = f c"
  shows "map f (cleanups (save_cleanup c' d)) = map f (cleanups d)"
proof -
  have "x = c" if "x \<in> set (cleanups d)" "uc_id x = uc_id c" for x
    using assms(1,2) that by (auto simp: cleanups_ok_def distinct_map dest: inj_onD)
  then show ?thesis using assms(3,4) by (auto simp: save_cleanup_def)
qed

lemma schema_ok_save_cleanup:
  assumes "schema_ok d" "c \<in> set (cleanups d)" "cleanup_step c c'"
  shows "schema_ok (save_cleanup c' d)"
proof -
  have ok: "cleanups_ok d" using assms(1) by (simp add: schema_ok_def)
  note same = cleanup_step_facts[OF assms(3)] and keep = map_save_cleanup[OF ok assms(2)]
  have "cleanup_row_ok (save_cleanup c' d) x" if "x \<in> set (cleanups (save_cleanup c' d))" for x
  proof (cases "x = c'")
    case True
    have "cleanup_row_ok d c" using ok assms(2) by (simp add: cleanups_ok_def list_all_iff)
    then show ?thesis unfolding True by (rule cleanup_step_row_ok[OF assms(3)]) (simp add: store_simps)
  next
    case False
    then have "x \<in> set (cleanups d)" using that by (auto simp: set_save_cleanup split: if_splits)
    then show ?thesis using ok by (auto simp: cleanups_ok_def list_all_iff cleanup_row_ok_def store_simps)
  qed
  then have "cleanups_ok (save_cleanup c' d)"
    using ok keep[of c' uc_id] keep[of c' "\<lambda>r. (uc_tenant_id r, uc_source_id r)"] keep[of c' uc_object_key] same
    by (simp add: cleanups_ok_def list_all_iff)
  then show ?thesis
    using assms(1) by (simp add: schema_ok_def save_cleanup_def)
qed

section \<open>Runs\<close>

definition cleanup_txn :: "db \<Rightarrow> db \<Rightarrow> bool" where
  "cleanup_txn d d' \<longleftrightarrow> schema_ok d \<and> schema_ok d' \<and> (\<exists>t cid. cleanup_effect t cid d d')"

abbreviation cleanup_run :: "db \<Rightarrow> db \<Rightarrow> bool" where
  "cleanup_run \<equiv> cleanup_txn\<^sup>*\<^sup>*"

lemma cleanup_run_schema: "cleanup_run d d' \<Longrightarrow> schema_ok d \<Longrightarrow> schema_ok d'"
  by (induction rule: rtranclp_induct) (auto simp: cleanup_txn_def)

lemma cleanup_run_other_tables: "cleanup_run d d' \<Longrightarrow> sources d' = sources d \<and> tenants d' = tenants d \<and>
    outbox d' = outbox d \<and> documents d' = documents d"
  by (induction rule: rtranclp_induct) (auto simp: cleanup_txn_def cleanup_effect_other_tables)

lemma cleanup_run_quota: "cleanup_run d d' \<Longrightarrow> quota_ok u d \<Longrightarrow> quota_ok u d'"
  by (induction rule: rtranclp_induct) (auto simp: cleanup_txn_def intro: cleanup_effect_quota)

lemma cleanup_run_terminal:
  "cleanup_run d d' \<Longrightarrow> c \<in> set (cleanups d) \<Longrightarrow> \<not> open_status (uc_status c) \<Longrightarrow> c \<in> set (cleanups d')"
  by (induction rule: rtranclp_induct) (auto simp: cleanup_txn_def intro: cleanup_effect_terminal)

lemma cleanup_run_row:
  "cleanup_run d d' \<Longrightarrow> c \<in> set (cleanups d) \<Longrightarrow> \<exists>c' \<in> set (cleanups d'). cleanup_step\<^sup>*\<^sup>* c c'"
proof (induction rule: rtranclp_induct)
  case (step y z)
  then obtain t cid c1 where "cleanup_effect t cid y z" "schema_ok y" "c1 \<in> set (cleanups y)" "cleanup_step\<^sup>*\<^sup>* c c1"
    by (auto simp: cleanup_txn_def)
  then show ?case
    using cleanup_effect_row[of t cid y z c1] by (auto simp: schema_ok_def intro: rtranclp.rtrancl_into_rtrancl)
qed auto

lemma cleanup_run_hold:
  assumes "cleanup_run d d'" "r \<in> set (reservations d)" "r \<notin> set (reservations d')"
  shows "\<exists>c \<in> set (cleanups d'). ur_cleanup_id r = Some (uc_id c) \<and> ur_tenant_id r = uc_tenant_id c \<and>
    uc_status c \<in> {Referenced, Succeeded}"
  using assms
proof (induction rule: rtranclp_induct)
  case (step y z)
  show ?case
  proof (cases "r \<in> set (reservations y)")
    case True
    with step.hyps(2) step.prems show ?thesis by (auto simp: cleanup_txn_def dest: cleanup_effect_hold)
  next
    case False
    with step obtain c where c: "c \<in> set (cleanups y)" "ur_cleanup_id r = Some (uc_id c)"
      "ur_tenant_id r = uc_tenant_id c" "uc_status c \<in> {Referenced, Succeeded}" by blast
    then have "c \<in> set (cleanups z)" using step.hyps(2) cleanup_effect_terminal by (auto simp: cleanup_txn_def)
    with c show ?thesis by blast
  qed
qed simp

lemma cleanup_steps_same:
  "cleanup_step\<^sup>*\<^sup>* c c' \<Longrightarrow> uc_id c' = uc_id c \<and> uc_tenant_id c' = uc_tenant_id c \<and> uc_object_key c' = uc_object_key c
     \<and> uc_source_id c' = uc_source_id c \<and> uc_object_id c' = uc_object_id c"
  by (induction rule: rtranclp_induct) (auto simp: cleanup_step_facts)

lemma cleanup_steps_attempts:
  "cleanup_step\<^sup>*\<^sup>* c c' \<Longrightarrow> uc_attempt_count c \<le> 3 \<Longrightarrow>
     uc_attempt_count c \<le> uc_attempt_count c' \<and> uc_attempt_count c' \<le> 3"
proof (induction rule: rtranclp_induct)
  case (step y z)
  then show ?case using cleanup_step_facts(7)[OF step.hyps(2)] by auto
qed simp

text \<open>
  Where a row comes from, and what it means that a run claimed a row: below three attempts and with
  its canonical object key it was given one more attempt.
\<close>

lemma cleanup_run_row_back:
  "cleanup_run d d' \<Longrightarrow> c' \<in> set (cleanups d') \<Longrightarrow> \<exists>c \<in> set (cleanups d). cleanup_step\<^sup>*\<^sup>* c c'"
proof (induction arbitrary: c' rule: rtranclp_induct)
  case (step y z)
  then obtain t cid where "cleanup_effect t cid y z" by (auto simp: cleanup_txn_def)
  from cleanup_effect_row_back[OF this step.prems] obtain c1 where "c1 \<in> set (cleanups y)" "cleanup_step\<^sup>*\<^sup>* c1 c'"
    by auto
  then show ?case using step.IH by (meson rtranclp_trans)
qed auto

definition row_claimed :: "db \<Rightarrow> db \<Rightarrow> KnowledgeUploadCleanup \<Rightarrow> bool" where
  "row_claimed d d' row \<longleftrightarrow> row \<in> set (cleanups d) \<and> open_status (uc_status row) \<and> uc_attempt_count row < 3 \<and>
     uc_object_key row = raw_key_value (knowledge_raw_key (uc_tenant_id row) (uc_source_id row) (uc_object_id row)) \<and>
     (\<exists>row' \<in> set (cleanups d'). uc_id row' = uc_id row \<and> uc_attempt_count row < uc_attempt_count row')"

lemma row_claimed_in: "row_claimed d d' row \<Longrightarrow> row \<in> set (cleanups d)"
  by (simp add: row_claimed_def)

lemma schema_attempts: "schema_ok d \<Longrightarrow> c \<in> set (cleanups d) \<Longrightarrow> uc_attempt_count c \<le> 3"
  by (auto simp: constraint_defs list_all_iff)

lemma cleanup_run_rows:
  assumes "cleanup_run d d'" "schema_ok d" "c \<in> set (cleanups d)"
  shows "\<exists>c' \<in> set (cleanups d'). uc_id c' = uc_id c \<and> uc_object_key c' = uc_object_key c \<and>
    uc_attempt_count c \<le> uc_attempt_count c' \<and> uc_attempt_count c' \<le> 3"
  using cleanup_run_row[OF assms(1,3)] schema_attempts[OF assms(2,3)] cleanup_steps_same cleanup_steps_attempts by metis

lemma row_claimed_later:
  assumes "row_claimed d d1 row" "cleanup_run d1 d'" "schema_ok d1"
  shows "row_claimed d d' row"
proof -
  from assms(1) obtain row1 where row1: "row1 \<in> set (cleanups d1)" "uc_id row1 = uc_id row" "uc_attempt_count row < uc_attempt_count row1"
    by (auto simp: row_claimed_def)
  obtain row' where "row' \<in> set (cleanups d')" "cleanup_step\<^sup>*\<^sup>* row1 row'" using cleanup_run_row[OF assms(2) row1(1)] by blast
  with row1 cleanup_steps_same[of row1 row'] cleanup_steps_attempts[of row1 row'] schema_attempts[OF assms(3) row1(1)]
  have "\<exists>row' \<in> set (cleanups d'). uc_id row' = uc_id row \<and> uc_attempt_count row < uc_attempt_count row'" by force
  then show ?thesis using assms(1) by (simp add: row_claimed_def)
qed

lemma row_claimed_earlier:
  assumes "row_claimed d1 d' row" "cleanup_run d d1" "schema_ok d"
  obtains row0 where "row_claimed d d' row0" "cleanup_step\<^sup>*\<^sup>* row0 row"
proof -
  obtain row0 where row0: "row0 \<in> set (cleanups d)" "cleanup_step\<^sup>*\<^sup>* row0 row"
    using cleanup_run_row_back[OF assms(2)] assms(1) by (auto simp: row_claimed_def)
  have "open_status (uc_status row0)"
    using row0(2) assms(1) by (cases rule: converse_rtranclpE) (auto simp: row_claimed_def dest: cleanup_step_facts(1))
  then have "row_claimed d d' row0"
    using assms(1) row0(1) cleanup_steps_same[OF row0(2)] cleanup_steps_attempts[OF row0(2) schema_attempts[OF assms(3) row0(1)]]
    by (auto simp: row_claimed_def)
  then show thesis using row0(2) by (rule that)
qed

section \<open>The contract\<close>

locale cleanup_protocol =
  fixes body :: "uuid \<Rightarrow> uuid \<Rightarrow> 'a tx"
  assumes effect: "schema_ok d \<Longrightarrow> body t cid d = Inr (x, d') \<Longrightarrow> cleanup_effect t cid d d'"
begin

lemma txn_effect: "in_txn co (body t cid) d = (r, d') \<Longrightarrow> schema_ok d \<Longrightarrow> cleanup_effect t cid d d'"
  by (auto elim!: in_txn_cases dest: effect)

lemma txn_run:
  assumes "in_txn co (body t cid) d = (r, d')" "schema_ok d"
  shows "cleanup_run d d'"
proof -
  have "cleanup_txn d d'"
    using txn_effect[OF assms] in_txn_schema[OF assms] assms(2) by (auto simp: cleanup_txn_def)
  then show ?thesis by (rule r_into_rtranclp)
qed

text \<open>Reconciliation never makes a row \<open>referenced\<close>.\<close>

lemma txn_referenced_back:
  assumes "in_txn co (body t cid) d = (r, d')" "schema_ok d" "c \<in> set (cleanups d')" "uc_status c = Referenced"
  shows "c \<in> set (cleanups d)"
  using cleanup_effect_row_back[OF txn_effect[OF assms(1,2)] assms(3)] assms(4) cleanup_step_facts(9) by blast

end

end
