(* ===== verification/Object_Storage.thy ===== *)
theory Object_Storage
  imports Database
begin

text \<open>
  The S3 adapters of the API (\<open>services/api/app/core/object_storage.py\<close>) and of the worker
  (\<open>services/worker/app/core/object_storage.py\<close>): how a client reply becomes a value or one of the
  two storage errors, and the interface the upload and cleanup code relies on.

  The botocore client is an argument, a record of functions over an arbitrary bucket state \<open>'b\<close>;
  because the state is arbitrary it may hold a failure schedule.  \<open>s3_client_ok\<close> states the documented
  behaviour of S3 that the services rely on, with \<open>visible b k\<close> for "the bucket holds \<open>k\<close>".
  Bytes are a \<open>string\<close>; a reply is the dictionary of its JSON values and its body.
\<close>

section \<open>Client replies\<close>

fun dict_get :: "(string \<times> 'v) list \<Rightarrow> string \<Rightarrow> 'v option" where
  "dict_get [] k = None"
| "dict_get ((k', v) # kvs) k = (if k' = k then Some v else dict_get kvs k)"

fun dict_set :: "string \<Rightarrow> 'v \<Rightarrow> (string \<times> 'v) list \<Rightarrow> (string \<times> 'v) list" where
  "dict_set k v [] = [(k, v)]"
| "dict_set k v ((k', v') # kvs) = (if k' = k then (k, v) # kvs else (k', v') # dict_set k v kvs)"

datatype client_exn = ClientError "(string \<times> json) list" | BotoCoreError

datatype s3_body = NoBody | ReadRaises | ReadNotBytes | ReadBytes string

record s3_response =
  resp_fields :: "(string \<times> json) list"
  resp_body :: s3_body

record 'b s3_client =
  client_put_object :: "string \<Rightarrow> string \<Rightarrow> string \<Rightarrow> string \<Rightarrow> (string \<times> string) list \<Rightarrow> 'b \<Rightarrow> client_exn option \<times> 'b"
  client_get_object :: "string \<Rightarrow> string \<Rightarrow> 'b \<Rightarrow> client_exn + s3_response"
  client_head_object :: "string \<Rightarrow> string \<Rightarrow> 'b \<Rightarrow> client_exn + s3_response"
  client_delete_object :: "string \<Rightarrow> string \<Rightarrow> 'b \<Rightarrow> client_exn option \<times> 'b"

definition NOT_FOUND_CODES :: "string list" where
  "NOT_FOUND_CODES = [''404'', ''NoSuchKey'', ''NotFound'']"

definition is_not_found :: "(string \<times> json) list \<Rightarrow> bool" where
  "is_not_found response =
     (let code = (case dict_get response ''Error'' of
                    Some (JObj err) \<Rightarrow> (case dict_get err ''Code'' of Some (JStr c) \<Rightarrow> Some c | _ \<Rightarrow> None)
                  | _ \<Rightarrow> None)
      in case code of
           Some c \<Rightarrow> c \<in> set NOT_FOUND_CODES
         | None \<Rightarrow>
             (case dict_get response ''ResponseMetadata'' of
                Some (JObj md) \<Rightarrow> dict_get md ''HTTPStatusCode'' = Some (JInt 404)
              | _ \<Rightarrow> False))"

record StoredObjectMetadata =
  so_content_type :: "string option"
  so_content_length :: int
  so_etag :: "string option"
  so_metadata :: "(string \<times> string) list"

text \<open>\<open>isinstance(x, str)\<close> and \<open>isinstance(x, int)\<close>; a Python \<open>bool\<close> is an \<open>int\<close>.\<close>

definition as_str :: "json option \<Rightarrow> string option" where
  "as_str j = (case j of Some (JStr s) \<Rightarrow> Some s | _ \<Rightarrow> None)"

definition as_int :: "json option \<Rightarrow> int option" where
  "as_int j = (case j of Some (JInt n) \<Rightarrow> Some n | Some (JBool b) \<Rightarrow> Some (if b then 1 else 0) | _ \<Rightarrow> None)"

definition metadata_from_response :: "(string \<times> json) list \<Rightarrow> int option \<Rightarrow> StoredObjectMetadata result" where
  "metadata_from_response response fallback_length =
     bind_result
       (case as_int (dict_get response ''ContentLength'') of
          Some n \<Rightarrow> Inr n
        | None \<Rightarrow> (case fallback_length of None \<Rightarrow> Inl ObjectStorageError | Some n \<Rightarrow> Inr n)) (\<lambda>content_length.
     Inr \<lparr>so_content_type = as_str (dict_get response ''ContentType''),
          so_content_length = content_length,
          so_etag = as_str (dict_get response ''ETag''),
          so_metadata =
            (case dict_get response ''Metadata'' of
               Some (JObj kvs) \<Rightarrow> [(k, s). (k, v) \<leftarrow> kvs, s \<leftarrow> (case v of JStr s \<Rightarrow> [s] | _ \<Rightarrow> [])]
             | _ \<Rightarrow> [])\<rparr>)"

definition has_control :: "string \<Rightarrow> bool" where
  "has_control s \<longleftrightarrow> CHR 0x0D \<in> set s \<or> CHR 0x0A \<in> set s \<or> CHR 0x00 \<in> set s"

fun copy_metadata :: "(string \<times> string) list \<Rightarrow> (string \<times> string) list \<Rightarrow> (string \<times> string) list result" where
  "copy_metadata [] copied = Inr copied"
| "copy_metadata ((key, value) # rest) copied =
     (let normalized_key = lower (strip key)
      in if normalized_key = [] then Inl ValueError
         else if has_control normalized_key then Inl ValueError
         else if has_control value then Inl ValueError
         else copy_metadata rest (dict_set normalized_key value copied))"

section \<open>The API adapter\<close>

record 'b s3_adapter =
  ad_client :: "'b s3_client"
  ad_bucket :: string

definition S3ObjectStorage :: "'b s3_client \<Rightarrow> string \<Rightarrow> 'b s3_adapter result" where
  "S3ObjectStorage client bucket =
     (let normalized_bucket = strip bucket
      in if normalized_bucket = [] then Inl ValueError
         else Inr \<lparr>ad_client = client, ad_bucket = normalized_bucket\<rparr>)"

definition s3_put_object ::
  "'b s3_adapter \<Rightarrow> string \<Rightarrow> string \<Rightarrow> string \<Rightarrow> (string \<times> string) list option \<Rightarrow> 'b \<Rightarrow> unit result \<times> 'b" where
  "s3_put_object a key data content_type metadata b =
     (let normalized_content_type = strip content_type
      in if normalized_content_type = [] then (Inl ValueError, b)
         else (case (case metadata of None \<Rightarrow> Inr [] | Some m \<Rightarrow> copy_metadata m []) of
                 Inl e \<Rightarrow> (Inl e, b)
               | Inr safe_metadata \<Rightarrow>
                   (case client_put_object (ad_client a) (ad_bucket a) key data normalized_content_type safe_metadata b of
                      (None, b') \<Rightarrow> (Inr (), b')
                    | (Some _, b') \<Rightarrow> (Inl ObjectStorageError, b'))))"

definition read_body :: "s3_body \<Rightarrow> string result" where
  "read_body body = (case body of ReadBytes bs \<Rightarrow> Inr bs | _ \<Rightarrow> Inl ObjectStorageError)"

definition map_read_error :: "client_exn + 'a \<Rightarrow> 'a result" where
  "map_read_error r =
     (case r of
        Inl (ClientError e) \<Rightarrow> Inl (if is_not_found e then ObjectNotFoundError else ObjectStorageError)
      | Inl BotoCoreError \<Rightarrow> Inl ObjectStorageError
      | Inr x \<Rightarrow> Inr x)"

record StoredObject = StoredObjectMetadata +
  so_data :: string

definition s3_get_object :: "'b s3_adapter \<Rightarrow> string \<Rightarrow> 'b \<Rightarrow> StoredObject result" where
  "s3_get_object a key b =
     bind_result (map_read_error (client_get_object (ad_client a) (ad_bucket a) key b)) (\<lambda>response.
     bind_result (read_body (resp_body response)) (\<lambda>data.
     bind_result (metadata_from_response (resp_fields response) (Some (int (length data)))) (\<lambda>md.
     Inr (StoredObjectMetadata.extend md \<lparr>so_data = data\<rparr>))))"

definition s3_head :: "'b s3_adapter \<Rightarrow> string \<Rightarrow> 'b \<Rightarrow> StoredObjectMetadata result" where
  "s3_head a key b =
     bind_result (map_read_error (client_head_object (ad_client a) (ad_bucket a) key b)) (\<lambda>response.
     metadata_from_response (resp_fields response) None)"

definition s3_delete_object :: "'b s3_adapter \<Rightarrow> string \<Rightarrow> 'b \<Rightarrow> unit result \<times> 'b" where
  "s3_delete_object a key b =
     (case client_delete_object (ad_client a) (ad_bucket a) key b of
        (None, b') \<Rightarrow> (Inr (), b')
      | (Some (ClientError e), b') \<Rightarrow> if is_not_found e then (Inr (), b') else (Inl ObjectStorageError, b')
      | (Some BotoCoreError, b') \<Rightarrow> (Inl ObjectStorageError, b'))"

definition s3_exists :: "'b s3_adapter \<Rightarrow> string \<Rightarrow> 'b \<Rightarrow> bool result" where
  "s3_exists a key b =
     (case s3_head a key b of
        Inl e \<Rightarrow> if e = ObjectNotFoundError then Inr False else Inl e
      | Inr _ \<Rightarrow> Inr True)"

section \<open>The worker adapter\<close>

definition validate_key :: "string \<Rightarrow> unit result" where
  "validate_key key =
     bind_result (guard (key \<noteq> [] \<and> \<not> startswith key ''/'') ValueError) (\<lambda>_.
     guard (\<not> has_control key) ValueError)"

definition worker_is_not_found :: "(string \<times> json) list \<Rightarrow> bool" where
  "worker_is_not_found response =
     (case (case dict_get response ''Error'' of Some (JObj err) \<Rightarrow> dict_get err ''Code'' | _ \<Rightarrow> None) of
        Some (JStr c) \<Rightarrow> c \<in> set NOT_FOUND_CODES
      | _ \<Rightarrow>
          (case dict_get response ''ResponseMetadata'' of
             Some (JObj md) \<Rightarrow> dict_get md ''HTTPStatusCode'' = Some (JInt 404)
           | _ \<Rightarrow> False))"

definition worker_put_bytes :: "'b s3_adapter \<Rightarrow> string \<Rightarrow> string \<Rightarrow> string \<Rightarrow> 'b \<Rightarrow> unit result \<times> 'b" where
  "worker_put_bytes a key data content_type b =
     (case validate_key key of
        Inl e \<Rightarrow> (Inl e, b)
      | Inr _ \<Rightarrow>
          if strip content_type = [] then (Inl ValueError, b)
          else (case client_put_object (ad_client a) (ad_bucket a) key data (strip content_type) [] b of
                  (None, b') \<Rightarrow> (Inr (), b')
                | (Some _, b') \<Rightarrow> (Inl ObjectStorageError, b')))"

definition worker_map_read_error :: "client_exn + 'a \<Rightarrow> 'a result" where
  "worker_map_read_error r =
     (case r of
        Inl (ClientError e) \<Rightarrow> Inl (if worker_is_not_found e then ObjectNotFoundError else ObjectStorageError)
      | Inl BotoCoreError \<Rightarrow> Inl ObjectStorageError
      | Inr x \<Rightarrow> Inr x)"

definition worker_get_bytes :: "'b s3_adapter \<Rightarrow> string \<Rightarrow> 'b \<Rightarrow> string result" where
  "worker_get_bytes a key b =
     bind_result (validate_key key) (\<lambda>_.
     bind_result (worker_map_read_error (client_get_object (ad_client a) (ad_bucket a) key b)) (\<lambda>response.
     read_body (resp_body response)))"

definition worker_exists :: "'b s3_adapter \<Rightarrow> string \<Rightarrow> 'b \<Rightarrow> bool result" where
  "worker_exists a key b =
     bind_result (validate_key key) (\<lambda>_.
       case client_head_object (ad_client a) (ad_bucket a) key b of
         Inl (ClientError e) \<Rightarrow> if worker_is_not_found e then Inr False else Inl ObjectStorageError
       | Inl BotoCoreError \<Rightarrow> Inl ObjectStorageError
       | Inr _ \<Rightarrow> Inr True)"

definition worker_delete_object :: "'b s3_adapter \<Rightarrow> string \<Rightarrow> 'b \<Rightarrow> unit result \<times> 'b" where
  "worker_delete_object a key b =
     (case validate_key key of
        Inl e \<Rightarrow> (Inl e, b)
      | Inr _ \<Rightarrow>
          (case client_delete_object (ad_client a) (ad_bucket a) key b of
             (None, b') \<Rightarrow> (Inr (), b')
           | (Some _, b') \<Rightarrow> (Inl ObjectStorageError, b')))"

section \<open>The storage interface\<close>

text \<open>
  What the cleanup and upload code calls.  \<open>RawObjectStorage\<close> and the \<open>ObjectStorage\<close> protocol give
  the same operations on keys; \<open>st_head\<close> returns the content length.
\<close>

record 'b storage =
  st_put :: "string \<Rightarrow> string \<Rightarrow> string \<Rightarrow> (string \<times> string) list option \<Rightarrow> 'b \<Rightarrow> unit result \<times> 'b"
  st_head :: "string \<Rightarrow> 'b \<Rightarrow> int result"
  st_exists :: "string \<Rightarrow> 'b \<Rightarrow> bool result"
  st_delete :: "string \<Rightarrow> 'b \<Rightarrow> unit result \<times> 'b"

definition api_storage :: "'b s3_adapter \<Rightarrow> 'b storage" where
  "api_storage a =
     \<lparr>st_put = s3_put_object a,
      st_head = (\<lambda>k b. bind_result (s3_head a k b) (\<lambda>md. Inr (so_content_length md))),
      st_exists = s3_exists a, st_delete = s3_delete_object a\<rparr>"

text \<open>The worker protocol has no metadata and no length query: a PUT ignores the one, the other is refused.\<close>

definition worker_storage :: "'b s3_adapter \<Rightarrow> 'b storage" where
  "worker_storage a =
     \<lparr>st_put = (\<lambda>k data ct md. worker_put_bytes a k data ct), st_head = (\<lambda>k b. Inl ObjectStorageError),
      st_exists = worker_exists a, st_delete = worker_delete_object a\<rparr>"

text \<open>The laws the callers use: a reply is truthful and a call touches only its own key.\<close>

definition storage_ok :: "'b storage \<Rightarrow> ('b \<Rightarrow> string \<Rightarrow> bool) \<Rightarrow> bool" where
  "storage_ok st visible \<longleftrightarrow>
     (\<forall>k b v. st_exists st k b = Inr v \<longrightarrow> v = visible b k) \<and>
     (\<forall>k b b'. st_delete st k b = (Inr (), b') \<longrightarrow> \<not> visible b' k) \<and>
     (\<forall>k b r b' k'. st_delete st k b = (r, b') \<longrightarrow>
        (visible b' k' \<longrightarrow> visible b k') \<and> (k' \<noteq> k \<longrightarrow> visible b' k' = visible b k')) \<and>
     (\<forall>k x ct md b b'. st_put st k x ct md b = (Inr (), b') \<longrightarrow> visible b' k) \<and>
     (\<forall>k x ct md b r b' k'. st_put st k x ct md b = (r, b') \<longrightarrow> k' \<noteq> k \<longrightarrow> visible b' k' = visible b k')"

lemma storage_okD:
  assumes "storage_ok st visible"
  shows "st_exists st k b = Inr v \<Longrightarrow> visible b k = v"
    and "st_delete st k b = (Inr u, b') \<Longrightarrow> \<not> visible b' k"
    and "st_delete st k b = (r, b') \<Longrightarrow> visible b' k' \<Longrightarrow> visible b k'"
    and "st_delete st k b = (r, b') \<Longrightarrow> k' \<noteq> k \<Longrightarrow> visible b' k' = visible b k'"
    and "st_put st k x ct md b = (Inr u, b') \<Longrightarrow> visible b' k"
    and "st_put st k x ct md b = (r, b') \<Longrightarrow> k' \<noteq> k \<Longrightarrow> visible b' k' = visible b k'"
proof -
  note laws = assms[unfolded storage_ok_def]
  show "st_exists st k b = Inr v \<Longrightarrow> visible b k = v" using laws by metis
  show "st_delete st k b = (Inr u, b') \<Longrightarrow> \<not> visible b' k" using laws by (cases u) metis
  show "st_delete st k b = (r, b') \<Longrightarrow> visible b' k' \<Longrightarrow> visible b k'" using laws by metis
  show "st_delete st k b = (r, b') \<Longrightarrow> k' \<noteq> k \<Longrightarrow> visible b' k' = visible b k'" using laws by metis
  show "st_put st k x ct md b = (Inr u, b') \<Longrightarrow> visible b' k" using laws by (cases u) metis
  show "st_put st k x ct md b = (r, b') \<Longrightarrow> k' \<noteq> k \<Longrightarrow> visible b' k' = visible b k'" using laws by metis
qed

text \<open>
  S3's documented behaviour: HEAD succeeds on a stored key and answers "not found" only on an
  absent one, PUT stores, DELETE removes, an error may have taken effect or not, and a call
  touches only its own key.
\<close>

definition not_found_reply :: "client_exn \<Rightarrow> bool" where
  "not_found_reply e = (case e of ClientError r \<Rightarrow> is_not_found r | BotoCoreError \<Rightarrow> False)"

definition s3_client_ok :: "'b s3_client \<Rightarrow> string \<Rightarrow> ('b \<Rightarrow> string \<Rightarrow> bool) \<Rightarrow> bool" where
  "s3_client_ok cl bucket visible \<longleftrightarrow>
     (\<forall>k b. case client_head_object cl bucket k b of
        Inr _ \<Rightarrow> visible b k | Inl e \<Rightarrow> not_found_reply e \<longrightarrow> \<not> visible b k) \<and>
     (\<forall>k b r b' k'. client_delete_object cl bucket k b = (r, b') \<longrightarrow>
        (r = None \<or> (\<exists>e. r = Some e \<and> not_found_reply e) \<longrightarrow> \<not> visible b' k) \<and>
        (visible b' k' \<longrightarrow> visible b k') \<and> (k' \<noteq> k \<longrightarrow> visible b' k' = visible b k')) \<and>
     (\<forall>k x ct md b r b' k'. client_put_object cl bucket k x ct md b = (r, b') \<longrightarrow>
        (r = None \<longrightarrow> visible b' k) \<and> (k' \<noteq> k \<longrightarrow> visible b' k' = visible b k'))"

lemma worker_is_not_found_eq: "worker_is_not_found r = is_not_found r"
  unfolding worker_is_not_found_def is_not_found_def Let_def
  by (auto split: option.splits json.splits)

text \<open>
  C17: Over a client with S3's documented behaviour both adapters satisfy the storage laws: an
  existence answer is the truth, a delete that returns has removed the object (the API adapter's
  "not found" included), and neither touches another key.
\<close>

theorem adapters_implement_storage:
  assumes "s3_client_ok (ad_client a) (ad_bucket a) visible"
  shows "storage_ok (api_storage a) visible \<and> storage_ok (worker_storage a) visible"
proof
  note ok = assms[unfolded s3_client_ok_def]
  have head: "case client_head_object (ad_client a) (ad_bucket a) k b of
      Inr _ \<Rightarrow> visible b k | Inl e \<Rightarrow> not_found_reply e \<longrightarrow> \<not> visible b k" for k b
    using ok by blast
  have del: "client_delete_object (ad_client a) (ad_bucket a) k b = (r, b') \<Longrightarrow>
      (r = None \<or> (\<exists>e. r = Some e \<and> not_found_reply e) \<longrightarrow> \<not> visible b' k) \<and>
      (visible b' k' \<longrightarrow> visible b k') \<and> (k' \<noteq> k \<longrightarrow> visible b' k' = visible b k')" for k b r b' k'
    using ok by blast
  have put: "client_put_object (ad_client a) (ad_bucket a) k x ct md b = (r, b') \<Longrightarrow>
      (r = None \<longrightarrow> visible b' k) \<and> (k' \<noteq> k \<longrightarrow> visible b' k' = visible b k')" for k x ct md b r b' k'
    using ok by blast
  have ex: "s3_exists a k b = Inr v \<Longrightarrow> v = visible b k" for k b v
    using head[of b k]
    by (auto simp: s3_exists_def s3_head_def map_read_error_def not_found_reply_def metadata_from_response_def
        split: sum.splits if_splits client_exn.splits option.splits)
  have wex: "worker_exists a k b = Inr v \<Longrightarrow> v = visible b k" for k b v
    using head[of b k]
    by (auto simp: worker_exists_def result_simps not_found_reply_def worker_is_not_found_eq
        split: sum.splits if_splits client_exn.splits)
  show "storage_ok (api_storage a) visible"
    unfolding storage_ok_def api_storage_def
    by (auto simp: s3_delete_object_def s3_put_object_def not_found_reply_def Let_def ex
        split: prod.splits option.splits client_exn.splits if_splits sum.splits dest: del put)
  show "storage_ok (worker_storage a) visible"
    unfolding storage_ok_def worker_storage_def
    by (auto simp: worker_delete_object_def worker_put_bytes_def wex
        split: prod.splits option.splits if_splits sum.splits dest: del put)
qed

text \<open>A bucket that is the list of its keys.\<close>

definition list_client :: "string list s3_client" where
  "list_client =
     \<lparr>client_put_object = (\<lambda>bk k x ct md b. (None, k # b)),
      client_get_object = (\<lambda>bk k b. if k \<in> set b
         then Inr \<lparr>resp_fields = [], resp_body = ReadBytes []\<rparr>
         else Inl (ClientError [(''Error'', JObj [(''Code'', JStr ''NoSuchKey'')])])),
      client_head_object = (\<lambda>bk k b. if k \<in> set b
         then Inr \<lparr>resp_fields = [(''ContentLength'', JInt 0)], resp_body = NoBody\<rparr>
         else Inl (ClientError [(''Error'', JObj [(''Code'', JStr ''404'')])])),
      client_delete_object = (\<lambda>bk k b. (None, filter (\<lambda>x. x \<noteq> k) b))\<rparr>"

definition list_adapter :: "string list s3_adapter" where
  "list_adapter = \<lparr>ad_client = list_client, ad_bucket = ''raw''\<rparr>"

lemma list_client_ok: "s3_client_ok list_client bk (\<lambda>b k. k \<in> set b)"
  by (auto simp: s3_client_ok_def list_client_def split: if_splits)

lemma list_storage_ok: "storage_ok (api_storage list_adapter) (\<lambda>b k. k \<in> set b)"
  "storage_ok (worker_storage list_adapter) (\<lambda>b k. k \<in> set b)"
  by (auto simp: storage_ok_def api_storage_def worker_storage_def list_adapter_def list_client_def
      s3_exists_def s3_head_def s3_delete_object_def s3_put_object_def worker_exists_def worker_delete_object_def
      worker_put_bytes_def map_read_error_def is_not_found_def metadata_from_response_def as_int_def NOT_FOUND_CODES_def
      worker_is_not_found_def Let_def result_simps
      split: if_splits option.splits sum.splits)

theorem adapters_implement_storage_witness:
  "storage_ok (api_storage list_adapter) (\<lambda>b k. k \<in> set b) \<and>
   storage_ok (worker_storage list_adapter) (\<lambda>b k. k \<in> set b)"
  by (rule adapters_implement_storage) (simp add: list_adapter_def list_client_ok)

end
