(* ===== verification/Upload_Cleanup.thy ===== *)
theory Upload_Cleanup
  imports Cleanup_Protocol Object_Storage
begin

text \<open>
  \<open>services/api/app/modules/knowledge/cleanup.py\<close>: durable reconciliation of failed raw uploads.
  Each \<open>async with session.begin()\<close> block is a transaction body (\<open>..._body\<close>); the functions that
  run several transactions with storage calls in between thread the database and the bucket.

  The locale \<open>cleanup_protocol\<close> is interpreted on every transaction body of this file.
\<close>

section \<open>Deadlines\<close>

definition PREPARED_STALE_AFTER :: int where
  "PREPARED_STALE_AFTER = minutes 15"

definition FIRST_RETRY_DELAY :: int where
  "FIRST_RETRY_DELAY = seconds 30"

definition SECOND_RETRY_DELAY :: int where
  "SECOND_RETRY_DELAY = minutes 5"

definition THIRD_RETRY_DELAY :: int where
  "THIRD_RETRY_DELAY = minutes 30"

definition MAX_RECONCILIATION_ATTEMPTS :: int where
  "MAX_RECONCILIATION_ATTEMPTS = 3"

definition OBJECT_STORAGE_ERROR_CODE :: string where
  "OBJECT_STORAGE_ERROR_CODE = ''OBJECT_STORAGE_UNAVAILABLE''"

definition PUT_OUTCOME_AMBIGUOUS_ERROR_CODE :: string where
  "PUT_OUTCOME_AMBIGUOUS_ERROR_CODE = ''OBJECT_STORAGE_PUT_OUTCOME_AMBIGUOUS''"

definition SOURCE_PERSISTENCE_ERROR_CODE :: string where
  "SOURCE_PERSISTENCE_ERROR_CODE = ''KNOWLEDGE_SOURCE_PERSISTENCE_FAILED''"

definition KEY_MISMATCH_ERROR_CODE :: string where
  "KEY_MISMATCH_ERROR_CODE = ''KNOWLEDGE_UPLOAD_CLEANUP_KEY_MISMATCH''"

definition prepared_cleanup_due_at :: "timestamp \<Rightarrow> timestamp" where
  "prepared_cleanup_due_at now = now + PREPARED_STALE_AFTER"

definition first_retry_due_at :: "timestamp \<Rightarrow> timestamp" where
  "first_retry_due_at now = now + FIRST_RETRY_DELAY"

definition lease_until :: "timestamp \<Rightarrow> int \<Rightarrow> timestamp" where
  "lease_until now attempt_count = (if attempt_count = 1 then now + SECOND_RETRY_DELAY else now + THIRD_RETRY_DELAY)"

section \<open>Results and claims\<close>

datatype CleanupReplayOutcome =
    NotDue | NoopReferenced | NoopSucceeded | ReplayExhausted | ReplaySucceeded | RetryScheduled

record CleanupReplayResult =
  rr_cleanup_id :: uuid
  rr_tenant_id :: uuid
  rr_outcome :: CleanupReplayOutcome
  rr_attempt_count :: int

record CleanupClaim =
  cc_cleanup_id :: uuid
  cc_tenant_id :: uuid
  cc_source_id :: uuid
  cc_object_id :: uuid
  cc_attempt_count :: int
  cc_requires_presence_confirmation :: bool
  cc_object_key :: string

definition replay_result :: "KnowledgeUploadCleanup \<Rightarrow> CleanupReplayOutcome \<Rightarrow> CleanupReplayResult" where
  "replay_result c outcome =
     \<lparr>rr_cleanup_id = uc_id c, rr_tenant_id = uc_tenant_id c, rr_outcome = outcome,
      rr_attempt_count = uc_attempt_count c\<rparr>"

definition claim_of_row :: "KnowledgeUploadCleanup \<Rightarrow> bool \<Rightarrow> CleanupClaim" where
  "claim_of_row c confirm =
     \<lparr>cc_cleanup_id = uc_id c, cc_tenant_id = uc_tenant_id c, cc_source_id = uc_source_id c,
      cc_object_id = uc_object_id c, cc_attempt_count = uc_attempt_count c,
      cc_requires_presence_confirmation = confirm, cc_object_key = uc_object_key c\<rparr>"

text \<open>\<open>get_upload_cleanup_for_update\<close> followed by the check for a missing row.\<close>

definition locked_cleanup :: "uuid \<Rightarrow> uuid \<Rightarrow> KnowledgeUploadCleanup tx" where
  "locked_cleanup t cid =
     tx_bind (tx_query (get_upload_cleanup_for_update t cid)) (\<lambda>found.
       case found of None \<Rightarrow> tx_raise KnowledgeUploadCleanupUnavailableError | Some c \<Rightarrow> tx_return c)"

text \<open>A change of the loaded row is written back at the next flush.\<close>

definition write_marked :: "KnowledgeUploadCleanup result \<Rightarrow> KnowledgeUploadCleanup tx" where
  "write_marked r =
     (case r of Inl e \<Rightarrow> tx_raise e
      | Inr c \<Rightarrow> tx_bind (tx_write (save_cleanup c)) (\<lambda>_. tx_return c))"

section \<open>Request-time transitions\<close>

definition arm_body :: "string \<Rightarrow> timestamp \<Rightarrow> uuid \<Rightarrow> uuid \<Rightarrow> unit tx" where
  "arm_body err now t cid =
     tx_bind (locked_cleanup t cid) (\<lambda>c.
       if uc_status c \<in> {Referenced, Succeeded, Exhausted} then tx_return ()
       else tx_bind (write_marked (mark_upload_cleanup_pending c (first_retry_due_at now) err now)) (\<lambda>_. flush))"

definition arm_upload_cleanup ::
  "commit_outcome \<Rightarrow> uuid \<Rightarrow> uuid \<Rightarrow> string \<Rightarrow> timestamp \<Rightarrow> db \<Rightarrow> unit result \<times> db" where
  "arm_upload_cleanup co t cid err now d = in_txn co (arm_body err now t cid) d"

definition inline_succeeded_body :: "timestamp \<Rightarrow> uuid \<Rightarrow> uuid \<Rightarrow> unit tx" where
  "inline_succeeded_body now t cid =
     tx_bind (locked_cleanup t cid) (\<lambda>c.
       if uc_status c \<in> {Referenced, Exhausted} then tx_return ()
       else tx_bind (if uc_status c \<noteq> Succeeded then write_marked (mark_upload_cleanup_succeeded c now)
                     else tx_return c) (\<lambda>_.
            tx_bind (tx_write (release_upload_reservation_for_cleanup t cid)) (\<lambda>_. flush)))"

definition mark_inline_cleanup_succeeded ::
  "commit_outcome \<Rightarrow> uuid \<Rightarrow> uuid \<Rightarrow> timestamp \<Rightarrow> db \<Rightarrow> unit result \<times> db" where
  "mark_inline_cleanup_succeeded co t cid now d = in_txn co (inline_succeeded_body now t cid) d"

section \<open>Replay\<close>

text \<open>\<open>cleanup.last_error_code or OBJECT_STORAGE_ERROR_CODE\<close>: an empty string is false as well.\<close>

definition error_or_default :: "string option \<Rightarrow> string" where
  "error_or_default e = (case e of None \<Rightarrow> OBJECT_STORAGE_ERROR_CODE | Some s \<Rightarrow> if s = [] then OBJECT_STORAGE_ERROR_CODE else s)"

text \<open>The branches of \<open>_claim_due_cleanup\<close> for a row that is still prepared or pending.\<close>

definition claim_open :: "timestamp \<Rightarrow> KnowledgeUploadCleanup \<Rightarrow> (CleanupReplayResult + CleanupClaim) tx" where
  "claim_open now c =
     (if (case uc_next_attempt_at c of None \<Rightarrow> True | Some due \<Rightarrow> due > now)
      then tx_return (Inl (replay_result c NotDue))
      else if uc_attempt_count c \<ge> MAX_RECONCILIATION_ATTEMPTS
      then tx_bind (write_marked (mark_upload_cleanup_exhausted c (error_or_default (uc_last_error_code c)) now)) (\<lambda>c'.
           tx_bind flush (\<lambda>_. tx_return (Inl (replay_result c' ReplayExhausted))))
      else if raw_key_value (knowledge_raw_key (uc_tenant_id c) (uc_source_id c) (uc_object_id c)) \<noteq> uc_object_key c
      then tx_bind (write_marked (mark_upload_cleanup_exhausted
                      (c\<lparr>uc_attempt_count := MAX_RECONCILIATION_ATTEMPTS\<rparr>) KEY_MISMATCH_ERROR_CODE now)) (\<lambda>c'.
           tx_bind flush (\<lambda>_. tx_return (Inl (replay_result c' ReplayExhausted))))
      else
        (let confirm = (uc_status c = Prepared \<or> uc_last_error_code c = Some PUT_OUTCOME_AMBIGUOUS_ERROR_CODE);
             err = (if uc_status c = Prepared \<and> uc_last_error_code c = None
                    then Some PUT_OUTCOME_AMBIGUOUS_ERROR_CODE else uc_last_error_code c);
             n = uc_attempt_count c + 1;
             c' = c\<lparr>uc_status := Pending, uc_attempt_count := n, uc_next_attempt_at := Some (lease_until now n),
                    uc_last_error_code := err, uc_updated_at := now\<rparr>
         in tx_bind (tx_write (save_cleanup c')) (\<lambda>_.
            tx_bind flush (\<lambda>_. tx_return (Inr (claim_of_row c' confirm))))))"

definition claim_body :: "timestamp \<Rightarrow> uuid \<Rightarrow> uuid \<Rightarrow> (CleanupReplayResult + CleanupClaim) tx" where
  "claim_body now t cid =
     tx_bind (locked_cleanup t cid) (\<lambda>c.
       if uc_status c = Referenced
       then tx_bind (tx_write (release_upload_reservation_for_cleanup t cid)) (\<lambda>_.
            tx_return (Inl (replay_result c NoopReferenced)))
       else if uc_status c = Succeeded
       then tx_bind (tx_write (release_upload_reservation_for_cleanup t cid)) (\<lambda>_.
            tx_return (Inl (replay_result c NoopSucceeded)))
       else if uc_status c = Exhausted then tx_return (Inl (replay_result c ReplayExhausted))
       else claim_open now c)"

definition failed_attempt_body :: "string \<Rightarrow> timestamp \<Rightarrow> uuid \<Rightarrow> uuid \<Rightarrow> CleanupReplayResult tx" where
  "failed_attempt_body err now t cid =
     tx_bind (locked_cleanup t cid) (\<lambda>c.
       if uc_status c \<in> {Referenced, Succeeded}
       then tx_bind (tx_write (release_upload_reservation_for_cleanup t cid)) (\<lambda>_.
            tx_return (replay_result c (if uc_status c = Referenced then NoopReferenced else NoopSucceeded)))
       else if uc_status c = Exhausted then tx_return (replay_result c ReplayExhausted)
       else if uc_attempt_count c \<ge> MAX_RECONCILIATION_ATTEMPTS
       then tx_bind (write_marked (mark_upload_cleanup_exhausted c err now)) (\<lambda>c'.
            tx_bind flush (\<lambda>_. tx_return (replay_result c' ReplayExhausted)))
       else (let c' = c\<lparr>uc_status := Pending, uc_last_error_code := Some err, uc_updated_at := now\<rparr>
             in tx_bind (tx_write (save_cleanup c')) (\<lambda>_.
                tx_bind flush (\<lambda>_. tx_return (replay_result c' RetryScheduled)))))"

definition deleted_body :: "timestamp \<Rightarrow> uuid \<Rightarrow> uuid \<Rightarrow> CleanupReplayResult tx" where
  "deleted_body now t cid =
     tx_bind (locked_cleanup t cid) (\<lambda>c.
       if uc_status c = Referenced
       then tx_bind (tx_write (release_upload_reservation_for_cleanup t cid)) (\<lambda>_.
            tx_return (replay_result c NoopReferenced))
       else tx_bind (if uc_status c \<noteq> Succeeded then write_marked (mark_upload_cleanup_succeeded c now)
                     else tx_return c) (\<lambda>c'.
            tx_bind (tx_write (release_upload_reservation_for_cleanup t cid)) (\<lambda>_.
            tx_bind flush (\<lambda>_. tx_return (replay_result c' ReplaySucceeded)))))"

text \<open>What the database answers during one replay, and the second reading of the clock.\<close>

record replay_env =
  re_claim :: commit_outcome
  re_final :: commit_outcome
  re_later :: timestamp

definition reconcile_upload_cleanup ::
  "replay_env \<Rightarrow> 'b storage \<Rightarrow> timestamp \<Rightarrow> uuid \<Rightarrow> uuid \<Rightarrow> db \<times> 'b \<Rightarrow> CleanupReplayResult result \<times> db \<times> 'b"
  where
  "reconcile_upload_cleanup env st now t cid w =
     (case w of (d, b) \<Rightarrow>
      case in_txn (re_claim env) (claim_body now t cid) d of
        (Inl e, d1) \<Rightarrow> (Inl e, d1, b)
      | (Inr (Inl res), d1) \<Rightarrow> (Inr res, d1, b)
      | (Inr (Inr claim), d1) \<Rightarrow>
          (let key = raw_key_value (knowledge_raw_key (cc_tenant_id claim) (cc_source_id claim) (cc_object_id claim));
               failed = (\<lambda>err b'. case in_txn (re_final env) (failed_attempt_body err (re_later env) t cid) d1 of
                            (r, d2) \<Rightarrow> (r, d2, b'));
               delete = (case st_delete st key b of
                   (Inl e, b') \<Rightarrow> if e \<in> {ObjectStorageError, ObjectNotFoundError}
                                 then failed OBJECT_STORAGE_ERROR_CODE b' else (Inl e, d1, b')
                 | (Inr _, b') \<Rightarrow>
                     (case in_txn (re_final env) (deleted_body (re_later env) t cid) d1 of (r, d2) \<Rightarrow> (r, d2, b')))
           in if cc_requires_presence_confirmation claim
              then (case st_exists st key b of
                      Inl e \<Rightarrow> if e \<in> {ObjectStorageError, ObjectNotFoundError}
                              then failed PUT_OUTCOME_AMBIGUOUS_ERROR_CODE b else (Inl e, d1, b)
                    | Inr visible \<Rightarrow> if \<not> visible then failed PUT_OUTCOME_AMBIGUOUS_ERROR_CODE b else delete)
              else delete))"

fun reconcile_each ::
  "(uuid \<Rightarrow> replay_env) \<Rightarrow> 'b storage \<Rightarrow> timestamp \<Rightarrow> (uuid \<times> uuid) list \<Rightarrow> db \<times> 'b
     \<Rightarrow> CleanupReplayResult list result \<times> db \<times> 'b" where
  "reconcile_each env st now [] w = (Inr [], w)"
| "reconcile_each env st now ((t, cid) # due) w =
     (case reconcile_upload_cleanup (env cid) st now t cid w of
        (Inl e, w1) \<Rightarrow> (Inl e, w1)
      | (Inr res, w1) \<Rightarrow>
          (case reconcile_each env st now due w1 of
             (Inl e, w2) \<Rightarrow> (Inl e, w2)
           | (Inr results, w2) \<Rightarrow> (Inr (res # results), w2)))"

definition reconcile_due_upload_cleanups ::
  "commit_outcome \<Rightarrow> (uuid \<Rightarrow> replay_env) \<Rightarrow> 'b storage \<Rightarrow> timestamp \<Rightarrow> nat \<Rightarrow> db \<times> 'b
     \<Rightarrow> CleanupReplayResult list result \<times> db \<times> 'b" where
  "reconcile_due_upload_cleanups co env st now limit w =
     (case in_txn co (tx_read (list_due_upload_cleanup_ids now limit)) (fst w) of
        (Inl e, d1) \<Rightarrow> (Inl e, d1, snd w)
      | (Inr due, d1) \<Rightarrow> reconcile_each env st now due (d1, snd w))"

section \<open>The bodies keep the contract\<close>

lemma locked_cleanup_Inr:
  "locked_cleanup t cid d = Inr (c, d') \<Longrightarrow> c \<in> set (cleanups d) \<and> uc_id c = cid \<and> uc_tenant_id c = t \<and> d' = d"
  using get_upload_cleanup_for_update_Some[of t cid d]
  by (auto simp: locked_cleanup_def result_simps split: option.splits)

lemma write_marked_Inr [result_simps]:
  "write_marked r d = Inr (c, d') \<longleftrightarrow> r = Inr c \<and> d' = save_cleanup c d"
  by (auto simp: write_marked_def result_simps split: sum.splits)

lemma marked_steps:
  "mark_upload_cleanup_pending c due e now = Inr c' \<Longrightarrow> cleanup_step c c'"
  "mark_upload_cleanup_exhausted c e now = Inr c' \<Longrightarrow> cleanup_step c c'"
  "mark_upload_cleanup_exhausted (c\<lparr>uc_attempt_count := 3\<rparr>) e now = Inr c' \<Longrightarrow> cleanup_step c c'"
  "mark_upload_cleanup_succeeded c now = Inr c' \<Longrightarrow> uc_status c \<noteq> Succeeded \<Longrightarrow>
     cleanup_step c c' \<and> uc_status c' = Succeeded"
proof -
  show "mark_upload_cleanup_pending c due e now = Inr c' \<Longrightarrow> cleanup_step c c'"
    by (auto simp: mark_defs split: if_splits intro: cleanup_step.arm)
  show "mark_upload_cleanup_exhausted c e now = Inr c' \<Longrightarrow> cleanup_step c c'"
    using cleanup_step.exhaust[of c "uc_attempt_count c" now e] by (auto simp: mark_defs split: if_splits)
  show "mark_upload_cleanup_exhausted (c\<lparr>uc_attempt_count := 3\<rparr>) e now = Inr c' \<Longrightarrow> cleanup_step c c'"
    using cleanup_step.exhaust[of c 3 now e] by (auto simp: mark_defs split: if_splits)
  show "mark_upload_cleanup_succeeded c now = Inr c' \<Longrightarrow> uc_status c \<noteq> Succeeded \<Longrightarrow>
     cleanup_step c c' \<and> uc_status c' = Succeeded"
    using cleanup_step.succeed[of c now] by (cases "uc_status c") (auto simp: mark_defs)
qed

interpretation arm: cleanup_protocol "arm_body err now" for err now
proof
  fix t cid d x d'
  assume "schema_ok d" "arm_body err now t cid d = Inr (x, d')"
  then show "cleanup_effect t cid d d'"
    by (auto simp: arm_body_def result_simps split: if_splits
        dest!: locked_cleanup_Inr marked_steps intro: cleanup_effects)
qed

interpretation inline: cleanup_protocol "inline_succeeded_body now" for now
proof
  fix t cid d x d'
  assume "schema_ok d" "inline_succeeded_body now t cid d = Inr (x, d')"
  then show "cleanup_effect t cid d d'"
    by (auto simp: inline_succeeded_body_def result_simps split: if_splits
        dest!: locked_cleanup_Inr marked_steps(4) intro: cleanup_effects)
qed

text \<open>The outcomes of the claiming transaction, by the state of the row.\<close>

lemma claim_open_cases:
  assumes "claim_open now c d = Inr (x, d')" "open_status (uc_status c)"
  obtains "d' = d" "\<not> cleanup_due now c" "x = Inl (replay_result c NotDue)"
  | c' where "d' = save_cleanup c' d" "cleanup_due now c" "cleanup_step c c'" "uc_status c' = Exhausted"
      "x = Inl (replay_result c' ReplayExhausted)"
  | c' confirm where "d' = save_cleanup c' d" "cleanup_due now c" "cleanup_step c c'" "uc_status c' = Pending"
      "uc_attempt_count c' = uc_attempt_count c + 1" "uc_attempt_count c < 3" "x = Inr (claim_of_row c' confirm)"
      "uc_status c = Prepared \<Longrightarrow> confirm"
      "uc_object_key c = raw_key_value (knowledge_raw_key (uc_tenant_id c) (uc_source_id c) (uc_object_id c))"
proof -
  note cases = that
  let ?nd = "case uc_next_attempt_at c of None \<Rightarrow> True | Some due \<Rightarrow> due > now"
  have due: "cleanup_due now c \<longleftrightarrow> \<not> ?nd"
    using assms(2) by (auto simp: cleanup_due_def split: option.splits)
  have exhausted: thesis if "mark_upload_cleanup_exhausted c0 e now = Inr c'" "d' = save_cleanup c' d" "\<not> ?nd"
      "x = Inl (replay_result c' ReplayExhausted)" "c0 = c \<or> c0 = c\<lparr>uc_attempt_count := 3\<rparr>" for c0 c' e
  proof (rule cases(2)[OF that(2)])
    show "cleanup_step c c'" using that(1,5) by (auto intro: marked_steps)
    show "uc_status c' = Exhausted" using that(1) by (auto simp: mark_defs split: if_splits)
  qed (use that due in auto)
  define err n where "err = (if uc_status c = Prepared \<and> uc_last_error_code c = None
      then Some PUT_OUTCOME_AMBIGUOUS_ERROR_CODE else uc_last_error_code c)" and "n = uc_attempt_count c + 1"
  define c' where "c' = c\<lparr>uc_status := Pending, uc_attempt_count := n, uc_next_attempt_at := Some (lease_until now n),
      uc_last_error_code := err, uc_updated_at := now\<rparr>"
  consider "?nd" | "\<not> ?nd" "uc_attempt_count c \<ge> 3 \<or>
      raw_key_value (knowledge_raw_key (uc_tenant_id c) (uc_source_id c) (uc_object_id c)) \<noteq> uc_object_key c"
    | "\<not> ?nd" "uc_attempt_count c < 3"
      "raw_key_value (knowledge_raw_key (uc_tenant_id c) (uc_source_id c) (uc_object_id c)) = uc_object_key c"
    by linarith
  then show thesis
  proof cases
    case 1
    then show thesis using assms due cases(1) by (simp add: claim_open_def result_simps)
  next
    case 2
    then show thesis
      using assms exhausted by (auto simp: claim_open_def result_simps MAX_RECONCILIATION_ATTEMPTS_def split: if_splits)
  next
    case 3
    then have "d' = save_cleanup c' d \<and>
         x = Inr (claim_of_row c' (uc_status c = Prepared \<or> uc_last_error_code c = Some PUT_OUTCOME_AMBIGUOUS_ERROR_CODE))"
      using assms by (simp add: claim_open_def result_simps MAX_RECONCILIATION_ATTEMPTS_def Let_def err_def[symmetric]
          n_def[symmetric] c'_def[symmetric])
    moreover have "cleanup_step c c'" unfolding c'_def n_def using assms(2) 3 by (intro cleanup_step.claim) auto
    ultimately show thesis using 3 due
      by (intro cases(3)[of c' "uc_status c = Prepared \<or> uc_last_error_code c = Some PUT_OUTCOME_AMBIGUOUS_ERROR_CODE"])
        (auto simp: c'_def n_def)
  qed
qed

lemma claim_body_cases:
  assumes "claim_body now t cid d = Inr (x, d')"
  obtains c where "c \<in> set (cleanups d)" "uc_id c = cid" "uc_tenant_id c = t" "\<not> open_status (uc_status c)"
      "d' = d \<or> (d' = release_upload_reservation_for_cleanup t cid d \<and> uc_status c \<in> {Referenced, Succeeded})"
      "\<exists>res. x = Inl res \<and> rr_outcome res \<noteq> ReplaySucceeded"
  | c where "c \<in> set (cleanups d)" "uc_id c = cid" "uc_tenant_id c = t" "open_status (uc_status c)"
      "claim_open now c d = Inr (x, d')"
proof -
  from assms obtain c where run: "locked_cleanup t cid d = Inr (c, d)"
    unfolding claim_body_def tx_bind_Inr_iff using locked_cleanup_Inr by metis
  note c = locked_cleanup_Inr[OF run]
  note body = assms[unfolded claim_body_def tx_bind_def[of "locked_cleanup t cid"] run sum.case prod.case]
  show thesis
    using body c that(1)[of c] that(2)[of c]
    by (cases "uc_status c") (auto simp: result_simps replay_result_def)
qed

interpretation claim: cleanup_protocol "claim_body now" for now
proof
  fix t cid d x d'
  assume "schema_ok d" and body: "claim_body now t cid d = Inr (x, d')"
  from body show "cleanup_effect t cid d d'"
  proof (cases rule: claim_body_cases)
    case (2 c)
    from 2(5,4) show ?thesis by (cases rule: claim_open_cases) (use 2 in \<open>auto intro: cleanup_effects\<close>)
  qed (auto intro: cleanup_effects)
qed

interpretation failed: cleanup_protocol "failed_attempt_body err now" for err now
proof
  fix t cid d x d'
  assume "schema_ok d" and body: "failed_attempt_body err now t cid d = Inr (x, d')"
  from body obtain c where run: "locked_cleanup t cid d = Inr (c, d)"
    unfolding failed_attempt_body_def tx_bind_Inr_iff using locked_cleanup_Inr by metis
  note c = locked_cleanup_Inr[OF run]
  note body = body[unfolded failed_attempt_body_def tx_bind_def[of "locked_cleanup t cid"] run sum.case prod.case]
  show "cleanup_effect t cid d d'"
    using body c by (cases "uc_status c")
      (auto simp: result_simps Let_def split: if_splits dest!: marked_steps(2) intro: cleanup_effects cleanup_step.retry)
qed

interpretation deleted: cleanup_protocol "deleted_body now" for now
proof
  fix t cid d x d'
  assume "schema_ok d" "deleted_body now t cid d = Inr (x, d')"
  then show "cleanup_effect t cid d d'"
    by (auto simp: deleted_body_def result_simps split: if_splits
        dest!: locked_cleanup_Inr marked_steps(4) intro: cleanup_effects)
qed

section \<open>Replay\<close>

lemma reconcile_upload_cleanup_run:
  assumes "reconcile_upload_cleanup env st now t cid (d, b) = (r, d', b')" "schema_ok d"
  shows "cleanup_run d d'"
proof -
  have claim: "cleanup_run d d1" "schema_ok d1" if "in_txn (re_claim env) (claim_body now t cid) d = (x, d1)" for x d1
    using claim.txn_run[OF that assms(2)] in_txn_schema[OF that assms(2)] by auto
  have final: "cleanup_run d d2"
    if "in_txn (re_claim env) (claim_body now t cid) d = (x, d1)"
      and "in_txn (re_final env) (failed_attempt_body e (re_later env) t cid) d1 = (y, d2)
           \<or> in_txn (re_final env) (deleted_body (re_later env) t cid) d1 = (y, d2)" for x y e d1 d2
    using that(2) claim[OF that(1)] failed.txn_run[of "re_final env" e "re_later env" t cid d1 y d2]
      deleted.txn_run[of "re_final env" "re_later env" t cid d1 y d2] by (auto intro: rtranclp_trans)
  show ?thesis
    using assms(1) unfolding reconcile_upload_cleanup_def
    by (auto simp: Let_def split: prod.splits sum.splits if_splits dest: claim final)
qed

lemma reconcile_each_run:
  "reconcile_each env st now due w = (r, w') \<Longrightarrow> schema_ok (fst w) \<Longrightarrow> cleanup_run (fst w) (fst w')"
proof (induction env st now due w arbitrary: r w' rule: reconcile_each.induct)
  case (2 env st now t cid due w)
  obtain r1 d1 b1 where one: "reconcile_upload_cleanup (env cid) st now t cid w = (r1, d1, b1)"
    by (metis prod.collapse)
  have run: "cleanup_run (fst w) d1"
    using reconcile_upload_cleanup_run[of "env cid" st now t cid "fst w" "snd w"] one 2(3) by simp
  note ok = cleanup_run_schema[OF run 2(3)]
  show ?case
  proof (cases r1)
    case (Inr res)
    have "cleanup_run d1 (fst w')"
      using 2(2) 2(1)[OF one[symmetric] Inr, of _ w'] ok one Inr
      by (auto split: prod.splits sum.splits)
    with run show ?thesis by (rule rtranclp_trans)
  qed (use run 2(2) one in auto)
qed simp

section \<open>What a replay deletes\<close>

lemma failed_attempt_outcome:
  assumes "in_txn co (failed_attempt_body err now t cid) d = (Inr res, d')"
  shows "rr_outcome res \<noteq> ReplaySucceeded"
  using in_txn_Inr[OF assms]
  by (auto simp: failed_attempt_body_def result_simps Let_def replay_result_def split: if_splits)

lemma claim_txn_outcome:
  assumes "in_txn co (claim_body now t cid) d = (Inr (Inl res), d')"
  shows "rr_outcome res \<noteq> ReplaySucceeded"
proof -
  have "claim_body now t cid d = Inr (Inl res, d')" using in_txn_Inr[OF assms] by simp
  then show ?thesis
  proof (cases rule: claim_body_cases)
    case (2 c)
    from 2(5,4) show ?thesis by (cases rule: claim_open_cases) (auto simp: replay_result_def)
  qed auto
qed

lemma deleted_body_success:
  assumes "deleted_body now t cid d = Inr (res, d')" "rr_outcome res = ReplaySucceeded"
  shows "(\<exists>c \<in> set (cleanups d'). uc_id c = cid \<and> uc_tenant_id c = t \<and> uc_status c = Succeeded) \<and>
    (\<forall>q \<in> set (reservations d'). \<not> (ur_tenant_id q = t \<and> ur_cleanup_id q = Some cid))"
proof -
  from assms obtain c where c: "c \<in> set (cleanups d)" "uc_id c = cid" "uc_tenant_id c = t"
    and d': "(d' = release_upload_reservation_for_cleanup t cid d \<and> uc_status c = Succeeded) \<or>
      (\<exists>c'. mark_upload_cleanup_succeeded c now = Inr c' \<and>
        d' = release_upload_reservation_for_cleanup t cid (save_cleanup c' d))"
    by (auto simp: deleted_body_def result_simps replay_result_def split: if_splits dest!: locked_cleanup_Inr)
  have "uc_id c' = cid \<and> uc_tenant_id c' = t \<and> uc_status c' = Succeeded"
    if "mark_upload_cleanup_succeeded c now = Inr c'" for c'
    using that c by (auto simp: mark_defs split: if_splits)
  with c d' show ?thesis
    by (auto simp: release_upload_reservation_for_cleanup_def set_save_cleanup image_iff)
qed

lemma reconcile_upload_cleanup_cases:
  assumes "reconcile_upload_cleanup env st now t cid (d, b) = (r, d', b')"
  obtains "b' = b" "\<And>res. r = Inr res \<Longrightarrow> rr_outcome res \<noteq> ReplaySucceeded"
  | claim d1 q where "in_txn (re_claim env) (claim_body now t cid) d = (Inr (Inr claim), d1)"
      "st_delete st (raw_key_value (knowledge_raw_key (cc_tenant_id claim) (cc_source_id claim) (cc_object_id claim))) b = (q, b')"
      "cc_requires_presence_confirmation claim \<Longrightarrow>
        st_exists st (raw_key_value (knowledge_raw_key (cc_tenant_id claim) (cc_source_id claim) (cc_object_id claim))) b = Inr True"
      "(q = Inr () \<and> in_txn (re_final env) (deleted_body (re_later env) t cid) d1 = (r, d')) \<or>
       (\<forall>res. r = Inr res \<longrightarrow> rr_outcome res \<noteq> ReplaySucceeded)"
proof -
  obtain x d1 where txn: "in_txn (re_claim env) (claim_body now t cid) d = (x, d1)" by fastforce
  show thesis
  proof (cases "\<exists>claim. x = Inr (Inr claim)")
    case False
    with assms txn claim_txn_outcome show thesis
      by (intro that(1)) (auto simp: reconcile_upload_cleanup_def split: sum.splits)
  next
    case True
    then obtain claim where x: "x = Inr (Inr claim)" by blast
    let ?key = "raw_key_value (knowledge_raw_key (cc_tenant_id claim) (cc_source_id claim) (cc_object_id claim))"
    show thesis
    proof (cases "cc_requires_presence_confirmation claim \<longrightarrow> st_exists st ?key b = Inr True")
      case True
      with assms txn x failed_attempt_outcome show thesis
        by (intro that(2)[of claim d1 "fst (st_delete st ?key b)"])
          (auto simp: reconcile_upload_cleanup_def Let_def split: sum.splits prod.splits if_splits)
    next
      case False
      with assms txn x failed_attempt_outcome show thesis
        by (intro that(1))
          (auto simp: reconcile_upload_cleanup_def Let_def split: sum.splits prod.splits if_splits)
    qed
  qed
qed

text \<open>
  A replay removes at most the object of the cleanup it was asked for, and only when that row
  was due, unresolved and below three attempts.  If it reports success, the object is gone, the row
  is \<open>succeeded\<close>, no reservation is linked to it any more, and an upload whose outcome was unknown
  (a \<open>prepared\<close> row) had been seen in the bucket before.
\<close>

theorem replay_deletes_only_claimed:
  assumes "storage_ok st visible" "reconcile_upload_cleanup env st now t cid (d, b) = (r, d', b')"
  shows "(\<forall>k. visible b' k \<noteq> visible b k \<longrightarrow> visible b k \<and>
      (\<exists>c \<in> set (cleanups d). uc_id c = cid \<and> uc_tenant_id c = t \<and> uc_object_key c = k \<and>
         cleanup_due now c \<and> uc_attempt_count c < 3)) \<and>
    (\<forall>res. r = Inr res \<and> rr_outcome res = ReplaySucceeded \<longrightarrow>
      (\<exists>c \<in> set (cleanups d). \<exists>c' \<in> set (cleanups d'). uc_id c = cid \<and> uc_id c' = cid \<and> uc_tenant_id c' = t \<and>
         uc_status c' = Succeeded \<and> \<not> visible b' (uc_object_key c) \<and>
         (uc_status c = Prepared \<longrightarrow> visible b (uc_object_key c))) \<and>
      (\<forall>q \<in> set (reservations d'). \<not> (ur_tenant_id q = t \<and> ur_cleanup_id q = Some cid)))"
  using assms(2)
proof (cases rule: reconcile_upload_cleanup_cases)
  case (2 claim d1 q)
  have "claim_body now t cid d = Inr (Inr claim, d1)" using in_txn_Inr[OF 2(1)] by simp
  then obtain c c' confirm where c: "c \<in> set (cleanups d)" "uc_id c = cid" "uc_tenant_id c = t"
      "cleanup_due now c" "uc_attempt_count c < 3" "cleanup_step c c'" "claim = claim_of_row c' confirm"
      "uc_status c = Prepared \<Longrightarrow> confirm"
    and key: "uc_object_key c = raw_key_value (knowledge_raw_key t (uc_source_id c) (uc_object_id c))"
    by (cases rule: claim_body_cases) (auto elim!: claim_open_cases)
  have k: "raw_key_value (knowledge_raw_key (cc_tenant_id claim) (cc_source_id claim) (cc_object_id claim)) = uc_object_key c"
    using key c(3) cleanup_step_facts[OF c(6)] by (simp add: c(7) claim_of_row_def)
  note laws = storage_okD[OF assms(1)]
  have only: "visible b' k' \<longrightarrow> visible b k'" "k' \<noteq> uc_object_key c \<longrightarrow> visible b' k' = visible b k'" for k'
    using laws(3,4)[OF 2(2)[unfolded k]] by blast+
  have resolved: "(\<exists>c' \<in> set (cleanups d'). uc_id c' = cid \<and> uc_tenant_id c' = t \<and> uc_status c' = Succeeded) \<and>
      \<not> visible b' (uc_object_key c) \<and> (uc_status c = Prepared \<longrightarrow> visible b (uc_object_key c)) \<and>
      (\<forall>q \<in> set (reservations d'). \<not> (ur_tenant_id q = t \<and> ur_cleanup_id q = Some cid))"
    if "r = Inr res" "rr_outcome res = ReplaySucceeded" for res
  proof -
    from 2(4) that have q: "q = Inr ()" and fin: "deleted_body (re_later env) t cid d1 = Inr (res, d')"
      using in_txn_Inr by fastforce+
    have "uc_status c = Prepared \<longrightarrow> visible b (uc_object_key c)"
      using laws(1)[OF 2(3)[unfolded k]] c(7,8) by (auto simp: claim_of_row_def)
    moreover have "\<not> visible b' (uc_object_key c)" by (rule laws(2)[OF 2(2)[unfolded k q]])
    moreover have "(\<exists>c' \<in> set (cleanups d'). uc_id c' = cid \<and> uc_tenant_id c' = t \<and> uc_status c' = Succeeded) \<and>
        (\<forall>q \<in> set (reservations d'). \<not> (ur_tenant_id q = t \<and> ur_cleanup_id q = Some cid))"
      using fin that(2) by (rule deleted_body_success)
    ultimately show ?thesis by blast
  qed
  have "visible b k \<and> uc_object_key c = k" if "visible b' k \<noteq> visible b k" for k
    using only[of k] that by blast
  with resolved show ?thesis using c(1-5) by (intro conjI allI impI) blast+
qed auto

text \<open>Every object a replay removes belongs to a row the replay claimed.\<close>

lemma replay_deletes_claimed:
  assumes "storage_ok st visible" "reconcile_upload_cleanup env st now t cid (d, b) = (r, d', b')" "schema_ok d"
    and "visible b' k \<noteq> visible b k"
  shows "visible b k \<and> (\<exists>row. row_claimed d d' row \<and> uc_id row = cid \<and> uc_object_key row = k)"
  using assms(2)
proof (cases rule: reconcile_upload_cleanup_cases)
  case (2 claim d1 q)
  have ok1: "schema_ok d1" by (rule in_txn_schema[OF 2(1) assms(3)])
  have run: "cleanup_run d1 d'"
    using assms(2) 2(1) failed.txn_run[OF _ ok1] deleted.txn_run[OF _ ok1] unfolding reconcile_upload_cleanup_def
    by (auto simp: Let_def split: prod.splits sum.splits if_splits)
  have "claim_body now t cid d = Inr (Inr claim, d1)" using in_txn_Inr[OF 2(1)] by simp
  then obtain c c' confirm where c: "c \<in> set (cleanups d)" "uc_id c = cid" "uc_tenant_id c = t" "open_status (uc_status c)"
      "uc_attempt_count c < 3" "cleanup_step c c'" "claim = claim_of_row c' confirm" "d1 = save_cleanup c' d"
      "uc_attempt_count c' = uc_attempt_count c + 1"
    and key: "uc_object_key c = raw_key_value (knowledge_raw_key t (uc_source_id c) (uc_object_id c))"
    by (cases rule: claim_body_cases) (auto elim!: claim_open_cases)
  note same = cleanup_step_facts[OF c(6)]
  have "c' \<in> set (cleanups d1)" using c(1) same by (auto simp: c(8) set_save_cleanup image_iff)
  then have "row_claimed d d1 c" using c key same by (auto simp: row_claimed_def)
  note claimed = row_claimed_later[OF this run ok1]
  have k: "raw_key_value (knowledge_raw_key (cc_tenant_id claim) (cc_source_id claim) (cc_object_id claim)) = uc_object_key c"
    using key c(3) same by (simp add: c(7) claim_of_row_def)
  have "visible b k" "k = uc_object_key c"
    using storage_okD(3,4)[OF assms(1) 2(2)[unfolded k]] assms(4) by blast+
  then show ?thesis using claimed c(2) by blast
qed (use assms(4) in simp)

lemma sweep_deletes_claimed:
  assumes "reconcile_each env st now due w = (r, w')" "storage_ok st visible" "schema_ok (fst w)"
    and "visible (snd w') k \<noteq> visible (snd w) k"
  shows "visible (snd w) k \<and>
    (\<exists>row. row_claimed (fst w) (fst w') row \<and> uc_id row \<in> snd ` set due \<and> uc_object_key row = k)"
  using assms
proof (induction env st now due w arbitrary: r w' rule: reconcile_each.induct)
  case (2 env st now t cid due w)
  obtain r1 d1 b1 where one: "reconcile_upload_cleanup (env cid) st now t cid (fst w, snd w) = (r1, d1, b1)"
    by (metis prod.collapse)
  note run = reconcile_upload_cleanup_run[OF one 2(4)]
  note ok = cleanup_run_schema[OF run 2(4)] and del = replay_deletes_claimed[OF 2(3) one 2(4)]
  show ?case
  proof (cases r1)
    case (Inl e)
    with 2(2) one have "w' = (d1, b1)" by simp
    then show ?thesis using del[of k] 2(5) by auto
  next
    case (Inr res)
    obtain r2 where rest: "reconcile_each env st now due (d1, b1) = (r2, w')"
      using 2(2) one Inr by (auto split: prod.splits sum.splits)
    have later: "cleanup_run d1 (fst w')" using reconcile_each_run[OF rest] ok by simp
    show ?thesis
    proof (cases "visible b1 k = visible (snd w) k")
      case False
      from del[OF this] row_claimed_later[OF _ later ok] show ?thesis by auto
    next
      case True
      from one have "(r1, d1, b1) = reconcile_upload_cleanup (env cid) st now t cid w" by simp
      from 2(1)[OF this Inr rest 2(3)] ok 2(5) True obtain row where row: "visible (snd w) k"
        "row_claimed d1 (fst w') row" "uc_id row \<in> snd ` set due" "uc_object_key row = k" by auto
      obtain row0 where "row_claimed (fst w) (fst w') row0" "cleanup_step\<^sup>*\<^sup>* row0 row"
        using row(2) run 2(4) by (rule row_claimed_earlier)
      then show ?thesis using row cleanup_steps_same[of row0 row] by auto
    qed
  qed
qed simp

lemma list_due_rows:
  assumes "schema_ok d" "uc_id row \<in> snd ` set (list_due_upload_cleanup_ids now limit d)" "row \<in> set (cleanups d)"
  shows "cleanup_due now row"
proof -
  from assms(2) obtain c where c: "c \<in> set (cleanups d)" "cleanup_due now c" "uc_id c = uc_id row"
    by (auto simp: list_due_upload_cleanup_ids_def dest!: in_set_takeD)
  then have "c = row" using assms(1,3) by (auto simp: schema_ok_def cleanups_ok_def distinct_map dest: inj_onD)
  with c(2) show ?thesis by simp
qed

lemma sweep_run:
  assumes "reconcile_due_upload_cleanups co env st now limit (d, b) = (r, d', b')" "schema_ok d"
  obtains "cleanup_run d d'" "b' = b"
  | r' where "cleanup_run d d'" "reconcile_each env st now (list_due_upload_cleanup_ids now limit d) (d, b) = (r', d', b')"
proof -
  have txn: "\<exists>x. in_txn co (tx_read (list_due_upload_cleanup_ids now limit)) d = (x, d) \<and>
      (\<forall>due. x = Inr due \<longrightarrow> due = list_due_upload_cleanup_ids now limit d)"
    by (auto simp: in_txn_def tx_read_def split: if_splits)
  then show thesis
    using assms that reconcile_each_run[of env st now _ "(d, b)" r "(d', b')"]
    by (auto simp: reconcile_due_upload_cleanups_def split: sum.splits)
qed

text \<open>
  C1: One sweep over the due cleanups, however storage and the database answer, touches neither
  sources nor a tenant's standing within its quota; a resolved cleanup row is kept as it is; every
  other row keeps its identity and its object key and has between its old number of attempts and
  three; a reservation disappears only if its own cleanup is referenced or succeeded.  The bucket
  changes only by objects that disappear, and each of them is the canonical object of a row that
  was due and below three attempts and that the sweep claimed: the row has one attempt more.
\<close>

theorem cleanup_sweep_safe:
  assumes "reconcile_due_upload_cleanups co env st now limit (d, b) = (r, d', b')" "schema_ok d" "storage_ok st visible"
  shows "schema_ok d' \<and> sources d' = sources d \<and> (\<forall>u. quota_ok u d \<longrightarrow> quota_ok u d') \<and>
    (\<forall>c \<in> set (cleanups d). uc_status c \<in> {Referenced, Succeeded, Exhausted} \<longrightarrow> c \<in> set (cleanups d')) \<and>
    (\<forall>c \<in> set (cleanups d). \<exists>c' \<in> set (cleanups d'). uc_id c' = uc_id c \<and> uc_object_key c' = uc_object_key c \<and>
       uc_attempt_count c \<le> uc_attempt_count c' \<and> uc_attempt_count c' \<le> 3) \<and>
    (\<forall>q \<in> set (reservations d). q \<in> set (reservations d') \<or>
       (\<exists>c \<in> set (cleanups d'). ur_cleanup_id q = Some (uc_id c) \<and> uc_status c \<in> {Referenced, Succeeded})) \<and>
    (\<forall>k. visible b' k \<noteq> visible b k \<longrightarrow> visible b k \<and>
       (\<exists>c \<in> set (cleanups d). \<exists>c' \<in> set (cleanups d'). cleanup_due now c \<and> uc_attempt_count c < 3 \<and>
          k = uc_object_key c \<and> k = raw_key_value (knowledge_raw_key (uc_tenant_id c) (uc_source_id c) (uc_object_id c)) \<and>
          uc_id c' = uc_id c \<and> uc_attempt_count c < uc_attempt_count c'))"
proof -
  have run: "cleanup_run d d'" using assms(1,2) by (rule sweep_run)
  have gone: "visible b k \<and> (\<exists>row. row_claimed d d' row \<and> cleanup_due now row \<and> uc_object_key row = k)"
    if k: "visible b' k \<noteq> visible b k" for k
    using assms(1,2)
  proof (cases rule: sweep_run)
    case (2 r')
    from sweep_deletes_claimed[OF 2(2) assms(3), of k, unfolded fst_conv snd_conv, OF assms(2) k] show ?thesis
      using list_due_rows[OF assms(2) _ row_claimed_in] by blast
  qed (use k in simp)
  show ?thesis
    using cleanup_run_schema[OF run assms(2)] cleanup_run_other_tables[OF run] cleanup_run_quota[OF run]
      cleanup_run_terminal[OF run] cleanup_run_hold[OF run] cleanup_run_rows[OF run assms(2)]
  proof (intro conjI ballI allI impI)
    fix k assume "visible b' k \<noteq> visible b k"
    note g = gone[OF this]
    then show "visible b k" by blast
    from g show "\<exists>c \<in> set (cleanups d). \<exists>c' \<in> set (cleanups d'). cleanup_due now c \<and> uc_attempt_count c < 3 \<and>
          k = uc_object_key c \<and> k = raw_key_value (knowledge_raw_key (uc_tenant_id c) (uc_source_id c) (uc_object_id c)) \<and>
          uc_id c' = uc_id c \<and> uc_attempt_count c < uc_attempt_count c'"
      by (auto simp: row_claimed_def)
  qed (auto, metis)
qed

section \<open>A cleanup is resolved after at most four due replays\<close>

lemma locked_cleanup_row:
  "schema_ok d \<Longrightarrow> c \<in> set (cleanups d) \<Longrightarrow> locked_cleanup (uc_tenant_id c) (uc_id c) d = Inr (c, d)"
  by (simp add: locked_cleanup_def tx_defs get_upload_cleanup_for_update_row schema_ok_def)

text \<open>The claiming transaction always goes through, with one of the outcomes above.\<close>

lemma claim_open_total:
  assumes "schema_ok d" "c \<in> set (cleanups d)" "open_status (uc_status c)"
  shows "\<exists>x d'. claim_open now c d = Inr (x, d') \<and> schema_ok d'"
proof -
  have save: "schema_ok (save_cleanup c' d)" if "cleanup_step c c'" for c'
    using schema_ok_save_cleanup[OF assms(1,2) that] .
  have ex: "\<exists>c'. mark_upload_cleanup_exhausted c e now = Inr c'" "\<exists>c'. mark_upload_cleanup_exhausted (c\<lparr>uc_attempt_count := 3\<rparr>) e now = Inr c'" for e
    using assms(3) by (auto simp: mark_defs)
  have mark: "\<exists>x d'. tx_bind (write_marked r) (\<lambda>c'. tx_bind flush (\<lambda>_. tx_return (Inl (replay_result c' ReplayExhausted)))) d
      = Inr (x :: CleanupReplayResult + CleanupClaim, d') \<and> schema_ok d'"
    if "\<exists>c'. r = Inr c'" "\<And>c'. r = Inr c' \<Longrightarrow> cleanup_step c c'" for r
    using that save by (auto simp: result_simps)
  have cl: "uc_attempt_count c < 3 \<Longrightarrow> schema_ok (save_cleanup (c\<lparr>uc_status := Pending, uc_attempt_count := uc_attempt_count c + 1,
      uc_next_attempt_at := Some due, uc_last_error_code := err, uc_updated_at := now\<rparr>) d)" for due err
    using assms(3) by (intro save cleanup_step.claim)
  show ?thesis
    unfolding claim_open_def MAX_RECONCILIATION_ATTEMPTS_def Let_def
    using mark[OF ex(1) marked_steps(2)] mark[OF ex(2) marked_steps(3)] cl assms(1)
    by (auto simp: result_simps)
qed

lemma claim_txn_progress:
  assumes "schema_ok d" "c \<in> set (cleanups d)" "open_status (uc_status c)" "cleanup_due now c" "co \<noteq> Aborted"
    and "in_txn co (claim_body now (uc_tenant_id c) (uc_id c)) d = (r, d')"
  shows "\<exists>c' \<in> set (cleanups d'). cleanup_step c c' \<and>
     (\<not> open_status (uc_status c') \<or> uc_attempt_count c' = uc_attempt_count c + 1)"
proof -
  obtain x e where open_run: "claim_open now c d = Inr (x, e)" "schema_ok e"
    using claim_open_total[OF assms(1-3)] by blast
  have "claim_body now (uc_tenant_id c) (uc_id c) d = Inr (x, e)"
    unfolding claim_body_def tx_bind_def[of "locked_cleanup (uc_tenant_id c) (uc_id c)"] locked_cleanup_row[OF assms(1,2)]
    using open_run(1) assms(3) by auto
  then have d': "d' = e" using assms(5,6) open_run(2) by (auto simp: in_txn_def split: if_splits)
  have "c' \<in> set (cleanups (save_cleanup c' d))" if "cleanup_step c c'" for c'
    using assms(2) cleanup_step_facts[OF that] by (auto simp: set_save_cleanup image_iff)
  with open_run(1) assms(3) show ?thesis
    unfolding d' by (cases rule: claim_open_cases) (use assms(4) in \<open>auto\<close>)
qed

lemma reconcile_claim_first:
  assumes "reconcile_upload_cleanup env st now t cid (d, b) = (r, d', b')" "schema_ok d"
  obtains x d1 where "in_txn (re_claim env) (claim_body now t cid) d = (x, d1)" "cleanup_run d1 d'" "schema_ok d1"
proof -
  obtain x d1 where txn: "in_txn (re_claim env) (claim_body now t cid) d = (x, d1)" by fastforce
  note ok = in_txn_schema[OF txn assms(2)]
  have "cleanup_run d1 d'"
    using assms(1) txn failed.txn_run[OF _ ok] deleted.txn_run[OF _ ok] unfolding reconcile_upload_cleanup_def
    by (auto simp: Let_def split: prod.splits sum.splits if_splits)
  then show thesis by (rule that[OF txn _ ok])
qed

text \<open>
  \<open>n\<close> replays of one cleanup, each at a time when the row is due if it is still unresolved and
  with a claim that reaches the database; between them any other cleanup transaction and any
  change of the bucket may happen.
\<close>

inductive due_replays :: "'b storage \<Rightarrow> uuid \<Rightarrow> uuid \<Rightarrow> nat \<Rightarrow> db \<times> 'b \<Rightarrow> db \<times> 'b \<Rightarrow> bool"
  for st t cid where
  start: "due_replays st t cid 0 w w"
| interleave: "due_replays st t cid n w (d, b) \<Longrightarrow> cleanup_run d d' \<Longrightarrow> due_replays st t cid n w (d', b')"
| replay: "due_replays st t cid n w (d, b) \<Longrightarrow>
    \<forall>c \<in> set (cleanups d). uc_id c = cid \<and> open_status (uc_status c) \<longrightarrow> cleanup_due now c \<Longrightarrow>
    re_claim env \<noteq> Aborted \<Longrightarrow> reconcile_upload_cleanup env st now t cid (d, b) = (r, d', b') \<Longrightarrow>
    due_replays st t cid (Suc n) w (d', b')"

lemma cleanup_steps_terminal: "cleanup_step\<^sup>*\<^sup>* c c' \<Longrightarrow> \<not> open_status (uc_status c) \<Longrightarrow> c' = c"
  by (erule converse_rtranclpE) (auto dest: cleanup_step_facts(1))

lemma due_replay_progress:
  assumes "schema_ok d" "c \<in> set (cleanups d)" "open_status (uc_status c)" "cleanup_due now c" "re_claim env \<noteq> Aborted"
    and "reconcile_upload_cleanup env st now (uc_tenant_id c) (uc_id c) (d, b) = (r, d', b')"
  shows "\<exists>c' \<in> set (cleanups d'). cleanup_step\<^sup>*\<^sup>* c c' \<and>
    (\<not> open_status (uc_status c') \<or> uc_attempt_count c < uc_attempt_count c')"
proof -
  obtain x d1 where txn: "in_txn (re_claim env) (claim_body now (uc_tenant_id c) (uc_id c)) d = (x, d1)"
    and run: "cleanup_run d1 d'" and ok: "schema_ok d1"
    using assms(6,1) by (rule reconcile_claim_first)
  obtain c1 where c1: "c1 \<in> set (cleanups d1)" "cleanup_step c c1"
    "\<not> open_status (uc_status c1) \<or> uc_attempt_count c1 = uc_attempt_count c + 1"
    using claim_txn_progress[OF assms(1-5) txn] by blast
  obtain c2 where c2: "c2 \<in> set (cleanups d')" "cleanup_step\<^sup>*\<^sup>* c1 c2" using cleanup_run_row[OF run c1(1)] by blast
  have "uc_attempt_count c1 \<le> 3" using ok c1(1) by (auto simp: constraint_defs list_all_iff)
  from cleanup_steps_attempts[OF c2(2) this] cleanup_steps_terminal[OF c2(2)] c1(3)
  have "\<not> open_status (uc_status c2) \<or> uc_attempt_count c < uc_attempt_count c2" by auto
  then show ?thesis using c2 c1(2) by (meson converse_rtranclp_into_rtranclp)
qed

lemma due_replays_attempts:
  assumes "due_replays st t cid n w w'" "schema_ok (fst w)" "c \<in> set (cleanups (fst w))" "uc_id c = cid" "uc_tenant_id c = t"
  shows "schema_ok (fst w') \<and> (\<exists>c' \<in> set (cleanups (fst w')). cleanup_step\<^sup>*\<^sup>* c c' \<and>
    (\<not> open_status (uc_status c') \<or> int n \<le> uc_attempt_count c'))"
  using assms
proof (induction rule: due_replays.induct)
  case (start w)
  then show ?case by (auto simp: constraint_defs list_all_iff)
next
  case (interleave n w d b d' b')
  then obtain c1 where ok: "schema_ok d" and c1: "c1 \<in> set (cleanups d)" "cleanup_step\<^sup>*\<^sup>* c c1"
    "\<not> open_status (uc_status c1) \<or> int n \<le> uc_attempt_count c1" by auto
  obtain c2 where c2: "c2 \<in> set (cleanups d')" "cleanup_step\<^sup>*\<^sup>* c1 c2"
    using cleanup_run_row[OF interleave.hyps(2) c1(1)] by blast
  have "uc_attempt_count c1 \<le> 3" using ok c1(1) by (auto simp: constraint_defs list_all_iff)
  from cleanup_steps_attempts[OF c2(2) this] cleanup_steps_terminal[OF c2(2)] c1(3)
  have "\<not> open_status (uc_status c2) \<or> int n \<le> uc_attempt_count c2" by auto
  then show ?case using c2 c1(2) cleanup_run_schema[OF interleave.hyps(2) ok] by (auto intro: rtranclp_trans)
next
  case (replay n w d b now env r d' b')
  then obtain c1 where ok: "schema_ok d" and c1: "c1 \<in> set (cleanups d)" "cleanup_step\<^sup>*\<^sup>* c c1"
    "\<not> open_status (uc_status c1) \<or> int n \<le> uc_attempt_count c1" by auto
  note same = cleanup_steps_same[OF c1(2)] and run = reconcile_upload_cleanup_run[OF replay.hyps(4) ok]
  have "\<exists>c2 \<in> set (cleanups d'). cleanup_step\<^sup>*\<^sup>* c1 c2 \<and> (\<not> open_status (uc_status c2) \<or> int (Suc n) \<le> uc_attempt_count c2)"
  proof (cases "open_status (uc_status c1)")
    case True
    have due: "cleanup_due now c1" using replay.hyps(2) c1(1) same replay.prems(3) True by blast
    have rec: "reconcile_upload_cleanup env st now (uc_tenant_id c1) (uc_id c1) (d, b) = (r, d', b')"
      using replay.hyps(4) same replay.prems(3,4) by simp
    obtain c2 where "c2 \<in> set (cleanups d')" "cleanup_step\<^sup>*\<^sup>* c1 c2"
      "\<not> open_status (uc_status c2) \<or> uc_attempt_count c1 < uc_attempt_count c2"
      using due_replay_progress[OF ok c1(1) True due replay.hyps(3) rec] by blast
    moreover have "int n \<le> uc_attempt_count c1" using c1(3) True by blast
    ultimately show ?thesis by (intro bexI[of _ c2]) linarith+
  next
    case False
    then show ?thesis using cleanup_run_terminal[OF run c1(1)] by blast
  qed
  then show ?case using c1(2) cleanup_run_schema[OF run ok] by (auto intro: rtranclp_trans)
qed

text \<open>
  C12: Four replays of a cleanup at due times resolve it, whatever storage answers, whatever the
  closing transactions do and whatever other cleanup work runs in between: the row is
  \<open>referenced\<close>, \<open>succeeded\<close> or \<open>exhausted\<close>.
\<close>

theorem four_due_replays_resolve:
  assumes "due_replays st t cid 4 (d, b) (d', b')" "schema_ok d"
    and "c \<in> set (cleanups d)" "uc_id c = cid" "uc_tenant_id c = t"
  shows "\<exists>c' \<in> set (cleanups d'). uc_id c' = cid \<and> uc_object_key c' = uc_object_key c \<and>
    uc_status c' \<in> {Referenced, Succeeded, Exhausted}"
proof -
  obtain c' where c': "c' \<in> set (cleanups d')" "cleanup_step\<^sup>*\<^sup>* c c'"
      "\<not> open_status (uc_status c') \<or> 4 \<le> uc_attempt_count c'" and ok: "schema_ok d'"
    using due_replays_attempts[OF assms(1)] assms(2-5) by auto
  have "uc_attempt_count c' \<le> 3" using ok c'(1) by (auto simp: constraint_defs list_all_iff)
  then have "uc_status c' \<in> {Referenced, Succeeded, Exhausted}" using c'(3) by (cases "uc_status c'") auto
  then show ?thesis using c'(1) cleanup_steps_same[OF c'(2)] assms(4) by blast
qed

section \<open>Concrete runs\<close>

text \<open>A prepared intent of tenant 1 whose object was never stored.\<close>

definition sample_cleanup :: "cleanup_status \<Rightarrow> int \<Rightarrow> timestamp option \<Rightarrow> string option \<Rightarrow> timestamp option \<Rightarrow> timestamp
    \<Rightarrow> KnowledgeUploadCleanup" where
  "sample_cleanup status n next_at err resolved updated =
     \<lparr>uc_id = 7, uc_tenant_id = 1, uc_source_id = 3, uc_object_id = 4,
      uc_object_key = raw_key_value (knowledge_raw_key 1 3 4), uc_status = status, uc_attempt_count = n,
      uc_next_attempt_at = next_at, uc_last_error_code = err, uc_resolved_at = resolved, uc_created_at = 0,
      uc_updated_at = updated\<rparr>"

definition cleanup_db :: "KnowledgeUploadCleanup \<Rightarrow> db" where
  "cleanup_db c = sample_db\<lparr>cleanups := [c]\<rparr>"

abbreviation sample_env :: "timestamp \<Rightarrow> replay_env" where
  "sample_env later \<equiv> \<lparr>re_claim = Committed, re_final = Committed, re_later = later\<rparr>"

theorem cleanup_sweep_safe_witness:
  "\<exists>d'. reconcile_due_upload_cleanups Committed (\<lambda>_. sample_env 20) (api_storage list_adapter) 10 100
     (cleanup_db (sample_cleanup Prepared 0 (Some 5) None None 0), [''other'', raw_key_value (knowledge_raw_key 1 3 4)])
   = (Inr [\<lparr>rr_cleanup_id = 7, rr_tenant_id = 1, rr_outcome = ReplaySucceeded, rr_attempt_count = 1\<rparr>], d', [''other'']) \<and>
   (\<exists>c' \<in> set (cleanups d'). uc_id c' = 7 \<and> 0 < uc_attempt_count c')"
proof -
  let ?key = "raw_key_value (knowledge_raw_key 1 3 4)" and ?row = "sample_cleanup Prepared 0 (Some 5) None None 0"
  let ?res = "[\<lparr>rr_cleanup_id = 7, rr_tenant_id = 1, rr_outcome = ReplaySucceeded, rr_attempt_count = 1\<rparr>]"
  let ?r = "reconcile_due_upload_cleanups Committed (\<lambda>_. sample_env 20) (api_storage list_adapter) 10 100
     (cleanup_db ?row, [''other'', ?key])"
  have "fst ?r = Inr ?res" "snd (snd ?r) = [''other'']" by code_simp+
  then have run: "?r = (Inr ?res, fst (snd ?r), [''other''])" by (simp add: prod_eq_iff)
  have ok: "schema_ok (cleanup_db ?row)" by code_simp
  have gone: "(?key \<in> set [''other'']) \<noteq> (?key \<in> set [''other'', ?key])" by code_simp
  from cleanup_sweep_safe[OF run ok list_storage_ok(1)] gone
  have "\<exists>c \<in> set (cleanups (cleanup_db ?row)). \<exists>c' \<in> set (cleanups (fst (snd ?r))). uc_id c' = uc_id c \<and>
      uc_attempt_count c < uc_attempt_count c'" by blast
  then have "\<exists>c' \<in> set (cleanups (fst (snd ?r))). uc_id c' = 7 \<and> 0 < uc_attempt_count c'"
    by (simp add: cleanup_db_def sample_cleanup_def)
  with run show ?thesis by blast
qed

theorem replay_deletes_only_claimed_witness:
  "\<exists>d' b'. reconcile_upload_cleanup (sample_env 20) (api_storage list_adapter) 10 1 7
     (cleanup_db (sample_cleanup Prepared 0 (Some 5) None None 0), [''other'', raw_key_value (knowledge_raw_key 1 3 4)])
     = (Inr \<lparr>rr_cleanup_id = 7, rr_tenant_id = 1, rr_outcome = ReplaySucceeded, rr_attempt_count = 1\<rparr>, d', b') \<and>
   raw_key_value (knowledge_raw_key 1 3 4) \<notin> set b'"
proof -
  let ?w = "(cleanup_db (sample_cleanup Prepared 0 (Some 5) None None 0), [''other'', raw_key_value (knowledge_raw_key 1 3 4)])"
  let ?res = "\<lparr>rr_cleanup_id = 7, rr_tenant_id = 1, rr_outcome = ReplaySucceeded, rr_attempt_count = 1\<rparr>"
  let ?r = "reconcile_upload_cleanup (sample_env 20) (api_storage list_adapter) 10 1 7 ?w"
  have "fst ?r = Inr ?res" by code_simp
  then have run: "?r = (Inr ?res, fst (snd ?r), snd (snd ?r))" by (simp add: prod_eq_iff)
  have "\<exists>c \<in> set (cleanups (fst ?w)). \<not> uc_object_key c \<in> set (snd (snd ?r))"
    using replay_deletes_only_claimed[OF list_storage_ok(1) run] by auto
  then have "raw_key_value (knowledge_raw_key 1 3 4) \<notin> set (snd (snd ?r))"
    by (simp add: cleanup_db_def sample_cleanup_def)
  with run show ?thesis by blast
qed

theorem four_due_replays_resolve_witness:
  "\<exists>d'. due_replays (api_storage list_adapter) 1 7 4 (cleanup_db (sample_cleanup Prepared 0 (Some 5) None None 0), [])
      (d', []) \<and> (\<exists>c' \<in> set (cleanups d'). uc_status c' \<in> {Referenced, Succeeded, Exhausted})"
proof -
  let ?st = "api_storage list_adapter"
  let ?e = "Some ''OBJECT_STORAGE_PUT_OUTCOME_AMBIGUOUS''"
  let ?d0 = "cleanup_db (sample_cleanup Prepared 0 (Some 5) None None 0)"
  let ?d1 = "cleanup_db (sample_cleanup Pending 1 (Some 300000010) ?e None 10)"
  let ?d2 = "cleanup_db (sample_cleanup Pending 2 (Some 2100000010) ?e None 300000010)"
  let ?d3 = "cleanup_db (sample_cleanup Exhausted 3 None ?e (Some 2100000010) 2100000010)"
  have s1: "snd (reconcile_upload_cleanup (sample_env 10) ?st 10 1 7 (?d0, [])) = (?d1, [])" by code_simp
  have s2: "snd (reconcile_upload_cleanup (sample_env 300000010) ?st 300000010 1 7 (?d1, [])) = (?d2, [])" by code_simp
  have s3: "snd (reconcile_upload_cleanup (sample_env 2100000010) ?st 2100000010 1 7 (?d2, [])) = (?d3, [])" by code_simp
  have s4: "snd (reconcile_upload_cleanup (sample_env 9) ?st 9 1 7 (?d3, [])) = (?d3, [])" by code_simp
  have due: "\<forall>c \<in> set (cleanups ?d0). uc_id c = 7 \<and> open_status (uc_status c) \<longrightarrow> cleanup_due 10 c"
    "\<forall>c \<in> set (cleanups ?d1). uc_id c = 7 \<and> open_status (uc_status c) \<longrightarrow> cleanup_due 300000010 c"
    "\<forall>c \<in> set (cleanups ?d2). uc_id c = 7 \<and> open_status (uc_status c) \<longrightarrow> cleanup_due 2100000010 c"
    "\<forall>c \<in> set (cleanups ?d3). uc_id c = 7 \<and> open_status (uc_status c) \<longrightarrow> cleanup_due 9 c"
    by (simp_all add: cleanup_db_def sample_cleanup_def cleanup_due_def)
  have next_replay: "due_replays ?st 1 7 (Suc n) w (e, b')" if "due_replays ?st 1 7 n w (d, b)"
      "\<forall>c \<in> set (cleanups d). uc_id c = 7 \<and> open_status (uc_status c) \<longrightarrow> cleanup_due now c"
      "snd (reconcile_upload_cleanup (sample_env now) ?st now 1 7 (d, b)) = (e, b')" for n w d b now e b'
    using due_replays.replay[OF that(1,2), of "sample_env now" "fst (reconcile_upload_cleanup (sample_env now) ?st now 1 7 (d, b))" e b'] that(3)
    by (simp add: prod_eq_iff)
  have "due_replays ?st 1 7 (Suc (Suc (Suc (Suc 0)))) (?d0, []) (?d3, [])"
    by (intro next_replay[OF next_replay[OF next_replay[OF next_replay[OF due_replays.start due(1) s1] due(2) s2] due(3) s3] due(4) s4])
  then have four: "due_replays ?st 1 7 4 (?d0, []) (?d3, [])" by (simp add: numeral_eq_Suc)
  have "schema_ok ?d0" by code_simp
  then have "\<exists>c' \<in> set (cleanups ?d3). uc_status c' \<in> {Referenced, Succeeded, Exhausted}"
    using four_due_replays_resolve[OF four, of "sample_cleanup Prepared 0 (Some 5) None None 0"]
    by (auto simp: cleanup_db_def sample_cleanup_def)
  with four show ?thesis by blast
qed

end
