(* ===== verification/Cleanup_Worker.thy ===== *)
theory Cleanup_Worker
  imports Upload_Cleanup
begin

text \<open>
  \<open>services/worker/app/jobs/knowledge_upload_cleanup.py\<close>: the worker's batch reconciliation.  The
  SQL statements of the module are updates of the cleanup table by their WHERE clause; \<open>SKIP LOCKED\<close>
  leaves out the rows a concurrent transaction holds, given by the argument \<open>locked\<close>.
  \<open>CleanupClaim\<close> has the fields of the API's claim and shares its record.
\<close>

section \<open>Statements\<close>

definition update_cleanup ::
  "uuid \<Rightarrow> uuid \<Rightarrow> cleanup_status list \<Rightarrow> (KnowledgeUploadCleanup \<Rightarrow> KnowledgeUploadCleanup) \<Rightarrow> db \<Rightarrow> db" where
  "update_cleanup cid t statuses f d =
     d\<lparr>cleanups := map (\<lambda>r. if uc_id r = cid \<and> uc_tenant_id r = t \<and> uc_status r \<in> set statuses then f r else r)
        (cleanups d)\<rparr>"

definition CLAIM_DUE :: "(uuid \<Rightarrow> bool) \<Rightarrow> timestamp \<Rightarrow> nat \<Rightarrow> db \<Rightarrow> KnowledgeUploadCleanup list" where
  "CLAIM_DUE locked now batch_size d =
     take batch_size (filter (\<lambda>r. \<not> locked (uc_id r))
       (sort_key (\<lambda>r. (the (uc_next_attempt_at r), uc_id r)) (filter (cleanup_due now) (cleanups d))))"

definition MARK_CLAIMED :: "uuid \<Rightarrow> uuid \<Rightarrow> int \<Rightarrow> timestamp \<Rightarrow> string option \<Rightarrow> timestamp \<Rightarrow> db \<Rightarrow> db" where
  "MARK_CLAIMED cid t n next_at err now =
     update_cleanup cid t [Prepared, Pending]
       (\<lambda>r. r\<lparr>uc_status := Pending, uc_attempt_count := n, uc_next_attempt_at := Some next_at,
              uc_last_error_code := err, uc_updated_at := now\<rparr>)"

definition MARK_EXHAUSTED :: "uuid \<Rightarrow> uuid \<Rightarrow> int \<Rightarrow> string \<Rightarrow> timestamp \<Rightarrow> db \<Rightarrow> db" where
  "MARK_EXHAUSTED cid t n err now =
     update_cleanup cid t [Prepared, Pending]
       (\<lambda>r. r\<lparr>uc_attempt_count := n, uc_status := Exhausted, uc_next_attempt_at := None,
              uc_last_error_code := Some err, uc_resolved_at := Some now, uc_updated_at := now\<rparr>)"

definition RELOCK_CLEANUP :: "uuid \<Rightarrow> uuid \<Rightarrow> db \<Rightarrow> (cleanup_status \<times> int) option result" where
  "RELOCK_CLEANUP cid t d =
     bind_result (one_or_none (filter (\<lambda>r. uc_id r = cid \<and> uc_tenant_id r = t) (cleanups d))) (\<lambda>found.
     Inr (map_option (\<lambda>r. (uc_status r, uc_attempt_count r)) found))"

definition RECORD_RETRY :: "uuid \<Rightarrow> uuid \<Rightarrow> string \<Rightarrow> timestamp \<Rightarrow> db \<Rightarrow> db" where
  "RECORD_RETRY cid t err now =
     update_cleanup cid t [Pending] (\<lambda>r. r\<lparr>uc_last_error_code := Some err, uc_updated_at := now\<rparr>)"

definition MARK_SUCCEEDED :: "uuid \<Rightarrow> uuid \<Rightarrow> timestamp \<Rightarrow> db \<Rightarrow> db" where
  "MARK_SUCCEEDED cid t now =
     update_cleanup cid t [Pending]
       (\<lambda>r. r\<lparr>uc_status := Succeeded, uc_next_attempt_at := None, uc_last_error_code := None,
              uc_resolved_at := Some now, uc_updated_at := now\<rparr>)"

definition RELEASE_RESERVATION :: "uuid \<Rightarrow> uuid \<Rightarrow> db \<Rightarrow> db" where
  "RELEASE_RESERVATION cid t d =
     d\<lparr>reservations := filter (\<lambda>r. \<not> (ur_tenant_id r = t \<and> ur_cleanup_id r = Some cid)) (reservations d)\<rparr>"

section \<open>Decoding\<close>

definition required_text :: "string \<Rightarrow> string result" where
  "required_text s = (if s = [] then Inl KnowledgeUploadCleanupStateError else Inr s)"

definition optional_text :: "string option \<Rightarrow> string option result" where
  "optional_text v = (case v of None \<Rightarrow> Inr None | Some s \<Rightarrow> bind_result (required_text s) (\<lambda>x. Inr (Some x)))"

definition required_attempt_count :: "int \<Rightarrow> int result" where
  "required_attempt_count n =
     (if \<not> (0 \<le> n \<and> n \<le> MAX_RECONCILIATION_ATTEMPTS) then Inl KnowledgeUploadCleanupStateError else Inr n)"

definition worker_lease_until :: "timestamp \<Rightarrow> int \<Rightarrow> timestamp" where
  "worker_lease_until now attempt_count =
     (if attempt_count = 1 then now + minutes 5 else now + minutes 30)"

definition decode_claim_row :: "KnowledgeUploadCleanup \<Rightarrow> (CleanupClaim \<times> string option \<times> cleanup_status) result" where
  "decode_claim_row row =
     bind_result (required_text (uc_object_key row)) (\<lambda>object_key.
     bind_result (guard (uc_status row \<in> {Prepared, Pending}) KnowledgeUploadCleanupStateError) (\<lambda>_.
     bind_result (required_attempt_count (uc_attempt_count row)) (\<lambda>attempt_count.
     bind_result (optional_text (uc_last_error_code row)) (\<lambda>last_error_code.
     Inr (\<lparr>cc_cleanup_id = uc_id row, cc_tenant_id = uc_tenant_id row, cc_source_id = uc_source_id row,
           cc_object_id = uc_object_id row, cc_attempt_count = attempt_count,
           cc_requires_presence_confirmation =
             (uc_status row = Prepared \<or> last_error_code = Some PUT_OUTCOME_AMBIGUOUS_ERROR_CODE),
           cc_object_key = object_key\<rparr>,
          last_error_code, uc_status row)))))"

section \<open>Claiming a batch\<close>

text \<open>The body of the loop for one row: a claim to execute, or None when the row was exhausted.\<close>

definition claim_row :: "timestamp \<Rightarrow> KnowledgeUploadCleanup \<Rightarrow> CleanupClaim option tx" where
  "claim_row now row =
     (case decode_claim_row row of
        Inl e \<Rightarrow> tx_raise e
      | Inr (claim, last_error_code, original_status) \<Rightarrow>
       if cc_object_key claim \<noteq> worker_knowledge_raw_key (cc_tenant_id claim) (cc_source_id claim) (cc_object_id claim)
       then tx_bind (tx_write (MARK_EXHAUSTED (cc_cleanup_id claim) (cc_tenant_id claim) MAX_RECONCILIATION_ATTEMPTS
              KEY_MISMATCH_ERROR_CODE now)) (\<lambda>_. tx_return None)
       else if cc_attempt_count claim \<ge> MAX_RECONCILIATION_ATTEMPTS
       then tx_bind (tx_write (MARK_EXHAUSTED (cc_cleanup_id claim) (cc_tenant_id claim) (cc_attempt_count claim)
              (error_or_default last_error_code) now)) (\<lambda>_. tx_return None)
       else
         (let attempt_count = cc_attempt_count claim + 1;
              error_code = (if original_status = Prepared \<and> last_error_code = None
                            then Some PUT_OUTCOME_AMBIGUOUS_ERROR_CODE else last_error_code)
          in tx_bind (tx_write (MARK_CLAIMED (cc_cleanup_id claim) (cc_tenant_id claim) attempt_count
               (worker_lease_until now attempt_count) error_code now)) (\<lambda>_.
             tx_return (Some (claim\<lparr>cc_attempt_count := attempt_count\<rparr>)))))"

fun claim_rows :: "timestamp \<Rightarrow> KnowledgeUploadCleanup list \<Rightarrow> (CleanupClaim list \<times> nat) tx" where
  "claim_rows now [] = tx_return ([], 0)"
| "claim_rows now (row # rows) =
     tx_bind (claim_row now row) (\<lambda>c.
     tx_bind (claim_rows now rows) (\<lambda>(claims, exhausted).
     tx_return (case c of None \<Rightarrow> (claims, Suc exhausted) | Some cl \<Rightarrow> (cl # claims, exhausted))))"

definition claim_due_batch :: "(uuid \<Rightarrow> bool) \<Rightarrow> timestamp \<Rightarrow> nat \<Rightarrow> (CleanupClaim list \<times> nat) tx" where
  "claim_due_batch locked now batch_size =
     tx_bind (tx_read (CLAIM_DUE locked now batch_size)) (claim_rows now)"

section \<open>Executing a claim\<close>

datatype CleanupOutcome = OutcomeSucceeded | OutcomeRetryScheduled | OutcomeExhausted

text \<open>A stored status is one of five non-empty strings, so \<open>_required_text(status)\<close> always returns.\<close>

definition worker_failed_body :: "string \<Rightarrow> timestamp \<Rightarrow> uuid \<Rightarrow> uuid \<Rightarrow> CleanupOutcome tx" where
  "worker_failed_body err now t cid =
     tx_bind (tx_query (RELOCK_CLEANUP cid t)) (\<lambda>row.
       case row of
         None \<Rightarrow> tx_raise KnowledgeUploadCleanupStateError
       | Some (status, count) \<Rightarrow>
     tx_bind (tx_query (\<lambda>_. required_attempt_count count)) (\<lambda>attempt_count.
       if status = Exhausted then tx_return OutcomeExhausted
       else if status \<in> {Referenced, Succeeded}
       then tx_bind (tx_write (RELEASE_RESERVATION cid t)) (\<lambda>_. tx_return OutcomeSucceeded)
       else if status \<noteq> Pending then tx_raise KnowledgeUploadCleanupStateError
       else if attempt_count \<ge> MAX_RECONCILIATION_ATTEMPTS
       then tx_bind (tx_write (MARK_EXHAUSTED cid t attempt_count err now)) (\<lambda>_. tx_return OutcomeExhausted)
       else tx_bind (tx_write (RECORD_RETRY cid t err now)) (\<lambda>_. tx_return OutcomeRetryScheduled)))"

definition worker_success_body :: "timestamp \<Rightarrow> uuid \<Rightarrow> uuid \<Rightarrow> CleanupOutcome tx" where
  "worker_success_body now t cid =
     tx_bind (tx_query (RELOCK_CLEANUP cid t)) (\<lambda>row.
       case row of
         None \<Rightarrow> tx_raise KnowledgeUploadCleanupStateError
       | Some (status, count) \<Rightarrow>
       if status = Exhausted then tx_return OutcomeExhausted
       else if status = Referenced then tx_raise KnowledgeUploadCleanupStateError
       else if status \<noteq> Succeeded \<and> status \<noteq> Pending then tx_raise KnowledgeUploadCleanupStateError
       else tx_bind (tx_write (if status \<noteq> Succeeded then MARK_SUCCEEDED cid t now else id)) (\<lambda>_.
            tx_bind (tx_write (RELEASE_RESERVATION cid t)) (\<lambda>_. tx_return OutcomeSucceeded)))"

record claim_env =
  ce_final :: commit_outcome
  ce_later :: timestamp

definition execute_claim ::
  "claim_env \<Rightarrow> 'b storage \<Rightarrow> CleanupClaim \<Rightarrow> db \<times> 'b \<Rightarrow> CleanupOutcome result \<times> db \<times> 'b" where
  "execute_claim env st claim w =
     (case w of (d, b) \<Rightarrow>
      let t = cc_tenant_id claim; cid = cc_cleanup_id claim; key = cc_object_key claim;
          failed = (\<lambda>err b'. case in_txn (ce_final env) (worker_failed_body err (ce_later env) t cid) d of
                       (r, d') \<Rightarrow> (r, d', b'));
          delete = (case st_delete st key b of
              (Inl e, b') \<Rightarrow> if e \<in> {ObjectStorageError, ObjectNotFoundError}
                            then failed OBJECT_STORAGE_ERROR_CODE b' else (Inl e, d, b')
            | (Inr _, b') \<Rightarrow>
                (case in_txn (ce_final env) (worker_success_body (ce_later env) t cid) d of (r, d') \<Rightarrow> (r, d', b')))
      in if cc_requires_presence_confirmation claim
         then (case st_exists st key b of
                 Inl e \<Rightarrow> if e \<in> {ObjectStorageError, ObjectNotFoundError}
                         then failed PUT_OUTCOME_AMBIGUOUS_ERROR_CODE b else (Inl e, d, b)
               | Inr visible \<Rightarrow> if \<not> visible then failed PUT_OUTCOME_AMBIGUOUS_ERROR_CODE b else delete)
         else delete)"

section \<open>One batch and the loop\<close>

record CleanupBatchResult =
  br_processed :: nat
  br_succeeded :: nat
  br_retry_scheduled :: nat
  br_exhausted :: nat

fun execute_claims ::
  "(uuid \<Rightarrow> claim_env) \<Rightarrow> 'b storage \<Rightarrow> CleanupClaim list \<Rightarrow> nat \<times> nat \<times> nat \<Rightarrow> db \<times> 'b
     \<Rightarrow> (nat \<times> nat \<times> nat) result \<times> db \<times> 'b" where
  "execute_claims env st [] counts w = (Inr counts, w)"
| "execute_claims env st (claim # claims) (succeeded, retry_scheduled, exhausted) w =
     (case execute_claim (env (cc_cleanup_id claim)) st claim w of
        (Inl e, w') \<Rightarrow> (Inl e, w')
      | (Inr outcome, w') \<Rightarrow>
          execute_claims env st claims
            (case outcome of
               OutcomeSucceeded \<Rightarrow> (Suc succeeded, retry_scheduled, exhausted)
             | OutcomeRetryScheduled \<Rightarrow> (succeeded, Suc retry_scheduled, exhausted)
             | OutcomeExhausted \<Rightarrow> (succeeded, retry_scheduled, Suc exhausted)) w')"

record batch_env =
  be_now :: timestamp
  be_claim :: commit_outcome
  be_locked :: "uuid \<Rightarrow> bool"
  be_execute :: "uuid \<Rightarrow> claim_env"

definition MAX_BATCH_SIZE :: int where
  "MAX_BATCH_SIZE = 100"

definition worker_reconcile_due_upload_cleanups ::
  "batch_env \<Rightarrow> 'b storage \<Rightarrow> int \<Rightarrow> db \<times> 'b \<Rightarrow> CleanupBatchResult result \<times> db \<times> 'b" where
  "worker_reconcile_due_upload_cleanups env st batch_size w =
     (if \<not> (1 \<le> batch_size \<and> batch_size \<le> MAX_BATCH_SIZE) then (Inl ValueError, w)
      else (case in_txn (be_claim env) (claim_due_batch (be_locked env) (be_now env) (nat batch_size)) (fst w) of
              (Inl e, d1) \<Rightarrow> (Inl e, d1, snd w)
            | (Inr (claims, exhausted), d1) \<Rightarrow>
                (case execute_claims (be_execute env) st claims (0, 0, exhausted) (d1, snd w) of
                   (Inl e, w') \<Rightarrow> (Inl e, w')
                 | (Inr (s, r, x), w') \<Rightarrow>
                     (Inr \<lparr>br_processed = length claims + exhausted, br_succeeded = s, br_retry_scheduled = r,
                           br_exhausted = x\<rparr>, w'))))"

text \<open>The first iterations of the endless loop; an exception of a batch is logged and dropped.\<close>

fun cleanup_loop :: "batch_env list \<Rightarrow> 'b storage \<Rightarrow> int \<Rightarrow> db \<times> 'b \<Rightarrow> db \<times> 'b" where
  "cleanup_loop [] st batch_size w = w"
| "cleanup_loop (env # envs) st batch_size w =
     cleanup_loop envs st batch_size (snd (worker_reconcile_due_upload_cleanups env st batch_size w))"

definition run_knowledge_upload_cleanup_loop ::
  "batch_env list \<Rightarrow> 'b storage \<Rightarrow> int \<Rightarrow> int \<Rightarrow> db \<times> 'b \<Rightarrow> (db \<times> 'b) result" where
  "run_knowledge_upload_cleanup_loop envs st poll_microseconds batch_size w =
     (if poll_microseconds \<le> 0 then Inl ValueError
      else if \<not> (1 \<le> batch_size \<and> batch_size \<le> MAX_BATCH_SIZE) then Inl ValueError
      else Inr (cleanup_loop envs st batch_size w))"

section \<open>The statements against the shared contract\<close>

lemma update_cleanup_row:
  assumes "cleanups_ok d" "c \<in> set (cleanups d)" "uc_status c \<in> set statuses" "uc_id (f c) = uc_id c"
  shows "update_cleanup (uc_id c) (uc_tenant_id c) statuses f d = save_cleanup (f c) d"
proof -
  have "r = c" if "r \<in> set (cleanups d)" "uc_id r = uc_id c" for r
    using assms(1,2) that by (auto simp: cleanups_ok_def distinct_map dest: inj_onD)
  then have "(if uc_id r = uc_id c \<and> uc_tenant_id r = uc_tenant_id c \<and> uc_status r \<in> set statuses then f r else r)
      = (if uc_id r = uc_id (f c) then f c else r)" if "r \<in> set (cleanups d)" for r
    using assms(3,4) that by (cases "uc_id r = uc_id c") auto
  then show ?thesis
    unfolding update_cleanup_def save_cleanup_def by (simp cong: map_cong)
qed

lemma RELEASE_RESERVATION_eq: "RELEASE_RESERVATION cid t = release_upload_reservation_for_cleanup t cid"
  by (simp add: fun_eq_iff RELEASE_RESERVATION_def release_upload_reservation_for_cleanup_def)

lemma RELOCK_Some:
  assumes "RELOCK_CLEANUP cid t d = Inr (Some (st, n))"
  obtains c where "c \<in> set (cleanups d)" "uc_id c = cid" "uc_tenant_id c = t" "uc_status c = st" "uc_attempt_count c = n"
proof -
  from assms obtain c where "one_or_none (filter (\<lambda>r. uc_id r = cid \<and> uc_tenant_id r = t) (cleanups d)) = Inr (Some c)"
    "uc_status c = st" "uc_attempt_count c = n"
    by (auto simp: RELOCK_CLEANUP_def result_simps)
  then show thesis using that[of c] one_or_none_filter[of _ "cleanups d" c] by blast
qed

lemma MARK_steps:
  assumes "schema_ok d" "c \<in> set (cleanups d)"
  shows "open_status (uc_status c) \<Longrightarrow> n = uc_attempt_count c \<or> n = 3 \<Longrightarrow>
      \<exists>c'. MARK_EXHAUSTED (uc_id c) (uc_tenant_id c) n err now d = save_cleanup c' d \<and> cleanup_step c c' \<and>
        uc_status c' = Exhausted"
    and "open_status (uc_status c) \<Longrightarrow> uc_attempt_count c < 3 \<Longrightarrow>
      \<exists>c'. MARK_CLAIMED (uc_id c) (uc_tenant_id c) (uc_attempt_count c + 1) due e now d = save_cleanup c' d \<and>
        cleanup_step c c' \<and> uc_status c' = Pending \<and> uc_attempt_count c' = uc_attempt_count c + 1"
    and "uc_status c = Pending \<Longrightarrow>
      \<exists>c'. RECORD_RETRY (uc_id c) (uc_tenant_id c) err now d = save_cleanup c' d \<and> cleanup_step c c'"
    and "uc_status c = Pending \<Longrightarrow>
      \<exists>c'. MARK_SUCCEEDED (uc_id c) (uc_tenant_id c) now d = save_cleanup c' d \<and> cleanup_step c c' \<and>
        uc_status c' = Succeeded"
proof -
  have ok: "cleanups_ok d" using assms(1) by (simp add: schema_ok_def)
  note row = update_cleanup_row[OF ok assms(2)]
  show "\<exists>c'. MARK_EXHAUSTED (uc_id c) (uc_tenant_id c) n err now d = save_cleanup c' d \<and> cleanup_step c c' \<and>
        uc_status c' = Exhausted" if "open_status (uc_status c)" "n = uc_attempt_count c \<or> n = 3"
    unfolding MARK_EXHAUSTED_def using that by (intro exI conjI, subst row) (auto intro: cleanup_step.exhaust)
  show "\<exists>c'. MARK_CLAIMED (uc_id c) (uc_tenant_id c) (uc_attempt_count c + 1) due e now d = save_cleanup c' d \<and>
        cleanup_step c c' \<and> uc_status c' = Pending \<and> uc_attempt_count c' = uc_attempt_count c + 1"
    if "open_status (uc_status c)" "uc_attempt_count c < 3"
    unfolding MARK_CLAIMED_def using that by (intro exI conjI, subst row) (auto intro: cleanup_step.claim)
  show "\<exists>c'. RECORD_RETRY (uc_id c) (uc_tenant_id c) err now d = save_cleanup c' d \<and> cleanup_step c c'"
    if p: "uc_status c = Pending"
  proof (intro exI conjI)
    show "RECORD_RETRY (uc_id c) (uc_tenant_id c) err now d =
        save_cleanup (c\<lparr>uc_status := Pending, uc_last_error_code := Some err, uc_updated_at := now\<rparr>) d"
      unfolding RECORD_RETRY_def using p by (subst row) (auto intro!: arg_cong[where f = "\<lambda>x. save_cleanup x d"])
    show "cleanup_step c (c\<lparr>uc_status := Pending, uc_last_error_code := Some err, uc_updated_at := now\<rparr>)"
      using p by (intro cleanup_step.retry) simp
  qed
  show "\<exists>c'. MARK_SUCCEEDED (uc_id c) (uc_tenant_id c) now d = save_cleanup c' d \<and> cleanup_step c c' \<and>
        uc_status c' = Succeeded" if "uc_status c = Pending"
    unfolding MARK_SUCCEEDED_def using that by (intro exI conjI, subst row) (auto intro: cleanup_step.succeed)
qed

interpretation worker_failed: cleanup_protocol "worker_failed_body err now" for err now
proof
  fix t cid d x d'
  assume ok: "schema_ok d" and body: "worker_failed_body err now t cid d = Inr (x, d')"
  then obtain st n where q: "RELOCK_CLEANUP cid t d = Inr (Some (st, n))"
    by (auto simp: worker_failed_body_def result_simps split: option.splits)
  then obtain c where c: "c \<in> set (cleanups d)" "uc_id c = cid" "uc_tenant_id c = t" "uc_status c = st" "uc_attempt_count c = n"
    by (rule RELOCK_Some)
  note steps = MARK_steps[OF ok c(1)]
  show "cleanup_effect t cid d d'"
    using body q c steps(1)[of n err now] steps(3)[of err now]
    by (cases st) (auto simp: worker_failed_body_def result_simps required_attempt_count_def RELEASE_RESERVATION_eq
        split: if_splits intro: cleanup_effects)
qed

interpretation worker_success: cleanup_protocol "worker_success_body now" for now
proof
  fix t cid d x d'
  assume ok: "schema_ok d" and body: "worker_success_body now t cid d = Inr (x, d')"
  then obtain st n where q: "RELOCK_CLEANUP cid t d = Inr (Some (st, n))"
    by (auto simp: worker_success_body_def result_simps split: option.splits)
  then obtain c where c: "c \<in> set (cleanups d)" "uc_id c = cid" "uc_tenant_id c = t" "uc_status c = st"
    by (rule RELOCK_Some)
  show "cleanup_effect t cid d d'"
    using body q c MARK_steps(4)[OF ok c(1), of now]
    by (cases st) (auto simp: worker_success_body_def result_simps RELEASE_RESERVATION_eq intro: cleanup_effects)
qed

section \<open>Claiming\<close>

lemma decode_claim_row_Inr:
  assumes "decode_claim_row row = Inr (claim, err, st)"
  shows "open_status (uc_status row)" "st = uc_status row" "err = uc_last_error_code row"
    "claim = claim_of_row row (uc_status row = Prepared \<or> uc_last_error_code row = Some PUT_OUTCOME_AMBIGUOUS_ERROR_CODE)"
  using assms
  by (auto simp: decode_claim_row_def claim_of_row_def result_simps required_text_def optional_text_def
      required_attempt_count_def split: option.splits if_splits)

definition claims_row :: "KnowledgeUploadCleanup \<Rightarrow> KnowledgeUploadCleanup \<Rightarrow> CleanupClaim \<Rightarrow> bool" where
  "claims_row row row' cl \<longleftrightarrow> uc_status row' = Pending \<and> uc_attempt_count row < 3 \<and>
     uc_attempt_count row' = uc_attempt_count row + 1 \<and> cc_cleanup_id cl = uc_id row \<and>
     cc_tenant_id cl = uc_tenant_id row \<and> cc_object_key cl = uc_object_key row \<and>
     (uc_status row = Prepared \<longrightarrow> cc_requires_presence_confirmation cl) \<and>
     uc_object_key row = worker_knowledge_raw_key (uc_tenant_id row) (uc_source_id row) (uc_object_id row)"

lemma claims_row_claimed:
  assumes "row \<in> set (cleanups d)" "row' \<in> set (cleanups d')" "cleanup_step row row'" "claims_row row row' cl"
  shows "row_claimed d d' row"
  using assms cleanup_step_facts[OF assms(3)] by (auto simp: row_claimed_def claims_row_def worker_key_eq)

lemma claim_row_effect:
  assumes "schema_ok d" "row \<in> set (cleanups d)" "claim_row now row d = Inr (c, d')"
  shows "\<exists>row'. d' = save_cleanup row' d \<and> cleanup_step row row' \<and>
    (case c of None \<Rightarrow> uc_status row' = Exhausted | Some cl \<Rightarrow> claims_row row row' cl)"
proof -
  from assms(3) obtain claim err st where dec: "decode_claim_row row = Inr (claim, err, st)"
    by (auto simp: claim_row_def result_simps split: sum.splits)
  note dec' = decode_claim_row_Inr[OF dec] and steps = MARK_steps[OF assms(1,2)]
  let ?key = "worker_knowledge_raw_key (uc_tenant_id row) (uc_source_id row) (uc_object_id row)"
  have run: "claim_row now row d = Inr (c, d')" by (fact assms(3))
  consider "uc_object_key row \<noteq> ?key" | "uc_object_key row = ?key" "uc_attempt_count row \<ge> 3"
    | "uc_object_key row = ?key" "uc_attempt_count row < 3" by linarith
  then show ?thesis
  proof cases
    case 1
    then have "d' = MARK_EXHAUSTED (uc_id row) (uc_tenant_id row) 3 KEY_MISMATCH_ERROR_CODE now d" "c = None"
      using run by (simp_all add: claim_row_def result_simps dec dec' claim_of_row_def MAX_RECONCILIATION_ATTEMPTS_def)
    then show ?thesis using steps(1)[OF dec'(1), of 3 KEY_MISMATCH_ERROR_CODE now] by auto
  next
    case 2
    then have "d' = MARK_EXHAUSTED (uc_id row) (uc_tenant_id row) (uc_attempt_count row) (error_or_default (uc_last_error_code row)) now d" "c = None"
      using run by (simp_all add: claim_row_def result_simps dec dec' claim_of_row_def MAX_RECONCILIATION_ATTEMPTS_def)
    then show ?thesis
      using steps(1)[OF dec'(1), of "uc_attempt_count row" "error_or_default (uc_last_error_code row)" now] by auto
  next
    case 3
    define e where "e = (if uc_status row = Prepared \<and> uc_last_error_code row = None
        then Some PUT_OUTCOME_AMBIGUOUS_ERROR_CODE else uc_last_error_code row)"
    define due where "due = worker_lease_until now (uc_attempt_count row + 1)"
    have "d' = MARK_CLAIMED (uc_id row) (uc_tenant_id row) (uc_attempt_count row + 1) due e now d \<and>
        c = Some (claim\<lparr>cc_attempt_count := uc_attempt_count row + 1\<rparr>)"
      using run 3 unfolding claim_row_def
      by (simp add: result_simps dec dec'(2,3) Let_def MAX_RECONCILIATION_ATTEMPTS_def dec'(4) claim_of_row_def
          e_def[symmetric] due_def[symmetric])
    then show ?thesis using steps(2)[OF dec'(1) 3(2), of due e now] 3 by (auto simp: dec' claim_of_row_def claims_row_def)
  qed
qed

text \<open>
  A claimed batch is a run of single-row steps, and every claim handed out belongs to a row that
  was due and unresolved before and is \<open>pending\<close> now.
\<close>

lemma claim_rows_effect:
  assumes "claim_rows now rows d = Inr ((claims, n), d')" "schema_ok d" "set rows \<subseteq> set (cleanups d)" "distinct (map uc_id rows)"
  shows "cleanup_run d d' \<and> length claims + n = length rows \<and>
    (\<forall>r \<in> set (cleanups d). uc_id r \<notin> uc_id ` set rows \<longrightarrow> r \<in> set (cleanups d')) \<and>
    (\<forall>cl \<in> set claims. \<exists>row \<in> set rows. \<exists>row' \<in> set (cleanups d'). cleanup_step row row' \<and> claims_row row row' cl)"
  using assms
proof (induction rows arbitrary: d claims n)
  case Nil
  then show ?case by (simp add: result_simps)
next
  case (Cons row rows)
  then obtain c d1 claims1 n1 where one: "claim_row now row d = Inr (c, d1)"
    and rest: "claim_rows now rows d1 = Inr ((claims1, n1), d')"
    and res: "(claims, n) = (case c of None \<Rightarrow> (claims1, Suc n1) | Some cl \<Rightarrow> (cl # claims1, n1))"
    by (auto simp: result_simps)
  have row: "row \<in> set (cleanups d)" using Cons.prems by simp
  obtain row' where d1: "d1 = save_cleanup row' d" and step: "cleanup_step row row'"
    and cl: "case c of None \<Rightarrow> uc_status row' = Exhausted | Some cl \<Rightarrow> claims_row row row' cl"
    using claim_row_effect[OF Cons.prems(2) row one] by blast
  note same = cleanup_step_facts[OF step]
  have ok1: "schema_ok d1" unfolding d1 by (rule schema_ok_save_cleanup[OF Cons.prems(2) row step])
  have txn: "cleanup_txn d d1" unfolding d1 cleanup_txn_def
    using Cons.prems(2) ok1 d1 cleanup_effect_save[OF row step] by auto
  have others: "r \<in> set (cleanups d1)" if "r \<in> set (cleanups d)" "uc_id r \<noteq> uc_id row" for r
    using that same by (simp add: d1 set_save_cleanup)
  have sub: "set rows \<subseteq> set (cleanups d1)"
  proof
    fix x assume x: "x \<in> set rows"
    then have "uc_id x \<noteq> uc_id row" using Cons.prems(4) by (auto simp: rev_image_eqI)
    then show "x \<in> set (cleanups d1)" using x Cons.prems(3) others by auto
  qed
  have row1: "row' \<in> set (cleanups d1)" using row same by (auto simp: d1 set_save_cleanup image_iff)
  note IH = Cons.IH[OF rest ok1 sub]
  have fresh: "uc_id row \<notin> uc_id ` set rows" "distinct (map uc_id rows)" using Cons.prems(4) by auto
  note IH = IH[OF fresh(2)]
  have kept: "row' \<in> set (cleanups d')" using IH row1 fresh(1) same by auto
  have "cleanup_run d d'" using txn IH by (meson converse_rtranclp_into_rtranclp)
  moreover have "length claims + n = length (row # rows)" using res IH by (auto split: option.splits)
  moreover have "\<exists>r \<in> set (row # rows). \<exists>r' \<in> set (cleanups d'). cleanup_step r r' \<and> claims_row r r' c'"
    if "c' \<in> set claims" for c'
    using that res cl kept step IH by (cases c) auto
  moreover have "r \<in> set (cleanups d')" if "r \<in> set (cleanups d)" "uc_id r \<notin> uc_id ` set (row # rows)" for r
    using that others IH by auto
  ultimately show ?case by blast
qed

lemma CLAIM_DUE_rows:
  assumes "schema_ok d"
  shows "set (CLAIM_DUE locked now n d) \<subseteq> {r \<in> set (cleanups d). cleanup_due now r \<and> \<not> locked (uc_id r)}"
    "distinct (map uc_id (CLAIM_DUE locked now n d))" "length (CLAIM_DUE locked now n d) \<le> n"
proof -
  let ?s = "sort_key (\<lambda>r. (the (uc_next_attempt_at r), uc_id r)) (filter (cleanup_due now) (cleanups d))"
  show "set (CLAIM_DUE locked now n d) \<subseteq> {r \<in> set (cleanups d). cleanup_due now r \<and> \<not> locked (uc_id r)}"
    by (auto simp: CLAIM_DUE_def dest: in_set_takeD)
  have "distinct (map uc_id (cleanups d))" using assms by (simp add: schema_ok_def cleanups_ok_def)
  then have "distinct (map uc_id ?s)" by (auto simp: distinct_map intro: inj_on_subset)
  then show "distinct (map uc_id (CLAIM_DUE locked now n d))"
    unfolding CLAIM_DUE_def take_map[symmetric] by (intro distinct_take distinct_map_filterI)
  show "length (CLAIM_DUE locked now n d) \<le> n" by (simp add: CLAIM_DUE_def)
qed

lemma claim_due_batch_effect:
  assumes "claim_due_batch locked now n d = Inr ((claims, x), d')" "schema_ok d"
  shows "cleanup_run d d' \<and> length claims + x \<le> n \<and>
    (\<forall>cl \<in> set claims. \<exists>row \<in> set (cleanups d). \<exists>row' \<in> set (cleanups d').
       cleanup_due now row \<and> \<not> locked (uc_id row) \<and> cleanup_step row row' \<and> claims_row row row' cl)"
proof -
  have rows: "claim_rows now (CLAIM_DUE locked now n d) d = Inr ((claims, x), d')"
    using assms(1) by (simp add: claim_due_batch_def result_simps)
  note due = CLAIM_DUE_rows[OF assms(2), of locked now n]
  have "set (CLAIM_DUE locked now n d) \<subseteq> set (cleanups d)" using due(1) by blast
  note eff = claim_rows_effect[OF rows assms(2) this due(2)]
  have "length claims + x \<le> n" using eff due(3) by linarith
  with eff due(1) show ?thesis by blast
qed

section \<open>Executing\<close>

lemma execute_claim_run:
  assumes "execute_claim env st claim (d, b) = (r, d', b')" "schema_ok d"
  shows "cleanup_run d d'"
  using assms(1) worker_failed.txn_run[OF _ assms(2)] worker_success.txn_run[OF _ assms(2)]
  unfolding execute_claim_def by (auto simp: Let_def split: prod.splits sum.splits if_splits)

lemma execute_claim_deletes:
  assumes "storage_ok st visible" "execute_claim env st claim (d, b) = (r, d', b')"
  shows "(visible b' k \<longrightarrow> visible b k) \<and> (k \<noteq> cc_object_key claim \<longrightarrow> visible b' k = visible b k)"
proof -
  have "b' = b \<or> (\<exists>q. st_delete st (cc_object_key claim) b = (q, b'))"
    using assms(2) unfolding execute_claim_def
    by (auto simp: Let_def split: prod.splits sum.splits if_splits)
  then show ?thesis using storage_okD(3,4)[OF assms(1)] by blast
qed

lemma changes_trans:
  assumes "(a \<longrightarrow> b) \<and> (k \<notin> S \<longrightarrow> a = b)" "(b \<longrightarrow> c) \<and> (k \<noteq> x \<longrightarrow> b = c)"
  shows "(a \<longrightarrow> c) \<and> (k \<notin> insert x S \<longrightarrow> a = c)"
  using assms by (cases a; cases b; cases c) auto

lemma execute_claims_effect:
  assumes "execute_claims env st claims counts w = (r, w')" "schema_ok (fst w)"
  shows "cleanup_run (fst w) (fst w') \<and>
    (\<forall>s' r' x'. r = Inr (s', r', x') \<longrightarrow> s' + r' + x' = fst counts + fst (snd counts) + snd (snd counts) + length claims) \<and>
    (storage_ok st visible \<longrightarrow> (\<forall>k. (visible (snd w') k \<longrightarrow> visible (snd w) k) \<and>
       (k \<notin> cc_object_key ` set claims \<longrightarrow> visible (snd w') k = visible (snd w) k)))"
  using assms
proof (induction env st claims counts w arbitrary: r w' rule: execute_claims.induct)
  case (2 env st claim claims s q x w)
  obtain o1 d1 b1 where one: "execute_claim (env (cc_cleanup_id claim)) st claim (fst w, snd w) = (o1, d1, b1)"
    by (metis prod.collapse)
  note run = execute_claim_run[OF one 2(3)]
  note ok = cleanup_run_schema[OF run 2(3)] and del = execute_claim_deletes[of st visible, OF _ one]
  show ?case
  proof (cases o1)
    case (Inl e)
    with 2(2) one run del show ?thesis by auto
  next
    case (Inr outcome)
    let ?counts = "case outcome of OutcomeSucceeded \<Rightarrow> (Suc s, q, x) | OutcomeRetryScheduled \<Rightarrow> (s, Suc q, x)
      | OutcomeExhausted \<Rightarrow> (s, q, Suc x)"
    have rest: "execute_claims env st claims ?counts (d1, b1) = (r, w')" using 2(2) one Inr by simp
    note IH = 2(1)[of o1 "(d1, b1)" outcome, OF _ Inr rest] 
    have IH: "cleanup_run d1 (fst w') \<and>
      (\<forall>s' r' x'. r = Inr (s', r', x') \<longrightarrow> s' + r' + x' = fst ?counts + fst (snd ?counts) + snd (snd ?counts) + length claims) \<and>
      (storage_ok st visible \<longrightarrow> (\<forall>k. (visible (snd w') k \<longrightarrow> visible b1 k) \<and>
       (k \<notin> cc_object_key ` set claims \<longrightarrow> visible (snd w') k = visible b1 k)))"
      using IH one ok by simp
    have "fst ?counts + fst (snd ?counts) + snd (snd ?counts) = Suc (s + q + x)" by (cases outcome) auto
    then have "\<forall>s' r' x'. r = Inr (s', r', x') \<longrightarrow> s' + r' + x' = s + q + x + length (claim # claims)"
      using IH by simp
    moreover have "cleanup_run (fst w) (fst w')" using run IH by (meson rtranclp_trans)
    moreover have "(visible (snd w') k \<longrightarrow> visible (snd w) k) \<and>
       (k \<notin> cc_object_key ` set (claim # claims) \<longrightarrow> visible (snd w') k = visible (snd w) k)"
      if "storage_ok st visible" for k
    proof -
      have "(visible (snd w') k \<longrightarrow> visible b1 k) \<and>
          (k \<notin> cc_object_key ` set claims \<longrightarrow> visible (snd w') k = visible b1 k)" using IH that by blast
      from changes_trans[OF this del[OF that, of k]] show ?thesis by (simp only: list.simps image_insert)
    qed
    ultimately show ?thesis by simp
  qed
qed simp

lemma worker_batch_effect:
  assumes "worker_reconcile_due_upload_cleanups env st batch_size (d, b) = (r, d', b')"
    and "schema_ok d" "storage_ok st visible"
  shows "cleanup_run d d' \<and>
    (\<forall>k. visible b' k \<noteq> visible b k \<longrightarrow> visible b k \<and>
       (\<exists>row. row_claimed d d' row \<and> uc_object_key row = k \<and> cleanup_due (be_now env) row \<and>
          \<not> be_locked env (uc_id row))) \<and>
    (\<forall>res. r = Inr res \<longrightarrow> br_processed res = br_succeeded res + br_retry_scheduled res + br_exhausted res \<and>
       br_processed res \<le> nat batch_size)"
proof (cases "1 \<le> batch_size \<and> batch_size \<le> MAX_BATCH_SIZE")
  case True
  obtain x d1 where txn: "in_txn (be_claim env) (claim_due_batch (be_locked env) (be_now env) (nat batch_size)) d = (x, d1)"
    by fastforce
  have claimed: "cleanup_run d d1"
    using txn by (cases rule: in_txn_cases) (use claim_due_batch_effect[OF _ assms(2)] in \<open>auto simp: split_paired_all\<close>)
  note ok = cleanup_run_schema[OF claimed assms(2)]
  show ?thesis
  proof (cases x)
    case (Inl e)
    then show ?thesis using assms(1) txn True claimed by (auto simp: worker_reconcile_due_upload_cleanups_def)
  next
    case (Inr p)
    obtain claims n where p: "p = (claims, n)" by (cases p)
    note batch = claim_due_batch_effect[OF conjunct1[OF in_txn_Inr[OF txn[unfolded Inr p]]] assms(2)]
    obtain q w' where ex: "execute_claims (be_execute env) st claims (0, 0, n) (d1, b) = (q, w')"
      by (cases "execute_claims (be_execute env) st claims (0, 0, n) (d1, b)")
    have out: "w' = (d', b')" "\<And>res. r = Inr res \<Longrightarrow> \<exists>s u y. q = Inr (s, u, y) \<and>
        res = \<lparr>br_processed = length claims + n, br_succeeded = s, br_retry_scheduled = u, br_exhausted = y\<rparr>"
      using assms(1) txn True ex by (auto simp: worker_reconcile_due_upload_cleanups_def Inr p split: sum.splits)
    note eff = execute_claims_effect[OF ex, of visible, simplified out(1) fst_conv snd_conv, OF ok]
    have "cleanup_run d d'" using claimed eff by (meson rtranclp_trans)
    moreover have "\<exists>row. row_claimed d d' row \<and> uc_object_key row = k \<and> cleanup_due (be_now env) row \<and>
          \<not> be_locked env (uc_id row)" if "k \<in> cc_object_key ` set claims" for k
    proof -
      from that batch obtain cl row row' where row: "k = cc_object_key cl" "row \<in> set (cleanups d)" "row' \<in> set (cleanups d1)"
        "cleanup_due (be_now env) row" "\<not> be_locked env (uc_id row)" "cleanup_step row row'" "claims_row row row' cl" by blast
      have "row_claimed d d1 row" by (rule claims_row_claimed[OF row(2,3,6,7)])
      then have "row_claimed d d' row" using eff ok by (blast intro: row_claimed_later)
      with row show ?thesis by (auto simp: claims_row_def)
    qed
    moreover have "visible b k \<and> k \<in> cc_object_key ` set claims" if "visible b' k \<noteq> visible b k" for k
      using that eff assms(3) by auto
    moreover have "br_processed res = br_succeeded res + br_retry_scheduled res + br_exhausted res \<and>
        br_processed res \<le> nat batch_size" if "r = Inr res" for res
      using out(2)[OF that] eff batch by auto
    ultimately show ?thesis by blast
  qed
qed (use assms(1) in \<open>auto simp: worker_reconcile_due_upload_cleanups_def\<close>)

text \<open>
  C11: One worker batch, whatever the database and storage answer: sources and the tenants'
  standing within quota are untouched, resolved cleanup rows are kept, every other row keeps its
  identity and its object key and has between its old number of attempts and three, and a
  reservation disappears only if its own cleanup is referenced or succeeded.  An object disappears
  from the bucket only if it is the canonical object of a row that was due, not locked by anyone
  else and below three attempts, and the batch has claimed that row in the database: its attempt
  count is higher afterwards.  When the batch completes, its three counts add up to the number of
  rows processed, which is at most the batch size.
\<close>

theorem worker_batch_safe:
  assumes "worker_reconcile_due_upload_cleanups env st batch_size (d, b) = (r, d', b')"
    and "schema_ok d" "storage_ok st visible"
  shows "schema_ok d' \<and> sources d' = sources d \<and> (\<forall>u. quota_ok u d \<longrightarrow> quota_ok u d') \<and>
    (\<forall>c \<in> set (cleanups d). uc_status c \<in> {Referenced, Succeeded, Exhausted} \<longrightarrow> c \<in> set (cleanups d')) \<and>
    (\<forall>c \<in> set (cleanups d). \<exists>c' \<in> set (cleanups d'). uc_id c' = uc_id c \<and> uc_object_key c' = uc_object_key c \<and>
       uc_attempt_count c \<le> uc_attempt_count c' \<and> uc_attempt_count c' \<le> 3) \<and>
    (\<forall>q \<in> set (reservations d). q \<in> set (reservations d') \<or>
       (\<exists>c \<in> set (cleanups d'). ur_cleanup_id q = Some (uc_id c) \<and> uc_status c \<in> {Referenced, Succeeded})) \<and>
    (\<forall>k. visible b' k \<noteq> visible b k \<longrightarrow> visible b k \<and>
       (\<exists>row \<in> set (cleanups d). \<exists>row' \<in> set (cleanups d'). cleanup_due (be_now env) row \<and>
          uc_attempt_count row < 3 \<and> \<not> be_locked env (uc_id row) \<and> k = uc_object_key row \<and>
          k = raw_key_value (knowledge_raw_key (uc_tenant_id row) (uc_source_id row) (uc_object_id row)) \<and>
          uc_id row' = uc_id row \<and> uc_attempt_count row < uc_attempt_count row')) \<and>
    (\<forall>res. r = Inr res \<longrightarrow> br_processed res = br_succeeded res + br_retry_scheduled res + br_exhausted res \<and>
       br_processed res \<le> nat batch_size)"
proof -
  note eff = worker_batch_effect[OF assms]
  then have run: "cleanup_run d d'" by blast
  show ?thesis
    using cleanup_run_schema[OF run assms(2)] cleanup_run_other_tables[OF run] cleanup_run_quota[OF run]
      cleanup_run_terminal[OF run] cleanup_run_hold[OF run] cleanup_run_rows[OF run assms(2)]
  proof (intro conjI ballI allI impI)
    fix k assume k: "visible b' k \<noteq> visible b k"
    with eff show "visible b k" by blast
    from eff k obtain row where "row_claimed d d' row" "uc_object_key row = k" "cleanup_due (be_now env) row"
      "\<not> be_locked env (uc_id row)" by blast
    then show "\<exists>row \<in> set (cleanups d). \<exists>row' \<in> set (cleanups d'). cleanup_due (be_now env) row \<and>
          uc_attempt_count row < 3 \<and> \<not> be_locked env (uc_id row) \<and> k = uc_object_key row \<and>
          k = raw_key_value (knowledge_raw_key (uc_tenant_id row) (uc_source_id row) (uc_object_id row)) \<and>
          uc_id row' = uc_id row \<and> uc_attempt_count row < uc_attempt_count row'"
      unfolding row_claimed_def by blast
  next
    fix res assume "r = Inr res"
    with eff show "br_processed res = br_succeeded res + br_retry_scheduled res + br_exhausted res"
      "br_processed res \<le> nat batch_size" by blast+
  qed (auto, metis)
qed

theorem worker_batch_safe_witness:
  "\<exists>d'. worker_reconcile_due_upload_cleanups
     \<lparr>be_now = 10, be_claim = Committed, be_locked = (\<lambda>_. False), be_execute = (\<lambda>_. \<lparr>ce_final = Committed, ce_later = 20\<rparr>)\<rparr>
     (worker_storage list_adapter) 20
     (cleanup_db (sample_cleanup Prepared 0 (Some 5) None None 0), [raw_key_value (knowledge_raw_key 1 3 4)])
   = (Inr \<lparr>br_processed = 1, br_succeeded = 1, br_retry_scheduled = 0, br_exhausted = 0\<rparr>, d', []) \<and>
   (\<exists>c' \<in> set (cleanups d'). uc_id c' = 7 \<and> 0 < uc_attempt_count c')"
proof -
  let ?env = "\<lparr>be_now = 10, be_claim = Committed, be_locked = (\<lambda>_. False), be_execute = (\<lambda>_. \<lparr>ce_final = Committed, ce_later = 20\<rparr>)\<rparr>"
  let ?key = "raw_key_value (knowledge_raw_key 1 3 4)" and ?row = "sample_cleanup Prepared 0 (Some 5) None None 0"
  let ?res = "\<lparr>br_processed = 1, br_succeeded = 1, br_retry_scheduled = 0, br_exhausted = 0\<rparr>"
  let ?r = "worker_reconcile_due_upload_cleanups ?env (worker_storage list_adapter) 20 (cleanup_db ?row, [?key])"
  have "fst ?r = Inr ?res" "snd (snd ?r) = []" by code_simp+
  then have run: "?r = (Inr ?res, fst (snd ?r), [])" by (simp add: prod_eq_iff)
  have ok: "schema_ok (cleanup_db ?row)" by code_simp
  have gone: "(?key \<in> set []) \<noteq> (?key \<in> set [?key])" by simp
  from worker_batch_safe[OF run ok list_storage_ok(2)] gone
  have "\<exists>c \<in> set (cleanups (cleanup_db ?row)). \<exists>c' \<in> set (cleanups (fst (snd ?r))). uc_id c' = uc_id c \<and>
      uc_attempt_count c < uc_attempt_count c'" by blast
  then have "\<exists>c' \<in> set (cleanups (fst (snd ?r))). uc_id c' = 7 \<and> 0 < uc_attempt_count c'"
    by (simp add: cleanup_db_def sample_cleanup_def)
  with run show ?thesis by blast
qed

section \<open>Agreement with the API\<close>

text \<open>A row with its canonical key.\<close>

lemma claim_agrees_canonical:
  assumes "schema_ok d" "row \<in> set (cleanups d)" "cleanup_due now row" "uc_last_error_code row \<noteq> Some []"
    and "uc_object_key row = raw_key_value (knowledge_raw_key (uc_tenant_id row) (uc_source_id row) (uc_object_id row))"
  shows "\<exists>x d'. claim_body now (uc_tenant_id row) (uc_id row) d = Inr (x, d') \<and>
     claim_row now row d = Inr (case x of Inl _ \<Rightarrow> None | Inr claim \<Rightarrow> Some claim, d')"
proof -
  have o: "open_status (uc_status row)" using assms(3) by (auto simp: cleanup_due_def)
  have bound: "0 \<le> uc_attempt_count row" "uc_attempt_count row \<le> 3"
    using assms(1,2) by (auto simp: constraint_defs list_all_iff)
  have key: "uc_object_key row = worker_knowledge_raw_key (uc_tenant_id row) (uc_source_id row) (uc_object_id row)"
    using assms(5) worker_key_eq by simp
  have dec: "decode_claim_row row = Inr (claim_of_row row (uc_status row = Prepared \<or>
      uc_last_error_code row = Some PUT_OUTCOME_AMBIGUOUS_ERROR_CODE), uc_last_error_code row, uc_status row)"
    using o bound assms(4) key
    by (auto simp: decode_claim_row_def claim_of_row_def required_text_def required_attempt_count_def optional_text_def
        MAX_RECONCILIATION_ATTEMPTS_def worker_knowledge_raw_key_def split: option.splits)
  note lock = locked_cleanup_row[OF assms(1,2)]
  have open_run: "claim_body now (uc_tenant_id row) (uc_id row) d = claim_open now row d"
    unfolding claim_body_def tx_bind_def[of "locked_cleanup (uc_tenant_id row) (uc_id row)"] lock
    using o by auto
  have ok: "cleanups_ok d" using assms(1) by (simp add: schema_ok_def)
  have due: "\<not> (case uc_next_attempt_at row of None \<Rightarrow> True | Some due \<Rightarrow> due > now)"
    using assms(3) by (auto simp: cleanup_due_def split: option.splits)
  note saved = schema_ok_save_cleanup[OF assms(1,2)]
  show ?thesis
  proof (cases "uc_attempt_count row \<ge> 3")
    case True
    define row' where "row' = row\<lparr>uc_status := Exhausted, uc_next_attempt_at := None,
      uc_last_error_code := Some (error_or_default (uc_last_error_code row)), uc_resolved_at := Some now, uc_updated_at := now\<rparr>"
    have m: "mark_upload_cleanup_exhausted row (error_or_default (uc_last_error_code row)) now = Inr row'"
      using o by (auto simp: mark_defs row'_def)
    have "claim_open now row d = Inr (Inl (replay_result row' ReplayExhausted), save_cleanup row' d)"
      using True due m saved[OF marked_steps(2)[OF m]]
      by (simp add: claim_open_def tx_defs write_marked_def MAX_RECONCILIATION_ATTEMPTS_def)
    moreover have "MARK_EXHAUSTED (uc_id row) (uc_tenant_id row) (uc_attempt_count row)
        (error_or_default (uc_last_error_code row)) now d = save_cleanup row' d"
      unfolding MARK_EXHAUSTED_def using o by (subst update_cleanup_row[OF ok assms(2)]) (auto simp: row'_def)
    ultimately show ?thesis
      using True key by (simp add: open_run claim_row_def dec claim_of_row_def tx_defs MAX_RECONCILIATION_ATTEMPTS_def)
  next
    case False
    define n e where "n = uc_attempt_count row + 1" and "e = (if uc_status row = Prepared \<and> uc_last_error_code row = None
      then Some PUT_OUTCOME_AMBIGUOUS_ERROR_CODE else uc_last_error_code row)"
    define row' where "row' = row\<lparr>uc_status := Pending, uc_attempt_count := n, uc_next_attempt_at := Some (lease_until now n),
      uc_last_error_code := e, uc_updated_at := now\<rparr>"
    have "cleanup_step row row'" unfolding row'_def n_def using o False by (intro cleanup_step.claim) auto
    from saved[OF this] have "claim_open now row d = Inr (Inr (claim_of_row row' (uc_status row = Prepared \<or>
        uc_last_error_code row = Some PUT_OUTCOME_AMBIGUOUS_ERROR_CODE)), save_cleanup row' d)"
      using False due assms(5) unfolding claim_open_def
      by (simp add: tx_defs MAX_RECONCILIATION_ATTEMPTS_def Let_def n_def[symmetric] e_def[symmetric] row'_def[symmetric])
    moreover have "worker_lease_until now n = lease_until now n"
      by (simp add: worker_lease_until_def lease_until_def SECOND_RETRY_DELAY_def THIRD_RETRY_DELAY_def)
    then have "MARK_CLAIMED (uc_id row) (uc_tenant_id row) n (worker_lease_until now n) e now d = save_cleanup row' d"
      unfolding MARK_CLAIMED_def using o by (subst update_cleanup_row[OF ok assms(2)]) (auto simp: row'_def)
    ultimately show ?thesis
      using False key unfolding claim_row_def
      by (simp add: open_run dec claim_of_row_def tx_defs MAX_RECONCILIATION_ATTEMPTS_def Let_def n_def[symmetric]
          e_def[symmetric]) (simp add: row'_def)
  qed
qed

text \<open>A row with another key is exhausted on both sides; only the error code of a row that already had three attempts differs.\<close>

definition exhausted_row :: "timestamp \<Rightarrow> string \<Rightarrow> KnowledgeUploadCleanup \<Rightarrow> KnowledgeUploadCleanup" where
  "exhausted_row now err row = row\<lparr>uc_attempt_count := 3, uc_status := Exhausted, uc_next_attempt_at := None,
     uc_last_error_code := Some err, uc_resolved_at := Some now, uc_updated_at := now\<rparr>"

lemma claim_body_due_row:
  assumes "schema_ok d" "row \<in> set (cleanups d)" "cleanup_due now row"
  shows "claim_body now (uc_tenant_id row) (uc_id row) d = claim_open now row d"
  unfolding claim_body_def tx_bind_def[of "locked_cleanup (uc_tenant_id row) (uc_id row)"] locked_cleanup_row[OF assms(1,2)]
  using assms(3) by (auto simp: cleanup_due_def)

lemma api_claim_mismatch:
  assumes "schema_ok d" "row \<in> set (cleanups d)" "cleanup_due now row"
    and "uc_object_key row \<noteq> raw_key_value (knowledge_raw_key (uc_tenant_id row) (uc_source_id row) (uc_object_id row))"
  defines "err \<equiv> (if uc_attempt_count row < 3 then KEY_MISMATCH_ERROR_CODE else error_or_default (uc_last_error_code row))"
  shows "claim_body now (uc_tenant_id row) (uc_id row) d =
    Inr (Inl (replay_result (exhausted_row now err row) ReplayExhausted), save_cleanup (exhausted_row now err row) d)"
proof -
  have o: "open_status (uc_status row)" and due: "\<not> (case uc_next_attempt_at row of None \<Rightarrow> True | Some due \<Rightarrow> due > now)"
    using assms(3) by (auto simp: cleanup_due_def split: option.splits)
  have mark: "mark_upload_cleanup_exhausted (row\<lparr>uc_attempt_count := 3\<rparr>) e now = Inr (exhausted_row now e row)" for e
    using o by (auto simp: mark_defs exhausted_row_def)
  have full: "row\<lparr>uc_attempt_count := 3\<rparr> = row" if "\<not> uc_attempt_count row < 3"
    using that schema_attempts[OF assms(1,2)] by (cases row) simp
  note saved = schema_ok_save_cleanup[OF assms(1,2) marked_steps(3)[OF mark]]
  show ?thesis
    unfolding claim_body_due_row[OF assms(1-3)]
  proof (cases "uc_attempt_count row < 3")
    case True
    then show "claim_open now row d = Inr (Inl (replay_result (exhausted_row now err row) ReplayExhausted),
        save_cleanup (exhausted_row now err row) d)"
      using due mark saved assms(4) by (simp add: claim_open_def tx_defs write_marked_def MAX_RECONCILIATION_ATTEMPTS_def err_def)
  next
    case False
    then show "claim_open now row d = Inr (Inl (replay_result (exhausted_row now err row) ReplayExhausted),
        save_cleanup (exhausted_row now err row) d)"
      using due mark[unfolded full[OF False]] saved
      by (simp add: claim_open_def tx_defs write_marked_def MAX_RECONCILIATION_ATTEMPTS_def err_def)
  qed
qed

lemma worker_claim_mismatch:
  assumes "schema_ok d" "row \<in> set (cleanups d)" "cleanup_due now row" "uc_last_error_code row \<noteq> Some []"
    and "uc_object_key row \<noteq> []"
    and "uc_object_key row \<noteq> raw_key_value (knowledge_raw_key (uc_tenant_id row) (uc_source_id row) (uc_object_id row))"
  shows "claim_row now row d = Inr (None, save_cleanup (exhausted_row now KEY_MISMATCH_ERROR_CODE row) d)"
proof -
  have o: "open_status (uc_status row)" using assms(3) by (auto simp: cleanup_due_def)
  have bound: "0 \<le> uc_attempt_count row" "uc_attempt_count row \<le> 3"
    using assms(1,2) by (auto simp: constraint_defs list_all_iff)
  have dec: "decode_claim_row row = Inr (claim_of_row row (uc_status row = Prepared \<or>
      uc_last_error_code row = Some PUT_OUTCOME_AMBIGUOUS_ERROR_CODE), uc_last_error_code row, uc_status row)"
    using o bound assms(4,5)
    by (auto simp: decode_claim_row_def claim_of_row_def required_text_def required_attempt_count_def optional_text_def
        MAX_RECONCILIATION_ATTEMPTS_def split: option.splits)
  have ok: "cleanups_ok d" using assms(1) by (simp add: schema_ok_def)
  have "MARK_EXHAUSTED (uc_id row) (uc_tenant_id row) 3 KEY_MISMATCH_ERROR_CODE now d =
      save_cleanup (exhausted_row now KEY_MISMATCH_ERROR_CODE row) d"
    unfolding MARK_EXHAUSTED_def using o by (subst update_cleanup_row[OF ok assms(2)]) (auto simp: exhausted_row_def)
  then show ?thesis
    using assms(6) by (simp add: claim_row_def dec claim_of_row_def tx_defs MAX_RECONCILIATION_ATTEMPTS_def worker_key_eq)
qed

lemma worker_claim_unreadable:
  assumes "uc_object_key row = [] \<or> uc_last_error_code row = Some []" "cleanup_due now row" "schema_ok d" "row \<in> set (cleanups d)"
  shows "claim_row now row d = Inl KnowledgeUploadCleanupStateError"
proof -
  have "0 \<le> uc_attempt_count row" "uc_attempt_count row \<le> 3"
    using assms(3,4) by (auto simp: constraint_defs list_all_iff)
  then show ?thesis using assms(1,2)
    by (auto simp: claim_row_def decode_claim_row_def required_text_def required_attempt_count_def optional_text_def
        cleanup_due_def MAX_RECONCILIATION_ATTEMPTS_def tx_defs)
qed

text \<open>
  C13: What the worker and the API replay do with any due cleanup row.  The API's claiming
  transaction goes through.  If the row's object key and error code are readable text, the worker
  makes the same change: the same table contents, the same claim when there is one, exhaustion for
  the same rows; the one difference is a row with a foreign object key that already had three
  attempts, where the worker records the key mismatch as the error and the API keeps the row's last
  error.  A row whose object key or error code is the empty string makes the worker's claim raise
  \<open>KnowledgeUploadCleanupStateError\<close>, which the API does not.
\<close>

theorem worker_claim_agrees_with_api:
  assumes "schema_ok d" "row \<in> set (cleanups d)" "cleanup_due now row"
  defines "canonical \<equiv> uc_object_key row = raw_key_value (knowledge_raw_key (uc_tenant_id row) (uc_source_id row) (uc_object_id row))"
    and "readable \<equiv> uc_object_key row \<noteq> [] \<and> uc_last_error_code row \<noteq> Some []"
  shows "\<exists>x d'. claim_body now (uc_tenant_id row) (uc_id row) d = Inr (x, d') \<and>
     (readable \<and> (canonical \<or> uc_attempt_count row < 3) \<longrightarrow>
        claim_row now row d = Inr (case x of Inl _ \<Rightarrow> None | Inr claim \<Rightarrow> Some claim, d')) \<and>
     (readable \<and> \<not> canonical \<and> 3 \<le> uc_attempt_count row \<longrightarrow>
        claim_row now row d = Inr (None, save_cleanup (exhausted_row now KEY_MISMATCH_ERROR_CODE row) d) \<and>
        d' = save_cleanup (exhausted_row now (error_or_default (uc_last_error_code row)) row) d) \<and>
     (\<not> readable \<longrightarrow> claim_row now row d = Inl KnowledgeUploadCleanupStateError)"
proof (cases readable)
  case True
  then have r: "uc_object_key row \<noteq> []" "uc_last_error_code row \<noteq> Some []" by (simp_all add: readable_def)
  show ?thesis
  proof (cases canonical)
    case True
    from claim_agrees_canonical[OF assms(1-3) r(2) True[unfolded canonical_def]] r True show ?thesis
      by (auto simp: readable_def)
  next
    case False
    note key = False[unfolded canonical_def]
    show ?thesis
      using api_claim_mismatch[OF assms(1-3) key] worker_claim_mismatch[OF assms(1-3) r(2,1) key] False r
      by (auto simp: readable_def)
  qed
next
  case False
  have o: "open_status (uc_status row)" using assms(3) by (auto simp: cleanup_due_def)
  obtain x d' where "claim_open now row d = Inr (x, d')" using claim_open_total[OF assms(1,2) o] by blast
  then show ?thesis
    using False worker_claim_unreadable[OF _ assms(3,1,2)] by (auto simp: readable_def claim_body_due_row[OF assms(1-3)])
qed

theorem worker_claim_agrees_with_api_witness:
  "(\<exists>x d'. claim_body 10 1 7 (cleanup_db (sample_cleanup Prepared 0 (Some 5) None None 0)) = Inr (x, d') \<and>
     claim_row 10 (sample_cleanup Prepared 0 (Some 5) None None 0) (cleanup_db (sample_cleanup Prepared 0 (Some 5) None None 0))
       = Inr (case x of Inl _ \<Rightarrow> None | Inr claim \<Rightarrow> Some claim, d')) \<and>
   claim_row 10 (sample_cleanup Pending 1 (Some 5) (Some []) None 0) (cleanup_db (sample_cleanup Pending 1 (Some 5) (Some []) None 0))
     = Inl KnowledgeUploadCleanupStateError"
proof -
  let ?row = "sample_cleanup Prepared 0 (Some 5) None None 0" and ?odd = "sample_cleanup Pending 1 (Some 5) (Some []) None 0"
  have ok: "schema_ok (cleanup_db ?row)" "schema_ok (cleanup_db ?odd)" by code_simp+
  have row: "?row \<in> set (cleanups (cleanup_db ?row))" "cleanup_due 10 ?row" "?odd \<in> set (cleanups (cleanup_db ?odd))"
      "cleanup_due 10 ?odd"
    by (simp_all add: cleanup_db_def sample_cleanup_def cleanup_due_def)
  have key: "raw_key_value (knowledge_raw_key 1 3 4) \<noteq> []" by code_simp
  show ?thesis
    using worker_claim_agrees_with_api[OF ok(1) row(1,2)] worker_claim_agrees_with_api[OF ok(2) row(3,4)] key
    by (auto simp: sample_cleanup_def)
qed

end
