(* ===== verification/Unicode_Text.thy ===== *)
theory Unicode_Text
  imports Prelude
begin

text \<open>
  Python text of the knowledge pipeline as lists of Unicode code points, and bytes as their values: the white space class, the
  \<open>str\<close> methods the normaliser and the chunker call, the spans of \<open>re.finditer\<close> for runs of
  non-space characters, and the UTF-8 codec.
\<close>

type_synonym utext = "int list"

definition cps :: "string \<Rightarrow> utext" where
  "cps s = map of_char s"

text \<open>\<open>str.isspace\<close>, which is also the class \<open>\s\<close> of \<open>re\<close> on \<open>str\<close> patterns.\<close>

definition u_space :: "int \<Rightarrow> bool" where
  "u_space c \<longleftrightarrow> (9 \<le> c \<and> c \<le> 13) \<or> (28 \<le> c \<and> c \<le> 32) \<or> c = 133 \<or> c = 160 \<or> c = 5760 \<or>
     (8192 \<le> c \<and> c \<le> 8202) \<or> c = 8232 \<or> c = 8233 \<or> c = 8239 \<or> c = 8287 \<or> c = 12288"

definition lstrip_while :: "('a \<Rightarrow> bool) \<Rightarrow> 'a list \<Rightarrow> 'a list" where
  "lstrip_while P s = dropWhile P s"

definition rstrip_while :: "('a \<Rightarrow> bool) \<Rightarrow> 'a list \<Rightarrow> 'a list" where
  "rstrip_while P s = rev (dropWhile P (rev s))"

definition u_lstrip :: "utext \<Rightarrow> utext" where
  "u_lstrip s = lstrip_while u_space s"

definition u_strip :: "utext \<Rightarrow> utext" where
  "u_strip s = rstrip_while u_space (u_lstrip s)"

text \<open>\<open>s.split(c)\<close>, \<open>sep.join(parts)\<close>, \<open>s.startswith(p)\<close>\<close>

fun u_split :: "int \<Rightarrow> utext \<Rightarrow> utext list" where
  "u_split c [] = [[]]"
| "u_split c (x # xs) =
     (if x = c then [] # u_split c xs
      else (case u_split c xs of [] \<Rightarrow> [[x]] | y # ys \<Rightarrow> (x # y) # ys))"

fun u_join :: "utext \<Rightarrow> utext list \<Rightarrow> utext" where
  "u_join sep [] = []"
| "u_join sep [s] = s"
| "u_join sep (s # t # ss) = s @ sep @ u_join sep (t # ss)"

definition u_startswith :: "utext \<Rightarrow> utext \<Rightarrow> bool" where
  "u_startswith s p \<longleftrightarrow> take (length p) s = p"

text \<open>\<open>s.replace(old, new)\<close> for a non-empty \<open>old\<close>.\<close>

function u_replace :: "utext \<Rightarrow> utext \<Rightarrow> utext \<Rightarrow> utext" where
  "u_replace old new s =
     (if s = [] \<or> old = [] then s
      else if u_startswith s old then new @ u_replace old new (drop (length old) s)
      else hd s # u_replace old new (tl s))"
  by pat_completeness auto
termination
  by (relation "measure (\<lambda>(old, new, s). length s)") auto

declare u_replace.simps [simp del]

text \<open>\<open>s.rfind(c, 0, stop)\<close>: the last index below \<open>stop\<close>, None for \<open>-1\<close>.\<close>

definition u_rfind :: "int \<Rightarrow> nat \<Rightarrow> utext \<Rightarrow> nat option" where
  "u_rfind c stop s =
     (let w = take stop s; after = length (takeWhile (\<lambda>x. x \<noteq> c) (rev w))
      in if after = length w then None else Some (length w - after - 1))"

text \<open>The spans \<open>(start, end)\<close> of \<open>re.compile(r"\S+").finditer(text)\<close>.\<close>

function token_spans :: "nat \<Rightarrow> utext \<Rightarrow> (nat \<times> nat) list" where
  "token_spans i [] = []"
| "token_spans i (c # cs) =
     (if u_space c then token_spans (Suc i) cs
      else (let n = length (takeWhile (\<lambda>x. \<not> u_space x) (c # cs))
            in (i, i + n) # token_spans (i + n) (drop n (c # cs))))"
  by pat_completeness auto
termination
  by (relation "measure (\<lambda>(i, s). length s)") auto

section \<open>UTF-8\<close>

definition continuation :: "int \<Rightarrow> bool" where
  "continuation b \<longleftrightarrow> 128 \<le> b \<and> b \<le> 191"

definition second_of_three :: "int \<Rightarrow> int \<Rightarrow> bool" where
  "second_of_three a b \<longleftrightarrow>
     (if a = 224 then 160 \<le> b \<and> b \<le> 191 else if a = 237 then 128 \<le> b \<and> b \<le> 159 else continuation b)"

definition second_of_four :: "int \<Rightarrow> int \<Rightarrow> bool" where
  "second_of_four a b \<longleftrightarrow>
     (if a = 240 then 144 \<le> b \<and> b \<le> 191 else if a = 244 then 128 \<le> b \<and> b \<le> 143 else continuation b)"

fun utf8_decode :: "int list \<Rightarrow> utext option" where
  "utf8_decode [] = Some []"
| "utf8_decode (a # rest) =
     (if a \<le> 127 then map_option (Cons a) (utf8_decode rest)
      else if 194 \<le> a \<and> a \<le> 223 then
        (case rest of
           b # r \<Rightarrow> if continuation b then map_option (Cons ((a - 192) * 64 + (b - 128))) (utf8_decode r) else None
         | _ \<Rightarrow> None)
      else if 224 \<le> a \<and> a \<le> 239 then
        (case rest of
           b # c # r \<Rightarrow>
             if second_of_three a b \<and> continuation c
             then map_option (Cons ((a - 224) * 4096 + (b - 128) * 64 + (c - 128))) (utf8_decode r) else None
         | _ \<Rightarrow> None)
      else if 240 \<le> a \<and> a \<le> 244 then
        (case rest of
           b # c # e # r \<Rightarrow>
             if second_of_four a b \<and> continuation c \<and> continuation e
             then map_option (Cons ((a - 240) * 262144 + (b - 128) * 4096 + (c - 128) * 64 + (e - 128))) (utf8_decode r)
             else None
         | _ \<Rightarrow> None)
      else None)"

text \<open>\<open>bytes.decode("utf-8-sig", errors="strict")\<close>: one leading byte order mark is dropped.\<close>

definition utf8_sig_decode :: "string \<Rightarrow> utext option" where
  "utf8_sig_decode bs =
     utf8_decode (map of_char (if take 3 bs = [CHR 0xEF, CHR 0xBB, CHR 0xBF] then drop 3 bs else bs))"

section \<open>Stripping\<close>

lemma lstrip_while_split: "\<exists>a. s = a @ lstrip_while P s \<and> list_all P a"
  by (rule exI[of _ "takeWhile P s"]) (auto simp: lstrip_while_def list_all_iff dest: set_takeWhileD)

lemma rstrip_while_split: "\<exists>a. s = rstrip_while P s @ a \<and> list_all P a"
proof -
  obtain a where a: "rev s = a @ lstrip_while P (rev s)" "list_all P a"
    using lstrip_while_split by blast
  from a(1) have "s = rev (lstrip_while P (rev s)) @ rev a" by (metis rev_append rev_rev_ident)
  with a(2) show ?thesis unfolding rstrip_while_def lstrip_while_def by (metis list_all_rev)
qed

lemma set_lstrip_while: "set (lstrip_while P s) \<subseteq> set s"
  using lstrip_while_split[of s P] by (metis Un_upper2 set_append)

lemma set_rstrip_while: "set (rstrip_while P s) \<subseteq> set s"
  using rstrip_while_split[of s P] by (metis Un_upper1 set_append)

lemma lstrip_while_id: "s = [] \<or> \<not> P (hd s) \<Longrightarrow> lstrip_while P s = s"
  by (cases s) (auto simp: lstrip_while_def)

lemma lstrip_while_hd: "lstrip_while P s = [] \<or> \<not> P (hd (lstrip_while P s))"
  unfolding lstrip_while_def using hd_dropWhile by blast

lemma rstrip_while_last: "rstrip_while P s = [] \<or> \<not> P (last (rstrip_while P s))"
  using lstrip_while_hd[of P "rev s"] by (auto simp: rstrip_while_def lstrip_while_def last_rev)

lemma rstrip_while_id: "s = [] \<or> \<not> P (last s) \<Longrightarrow> rstrip_while P s = s"
  using lstrip_while_id[of "rev s" P] by (auto simp: rstrip_while_def lstrip_while_def hd_rev)

lemma rstrip_while_hd: "rstrip_while P s \<noteq> [] \<Longrightarrow> hd (rstrip_while P s) = hd s"
  using rstrip_while_split[of s P] by (metis hd_append2)

lemma lstrip_while_last: "lstrip_while P s \<noteq> [] \<Longrightarrow> last (lstrip_while P s) = last s"
  using lstrip_while_split[of s P] by (metis last_appendR)

text \<open>A stripped text neither starts nor ends with white space.\<close>

definition stripped :: "utext \<Rightarrow> bool" where
  "stripped s \<longleftrightarrow> s = [] \<or> (\<not> u_space (hd s) \<and> \<not> u_space (last s))"

lemma stripped_u_strip [simp]: "stripped (u_strip s)"
proof (cases "u_strip s = []")
  case False
  have "hd (u_strip s) = hd (u_lstrip s)" "u_lstrip s \<noteq> []"
    using False rstrip_while_hd[of u_space "u_lstrip s"] unfolding u_strip_def by (auto simp: rstrip_while_def)
  then show ?thesis
    using False lstrip_while_hd[of u_space s] rstrip_while_last[of u_space "u_lstrip s"]
    unfolding stripped_def u_lstrip_def u_strip_def by auto
qed (simp add: stripped_def)

lemma u_strip_id: "stripped s \<Longrightarrow> u_strip s = s"
  unfolding stripped_def u_strip_def u_lstrip_def by (auto simp: lstrip_while_id rstrip_while_id)

lemma stripped_lstrip:
  assumes "s = [] \<or> \<not> u_space (last s)"
  shows "stripped (u_lstrip s)"
proof (cases "u_lstrip s = []")
  case False
  then have "last (u_lstrip s) = last s" "s \<noteq> []"
    using lstrip_while_last[of u_space s] unfolding u_lstrip_def by (auto simp: lstrip_while_def)
  with assms False show ?thesis
    using lstrip_while_hd[of u_space s] unfolding stripped_def u_lstrip_def by auto
qed (simp add: stripped_def)

text \<open>Stripping only removes white space.\<close>

abbreviation visible :: "utext \<Rightarrow> utext" where
  "visible s \<equiv> filter (\<lambda>c. \<not> u_space c) s"

lemma visible_spaces: "list_all u_space a \<Longrightarrow> visible a = []"
  by (auto simp: list_all_iff filter_empty_conv)

lemma visible_lstrip [simp]: "visible (u_lstrip s) = visible s"
proof -
  obtain a where "s = a @ u_lstrip s" "list_all u_space a"
    using lstrip_while_split unfolding u_lstrip_def by blast
  then show ?thesis by (metis append_Nil filter_append visible_spaces)
qed

lemma visible_strip [simp]: "visible (u_strip s) = visible s"
proof -
  obtain a where "u_lstrip s = u_strip s @ a" "list_all u_space a"
    using rstrip_while_split unfolding u_strip_def by blast
  then show ?thesis by (metis append_Nil2 filter_append visible_lstrip visible_spaces)
qed

lemma length_u_lstrip_le: "length (u_lstrip s) \<le> length s"
  unfolding u_lstrip_def lstrip_while_def by (rule length_dropWhile_le)

lemma length_u_strip_le: "length (u_strip s) \<le> length s"
  using length_u_lstrip_le[of s] length_dropWhile_le[of u_space "rev (u_lstrip s)"]
  by (simp add: u_strip_def rstrip_while_def)

lemma u_rfind_bound:
  assumes "u_rfind c stop s = Some i"
  shows "i < stop \<and> i < length s"
proof -
  let ?after = "length (takeWhile (\<lambda>x. x \<noteq> c) (rev (take stop s)))"
  have "?after \<le> length (take stop s)" using length_takeWhile_le[of _ "rev (take stop s)"] by simp
  moreover have "?after \<noteq> length (take stop s)" "i = length (take stop s) - ?after - 1"
    using assms unfolding u_rfind_def by (auto simp: Let_def split: if_splits)
  ultimately have "i < length (take stop s)" by linarith
  then show ?thesis by simp
qed

section \<open>Tokens\<close>

lemma token_spans_Nil_iff: "token_spans i s = [] \<longleftrightarrow> visible s = []"
  by (induction i s rule: token_spans.induct) (auto simp: Let_def)

lemma token_spans_shift: "token_spans (i + k) s = map (\<lambda>(a, b). (a + k, b + k)) (token_spans i s)"
proof (induction i s rule: token_spans.induct)
  case (2 i c cs)
  then show ?case
    by (cases "u_space c") (simp_all add: Let_def ac_simps del: takeWhile.simps)
qed simp

text \<open>Spans are in order, do not overlap, and lie within the text.\<close>

lemma token_spans_sorted:
  "sorted_wrt (\<lambda>x y. snd x \<le> fst y) (token_spans i s) \<and>
   list_all (\<lambda>x. i \<le> fst x \<and> fst x < snd x \<and> snd x \<le> i + length s) (token_spans i s)"
proof (induction i s rule: token_spans.induct)
  case (2 i c cs)
  let ?s = "c # cs" and ?n = "length (takeWhile (\<lambda>x. \<not> u_space x) (c # cs))"
  show ?case
  proof (cases "u_space c")
    case True
    with 2(1) show ?thesis by (auto simp: list_all_iff)
  next
    case False
    then have n: "0 < ?n" "?n \<le> length ?s" by (auto intro: le_trans[OF length_takeWhile_le])
    have "sorted_wrt (\<lambda>x y. snd x \<le> fst y) (token_spans (i + ?n) (drop ?n ?s))"
      "list_all (\<lambda>x. i + ?n \<le> fst x \<and> fst x < snd x \<and> snd x \<le> i + ?n + length (drop ?n ?s)) (token_spans (i + ?n) (drop ?n ?s))"
      using 2(2)[OF False refl] by auto
    with n False show ?thesis by (auto simp: Let_def list_all_iff simp del: takeWhile.simps)
  qed
qed simp

end
