(* ===== verification/Regex.thy ===== *)
theory Regex
  imports Unicode_Text
begin

text \<open>
  The fragment of Python's \<open>re\<close> the normaliser uses.  A pattern is data; its meaning at a position is
  the list of the ways it can match, in the order the backtracking matcher tries them, so the match
  that \<open>re\<close> reports is the first.  A position is the text before it (reversed), the text after it and
  the groups captured so far.
\<close>

datatype regex =
    Eps
  | Chr "int \<Rightarrow> bool"
  | Seq regex regex
  | Alt regex regex
  | Rep bool nat "int option" regex
  | Grp nat regex
  | Behind bool "int \<Rightarrow> bool"
  | Ahead bool "int \<Rightarrow> bool"
  | AtStart
  | AtEnd

type_synonym position = "utext \<times> utext \<times> (nat \<times> utext) list"

abbreviation rest_of :: "position \<Rightarrow> utext" where
  "rest_of st \<equiv> fst (snd st)"

text \<open>
  Repetition of a matcher: greedy tries one more round first, lazy tries to stop first.  A round that
  consumes nothing is only taken to reach the lower bound.  The fuel bounds the number of rounds.
\<close>

fun repeat_match :: "(position \<Rightarrow> position list) \<Rightarrow> bool \<Rightarrow> nat \<Rightarrow> nat \<Rightarrow> int option \<Rightarrow> position \<Rightarrow> position list" where
  "repeat_match m greedy 0 lo hi st = (if lo = 0 then [st] else [])"
| "repeat_match m greedy (Suc fuel) lo hi st =
     (let more = (if hi = Some 0 then []
                  else concat (map (\<lambda>st'. if length (rest_of st') < length (rest_of st) \<or> 0 < lo
                                          then repeat_match m greedy fuel (lo - 1) (map_option (\<lambda>h. h - 1) hi) st' else [])
                         (m st)));
          stop = (if lo = 0 then [st] else [])
      in if greedy then more @ stop else stop @ more)"

fun matches :: "regex \<Rightarrow> position \<Rightarrow> position list" where
  "matches Eps st = [st]"
| "matches (Chr P) (before, after, gs) =
     (case after of [] \<Rightarrow> [] | c # cs \<Rightarrow> if P c then [(c # before, cs, gs)] else [])"
| "matches (Seq a b) st = concat (map (matches b) (matches a st))"
| "matches (Alt a b) st = matches a st @ matches b st"
| "matches (Rep greedy lo hi r) st = repeat_match (matches r) greedy (length (rest_of st) + lo) lo hi st"
| "matches (Grp i r) (before, after, gs) =
     map (\<lambda>(b', a', gs'). (b', a', (i, take (length after - length a') after) # gs')) (matches r (before, after, gs))"
| "matches (Behind positive P) (before, after, gs) =
     (let here = (case before of [] \<Rightarrow> False | c # _ \<Rightarrow> P c) in if here = positive then [(before, after, gs)] else [])"
| "matches (Ahead positive P) (before, after, gs) =
     (let here = (case after of [] \<Rightarrow> False | c # _ \<Rightarrow> P c) in if here = positive then [(before, after, gs)] else [])"
| "matches AtStart (before, after, gs) = (if before = [] then [(before, after, gs)] else [])"
| "matches AtEnd (before, after, gs) = (if after = [] \<or> after = [10] then [(before, after, gs)] else [])"

text \<open>\<open>pattern.match(s)\<close> and a group of the match; a group is bound to its last capture.\<close>

definition regex_match :: "regex \<Rightarrow> utext \<Rightarrow> (nat \<times> utext) list option" where
  "regex_match r s = (case matches r ([], s, []) of [] \<Rightarrow> None | (_, _, gs) # _ \<Rightarrow> Some gs)"

definition group :: "nat \<Rightarrow> (nat \<times> utext) list \<Rightarrow> utext" where
  "group i gs = (case map_of gs i of None \<Rightarrow> [] | Some s \<Rightarrow> s)"

text \<open>
  \<open>pattern.sub(f, s)\<close> for a pattern that matches no empty text: matches are replaced from the left
  and do not overlap; look-behind sees the original text.
\<close>

function sub_from :: "regex \<Rightarrow> ((nat \<times> utext) list \<Rightarrow> utext) \<Rightarrow> utext \<Rightarrow> utext \<Rightarrow> utext" where
  "sub_from r f before after =
     (case after of
        [] \<Rightarrow> []
      | c # cs \<Rightarrow>
          (case matches r (before, after, []) of
             (b', a', gs) # _ \<Rightarrow>
               if length a' < length after then f gs @ sub_from r f b' a' else c # sub_from r f (c # before) cs
           | [] \<Rightarrow> c # sub_from r f (c # before) cs))"
  by pat_completeness auto
termination
  by (relation "measure (\<lambda>(r, f, b, a). length a)") auto

declare sub_from.simps [simp del]

definition regex_sub :: "regex \<Rightarrow> ((nat \<times> utext) list \<Rightarrow> utext) \<Rightarrow> utext \<Rightarrow> utext" where
  "regex_sub r f s = sub_from r f [] s"

section \<open>Building blocks\<close>

abbreviation one :: "int \<Rightarrow> regex" where
  "one c \<equiv> Chr (\<lambda>x. x = c)"

fun literal :: "utext \<Rightarrow> regex" where
  "literal [] = Eps"
| "literal [c] = one c"
| "literal (c # cs) = Seq (one c) (literal cs)"

fun seqs :: "regex list \<Rightarrow> regex" where
  "seqs [] = Eps"
| "seqs [r] = r"
| "seqs (r # rs) = Seq r (seqs rs)"

abbreviation star :: "regex \<Rightarrow> regex" where
  "star r \<equiv> Rep True 0 None r"

abbreviation plus :: "regex \<Rightarrow> regex" where
  "plus r \<equiv> Rep True 1 None r"

abbreviation lazy_plus :: "regex \<Rightarrow> regex" where
  "lazy_plus r \<equiv> Rep False 1 None r"

abbreviation opt :: "regex \<Rightarrow> regex" where
  "opt r \<equiv> Rep True 0 (Some 1) r"

section \<open>Matching moves forward\<close>

text \<open>A match consumes a prefix of the text after the position and keeps the whole text.\<close>

definition moves :: "position \<Rightarrow> position \<Rightarrow> bool" where
  "moves st st' \<longleftrightarrow> (\<exists>w. rest_of st = w @ rest_of st' \<and> fst st' = rev w @ fst st)"

lemma moves_refl [simp]: "moves st st"
  by (simp add: moves_def)

lemma moves_trans: "moves a b \<Longrightarrow> moves b c \<Longrightarrow> moves a c"
  unfolding moves_def by (metis append.assoc rev_append)

lemma repeat_match_moves:
  assumes "\<And>st st'. st' \<in> set (m st) \<Longrightarrow> moves st st'" "st' \<in> set (repeat_match m g fuel lo hi st)"
  shows "moves st st'"
  using assms(2)
proof (induction fuel arbitrary: lo hi st)
  case (Suc fuel)
  then consider "st' = st"
    | st1 where "st1 \<in> set (m st)" "st' \<in> set (repeat_match m g fuel (lo - 1) (map_option (\<lambda>h. h - 1) hi) st1)"
    by (simp add: Let_def split: if_splits) blast+
  then show ?case
  proof cases
    case 2
    from assms(1)[OF 2(1)] Suc.IH[OF 2(2)] show ?thesis by (rule moves_trans)
  qed simp
qed (simp split: if_splits)

lemma matches_move: "st' \<in> set (matches r st) \<Longrightarrow> moves st st'"
proof (induction r arbitrary: st st')
  case (Chr P)
  then show ?case by (cases st) (auto simp: moves_def split: list.splits if_splits)
next
  case (Seq a b)
  from Seq.prems obtain st1 where "st1 \<in> set (matches a st)" "st' \<in> set (matches b st1)" by auto
  from Seq.IH(1)[OF this(1)] Seq.IH(2)[OF this(2)] show ?case by (rule moves_trans)
next
  case (Rep g lo hi r)
  then show ?case using repeat_match_moves[of "matches r"] by (metis matches.simps(5))
next
  case (Grp i r)
  obtain b a gs where st: "st = (b, a, gs)" by (cases st)
  with Grp.prems obtain b' a' gs' x where m: "(b', a', gs') \<in> set (matches r st)" "st' = (b', a', x)" by auto
  from Grp.IH[OF m(1)] m(2) show ?case by (simp add: moves_def)
qed (auto simp: moves_def Let_def split: if_splits)

end
