(* ===== verification/Normalization.thy ===== *)
theory Normalization
  imports Unicode_Text
begin

text \<open>
  \<open>services/worker/app/core/knowledge_normalization.py\<close>: bounded extraction of text segments from
  untrusted bytes.  Plain text, the HTML collector and the segment materialisation are modelled in
  full; \<open>pypdf\<close> is an argument that yields the pages, and the tokeniser of
  \<open>html.parser.HTMLParser\<close> an argument that yields the callbacks it makes, in order.
\<close>

section \<open>Data\<close>

record NormalizationLimits =
  nl_max_pdf_bytes :: int
  nl_max_text_bytes :: int
  nl_max_pdf_pages :: int
  nl_max_total_chars :: int
  nl_max_segment_chars :: int
  nl_max_segments :: int

definition limits_positive :: "NormalizationLimits \<Rightarrow> bool" where
  "limits_positive l \<longleftrightarrow> 0 < nl_max_pdf_bytes l \<and> 0 < nl_max_text_bytes l \<and> 0 < nl_max_pdf_pages l \<and>
     0 < nl_max_total_chars l \<and> 0 < nl_max_segment_chars l \<and> 0 < nl_max_segments l"

definition make_normalization_limits :: "NormalizationLimits \<Rightarrow> NormalizationLimits result" where
  "make_normalization_limits l = (if limits_positive l then Inr l else Inl ValueError)"

definition DEFAULT_NORMALIZATION_LIMITS :: NormalizationLimits where
  "DEFAULT_NORMALIZATION_LIMITS = \<lparr>nl_max_pdf_bytes = 25 * 1048576, nl_max_text_bytes = 5 * 1048576,
     nl_max_pdf_pages = 2000, nl_max_total_chars = 5 * 1048576, nl_max_segment_chars = 32768,
     nl_max_segments = 20000\<rparr>"

record NormalizedSegment =
  ns_ordinal :: int
  ns_text :: utext
  ns_page_number :: "int option"
  ns_heading_path :: "utext list"
  ns_start_line :: "int option"
  ns_end_line :: "int option"

record Block =
  bk_text :: utext
  bk_page_number :: "int option"
  bk_heading_path :: "utext list"
  bk_start_line :: "int option"
  bk_end_line :: "int option"

section \<open>Lines and blocks\<close>

definition normalized_lines :: "utext \<Rightarrow> utext list" where
  "normalized_lines text =
     (let normalized = u_replace [13] [10] (u_replace [13, 10] [10] text)
      in map (rstrip_while (\<lambda>c. c \<in> {32, 9, 12, 11})) (u_split 10 normalized))"

text \<open>\<open>re.compile(cls + "+").sub(" ", s)\<close> for a character class.\<close>

fun collapse :: "(int \<Rightarrow> bool) \<Rightarrow> bool \<Rightarrow> utext \<Rightarrow> utext" where
  "collapse P in_run [] = []"
| "collapse P in_run (c # cs) =
     (if P c then (if in_run then collapse P True cs else 32 # collapse P True cs)
      else c # collapse P False cs)"

definition horizontal_space :: "int \<Rightarrow> bool" where
  "horizontal_space c \<longleftrightarrow> c \<in> {32, 9, 12, 11}"

definition html_space :: "int \<Rightarrow> bool" where
  "html_space c \<longleftrightarrow> c \<in> {32, 9, 13, 10, 12, 11}"

definition plain_line :: "utext \<Rightarrow> utext" where
  "plain_line line = collapse horizontal_space False (u_strip line)"

definition pending_block :: "(int \<times> utext) list \<Rightarrow> Block" where
  "pending_block pending =
     \<lparr>bk_text = u_strip (u_join [10] (map snd pending)), bk_page_number = None, bk_heading_path = [],
      bk_start_line = Some (fst (hd pending)), bk_end_line = Some (fst (last pending))\<rparr>"

fun blocks_loop :: "(utext \<Rightarrow> utext) \<Rightarrow> int \<Rightarrow> (int \<times> utext) list \<Rightarrow> utext list \<Rightarrow> Block list" where
  "blocks_loop clean n pending [] = (if pending \<noteq> [] then [pending_block pending] else [])"
| "blocks_loop clean n pending (line # lines) =
     (let cleaned = clean line
      in if cleaned \<noteq> [] then blocks_loop clean (n + 1) (pending @ [(n, cleaned)]) lines
         else if pending \<noteq> [] then pending_block pending # blocks_loop clean (n + 1) [] lines
         else blocks_loop clean (n + 1) [] lines)"

definition blocks_from_lines :: "utext list \<Rightarrow> (utext \<Rightarrow> utext) \<Rightarrow> Block list" where
  "blocks_from_lines lines clean_line = blocks_loop clean_line 1 [] lines"

definition normalize_plain_text :: "utext \<Rightarrow> Block list" where
  "normalize_plain_text text = blocks_from_lines (normalized_lines text) plain_line"

text \<open>\<open>headings[:] = headings[: level - 1]\<close>, padding with empty headings, then the new one.\<close>

definition push_heading :: "nat \<Rightarrow> utext \<Rightarrow> utext list \<Rightarrow> utext list" where
  "push_heading level title headings =
     (let kept = take (level - 1) headings in kept @ replicate (level - 1 - length kept) [] @ [title])"

abbreviation heading_path :: "utext list \<Rightarrow> utext list" where
  "heading_path headings \<equiv> filter (\<lambda>h. h \<noteq> []) headings"

section \<open>Splitting and materialising\<close>

text \<open>
  The loop of \<open>_split_text\<close>; None is the loop that never ends, which needs a maximum of zero.
\<close>

definition split_boundary :: "nat \<Rightarrow> utext \<Rightarrow> nat" where
  "split_boundary maximum remaining =
     (let newline = (case u_rfind 10 (maximum + 1) remaining of None \<Rightarrow> 0 | Some i \<Rightarrow> i);
          space = (if newline = 0 then (case u_rfind 32 (maximum + 1) remaining of None \<Rightarrow> 0 | Some i \<Rightarrow> i) else newline)
      in if space = 0 then maximum else space)"

partial_function (option) split_loop :: "nat \<Rightarrow> utext \<Rightarrow> utext list option" where
  "split_loop maximum remaining =
     (if length remaining > maximum
      then (let boundary = split_boundary maximum remaining;
                piece = u_strip (take boundary remaining)
            in Option.bind (split_loop maximum (u_lstrip (drop boundary remaining))) (\<lambda>pieces.
               Some (if piece \<noteq> [] then piece # pieces else pieces)))
      else Some (if remaining \<noteq> [] then [remaining] else []))"

declare split_loop.simps [code]

definition split_text :: "utext \<Rightarrow> nat \<Rightarrow> utext list option" where
  "split_text text maximum = split_loop maximum (u_strip text)"

fun add_pieces ::
  "NormalizationLimits \<Rightarrow> Block \<Rightarrow> utext list \<Rightarrow> NormalizedSegment list \<times> int \<Rightarrow> (NormalizedSegment list \<times> int) result" where
  "add_pieces l b [] (segments, chars) = Inr (segments, chars)"
| "add_pieces l b (piece # pieces) (segments, chars) =
     (let chars' = chars + int (length piece)
      in if chars' > nl_max_total_chars l then Inl (KnowledgeNormalizationError OutputTooLarge)
         else if int (length segments) \<ge> nl_max_segments l then Inl (KnowledgeNormalizationError SegmentLimitExceeded)
         else add_pieces l b pieces
           (segments @ [\<lparr>ns_ordinal = int (length segments), ns_text = piece, ns_page_number = bk_page_number b,
                         ns_heading_path = bk_heading_path b, ns_start_line = bk_start_line b,
                         ns_end_line = bk_end_line b\<rparr>], chars'))"

fun materialize_blocks ::
  "NormalizationLimits \<Rightarrow> Block list \<Rightarrow> NormalizedSegment list \<times> int \<Rightarrow> (NormalizedSegment list \<times> int) result option" where
  "materialize_blocks l [] acc = Some (Inr acc)"
| "materialize_blocks l (b # bs) acc =
     Option.bind (split_text (bk_text b) (nat (nl_max_segment_chars l))) (\<lambda>pieces.
       case add_pieces l b pieces acc of Inl e \<Rightarrow> Some (Inl e) | Inr acc' \<Rightarrow> materialize_blocks l bs acc')"

definition materialize_segments :: "Block list \<Rightarrow> NormalizationLimits \<Rightarrow> NormalizedSegment list result option" where
  "materialize_segments blocks l =
     Option.bind (materialize_blocks l blocks ([], 0)) (\<lambda>r.
       Some (bind_result r (\<lambda>(segments, _).
         if segments = [] then Inl (KnowledgeNormalizationError EmptyContent) else Inr segments)))"

section \<open>Bounds and content of the segments\<close>

lemma split_boundary_bounds: "0 < m \<Longrightarrow> 0 < split_boundary m s \<and> split_boundary m s \<le> m"
  unfolding split_boundary_def
  by (auto simp: Let_def split: option.splits dest!: u_rfind_bound)

lemma split_loop_correct:
  assumes "0 < m" "stripped s"
  shows "\<exists>ps. split_loop m s = Some ps \<and> (\<forall>p \<in> set ps. p \<noteq> [] \<and> stripped p \<and> length p \<le> m) \<and>
    visible (concat ps) = visible s"
  using assms(2)
proof (induction "length s" arbitrary: s rule: less_induct)
  case less
  show ?case
  proof (cases "m < length s")
    case False
    then show ?thesis
      using less.prems by (subst split_loop.simps) auto
  next
    case True
    let ?b = "split_boundary m s"
    let ?rest = "u_lstrip (drop ?b s)" and ?piece = "u_strip (take ?b s)"
    note b = split_boundary_bounds[OF assms(1), of s]
    have shorter: "length ?rest < length s"
      using b True length_u_lstrip_le[of "drop ?b s"] unfolding length_drop by linarith
    have "drop ?b s \<noteq> []" using b True by simp
    then have "\<not> u_space (last (drop ?b s))" using less.prems True by (auto simp: stripped_def)
    then have "stripped ?rest" by (intro stripped_lstrip) simp
    from less.hyps[OF shorter this] obtain ps where ps: "split_loop m ?rest = Some ps"
      "\<forall>p \<in> set ps. p \<noteq> [] \<and> stripped p \<and> length p \<le> m" "visible (concat ps) = visible ?rest" by blast
    have len: "length ?piece \<le> m" using b length_u_strip_le[of "take ?b s"] by simp
    have vis: "visible ?piece @ visible ?rest = visible s"
      by (simp flip: filter_append)
    have "split_loop m s = Some (if ?piece \<noteq> [] then ?piece # ps else ps)"
      using True ps(1) by (subst split_loop.simps) (simp add: Let_def)
    then show ?thesis using ps(2,3) len vis by (cases "?piece = []") auto
  qed
qed

lemma split_text_correct:
  assumes "0 < m"
  obtains ps where "split_text s m = Some ps" "\<forall>p \<in> set ps. p \<noteq> [] \<and> stripped p \<and> length p \<le> m"
    "visible (concat ps) = visible s"
  using split_loop_correct[OF assms stripped_u_strip[of s]] unfolding split_text_def by auto

text \<open>What holds of the segments collected so far.\<close>

definition segments_ok :: "NormalizationLimits \<Rightarrow> NormalizedSegment list \<Rightarrow> int \<Rightarrow> bool" where
  "segments_ok l segments chars \<longleftrightarrow>
     map ns_ordinal segments = map int [0..<length segments] \<and>
     list_all (\<lambda>s. ns_text s \<noteq> [] \<and> stripped (ns_text s) \<and> int (length (ns_text s)) \<le> nl_max_segment_chars l) segments \<and>
     chars = int (length (concat (map ns_text segments))) \<and> chars \<le> nl_max_total_chars l \<and>
     int (length segments) \<le> nl_max_segments l"

lemma add_pieces_ok:
  assumes "add_pieces l b ps (segs, n) = Inr (segs', n')" "segments_ok l segs n"
    and "\<forall>p \<in> set ps. p \<noteq> [] \<and> stripped p \<and> int (length p) \<le> nl_max_segment_chars l"
  shows "segments_ok l segs' n' \<and>
    visible (concat (map ns_text segs')) = visible (concat (map ns_text segs)) @ visible (concat ps)"
  using assms
proof (induction ps arbitrary: segs n)
  case (Cons p ps)
  let ?seg = "\<lparr>ns_ordinal = int (length segs), ns_text = p, ns_page_number = bk_page_number b,
     ns_heading_path = bk_heading_path b, ns_start_line = bk_start_line b, ns_end_line = bk_end_line b\<rparr>"
  have run: "add_pieces l b ps (segs @ [?seg], n + int (length p)) = Inr (segs', n')"
    and fits: "n + int (length p) \<le> nl_max_total_chars l" "int (length segs) < nl_max_segments l"
    using Cons.prems(1) by (auto simp: Let_def split: if_splits)
  have "segments_ok l (segs @ [?seg]) (n + int (length p))"
    using Cons.prems(2,3) fits by (auto simp: segments_ok_def)
  from Cons.IH[OF run this] Cons.prems(3) show ?case by auto
qed simp

lemma materialize_blocks_ok:
  assumes "limits_positive l" "segments_ok l segs n"
  shows "\<exists>r. materialize_blocks l bs (segs, n) = Some r \<and>
    (\<forall>segs' n'. r = Inr (segs', n') \<longrightarrow> segments_ok l segs' n' \<and>
       visible (concat (map ns_text segs')) = visible (concat (map ns_text segs)) @ visible (concat (map bk_text bs)))"
  using assms(2)
proof (induction bs arbitrary: segs n)
  case (Cons b bs)
  have m: "0 < nat (nl_max_segment_chars l)" using assms(1) by (simp add: limits_positive_def)
  obtain ps where ps: "split_text (bk_text b) (nat (nl_max_segment_chars l)) = Some ps"
    "\<forall>p \<in> set ps. p \<noteq> [] \<and> stripped p \<and> length p \<le> nat (nl_max_segment_chars l)"
    "visible (concat ps) = visible (bk_text b)"
    by (rule split_text_correct[OF m])
  have pieces: "\<forall>p \<in> set ps. p \<noteq> [] \<and> stripped p \<and> int (length p) \<le> nl_max_segment_chars l"
    using ps(2) m by auto
  show ?case
  proof (cases "add_pieces l b ps (segs, n)")
    case (Inl e)
    then show ?thesis by (simp add: ps(1))
  next
    case (Inr acc)
    obtain segs1 n1 where acc: "acc = (segs1, n1)" by fastforce
    note ok = add_pieces_ok[OF Inr[unfolded acc] Cons.prems pieces]
    from Cons.IH[OF conjunct1[OF ok]] ok show ?thesis
      by (auto simp: ps(1,3) Inr acc)
  qed
qed auto

lemma materialize_segments_total:
  assumes "limits_positive l"
  shows "\<exists>r. materialize_segments blocks l = Some r \<and>
    (\<forall>segs. r = Inr segs \<longrightarrow> segs \<noteq> [] \<and> map ns_ordinal segs = map int [0..<length segs] \<and>
       (\<forall>s \<in> set segs. ns_text s \<noteq> [] \<and> \<not> u_space (hd (ns_text s)) \<and> \<not> u_space (last (ns_text s)) \<and>
          int (length (ns_text s)) \<le> nl_max_segment_chars l) \<and>
       int (length (concat (map ns_text segs))) \<le> nl_max_total_chars l \<and>
       int (length segs) \<le> nl_max_segments l \<and>
       visible (concat (map ns_text segs)) = visible (concat (map bk_text blocks)))"
proof -
  have "segments_ok l [] 0" using assms by (simp add: segments_ok_def limits_positive_def)
  from materialize_blocks_ok[OF assms this, of blocks] obtain r where
    r: "materialize_blocks l blocks ([], 0) = Some r"
    "\<And>segs n. r = Inr (segs, n) \<Longrightarrow> segments_ok l segs n \<and>
       visible (concat (map ns_text segs)) = visible (concat (map bk_text blocks))" by auto
  show ?thesis
  proof (cases r)
    case (Inl e)
    then show ?thesis using r(1) by (simp add: materialize_segments_def)
  next
    case (Inr acc)
    obtain segs n where acc: "acc = (segs, n)" by fastforce
    show ?thesis using r(1) r(2)[of segs n] Inr acc
      by (auto simp: materialize_segments_def segments_ok_def stripped_def list_all_iff)
  qed
qed

lemma materialize_segments_bounded_segments:
  assumes "limits_positive l" "materialize_segments blocks l = Some (Inr segs)"
  shows "segs \<noteq> [] \<and> map ns_ordinal segs = map int [0..<length segs] \<and>
    (\<forall>s \<in> set segs. ns_text s \<noteq> [] \<and> \<not> u_space (hd (ns_text s)))"
  using materialize_segments_total[OF assms(1), of blocks] assms(2) by auto

text \<open>
  C23: With positive limits the materialisation always returns.  On success the segments are numbered
  from zero, each is non-empty, starts and ends with a visible character and fits the segment limit,
  the character total and the number of segments fit their limits, and no visible character of the
  blocks is lost, added or moved.
\<close>

theorem materialize_segments_bounded:
  assumes "limits_positive l"
  shows "\<exists>r. materialize_segments blocks l = Some r \<and>
    (\<forall>segs. r = Inr segs \<longrightarrow> segs \<noteq> [] \<and> map ns_ordinal segs = map int [0..<length segs] \<and>
       (\<forall>s \<in> set segs. ns_text s \<noteq> [] \<and> \<not> u_space (hd (ns_text s)) \<and> \<not> u_space (last (ns_text s)) \<and>
          int (length (ns_text s)) \<le> nl_max_segment_chars l) \<and>
       int (length (concat (map ns_text segs))) \<le> nl_max_total_chars l \<and>
       int (length segs) \<le> nl_max_segments l \<and>
       visible (concat (map ns_text segs)) = visible (concat (map bk_text blocks)))"
  using assms by (rule materialize_segments_total)

definition sample_limits :: NormalizationLimits where
  "sample_limits = \<lparr>nl_max_pdf_bytes = 9, nl_max_text_bytes = 64, nl_max_pdf_pages = 3, nl_max_total_chars = 60,
     nl_max_segment_chars = 8, nl_max_segments = 6\<rparr>"

theorem materialize_segments_bounded_witness:
  "limits_positive sample_limits \<and>
   (\<exists>segs. materialize_segments (normalize_plain_text (cps ''ab  cd efg hi'')) sample_limits = Some (Inr segs) \<and>
      map ns_text segs = [cps ''ab cd'', cps ''efg hi''] \<and>
      visible (concat (map ns_text segs)) = cps ''abcdefghi'')"
proof -
  have pos: "limits_positive sample_limits" by code_simp
  have run: "materialize_segments (normalize_plain_text (cps ''ab  cd efg hi'')) sample_limits =
    Some (Inr [\<lparr>ns_ordinal = 0, ns_text = cps ''ab cd'', ns_page_number = None, ns_heading_path = [],
                ns_start_line = Some 1, ns_end_line = Some 1\<rparr>,
               \<lparr>ns_ordinal = 1, ns_text = cps ''efg hi'', ns_page_number = None, ns_heading_path = [],
                ns_start_line = Some 1, ns_end_line = Some 1\<rparr>])" by code_simp
  have "visible (concat (map bk_text (normalize_plain_text (cps ''ab  cd efg hi'')))) = cps ''abcdefghi''"
    by code_simp
  then show ?thesis
    using materialize_segments_bounded[OF pos, of "normalize_plain_text (cps ''ab  cd efg hi'')"] pos run by auto
qed

end
