(* ===== verification/Markdown_Normalization.thy ===== *)
theory Markdown_Normalization
  imports Regex Normalization
begin

text \<open>
  The Markdown part of \<open>knowledge_normalization.py\<close>: the patterns, the line and inline cleaning and
  the block loop with its fences and headings.  The Unicode classes behind \<open>\w\<close> and \<open>\d\<close> are an
  argument, since they are tables of the runtime.
\<close>

record ucd =
  ucd_word :: "int \<Rightarrow> bool"
  ucd_decimal :: "int \<Rightarrow> bool"

section \<open>Patterns\<close>

abbreviation blank :: regex where
  "blank \<equiv> Chr (\<lambda>c. c = 32 \<or> c = 9)"

definition ATX_HEADING :: regex where
  "ATX_HEADING = seqs [AtStart, Grp 1 (Rep True 1 (Some 6) (one 35)), plus blank, Grp 2 (lazy_plus (Chr (\<lambda>c. c \<noteq> 10))),
     star blank, star (one 35), star blank, AtEnd]"

definition LIST_MARKER :: "ucd \<Rightarrow> regex" where
  "LIST_MARKER d = seqs [AtStart, star blank,
     Alt (Chr (\<lambda>c. c \<in> {45, 43, 42})) (Seq (plus (Chr (ucd_decimal d))) (Chr (\<lambda>c. c \<in> {46, 41}))), plus blank]"

definition BLOCKQUOTE_MARKER :: regex where
  "BLOCKQUOTE_MARKER = seqs [AtStart, star blank, plus (Seq (one 62) (opt blank))]"

definition AUTOLINK :: regex where
  "AUTOLINK = seqs [one 60,
     Grp 1 (Seq (Alt (seqs [literal (cps ''http''), opt (one 115), literal (cps ''://'')]) (literal (cps ''mailto:'')))
                (plus (Chr (\<lambda>c. c \<noteq> 62 \<and> \<not> u_space c)))), one 62]"

definition IMAGE :: regex where
  "IMAGE = seqs [one 33, one 91, Grp 1 (star (Chr (\<lambda>c. c \<noteq> 93))), one 93, one 40, star (Chr (\<lambda>c. c \<noteq> 41)), one 41]"

definition LINK :: regex where
  "LINK = seqs [one 91, Grp 1 (plus (Chr (\<lambda>c. c \<noteq> 93))), one 93, one 40, star (Chr (\<lambda>c. c \<noteq> 41)), one 41]"

definition HTML_TAG :: regex where
  "HTML_TAG = seqs [one 60, Rep True 1 (Some 1024) (Chr (\<lambda>c. c \<noteq> 62 \<and> c \<noteq> 10)), one 62]"

definition INLINE_CODE :: regex where
  "INLINE_CODE = seqs [plus (one 96), Grp 1 (lazy_plus (Chr (\<lambda>c. c \<noteq> 96 \<and> c \<noteq> 10))), plus (one 96)]"

definition MARKDOWN_ESCAPE :: regex where
  "MARKDOWN_ESCAPE = seqs [one 92,
     Grp 1 (Chr (\<lambda>c. c \<in> {92, 96, 42, 95, 91, 93, 123, 125, 40, 41, 35, 43, 46, 33, 62, 126, 45}))]"

definition EMPHASIS_MARKER :: "ucd \<Rightarrow> regex" where
  "EMPHASIS_MARKER d = Alt
     (seqs [Behind False (ucd_word d), Chr (\<lambda>c. c \<in> {42, 95}), Ahead True (\<lambda>c. \<not> u_space c)])
     (seqs [Behind True (\<lambda>c. \<not> u_space c), Chr (\<lambda>c. c \<in> {42, 95}), Ahead False (ucd_word d)])"

section \<open>Cleaning\<close>

definition clean_markdown_inline :: "ucd \<Rightarrow> utext \<Rightarrow> utext" where
  "clean_markdown_inline d value =
     (let v1 = regex_sub AUTOLINK (group 1) value;
          v2 = regex_sub IMAGE (group 1) v1;
          v3 = regex_sub LINK (group 1) v2;
          v4 = regex_sub INLINE_CODE (group 1) v3;
          v5 = regex_sub HTML_TAG (\<lambda>_. []) v4;
          v6 = regex_sub MARKDOWN_ESCAPE (group 1) v5;
          v7 = u_replace [126, 126] [] (u_replace [95, 95] [] (u_replace [42, 42] [] v6));
          v8 = regex_sub (EMPHASIS_MARKER d) (\<lambda>_. []) v7
      in collapse horizontal_space False (u_strip v8))"

definition clean_markdown_line :: "ucd \<Rightarrow> utext \<Rightarrow> utext" where
  "clean_markdown_line d line =
     clean_markdown_inline d (regex_sub (LIST_MARKER d) (\<lambda>_. []) (regex_sub BLOCKQUOTE_MARKER (\<lambda>_. []) line))"

section \<open>Blocks\<close>

text \<open>A paragraph carries the heading list as it is, a heading the list without its empty entries.\<close>

definition flush_pending :: "utext list \<Rightarrow> (int \<times> utext) list \<Rightarrow> Block list" where
  "flush_pending headings pending =
     (if pending = [] then []
      else (let block_text = u_strip (u_join [10] (map snd pending))
            in if block_text \<noteq> []
               then [\<lparr>bk_text = block_text, bk_page_number = None, bk_heading_path = headings,
                      bk_start_line = Some (fst (hd pending)), bk_end_line = Some (fst (last pending))\<rparr>]
               else []))"

definition heading_block :: "int \<Rightarrow> utext \<Rightarrow> utext list \<Rightarrow> Block" where
  "heading_block n title headings = \<lparr>bk_text = title, bk_page_number = None, bk_heading_path = heading_path headings,
     bk_start_line = Some n, bk_end_line = Some n\<rparr>"

fun markdown_loop :: "ucd \<Rightarrow> int \<Rightarrow> bool \<Rightarrow> utext list \<Rightarrow> (int \<times> utext) list \<Rightarrow> utext list \<Rightarrow> Block list" where
  "markdown_loop d n in_fence headings pending [] = flush_pending headings pending"
| "markdown_loop d n in_fence headings pending (line # lines) =
     (let stripped_line = u_strip line
      in if u_startswith stripped_line [96, 96, 96] \<or> u_startswith stripped_line [126, 126, 126]
         then flush_pending headings pending @ markdown_loop d (n + 1) (\<not> in_fence) headings [] lines
         else (case (if in_fence then None else regex_match ATX_HEADING line) of
                 Some gs \<Rightarrow>
                   (let title = clean_markdown_inline d (group 2 gs);
                        headings' = push_heading (length (group 1 gs)) title headings
                    in flush_pending headings pending @
                       (if title = [] then markdown_loop d (n + 1) in_fence headings [] lines
                        else heading_block n title headings' # markdown_loop d (n + 1) in_fence headings' [] lines))
               | None \<Rightarrow>
                   if stripped_line = []
                   then flush_pending headings pending @ markdown_loop d (n + 1) in_fence headings [] lines
                   else (let cleaned = (if in_fence then u_strip line else clean_markdown_line d line)
                         in markdown_loop d (n + 1) in_fence headings
                              (if cleaned \<noteq> [] then pending @ [(n, cleaned)] else pending) lines)))"

definition normalize_markdown :: "ucd \<Rightarrow> utext \<Rightarrow> Block list" where
  "normalize_markdown d text = markdown_loop d 1 False [] [] (normalized_lines text)"

section \<open>Blocks are clean and in order\<close>

lemma collapse_hd: "s \<noteq> [] \<Longrightarrow> \<not> P (hd s) \<Longrightarrow> collapse P r s \<noteq> [] \<and> hd (collapse P r s) = hd s"
  by (cases s) auto

lemma collapse_last: "s \<noteq> [] \<Longrightarrow> \<not> P (last s) \<Longrightarrow> collapse P r s \<noteq> [] \<and> last (collapse P r s) = last s"
proof (induction s arbitrary: r)
  case (Cons a s)
  then show ?case by (cases "s = []") auto
qed simp

lemma horizontal_space_u_space: "horizontal_space c \<Longrightarrow> u_space c"
  by (auto simp: horizontal_space_def u_space_def)

lemma stripped_collapse: "stripped s \<Longrightarrow> stripped (collapse horizontal_space False s)"
proof (cases "s = []")
  case False
  assume "stripped s"
  with False have "\<not> u_space (hd s)" "\<not> u_space (last s)" by (auto simp: stripped_def)
  moreover from this have "\<not> horizontal_space (hd s)" "\<not> horizontal_space (last s)"
    using horizontal_space_u_space by blast+
  ultimately show ?thesis
    using collapse_hd[of s horizontal_space False] collapse_last[of s horizontal_space False] False
    by (simp add: stripped_def)
qed (simp add: stripped_def)

lemma clean_markdown_inline_stripped: "stripped (clean_markdown_inline d v)"
  by (simp add: clean_markdown_inline_def Let_def stripped_collapse)

text \<open>A block from lines \<open>lo\<close> to \<open>hi\<close>, and a list of blocks in line order within these bounds.\<close>

definition clean_block :: "Block \<Rightarrow> bool" where
  "clean_block b \<longleftrightarrow> bk_text b \<noteq> [] \<and> stripped (bk_text b)"

fun in_lines :: "int \<Rightarrow> int \<Rightarrow> Block list \<Rightarrow> bool" where
  "in_lines lo hi [] = True"
| "in_lines lo hi (b # bs) =
     (case (bk_start_line b, bk_end_line b) of
        (Some x, Some y) \<Rightarrow> lo \<le> x \<and> x \<le> y \<and> y < hi \<and> in_lines (y + 1) hi bs
      | _ \<Rightarrow> False)"

lemma in_lines_mono: "in_lines lo hi bs \<Longrightarrow> lo' \<le> lo \<Longrightarrow> in_lines lo' hi bs"
  by (cases bs) (auto split: option.splits)

lemma in_lines_append:
  assumes "in_lines lo mid as" "in_lines mid hi bs" "mid \<le> hi" "lo \<le> mid"
  shows "in_lines lo hi (as @ bs)"
  using assms(1,4)
proof (induction as arbitrary: lo)
  case (Cons a as)
  then show ?case using assms(3) by (fastforce split: option.splits)
qed (use assms(2) in \<open>auto intro: in_lines_mono\<close>)

definition pending_ok :: "int \<Rightarrow> int \<Rightarrow> (int \<times> utext) list \<Rightarrow> bool" where
  "pending_ok lo n pending \<longleftrightarrow> sorted_wrt (<) (map fst pending) \<and> (\<forall>x \<in> set pending. lo \<le> fst x \<and> fst x < n)"

lemma flush_pending_ok:
  assumes "pending_ok lo n pending" "lo \<le> n"
  shows "in_lines lo n (flush_pending headings pending) \<and> (\<forall>b \<in> set (flush_pending headings pending). clean_block b)"
proof (cases "pending = []")
  case False
  have "fst (hd pending) \<le> fst (last pending)"
  proof (cases pending)
    case (Cons a list)
    show ?thesis
    proof (cases "list = []")
      case False
      then have "fst a < fst (last list)" using assms(1) Cons unfolding pending_ok_def by auto
      then show ?thesis using Cons False by simp
    qed (simp add: Cons)
  qed (use False in simp)
  moreover have "lo \<le> fst (hd pending)" "fst (last pending) < n"
    using assms(1) False unfolding pending_ok_def by auto
  ultimately show ?thesis using False by (simp add: flush_pending_def Let_def clean_block_def)
qed (simp add: flush_pending_def)

lemma markdown_loop_ok:
  assumes "pending_ok lo n pending" "lo \<le> n"
  shows "in_lines lo (n + int (length lines)) (markdown_loop d n fence headings pending lines) \<and>
    (\<forall>b \<in> set (markdown_loop d n fence headings pending lines). clean_block b)"
  using assms
proof (induction lines arbitrary: lo n fence headings pending)
  case Nil
  then show ?case using flush_pending_ok[of lo n pending headings] by simp
next
  case (Cons line lines)
  let ?hi = "n + int (length (line # lines))"
  note fl = flush_pending_ok[OF Cons.prems, of headings]
  have later: "in_lines (n + 1) ?hi (markdown_loop d (n + 1) f hs [] lines) \<and>
      (\<forall>b \<in> set (markdown_loop d (n + 1) f hs [] lines). clean_block b)" for f hs
    using Cons.IH[of "n + 1" "n + 1" "[]" f hs] by (simp add: pending_ok_def add.assoc)
  define good where "good bs \<longleftrightarrow> in_lines lo ?hi bs \<and> (\<forall>b \<in> set bs. clean_block b)" for bs
  have skip: "good (flush_pending headings pending @ markdown_loop d (n + 1) f hs [] lines)" for f hs
    using fl later[of f hs] Cons.prems(2) unfolding good_def
    by (intro conjI in_lines_append[of lo n]) (auto intro: in_lines_mono[of "n + 1"])
  have head: "good (flush_pending headings pending @ heading_block n t hs # markdown_loop d (n + 1) f hs' [] lines)"
    if "t \<noteq> []" "stripped t" for t f hs hs'
    using fl later[of f hs'] Cons.prems(2) that unfolding good_def
    by (intro conjI in_lines_append[of lo n]) (auto simp: heading_block_def clean_block_def)
  have grow: "pending_ok lo (n + 1) (if v \<noteq> [] then pending @ [(n, v)] else pending)" for v
    using Cons.prems by (fastforce simp: pending_ok_def sorted_wrt_append)
  have body: "good (markdown_loop d (n + 1) f headings (if v \<noteq> [] then pending @ [(n, v)] else pending) lines)" for f v
    using Cons.IH[OF grow[of v], of f headings] Cons.prems(2) unfolding good_def by (simp add: add.assoc)
  have fenced: "good (markdown_loop d (n + 1) f headings (pending @ [(n, v)]) lines)" if "v \<noteq> []" for f v
    using body[of f v] that by simp
  have "good (markdown_loop d n fence headings pending (line # lines))"
    using skip head body fenced clean_markdown_inline_stripped[of d]
    by (simp add: Let_def split: option.split)
  then show ?case by (simp add: good_def)
qed

text \<open>
  Every block of a Markdown document has non-empty text that starts and ends with a visible
  character and a line range within the document, and the blocks follow each other in line order
  without overlap.
\<close>

theorem markdown_blocks_ordered:
  "in_lines 1 (1 + int (length (normalized_lines text))) (normalize_markdown d text) \<and>
   list_all (\<lambda>b. bk_text b \<noteq> [] \<and> \<not> u_space (hd (bk_text b)) \<and> \<not> u_space (last (bk_text b))) (normalize_markdown d text)"
  using markdown_loop_ok[of 1 1 "[]" "normalized_lines text" d False "[]"]
  by (auto simp: normalize_markdown_def pending_ok_def clean_block_def stripped_def list_all_iff)

definition ascii_ucd :: ucd where
  "ascii_ucd = \<lparr>ucd_word = (\<lambda>c. (48 \<le> c \<and> c \<le> 57) \<or> (65 \<le> c \<and> c \<le> 90) \<or> (97 \<le> c \<and> c \<le> 122) \<or> c = 95),
     ucd_decimal = (\<lambda>c. 48 \<le> c \<and> c \<le> 57)\<rparr>"

section \<open>A heading and its paragraph\<close>

text \<open>
  Below a heading that skips a level, the heading and its own paragraph get different heading
  paths: the heading's path drops the empty entry of the skipped level and the paragraph's keeps it.
\<close>

theorem markdown_skipped_level_splits_section:
  "map (\<lambda>b. (bk_text b, bk_heading_path b)) (normalize_markdown ascii_ucd (cps ''## T'' @ [10] @ cps ''x'')) =
     [(cps ''T'', [cps ''T'']), (cps ''x'', [[], cps ''T''])]"
  by code_simp

end
