(* ===== verification/Html_Normalization.thy ===== *)
theory Html_Normalization
  imports Normalization
begin

text \<open>
  The HTML collector of \<open>knowledge_normalization.py\<close>: \<open>_KnowledgeHtmlParser\<close> as a state machine over
  the callbacks \<open>HTMLParser\<close> makes, and the blocks built from what it collected.  Tag names are
  compared in lower case, as the callbacks do.
\<close>

section \<open>The collector\<close>

datatype html_event = StartTag string | StartEndTag string | EndTag string | Data utext

datatype html_scope = Article | MainScope | Fallback

datatype candidate_kind = HeadingCandidate | ContentCandidate

datatype capture_kind = TitleCapture | HeadingCapture | ContentCapture

record HtmlCandidate =
  hc_kind :: candidate_kind
  hc_text :: utext
  hc_scope :: html_scope
  hc_heading_level :: "nat option"

record HtmlCapture =
  ca_tag :: string
  ca_kind :: capture_kind
  ca_scope :: html_scope
  ca_heading_level :: "nat option"
  ca_parts :: "utext option list"

record html_state =
  hs_titles :: "utext list"
  hs_candidates :: "HtmlCandidate list"
  hs_capture :: "HtmlCapture option"
  hs_skip_stack :: "string list"
  hs_article_depth :: nat
  hs_main_depth :: nat
  hs_body_depth :: nat

definition initial_html_state :: html_state where
  "initial_html_state = \<lparr>hs_titles = [], hs_candidates = [], hs_capture = None, hs_skip_stack = [],
     hs_article_depth = 0, hs_main_depth = 0, hs_body_depth = 0\<rparr>"

definition HTML_IGNORED_SUBTREES :: "string list" where
  "HTML_IGNORED_SUBTREES = [''script'', ''style'', ''form'', ''nav'', ''noscript'', ''template'', ''svg'', ''canvas'',
     ''iframe'', ''object'', ''embed'', ''header'', ''footer'', ''aside'']"

definition HTML_VOID_IGNORED :: "string list" where
  "HTML_VOID_IGNORED = [''embed'']"

definition HTML_HEADING_TAGS :: "(string \<times> nat) list" where
  "HTML_HEADING_TAGS = [(''h1'', 1), (''h2'', 2), (''h3'', 3), (''h4'', 4), (''h5'', 5), (''h6'', 6)]"

definition current_scope :: "html_state \<Rightarrow> html_scope" where
  "current_scope s = (if hs_article_depth s > 0 then Article else if hs_main_depth s > 0 then MainScope else Fallback)"

definition capture_add :: "utext option \<Rightarrow> html_state \<Rightarrow> html_state" where
  "capture_add part s =
     (case hs_capture s of None \<Rightarrow> s | Some c \<Rightarrow> s\<lparr>hs_capture := Some (c\<lparr>ca_parts := ca_parts c @ [part]\<rparr>)\<rparr>)"

definition handle_starttag :: "string \<Rightarrow> html_state \<Rightarrow> html_state" where
  "handle_starttag name s =
     (let tag = lower name; ignored = tag \<in> set HTML_IGNORED_SUBTREES; void = tag \<in> set HTML_VOID_IGNORED
      in if hs_skip_stack s \<noteq> [] \<and> ignored \<and> \<not> void then s\<lparr>hs_skip_stack := hs_skip_stack s @ [tag]\<rparr>
         else if hs_skip_stack s \<noteq> [] then s
         else if ignored \<and> \<not> void then s\<lparr>hs_skip_stack := hs_skip_stack s @ [tag]\<rparr>
         else if ignored then s
         else if tag = ''article'' then s\<lparr>hs_article_depth := hs_article_depth s + 1\<rparr>
         else if tag = ''main'' then s\<lparr>hs_main_depth := hs_main_depth s + 1\<rparr>
         else if tag = ''body'' then s\<lparr>hs_body_depth := hs_body_depth s + 1\<rparr>
         else if tag = ''br'' \<and> hs_capture s \<noteq> None then capture_add None s
         else if tag = ''br'' then s
         else if hs_capture s \<noteq> None then s
         else if tag = ''title''
         then s\<lparr>hs_capture := Some \<lparr>ca_tag = tag, ca_kind = TitleCapture, ca_scope = Fallback,
                  ca_heading_level = None, ca_parts = []\<rparr>\<rparr>
         else (case map_of HTML_HEADING_TAGS tag of
                 Some level \<Rightarrow> s\<lparr>hs_capture := Some \<lparr>ca_tag = tag, ca_kind = HeadingCapture, ca_scope = current_scope s,
                                  ca_heading_level = Some level, ca_parts = []\<rparr>\<rparr>
               | None \<Rightarrow>
                   if tag = ''p'' \<or> tag = ''li''
                   then s\<lparr>hs_capture := Some \<lparr>ca_tag = tag, ca_kind = ContentCapture, ca_scope = current_scope s,
                            ca_heading_level = None, ca_parts = []\<rparr>\<rparr>
                   else s))"

text \<open>The cleaned lines of a capture: a line break is an absent part.\<close>

definition clean_html_line :: "utext \<Rightarrow> utext" where
  "clean_html_line s = u_strip (collapse html_space False s)"

fun html_lines :: "utext option list \<Rightarrow> utext \<Rightarrow> utext list" where
  "html_lines [] pending = [clean_html_line pending]"
| "html_lines (None # parts) pending = clean_html_line pending # html_lines parts []"
| "html_lines (Some t # parts) pending = html_lines parts (pending @ t)"

definition clean_html_parts :: "utext option list \<Rightarrow> utext" where
  "clean_html_parts parts =
     u_join [10] (rstrip_while (\<lambda>l. l = []) (lstrip_while (\<lambda>l. l = []) (html_lines parts [])))"

definition finish_capture :: "html_state \<Rightarrow> html_state" where
  "finish_capture s =
     (case hs_capture s of
        None \<Rightarrow> s
      | Some c \<Rightarrow>
          (let s' = s\<lparr>hs_capture := None\<rparr>; text = clean_html_parts (ca_parts c)
           in if text = [] then s'
              else if ca_kind c = TitleCapture then s'\<lparr>hs_titles := hs_titles s @ [text]\<rparr>
              else s'\<lparr>hs_candidates := hs_candidates s @
                     [\<lparr>hc_kind = (if ca_kind c = HeadingCapture then HeadingCandidate else ContentCandidate),
                       hc_text = text, hc_scope = ca_scope c, hc_heading_level = ca_heading_level c\<rparr>]\<rparr>))"

definition handle_endtag :: "string \<Rightarrow> html_state \<Rightarrow> html_state" where
  "handle_endtag name s =
     (let tag = lower name
      in if hs_skip_stack s \<noteq> []
         then (if tag = last (hs_skip_stack s) then s\<lparr>hs_skip_stack := butlast (hs_skip_stack s)\<rparr> else s)
         else
           (let s' = (case hs_capture s of Some c \<Rightarrow> if tag = ca_tag c then finish_capture s else s | None \<Rightarrow> s)
            in if tag = ''article'' \<and> hs_article_depth s' > 0 then s'\<lparr>hs_article_depth := hs_article_depth s' - 1\<rparr>
               else if tag = ''main'' \<and> hs_main_depth s' > 0 then s'\<lparr>hs_main_depth := hs_main_depth s' - 1\<rparr>
               else if tag = ''body'' \<and> hs_body_depth s' > 0 then s'\<lparr>hs_body_depth := hs_body_depth s' - 1\<rparr>
               else s'))"

definition handle_startendtag :: "string \<Rightarrow> html_state \<Rightarrow> html_state" where
  "handle_startendtag name s =
     (let tag = lower name
      in if hs_skip_stack s \<noteq> [] \<or> tag \<in> set HTML_IGNORED_SUBTREES then s
         else if tag = ''br'' \<and> hs_capture s \<noteq> None then capture_add None s
         else if tag = ''br'' then s
         else handle_endtag tag (handle_starttag tag s))"

definition handle_data :: "utext \<Rightarrow> html_state \<Rightarrow> html_state" where
  "handle_data d s = (if hs_skip_stack s = [] \<and> hs_capture s \<noteq> None then capture_add (Some d) s else s)"

fun handle_event :: "html_event \<Rightarrow> html_state \<Rightarrow> html_state" where
  "handle_event (StartTag t) s = handle_starttag t s"
| "handle_event (StartEndTag t) s = handle_startendtag t s"
| "handle_event (EndTag t) s = handle_endtag t s"
| "handle_event (Data d) s = handle_data d s"

definition html_finish :: "html_state \<Rightarrow> html_state" where
  "html_finish s = (if hs_capture s \<noteq> None \<and> hs_skip_stack s = [] then finish_capture s else s)"

section \<open>Blocks\<close>

definition html_block :: "utext \<Rightarrow> utext list \<Rightarrow> Block" where
  "html_block text path = \<lparr>bk_text = text, bk_page_number = None, bk_heading_path = path, bk_start_line = None,
     bk_end_line = None\<rparr>"

fun candidate_blocks :: "utext list \<Rightarrow> HtmlCandidate list \<Rightarrow> Block list" where
  "candidate_blocks headings [] = []"
| "candidate_blocks headings (c # cs) =
     (if hc_kind c = HeadingCandidate
      then (case hc_heading_level c of
              None \<Rightarrow> candidate_blocks headings cs
            | Some level \<Rightarrow>
                (let headings' = push_heading level (hc_text c) headings
                 in html_block (hc_text c) (heading_path headings') # candidate_blocks headings' cs))
      else html_block (hc_text c) (heading_path headings) # candidate_blocks headings cs)"

definition html_blocks :: "html_state \<Rightarrow> Block list" where
  "html_blocks s =
     (let scoped = (\<lambda>sc. filter (\<lambda>c. hc_scope c = sc) (hs_candidates s));
          selected = (if scoped Article \<noteq> [] then scoped Article
                      else if scoped MainScope \<noteq> [] then scoped MainScope else scoped Fallback)
      in (case hs_titles s of [] \<Rightarrow> [] | t # _ \<Rightarrow> [html_block t []]) @ candidate_blocks [] selected)"

definition normalize_html :: "(utext \<Rightarrow> html_event list option) \<Rightarrow> utext \<Rightarrow> Block list result" where
  "normalize_html tokenize text =
     (case tokenize text of
        None \<Rightarrow> Inl (KnowledgeNormalizationError HtmlMalformed)
      | Some events \<Rightarrow> Inr (html_blocks (html_finish (fold handle_event events initial_html_state))))"

section \<open>Ignored subtrees leave no trace\<close>

abbreviation skipped_tag :: "string \<Rightarrow> bool" where
  "skipped_tag t \<equiv> lower t \<in> set HTML_IGNORED_SUBTREES \<and> lower t \<notin> set HTML_VOID_IGNORED"

text \<open>
  The inside of an ignored subtree: any callbacks, with ignored elements nested properly.
\<close>

inductive inside_ignored :: "html_event list \<Rightarrow> bool" where
  none: "inside_ignored []"
| data: "inside_ignored es \<Longrightarrow> inside_ignored (Data d # es)"
| start: "\<not> skipped_tag t \<Longrightarrow> inside_ignored es \<Longrightarrow> inside_ignored (StartTag t # es)"
| startend: "inside_ignored es \<Longrightarrow> inside_ignored (StartEndTag t # es)"
| stop: "\<not> skipped_tag t \<Longrightarrow> inside_ignored es \<Longrightarrow> inside_ignored (EndTag t # es)"
| nested: "skipped_tag t \<Longrightarrow> lower t' = lower t \<Longrightarrow> inside_ignored inner \<Longrightarrow> inside_ignored es \<Longrightarrow>
    inside_ignored (StartTag t # inner @ EndTag t' # es)"

lemma lower_idem [simp]: "lower (lower s) = lower s"
proof -
  have "lower_char (lower_char c) = lower_char c" for c
    by (auto simp: lower_char_def ord_def of_char_of)
  then show ?thesis by (simp add: lower_def)
qed

lemma skip_start: "skipped_tag t \<Longrightarrow> handle_starttag t s = s\<lparr>hs_skip_stack := hs_skip_stack s @ [lower t]\<rparr>"
  by (simp add: handle_starttag_def Let_def)

lemma skip_stop: "lower t' = lower t \<Longrightarrow>
    handle_endtag t' (s\<lparr>hs_skip_stack := hs_skip_stack s @ [lower t]\<rparr>) = s"
  by (simp add: handle_endtag_def Let_def)

lemma skip_inside:
  assumes "inside_ignored es" "hs_skip_stack s \<noteq> []" "skipped_tag (last (hs_skip_stack s))"
    "lower (last (hs_skip_stack s)) = last (hs_skip_stack s)"
  shows "fold handle_event es s = s"
  using assms
proof (induction arbitrary: s)
  case (stop t es)
  then have "lower t \<noteq> last (hs_skip_stack s)" by metis
  then show ?case using stop by (simp add: handle_endtag_def Let_def)
next
  case (nested t t' inner es)
  let ?s = "s\<lparr>hs_skip_stack := hs_skip_stack s @ [lower t]\<rparr>"
  have "fold handle_event inner ?s = ?s" using nested by simp
  then show ?case using nested skip_start[of t s] skip_stop[of t' t s] by simp
qed (auto simp: handle_data_def handle_starttag_def handle_startendtag_def Let_def)

text \<open>
  Whatever an ignored element such as \<open>script\<close>, \<open>style\<close>, \<open>nav\<close> or \<open>form\<close> contains, with its ignored
  descendants closed in order, the collector is in the same state after the element as before it: no
  text, title, heading or scope change comes from inside.
\<close>

theorem ignored_subtree_leaves_no_trace:
  assumes "lower t \<in> set HTML_IGNORED_SUBTREES" "lower t \<notin> set HTML_VOID_IGNORED" "inside_ignored es"
  shows "fold handle_event (StartTag t # es @ [EndTag t]) s = s"
proof -
  let ?s = "s\<lparr>hs_skip_stack := hs_skip_stack s @ [lower t]\<rparr>"
  have "fold handle_event es ?s = ?s" using assms by (intro skip_inside) simp_all
  then show ?thesis using assms skip_start[of t s] skip_stop[of t t s] by simp
qed

theorem ignored_subtree_leaves_no_trace_witness:
  "fold handle_event (StartTag ''SCRIPT'' # [StartTag ''p'', Data (cps ''x''), StartTag ''svg'', EndTag ''svg''] @ [EndTag ''SCRIPT''])
     initial_html_state = initial_html_state"
proof -
  have "inside_ignored []" by (rule inside_ignored.none)
  moreover have svg: "skipped_tag ''svg''" by code_simp
  ultimately have "inside_ignored (StartTag ''svg'' # [] @ EndTag ''svg'' # [])"
    using inside_ignored.nested[OF svg refl, of "[]" "[]"] by blast
  moreover have "\<not> skipped_tag ''p''" by code_simp
  ultimately have "inside_ignored [StartTag ''p'', Data (cps ''x''), StartTag ''svg'', EndTag ''svg'']"
    by (simp add: inside_ignored.start inside_ignored.data)
  moreover have "lower ''SCRIPT'' \<in> set HTML_IGNORED_SUBTREES" "lower ''SCRIPT'' \<notin> set HTML_VOID_IGNORED" by code_simp+
  ultimately show ?thesis by (rule ignored_subtree_leaves_no_trace[rotated 2])
qed

section \<open>Collected text is clean\<close>

lemma join_stripped_lines:
  assumes "ls \<noteq> []" "hd ls \<noteq> []" "last ls \<noteq> []" "\<forall>l \<in> set ls. stripped l"
  shows "u_join [10] ls \<noteq> [] \<and> stripped (u_join [10] ls)"
proof -
  have "hd (u_join [10] ls) = hd (hd ls) \<and> u_join [10] ls \<noteq> []"
    using assms(1,2) by (cases "([10] :: utext, ls)" rule: u_join.cases) auto
  moreover have "u_join [10] ls \<noteq> [] \<and> last (u_join [10] ls) = last (last ls)"
    using assms(1,3) by (induction "[10] :: utext" ls rule: u_join.induct) auto
  moreover have "stripped (hd ls)" "stripped (last ls)" using assms by auto
  ultimately show ?thesis using assms(2,3) by (auto simp: stripped_def)
qed

lemma html_lines_stripped: "l \<in> set (html_lines parts pending) \<Longrightarrow> stripped l"
  by (induction parts pending rule: html_lines.induct) (auto simp: clean_html_line_def)

lemma clean_html_parts_stripped: "stripped (clean_html_parts parts)"
proof -
  let ?a = "lstrip_while (\<lambda>l. l = []) (html_lines parts [])"
  let ?ls = "rstrip_while (\<lambda>l. l = []) ?a"
  show ?thesis
  proof (cases "?ls = []")
    case False
    have "set ?ls \<subseteq> set (html_lines parts [])"
      using set_rstrip_while set_lstrip_while by (rule order_trans)
    then have "\<forall>l \<in> set ?ls. stripped l" using html_lines_stripped by blast
    moreover have "hd ?ls \<noteq> []" "last ?ls \<noteq> []"
      using False rstrip_while_hd[OF False] lstrip_while_hd[of "\<lambda>l. l = []" "html_lines parts []"]
        rstrip_while_last[of "\<lambda>l. l = []" ?a] by (auto simp: rstrip_while_def)
    ultimately show ?thesis
      unfolding clean_html_parts_def using join_stripped_lines[OF False] by blast
  qed (simp add: clean_html_parts_def stripped_def)
qed

end
