(* ===== verification/Chunking.thy ===== *)
theory Chunking
  imports Normalization
begin

text \<open>
  \<open>services/worker/app/core/knowledge_chunking.py\<close>: overlapping token windows over the normalised
  segments, with the provenance of every chunk.  The deque and the token iterator of
  \<open>_token_windows\<close> are the current window and the tokens not read yet.
\<close>

section \<open>Data\<close>

record ChunkPolicy =
  cp_max_tokens :: int
  cp_overlap_tokens :: int
  cp_max_chunks :: int

definition policy_valid :: "ChunkPolicy \<Rightarrow> bool" where
  "policy_valid p \<longleftrightarrow> 0 < cp_max_tokens p \<and> 0 \<le> cp_overlap_tokens p \<and> 0 < cp_max_chunks p \<and>
     cp_overlap_tokens p < cp_max_tokens p"

definition make_chunk_policy :: "ChunkPolicy \<Rightarrow> ChunkPolicy result" where
  "make_chunk_policy p = (if policy_valid p then Inr p else Inl (KnowledgeChunkingError InvalidPolicy))"

definition DEFAULT_CHUNK_POLICY :: ChunkPolicy where
  "DEFAULT_CHUNK_POLICY = \<lparr>cp_max_tokens = 512, cp_overlap_tokens = 64, cp_max_chunks = 20000\<rparr>"

record ChunkProvenance =
  pv_segment_ordinal :: int
  pv_page_number :: "int option"
  pv_heading_path :: "utext list"
  pv_start_line :: "int option"
  pv_end_line :: "int option"

record KnowledgeChunk =
  kc_ordinal :: int
  kc_text :: utext
  kc_token_count :: int
  kc_heading_path :: "utext list"
  kc_provenance :: "ChunkProvenance list"

record HeadingGroup =
  hg_heading_path :: "utext list"
  hg_segments :: "NormalizedSegment list"

record SegmentSpan =
  sp_segment :: NormalizedSegment
  sp_start :: nat
  sp_end :: nat

section \<open>The module\<close>

text \<open>The type checks of the Python code hold by typing; the ordinal and token checks remain.\<close>

fun validate_loop :: "int \<Rightarrow> NormalizedSegment list \<Rightarrow> unit result" where
  "validate_loop expected [] = Inr ()"
| "validate_loop expected (s # ss) =
     (if ns_ordinal s \<noteq> expected then Inl (KnowledgeChunkingError InvalidSegments)
      else if token_spans 0 (ns_text s) = [] then Inl (KnowledgeChunkingError TokenEmptySegment)
      else validate_loop (expected + 1) ss)"

definition validate_segments :: "NormalizedSegment list \<Rightarrow> NormalizedSegment list result" where
  "validate_segments segments =
     (if segments = [] then Inl (KnowledgeChunkingError EmptyInput)
      else bind_result (validate_loop 0 segments) (\<lambda>_. Inr segments))"

fun group_loop :: "utext list \<Rightarrow> NormalizedSegment list \<Rightarrow> NormalizedSegment list \<Rightarrow> HeadingGroup list" where
  "group_loop path current [] = [\<lparr>hg_heading_path = path, hg_segments = current\<rparr>]"
| "group_loop path current (s # ss) =
     (if ns_heading_path s = path then group_loop path (current @ [s]) ss
      else \<lparr>hg_heading_path = path, hg_segments = current\<rparr> # group_loop (ns_heading_path s) [s] ss)"

definition heading_groups :: "NormalizedSegment list \<Rightarrow> HeadingGroup list" where
  "heading_groups segments =
     (let before = takeWhile (\<lambda>s. ns_heading_path s = []) segments
      in case drop (length before) segments of
           [] \<Rightarrow> [\<lparr>hg_heading_path = [], hg_segments = segments\<rparr>]
         | s # ss \<Rightarrow> group_loop (ns_heading_path s) (before @ [s]) ss)"

definition GROUP_SEPARATOR :: utext where
  "GROUP_SEPARATOR = [10, 10]"

fun group_spans :: "nat \<Rightarrow> NormalizedSegment list \<Rightarrow> SegmentSpan list" where
  "group_spans cursor [] = []"
| "group_spans cursor (s # ss) =
     \<lparr>sp_segment = s, sp_start = cursor, sp_end = cursor + length (ns_text s)\<rparr>
       # group_spans (cursor + length (ns_text s) + length GROUP_SEPARATOR) ss"

definition materialize_group :: "NormalizedSegment list \<Rightarrow> utext \<times> SegmentSpan list" where
  "materialize_group segments = (u_join GROUP_SEPARATOR (map ns_text segments), group_spans 0 segments)"

function window_loop :: "nat \<Rightarrow> nat \<Rightarrow> (nat \<times> nat) list \<Rightarrow> (nat \<times> nat) list \<Rightarrow> (nat \<times> nat \<times> nat) list" where
  "window_loop max_tokens stride window rest =
     (if window = [] then []
      else (fst (hd window), snd (last window), length window) #
        (if length window < max_tokens then []
         else (case rest of
                 [] \<Rightarrow> []
               | t # ts \<Rightarrow>
                   (let w = drop stride window @ [t]; k = max_tokens - length w
                    in window_loop max_tokens stride (w @ take k ts) (drop k ts)))))"
  by pat_completeness auto
termination
  by (relation "measure (\<lambda>(m, st, w, r). length r)") auto

declare window_loop.simps [simp del]

definition token_windows :: "utext \<Rightarrow> ChunkPolicy \<Rightarrow> (nat \<times> nat \<times> nat) list result" where
  "token_windows text p =
     (let tokens = token_spans 0 text; m = nat (cp_max_tokens p);
          window = take m tokens
      in if window = [] then Inl (KnowledgeChunkingError TokenEmptySegment)
         else Inr (window_loop m (nat (cp_max_tokens p - cp_overlap_tokens p)) window (drop m tokens)))"

definition provenance_of :: "NormalizedSegment \<Rightarrow> ChunkProvenance" where
  "provenance_of s = \<lparr>pv_segment_ordinal = ns_ordinal s, pv_page_number = ns_page_number s,
     pv_heading_path = ns_heading_path s, pv_start_line = ns_start_line s, pv_end_line = ns_end_line s\<rparr>"

fun provenance_loop :: "nat \<Rightarrow> nat \<Rightarrow> SegmentSpan list \<Rightarrow> ChunkProvenance list" where
  "provenance_loop char_start char_end [] = []"
| "provenance_loop char_start char_end (sp # sps) =
     (if sp_start sp \<ge> char_end then []
      else if sp_end sp \<le> char_start then provenance_loop char_start char_end sps
      else provenance_of (sp_segment sp) # provenance_loop char_start char_end sps)"

definition window_provenance :: "SegmentSpan list \<Rightarrow> nat \<Rightarrow> nat \<Rightarrow> nat \<Rightarrow> ChunkProvenance list" where
  "window_provenance spans start_index char_start char_end =
     provenance_loop char_start char_end (drop start_index spans)"

text \<open>The inner \<open>while\<close> that moves \<open>provenance_start_index\<close> past the spans before the window.\<close>

function advance :: "SegmentSpan list \<Rightarrow> nat \<Rightarrow> nat \<Rightarrow> nat" where
  "advance spans char_start i =
     (if i < length spans \<and> sp_end (spans ! i) \<le> char_start then advance spans char_start (Suc i) else i)"
  by pat_completeness auto
termination
  by (relation "measure (\<lambda>(spans, c, i). length spans - i)") auto

declare advance.simps [simp del]

text \<open>The loop over the windows of a group; the state is the chunks so far and the span index.\<close>

fun chunk_windows ::
  "ChunkPolicy \<Rightarrow> utext list \<Rightarrow> utext \<Rightarrow> SegmentSpan list \<Rightarrow> (nat \<times> nat \<times> nat) list \<Rightarrow> nat \<Rightarrow> KnowledgeChunk list
     \<Rightarrow> KnowledgeChunk list result" where
  "chunk_windows p path text spans [] i chunks = Inr chunks"
| "chunk_windows p path text spans ((cs, ce, n) # ws) i chunks =
     (let i' = advance spans cs i
      in if int (length chunks) \<ge> cp_max_chunks p then Inl (KnowledgeChunkingError ChunkLimitExceeded)
         else chunk_windows p path text spans ws i'
           (chunks @ [\<lparr>kc_ordinal = int (length chunks), kc_text = drop cs (take ce text), kc_token_count = int n,
                       kc_heading_path = path, kc_provenance = window_provenance spans i' cs ce\<rparr>]))"

fun chunk_groups :: "ChunkPolicy \<Rightarrow> HeadingGroup list \<Rightarrow> KnowledgeChunk list \<Rightarrow> KnowledgeChunk list result" where
  "chunk_groups p [] chunks = Inr chunks"
| "chunk_groups p (g # gs) chunks =
     (case materialize_group (hg_segments g) of (text, spans) \<Rightarrow>
      bind_result (token_windows text p) (\<lambda>ws.
      bind_result (chunk_windows p (hg_heading_path g) text spans ws 0 chunks) (chunk_groups p gs)))"

definition chunk_normalized_segments :: "NormalizedSegment list \<Rightarrow> ChunkPolicy \<Rightarrow> KnowledgeChunk list result" where
  "chunk_normalized_segments segments p =
     bind_result (validate_segments segments) (\<lambda>validated. chunk_groups p (heading_groups validated) [])"

section \<open>Reference chunking\<close>

text \<open>
  Window \<open>k\<close> holds the tokens from \<open>k * stride\<close> on, at most \<open>max_tokens\<close> of them, and there are as many
  windows as it takes to reach the last token.  A chunk is attributed to every segment whose span
  meets its characters.
\<close>

definition window_count :: "nat \<Rightarrow> nat \<Rightarrow> nat \<Rightarrow> nat" where
  "window_count n m stride = Suc ((n - m + stride - 1) div stride)"

definition window_tokens :: "nat \<Rightarrow> nat \<Rightarrow> (nat \<times> nat) list \<Rightarrow> nat \<Rightarrow> (nat \<times> nat) list" where
  "window_tokens m stride ts k = take m (drop (k * stride) ts)"

definition window_span :: "(nat \<times> nat) list \<Rightarrow> nat \<times> nat \<times> nat" where
  "window_span w = (fst (hd w), snd (last w), length w)"

definition meets :: "nat \<Rightarrow> nat \<Rightarrow> SegmentSpan \<Rightarrow> bool" where
  "meets cs ce sp \<longleftrightarrow> sp_start sp < ce \<and> cs < sp_end sp"

fun reference_chunk :: "utext list \<Rightarrow> utext \<Rightarrow> SegmentSpan list \<Rightarrow> nat \<times> nat \<times> nat \<Rightarrow> KnowledgeChunk" where
  "reference_chunk path text spans (cs, ce, n) =
     \<lparr>kc_ordinal = 0, kc_text = drop cs (take ce text), kc_token_count = int n, kc_heading_path = path,
      kc_provenance = map (provenance_of \<circ> sp_segment) (filter (meets cs ce) spans)\<rparr>"

definition reference_windows :: "ChunkPolicy \<Rightarrow> utext \<Rightarrow> (nat \<times> nat \<times> nat) list" where
  "reference_windows p text =
     (let m = nat (cp_max_tokens p); stride = nat (cp_max_tokens p - cp_overlap_tokens p); ts = token_spans 0 text
      in map (\<lambda>k. window_span (window_tokens m stride ts k)) [0..<window_count (length ts) m stride])"

definition group_reference :: "ChunkPolicy \<Rightarrow> HeadingGroup \<Rightarrow> KnowledgeChunk list" where
  "group_reference p g =
     (let text = u_join GROUP_SEPARATOR (map ns_text (hg_segments g))
      in map (reference_chunk (hg_heading_path g) text (group_spans 0 (hg_segments g))) (reference_windows p text))"

definition number_from :: "nat \<Rightarrow> KnowledgeChunk list \<Rightarrow> KnowledgeChunk list" where
  "number_from k cs = map2 (\<lambda>i c. c\<lparr>kc_ordinal := int i\<rparr>) [k..<k + length cs] cs"

definition reference_chunks :: "ChunkPolicy \<Rightarrow> NormalizedSegment list \<Rightarrow> KnowledgeChunk list" where
  "reference_chunks p segments = number_from 0 (concat (map (group_reference p) (heading_groups segments)))"

subsection \<open>Windows\<close>

lemma window_count_iff:
  assumes "0 < stride"
  shows "Suc k < window_count n m stride \<longleftrightarrow> k * stride + m < n"
proof -
  have "Suc k < window_count n m stride \<longleftrightarrow> Suc k \<le> (n - m + stride - 1) div stride"
    by (auto simp: window_count_def)
  also have "\<dots> \<longleftrightarrow> Suc k * stride \<le> n - m + stride - 1"
    using assms by (simp add: less_eq_div_iff_mult_less_eq)
  also have "\<dots> \<longleftrightarrow> k * stride + m < n" using assms by (cases "m \<le> n") auto
  finally show ?thesis .
qed

lemma window_step:
  assumes "stride \<le> m"
  shows "drop stride (take m xs) @ take stride (drop m xs) = take m (drop stride xs)"
proof -
  have "drop stride (take m xs) = take (m - stride) (drop stride xs)" by (simp add: drop_take)
  moreover have "drop m xs = drop (m - stride) (drop stride xs)" using assms by simp
  ultimately show ?thesis using take_add[of "m - stride" stride "drop stride xs"] assms by simp
qed

lemma window_loop_reference:
  assumes "0 < stride" "stride \<le> m" "k < window_count (length ts) m stride" "k * stride < length ts"
  shows "window_loop m stride (window_tokens m stride ts k) (drop (k * stride + m) ts) =
    map (\<lambda>j. window_span (window_tokens m stride ts j)) [k..<window_count (length ts) m stride]"
  using assms(3,4)
proof (induction "length ts - k * stride" arbitrary: k rule: less_induct)
  case less
  let ?W = "window_tokens m stride ts" and ?N = "window_count (length ts) m stride"
  have ne: "?W k \<noteq> []" using less.prems assms(1,2) by (auto simp: window_tokens_def)
  have tail: "[k..<?N] = k # [Suc k..<?N]" using less.prems(1) by (rule upt_conv_Cons)
  show ?case
  proof (cases "k * stride + m < length ts")
    case False
    then have last: "\<not> Suc k < ?N" and rest: "drop (k * stride + m) ts = []"
      using window_count_iff[OF assms(1)] by auto
    show ?thesis
      unfolding tail by (subst window_loop.simps) (use ne last in \<open>simp add: window_span_def rest\<close>)
  next
    case True
    then have more: "Suc k < ?N" using window_count_iff[OF assms(1)] by blast
    have full: "length (?W k) = m" using True by (simp add: window_tokens_def)
    obtain t r where tr: "drop (k * stride + m) ts = t # r"
      using True by (cases "drop (k * stride + m) ts") auto
    let ?w = "drop stride (?W k) @ [t]"
    have k': "m - length ?w = stride - 1" using full assms(1,2) by simp
    have take: "?w @ take (stride - 1) r = ?W (Suc k)"
    proof -
      have "?w @ take (stride - 1) r = drop stride (?W k) @ take stride (t # r)"
        using assms(1) by (cases stride) auto
      also have "\<dots> = drop stride (take m (drop (k * stride) ts)) @ take stride (drop m (drop (k * stride) ts))"
        using tr by (simp add: window_tokens_def add.commute)
      also have "\<dots> = ?W (Suc k)" unfolding window_step[OF assms(2)] by (simp add: window_tokens_def add.commute)
      finally show ?thesis .
    qed
    have "drop (stride - 1) r = drop stride (t # r)" using assms(1) by (cases stride) auto
    then have drop: "drop (stride - 1) r = drop (Suc k * stride + m) ts"
      unfolding tr[symmetric] by (simp add: ac_simps)
    have "Suc k * stride < length ts" using True assms(2) by simp
    from less.hyps[OF _ more this] have "window_loop m stride (?W (Suc k)) (drop (Suc k * stride + m) ts) =
        map (\<lambda>j. window_span (?W j)) [Suc k..<?N]" using assms(1) less.prems(2) by fastforce
    then show ?thesis
      unfolding tail
      by (subst window_loop.simps) (use ne full tr k' take drop in \<open>simp add: window_span_def Let_def\<close>)
  qed
qed

lemma token_windows_reference:
  assumes "policy_valid p" "visible text \<noteq> []"
  shows "token_windows text p = Inr (reference_windows p text)"
proof -
  let ?m = "nat (cp_max_tokens p)" and ?s = "nat (cp_max_tokens p - cp_overlap_tokens p)" and ?ts = "token_spans 0 text"
  have ts: "?ts \<noteq> []" using assms(2) token_spans_Nil_iff by blast
  have "0 < ?s" "?s \<le> ?m" "0 < ?m" using assms(1) by (auto simp: policy_valid_def)
  with window_loop_reference[OF this(1,2), of 0 ?ts] ts show ?thesis
    by (simp add: token_windows_def reference_windows_def Let_def window_tokens_def window_count_def)
qed

subsection \<open>Provenance\<close>

lemma group_spans_sorted:
  "sorted_wrt (\<lambda>a b. sp_end a \<le> sp_start b) (group_spans c ss) \<and>
   list_all (\<lambda>a. c \<le> sp_start a \<and> sp_start a \<le> sp_end a) (group_spans c ss)"
  by (induction ss arbitrary: c) (force simp: list_all_iff)+

lemma provenance_loop_filter:
  assumes "sorted_wrt (\<lambda>a b. sp_end a \<le> sp_start b) spans" "list_all (\<lambda>a. sp_start a \<le> sp_end a) spans"
  shows "provenance_loop cs ce spans = map (provenance_of \<circ> sp_segment) (filter (meets cs ce) spans)"
  using assms
proof (induction spans)
  case (Cons sp sps)
  show ?case
  proof (cases "sp_start sp \<ge> ce")
    case True
    then have "\<forall>x \<in> set sps. \<not> meets cs ce x"
      using Cons.prems by (force simp: meets_def list_all_iff)
    with True show ?thesis by (simp add: meets_def filter_empty_conv)
  next
    case False
    with Cons show ?thesis by (auto simp: meets_def)
  qed
qed simp

lemma advance_skips:
  assumes "\<forall>j < i. j < length spans \<longrightarrow> sp_end (spans ! j) \<le> cs"
  shows "\<forall>j < advance spans cs i. j < length spans \<longrightarrow> sp_end (spans ! j) \<le> cs"
  using assms
proof (induction spans cs i rule: advance.induct)
  case (1 spans cs i)
  show ?case
  proof (cases "i < length spans \<and> sp_end (spans ! i) \<le> cs")
    case True
    have "\<forall>j < Suc i. j < length spans \<longrightarrow> sp_end (spans ! j) \<le> cs" using 1(2) True less_Suc_eq by auto
    from 1(1)[OF True this] show ?thesis by (subst advance.simps) (simp add: True)
  next
    case False
    with 1(2) show ?thesis by (subst advance.simps) auto
  qed
qed

lemma window_provenance_exact:
  assumes "sorted_wrt (\<lambda>a b. sp_end a \<le> sp_start b) spans" "list_all (\<lambda>a. sp_start a \<le> sp_end a) spans"
    and "\<forall>j < i. j < length spans \<longrightarrow> sp_end (spans ! j) \<le> cs"
  shows "window_provenance spans i cs ce = map (provenance_of \<circ> sp_segment) (filter (meets cs ce) spans)"
proof -
  have "filter (meets cs ce) (take i spans) = []"
    using assms(3) by (auto simp: filter_empty_conv meets_def in_set_conv_nth not_less)
  then have "filter (meets cs ce) spans = filter (meets cs ce) (drop i spans)"
    by (metis append_Nil append_take_drop_id filter_append)
  moreover have "sorted_wrt (\<lambda>a b. sp_end a \<le> sp_start b) (drop i spans)" using assms(1) by (rule sorted_wrt_drop)
  moreover have "list_all (\<lambda>a. sp_start a \<le> sp_end a) (drop i spans)"
    using assms(2) by (auto simp: list_all_iff dest: in_set_dropD)
  ultimately show ?thesis unfolding window_provenance_def by (simp add: provenance_loop_filter)
qed

subsection \<open>Numbering\<close>

lemma number_from_append: "number_from k (xs @ ys) = number_from k xs @ number_from (k + length xs) ys"
proof -
  have "[k..<k + length (xs @ ys)] = [k..<k + length xs] @ [k + length xs..<k + length xs + length ys]"
    by (metis add.assoc length_append upt_add_eq_append le_add1)
  then show ?thesis by (simp add: number_from_def)
qed

lemma number_from_simps [simp]:
  "number_from k [] = []" "length (number_from k xs) = length xs"
  "number_from k (c # cs) = c\<lparr>kc_ordinal := int k\<rparr> # number_from (Suc k) cs"
  by (simp_all add: number_from_def upt_conv_Cons del: upt_Suc)

lemma chunk_windows_reference:
  assumes spans: "sorted_wrt (\<lambda>a b. sp_end a \<le> sp_start b) spans" "list_all (\<lambda>a. sp_start a \<le> sp_end a) spans"
    and "sorted (map fst ws)" "int (length chunks) \<le> cp_max_chunks p"
    and "\<forall>w \<in> set ws. \<forall>j < i. j < length spans \<longrightarrow> sp_end (spans ! j) \<le> fst w"
  shows "chunk_windows p path doc spans ws i chunks =
    (if int (length chunks + length ws) \<le> cp_max_chunks p
     then Inr (chunks @ number_from (length chunks) (map (reference_chunk path doc spans) ws))
     else Inl (KnowledgeChunkingError ChunkLimitExceeded))"
  using assms(3-5)
proof (induction ws arbitrary: i chunks)
  case (Cons w ws)
  obtain cs ce n where w: "w = (cs, ce, n)" by (cases w)
  let ?i = "advance spans cs i"
  have skip: "\<forall>j < ?i. j < length spans \<longrightarrow> sp_end (spans ! j) \<le> cs"
    using Cons.prems(3) w by (intro advance_skips) auto
  let ?c = "\<lparr>kc_ordinal = int (length chunks), kc_text = drop cs (take ce doc), kc_token_count = int n,
     kc_heading_path = path, kc_provenance = window_provenance spans ?i cs ce\<rparr>"
  have c: "?c = (reference_chunk path doc spans w)\<lparr>kc_ordinal := int (length chunks)\<rparr>"
    using window_provenance_exact[OF spans skip] w by simp
  show ?case
  proof (cases "int (length chunks) \<ge> cp_max_chunks p")
    case True
    then show ?thesis using w by (simp add: Let_def)
  next
    case False
    have "\<forall>v \<in> set ws. \<forall>j < ?i. j < length spans \<longrightarrow> sp_end (spans ! j) \<le> fst v"
      using skip Cons.prems(1) w by fastforce
    with Cons.IH[of "chunks @ [?c]" ?i] False Cons.prems(1) c show ?thesis
      by (simp add: w Let_def)
  qed
qed simp

lemma window_start_less:
  assumes "0 < stride" "stride \<le> m" "k < window_count n m stride" "0 < n"
  shows "k * stride < n"
proof (cases k)
  case (Suc j)
  with assms(3) have "j * stride + m < n" using window_count_iff[OF assms(1)] by blast
  with assms(2) Suc show ?thesis by simp
qed (use assms(4) in simp)

lemma token_starts_mono:
  assumes "i \<le> j" "j < length (token_spans 0 doc)"
  shows "fst (token_spans 0 doc ! i) \<le> fst (token_spans 0 doc ! j)"
proof (cases "i = j")
  case False
  then have "snd (token_spans 0 doc ! i) \<le> fst (token_spans 0 doc ! j)"
    using assms sorted_wrt_nth_less[OF conjunct1[OF token_spans_sorted], of i j 0 doc] by simp
  moreover have "fst (token_spans 0 doc ! i) < snd (token_spans 0 doc ! i)"
    using assms token_spans_sorted[of 0 doc] by (simp add: list_all_length)
  ultimately show ?thesis by simp
qed simp

lemma reference_windows_sorted:
  assumes "policy_valid p" "visible text \<noteq> []"
  shows "sorted (map fst (reference_windows p text))"
proof -
  let ?m = "nat (cp_max_tokens p)" and ?s = "nat (cp_max_tokens p - cp_overlap_tokens p)" and ?ts = "token_spans 0 text"
  let ?N = "window_count (length ?ts) ?m ?s"
  have ts: "0 < length ?ts" using assms(2) token_spans_Nil_iff by blast
  have s: "0 < ?s" "?s \<le> ?m" using assms(1) by (auto simp: policy_valid_def)
  have start: "fst (window_span (window_tokens ?m ?s ?ts k)) = fst (?ts ! (k * ?s))" if "k < ?N" for k
    using window_start_less[OF s that ts] s
    by (simp add: window_span_def window_tokens_def hd_take hd_drop_conv_nth)
  have "fst (?ts ! (i * ?s)) \<le> fst (?ts ! (j * ?s))" if "i \<le> j" "j < ?N" for i j
    using that window_start_less[OF s that(2) ts] by (intro token_starts_mono) auto
  then show ?thesis
    by (auto simp: reference_windows_def Let_def sorted_iff_nth_mono start)
qed

subsection \<open>Groups\<close>

lemma group_loop_concat: "concat (map hg_segments (group_loop path cur ss)) = cur @ ss"
  by (induction ss arbitrary: path cur) auto

lemma group_loop_nonempty: "cur \<noteq> [] \<Longrightarrow> g \<in> set (group_loop path cur ss) \<Longrightarrow> hg_segments g \<noteq> []"
  by (induction ss arbitrary: path cur) (auto split: if_splits)

lemma heading_groups_concat: "concat (map hg_segments (heading_groups segs)) = segs"
proof -
  let ?b = "takeWhile (\<lambda>s. ns_heading_path s = []) segs"
  have "segs = ?b @ drop (length ?b) segs" by (metis dropWhile_eq_drop takeWhile_dropWhile_id)
  then show ?thesis
    by (auto simp: heading_groups_def Let_def group_loop_concat split: list.splits)
qed

lemma heading_groups_members: "g \<in> set (heading_groups segs) \<Longrightarrow> s \<in> set (hg_segments g) \<Longrightarrow> s \<in> set segs"
  using arg_cong[OF heading_groups_concat[of segs], of set] by auto

lemma heading_groups_nonempty: "segs \<noteq> [] \<Longrightarrow> g \<in> set (heading_groups segs) \<Longrightarrow> hg_segments g \<noteq> []"
  by (auto simp: heading_groups_def Let_def split: list.splits dest: group_loop_nonempty[rotated])

lemma visible_join: "ss \<noteq> [] \<Longrightarrow> (\<And>s. s \<in> set ss \<Longrightarrow> visible s \<noteq> []) \<Longrightarrow> visible (u_join sep ss) \<noteq> []"
  by (cases "(sep, ss)" rule: u_join.cases) auto

lemma chunk_groups_reference:
  assumes "policy_valid p" "int (length chunks) \<le> cp_max_chunks p"
    and "\<forall>g \<in> set gs. hg_segments g \<noteq> [] \<and> (\<forall>s \<in> set (hg_segments g). visible (ns_text s) \<noteq> [])"
  shows "chunk_groups p gs chunks =
    (let new = concat (map (group_reference p) gs)
     in if int (length chunks + length new) \<le> cp_max_chunks p
        then Inr (chunks @ number_from (length chunks) new)
        else Inl (KnowledgeChunkingError ChunkLimitExceeded))"
  using assms(2,3)
proof (induction gs arbitrary: chunks)
  case (Cons g gs)
  let ?text = "u_join GROUP_SEPARATOR (map ns_text (hg_segments g))" and ?spans = "group_spans 0 (hg_segments g)"
  have vis: "visible ?text \<noteq> []" using Cons.prems(2) by (intro visible_join) auto
  note spans = group_spans_sorted[of 0 "hg_segments g"]
  have wf: "list_all (\<lambda>a. sp_start a \<le> sp_end a) ?spans" using spans by (auto simp: list_all_iff)
  note win = chunk_windows_reference[OF conjunct1[OF spans] wf reference_windows_sorted[OF assms(1) vis] Cons.prems(1),
      where i = 0 and path = "hg_heading_path g" and doc = ?text]
  let ?new = "group_reference p g"
  have new: "map (reference_chunk (hg_heading_path g) ?text ?spans) (reference_windows p ?text) = ?new"
    "length (reference_windows p ?text) = length ?new"
    by (simp_all add: group_reference_def Let_def)
  show ?case
  proof (cases "int (length chunks + length ?new) \<le> cp_max_chunks p")
    case True
    with Cons.IH[of "chunks @ number_from (length chunks) ?new"] Cons.prems(2) show ?thesis
      using win new by (simp add: materialize_group_def token_windows_reference[OF assms(1) vis] number_from_append Let_def add.assoc)
  next
    case False
    then show ?thesis
      using win new by (simp add: materialize_group_def token_windows_reference[OF assms(1) vis] Let_def)
  qed
qed simp

lemma validate_loop_iff:
  "validate_loop (int k) segs = Inr () \<longleftrightarrow>
     map ns_ordinal segs = map int [k..<k + length segs] \<and> (\<forall>s \<in> set segs. visible (ns_text s) \<noteq> [])"
proof (induction segs arbitrary: k)
  case (Cons s ss)
  have "[k..<k + length (s # ss)] = k # [Suc k..<Suc k + length ss]" by (simp add: upt_conv_Cons del: upt_Suc)
  with Cons[of "Suc k"] show ?case by (auto simp: token_spans_Nil_iff add.commute simp del: upt_Suc)
qed simp

lemma chunking_accepts:
  assumes "policy_valid p" "segs \<noteq> []" "map ns_ordinal segs = map int [0..<length segs]"
    and "\<forall>s \<in> set segs. visible (ns_text s) \<noteq> []"
  shows "chunk_normalized_segments segs p =
    (if int (length (reference_chunks p segs)) \<le> cp_max_chunks p then Inr (reference_chunks p segs)
     else Inl (KnowledgeChunkingError ChunkLimitExceeded))"
proof -
  have "validate_segments segs = Inr segs"
    using assms(2-4) validate_loop_iff[of 0 segs] by (simp add: validate_segments_def)
  moreover have "\<forall>g \<in> set (heading_groups segs). hg_segments g \<noteq> [] \<and> (\<forall>s \<in> set (hg_segments g). visible (ns_text s) \<noteq> [])"
    using heading_groups_nonempty[OF assms(2)] assms(4) heading_groups_members by blast
  ultimately show ?thesis
    using chunk_groups_reference[OF assms(1), of "[]" "heading_groups segs"] assms(1)
    by (simp add: chunk_normalized_segments_def reference_chunks_def Let_def policy_valid_def)
qed

text \<open>
  C21: On a valid segment sequence the chunker, with its sliding window and its moving provenance
  index, computes the reference chunking: windows of at most \<open>max_tokens\<close> tokens that start every
  \<open>max_tokens - overlap_tokens\<close> tokens and attribute each chunk to exactly the segments it meets,
  numbered from zero.  It fails exactly when there are more than \<open>max_chunks\<close> of them.
\<close>

theorem chunking_reference:
  assumes "policy_valid p" "segs \<noteq> []" "map ns_ordinal segs = map int [0..<length segs]"
    and "\<forall>s \<in> set segs. visible (ns_text s) \<noteq> []"
  shows "chunk_normalized_segments segs p =
    (if int (length (reference_chunks p segs)) \<le> cp_max_chunks p then Inr (reference_chunks p segs)
     else Inl (KnowledgeChunkingError ChunkLimitExceeded))"
  using assms by (rule chunking_accepts)

definition sample_segment :: "int \<Rightarrow> string \<Rightarrow> NormalizedSegment" where
  "sample_segment i t = \<lparr>ns_ordinal = i, ns_text = cps t, ns_page_number = None, ns_heading_path = [],
     ns_start_line = None, ns_end_line = None\<rparr>"

definition sample_policy :: ChunkPolicy where
  "sample_policy = \<lparr>cp_max_tokens = 3, cp_overlap_tokens = 1, cp_max_chunks = 4\<rparr>"

theorem chunking_reference_witness:
  "\<exists>cs. chunk_normalized_segments [sample_segment 0 ''a b c'', sample_segment 1 ''d e''] sample_policy = Inr cs \<and>
     map kc_text cs = [cps ''a b c'', cps ''c'' @ [10, 10] @ cps ''d e''] \<and>
     map (map pv_segment_ordinal \<circ> kc_provenance) cs = [[0], [0, 1]]"
proof -
  let ?segs = "[sample_segment 0 ''a b c'', sample_segment 1 ''d e'']"
  have "policy_valid sample_policy" "map ns_ordinal ?segs = map int [0..<length ?segs]"
    "\<forall>s \<in> set ?segs. visible (ns_text s) \<noteq> []" by code_simp+
  from chunking_reference[OF this(1) _ this(2,3)]
  have "chunk_normalized_segments ?segs sample_policy =
    (if int (length (reference_chunks sample_policy ?segs)) \<le> cp_max_chunks sample_policy
     then Inr (reference_chunks sample_policy ?segs) else Inl (KnowledgeChunkingError ChunkLimitExceeded))" by simp
  moreover have "int (length (reference_chunks sample_policy ?segs)) \<le> cp_max_chunks sample_policy"
    "map kc_text (reference_chunks sample_policy ?segs) = [cps ''a b c'', cps ''c'' @ [10, 10] @ cps ''d e'']"
    "map (map pv_segment_ordinal \<circ> kc_provenance) (reference_chunks sample_policy ?segs) = [[0], [0, 1]]" by code_simp+
  ultimately show ?thesis by auto
qed

section \<open>Nothing is lost\<close>

lemma windows_reassemble:
  assumes "stride \<le> m"
  shows "take (k * stride + m) ts =
    window_tokens m stride ts 0 @ concat (map (\<lambda>j. drop (m - stride) (window_tokens m stride ts j)) [1..<Suc k])"
proof (induction k)
  case (Suc k)
  have "drop (m - stride) (window_tokens m stride ts (Suc k)) = take stride (drop (k * stride + m) ts)"
    using assms by (simp add: window_tokens_def drop_take ac_simps)
  moreover have "take (Suc k * stride + m) ts = take (k * stride + m) ts @ take stride (drop (k * stride + m) ts)"
    by (metis add.assoc add.commute mult_Suc take_add)
  ultimately show ?case using Suc.IH by simp
qed (simp add: window_tokens_def)

text \<open>
  C22: The windows of a text lose no token and repeat exactly the configured overlap: each holds
  between one and \<open>max_tokens\<close> tokens, every window but the last is full, the first tokens of the next
  window are the last \<open>overlap_tokens\<close> of the one before, and dropping these overlaps gives back the
  tokens of the text in order.
\<close>

theorem token_windows_lossless:
  assumes "policy_valid p" "token_windows doc p = Inr ws"
  shows "\<exists>W. ws = map window_span W \<and> W \<noteq> [] \<and>
    (\<forall>w \<in> set W. 1 \<le> length w \<and> int (length w) \<le> cp_max_tokens p) \<and>
    (\<forall>k. Suc k < length W \<longrightarrow> int (length (W ! k)) = cp_max_tokens p \<and>
       take (nat (cp_overlap_tokens p)) (W ! Suc k) = drop (nat (cp_max_tokens p - cp_overlap_tokens p)) (W ! k)) \<and>
    token_spans 0 doc = hd W @ concat (map (drop (nat (cp_overlap_tokens p))) (tl W))"
proof -
  let ?m = "nat (cp_max_tokens p)" and ?s = "nat (cp_max_tokens p - cp_overlap_tokens p)" and ?ts = "token_spans 0 doc"
  let ?N = "window_count (length ?ts) ?m ?s"
  let ?W = "map (window_tokens ?m ?s ?ts) [0..<?N]"
  have s: "0 < ?s" "?s \<le> ?m" and ov: "nat (cp_overlap_tokens p) = ?m - ?s" using assms(1) by (auto simp: policy_valid_def)
  have vis: "visible doc \<noteq> []"
    using assms(2) token_spans_Nil_iff[of 0 doc] by (auto simp: token_windows_def Let_def split: if_splits)
  then have ts: "0 < length ?ts" using token_spans_Nil_iff by blast
  have ws: "ws = map window_span ?W"
    using assms(2) token_windows_reference[OF assms(1) vis] by (simp add: reference_windows_def Let_def o_def)
  have N: "[0..<?N] = 0 # [1..<?N]" "?N = Suc (?N - 1)" by (simp_all add: window_count_def upt_conv_Cons)
  have sizes: "1 \<le> length w \<and> int (length w) \<le> cp_max_tokens p" if "w \<in> set ?W" for w
    using that window_start_less[OF s _ ts] s by (fastforce simp: window_tokens_def)
  have steps: "int (length (?W ! k)) = cp_max_tokens p \<and> take (?m - ?s) (?W ! Suc k) = drop ?s (?W ! k)"
    if "Suc k < length ?W" for k
  proof -
    have full: "k * ?s + ?m < length ?ts" using that window_count_iff[OF s(1), of k] by simp
    then have "length (?W ! k) = ?m" using that by (simp add: window_tokens_def)
    moreover have "take (?m - ?s) (?W ! Suc k) = drop ?s (?W ! k)"
      using that s by (simp add: window_tokens_def drop_take min_def ac_simps)
    moreover have "int ?m = cp_max_tokens p" using assms(1) by (simp add: policy_valid_def)
    ultimately show ?thesis by metis
  qed
  have "(?N - 1) * ?s + ?m \<ge> length ?ts"
    using window_count_iff[OF s(1), of "?N - 1" "length ?ts" ?m] N(2) by linarith
  then have "?ts = take ((?N - 1) * ?s + ?m) ?ts" by simp
  also have "\<dots> = hd ?W @ concat (map (drop (?m - ?s)) (tl ?W))"
    unfolding windows_reassemble[OF s(2)] N(1) using N(2) by (simp add: o_def)
  finally have "?ts = hd ?W @ concat (map (drop (?m - ?s)) (tl ?W))" .
  moreover have "?W \<noteq> []" by (simp add: window_count_def)
  ultimately show ?thesis unfolding ov using ws sizes steps by blast
qed

theorem token_windows_lossless_witness:
  "policy_valid sample_policy \<and> token_windows (cps ''a b c d'') sample_policy = Inr [(0, 5, 3), (4, 7, 2)] \<and>
   (\<exists>W. [(0, 5, 3), (4, 7, 2)] = map window_span W \<and> token_spans 0 (cps ''a b c d'') = hd W @ concat (map (drop 1) (tl W)))"
proof -
  have ok: "policy_valid sample_policy" "token_windows (cps ''a b c d'') sample_policy = Inr [(0, 5, 3), (4, 7, 2)]"
    by code_simp+
  from token_windows_lossless[OF this] have "\<exists>W. [(0, 5, 3), (4, 7, 2)] = map window_span W \<and>
     token_spans 0 (cps ''a b c d'') = hd W @ concat (map (drop (nat (cp_overlap_tokens sample_policy))) (tl W))"
    by (elim exE conjE) (rule exI, rule conjI; assumption)
  moreover have "nat (cp_overlap_tokens sample_policy) = 1" by (simp add: sample_policy_def)
  ultimately show ?thesis using ok by simp
qed

lemma materialized_chunks:
  assumes "limits_positive l" "policy_valid p" "materialize_segments blocks l = Some (Inr segs)"
  shows "chunk_normalized_segments segs p =
    (if int (length (reference_chunks p segs)) \<le> cp_max_chunks p then Inr (reference_chunks p segs)
     else Inl (KnowledgeChunkingError ChunkLimitExceeded))"
proof -
  from materialize_segments_bounded_segments[OF assms(1,3)]
  have segs: "segs \<noteq> []" "map ns_ordinal segs = map int [0..<length segs]"
    and body: "\<forall>s \<in> set segs. ns_text s \<noteq> [] \<and> \<not> u_space (hd (ns_text s))" by auto
  have "visible (ns_text s) \<noteq> []" if "s \<in> set segs" for s
    using body that by (cases "ns_text s") auto
  then show ?thesis using chunking_accepts[OF assms(2) segs] by blast
qed

end
