(* ===== verification/Uploads.thy ===== *)
theory Uploads
  imports Object_Storage Quota
begin

text \<open>
  \<open>services/api/app/modules/knowledge/uploads.py\<close>: validation of an untrusted upload.  The uploaded
  file is its filename, its declared content type and its bytes; \<open>upload.read(n)\<close> returns the next
  \<open>n\<close> bytes or what is left.  \<open>PurePath(name).suffix\<close> is \<open>splitext\<close> of Python 3.14, the version the
  project requires.
\<close>

section \<open>Python pieces\<close>

text \<open>\<open>bytes.decode("utf-8-sig", errors="strict")\<close> succeeds exactly on well-formed UTF-8; a leading
  byte order mark is itself well-formed.\<close>

definition continuation_byte :: "nat \<Rightarrow> bool" where
  "continuation_byte b \<longleftrightarrow> 128 \<le> b \<and> b \<le> 191"

fun utf8_valid :: "nat list \<Rightarrow> bool" where
  "utf8_valid [] = True"
| "utf8_valid (a # rest) =
     (if a \<le> 127 then utf8_valid rest
      else if 194 \<le> a \<and> a \<le> 223 then
        (case rest of b # r \<Rightarrow> continuation_byte b \<and> utf8_valid r | _ \<Rightarrow> False)
      else if 224 \<le> a \<and> a \<le> 239 then
        (case rest of b # c # r \<Rightarrow>
            (if a = 224 then 160 \<le> b \<and> b \<le> 191 else if a = 237 then 128 \<le> b \<and> b \<le> 159 else continuation_byte b)
            \<and> continuation_byte c \<and> utf8_valid r
         | _ \<Rightarrow> False)
      else if 240 \<le> a \<and> a \<le> 244 then
        (case rest of b # c # e # r \<Rightarrow>
            (if a = 240 then 144 \<le> b \<and> b \<le> 191 else if a = 244 then 128 \<le> b \<and> b \<le> 143 else continuation_byte b)
            \<and> continuation_byte c \<and> continuation_byte e \<and> utf8_valid r
         | _ \<Rightarrow> False)
      else False)"

text \<open>
  \<open>posixpath.splitext(name)[1]\<close> for a name without a slash: from the last dot on, unless everything
  before that dot is dots.
\<close>

definition suffix_of :: "string \<Rightarrow> string" where
  "suffix_of name =
     (let tail = takeWhile (\<lambda>c. c \<noteq> CHR ''.'') (rev name);
          before = drop (Suc (length tail)) (rev name)
      in if length tail = length name \<or> list_all (\<lambda>c. c = CHR ''.'') before then [] else CHR ''.'' # rev tail)"

section \<open>The module\<close>

definition RULES :: "source_type \<Rightarrow> (string list \<times> string list \<times> nat) option" where
  "RULES st =
     (case st of
        Pdf \<Rightarrow> Some ([''.pdf''], [''application/pdf''], 25 * 1048576)
      | Markdown \<Rightarrow> Some ([''.md'', ''.markdown''], [''text/markdown'', ''text/plain''], 5 * 1048576)
      | TextFile \<Rightarrow> Some ([''.txt''], [''text/plain''], 5 * 1048576)
      | _ \<Rightarrow> None)"

record UploadFile =
  uf_filename :: "string option"
  uf_content_type :: "string option"
  uf_content :: string

record ValidatedKnowledgeUpload =
  vu_source_type :: source_type
  vu_content_type :: string
  vu_original_filename :: string
  vu_size :: int

definition parse_file_source_type :: "string \<Rightarrow> source_type result" where
  "parse_file_source_type value =
     (if value = ''pdf'' then Inr Pdf
      else if value = ''markdown'' then Inr Markdown
      else if value = ''text'' then Inr TextFile
      else Inl KnowledgeUploadValidationError)"

definition validate_name :: "string \<Rightarrow> string result" where
  "validate_name value =
     (let normalized = strip value
      in if \<not> (1 \<le> length normalized \<and> length normalized \<le> 160) then Inl KnowledgeUploadValidationError
         else Inr normalized)"

definition validate_access_scope :: "string \<Rightarrow> access_scope result" where
  "validate_access_scope value =
     (if value = ''customer'' then Inr Customer
      else if value = ''internal'' then Inr Internal
      else Inl KnowledgeUploadValidationError)"

definition safe_filename :: "string option \<Rightarrow> string result" where
  "safe_filename value =
     (case value of
        None \<Rightarrow> Inl KnowledgeUploadValidationError
      | Some v \<Rightarrow>
          (let base = strip (last (split_on (CHR ''/'') (map (\<lambda>c. if c = CHR 0x5C then CHR ''/'' else c) v)));
               normalized = filter (\<lambda>c. ord c \<ge> 32 \<and> c \<noteq> CHR 0x7F) base
           in if normalized = [] \<or> length normalized > 255 then Inl KnowledgeUploadValidationError
              else Inr normalized))"

definition CHUNK_SIZE :: nat where
  "CHUNK_SIZE = 65536"

text \<open>The reading loop; \<open>rest\<close> is the unread part of the file.\<close>

function read_upload ::
  "source_type \<Rightarrow> nat \<Rightarrow> nat \<Rightarrow> string \<Rightarrow> string \<Rightarrow> string \<Rightarrow> (nat \<times> string \<times> string) result" where
  "read_upload st maximum got magic probe rest =
     (let chunk = take CHUNK_SIZE rest
      in if chunk = [] then Inr (got, magic, probe)
         else if got + length chunk > maximum then Inl KnowledgeUploadTooLargeError
         else read_upload st maximum (got + length chunk)
                (if length magic < 5 then magic @ take (5 - length magic) chunk else magic)
                (if st \<noteq> Pdf then probe @ chunk else probe)
                (drop CHUNK_SIZE rest))"
  by pat_completeness auto
termination
  by (relation "measure (\<lambda>(st, maximum, got, magic, probe, rest). length rest)") (auto simp: CHUNK_SIZE_def)

declare read_upload.simps [simp del]

definition validate_upload :: "UploadFile \<Rightarrow> source_type \<Rightarrow> ValidatedKnowledgeUpload result" where
  "validate_upload upload source_type =
     bind_result (safe_filename (uf_filename upload)) (\<lambda>filename.
     let extension = lower (suffix_of filename) in
     case RULES source_type of
       None \<Rightarrow> Inl KeyError
     | Some (allowed_extensions, allowed_mimes, maximum) \<Rightarrow>
     (let content_type = lower (strip (hd (split_on (CHR '';'')
            (case uf_content_type upload of None \<Rightarrow> [] | Some ct \<Rightarrow> ct)))) in
     bind_result (guard (extension \<in> set allowed_extensions) KnowledgeUploadValidationError) (\<lambda>_.
     bind_result (guard (content_type \<in> set allowed_mimes) KnowledgeUploadValidationError) (\<lambda>_.
     bind_result (read_upload source_type maximum 0 [] [] (uf_content upload)) (\<lambda>(n, magic, probe).
     bind_result
       (if source_type = Pdf then guard (startswith magic ''%PDF-'') KnowledgeUploadValidationError
        else bind_result (guard (CHR 0x00 \<notin> set probe) KnowledgeUploadValidationError) (\<lambda>_.
             guard (utf8_valid (map ord probe)) KnowledgeUploadValidationError)) (\<lambda>_.
     Inr \<lparr>vu_source_type = source_type, vu_content_type = content_type, vu_original_filename = filename,
          vu_size = int n\<rparr>))))))"

section \<open>The reading loop\<close>

lemma read_upload_spec:
  assumes "magic = take 5 done_part" "length done_part = n" "st \<noteq> Pdf \<Longrightarrow> probe = done_part" "n \<le> maximum"
  shows "read_upload st maximum n magic probe rest =
    (if n + length rest > maximum then Inl KnowledgeUploadTooLargeError
     else Inr (n + length rest, take 5 (done_part @ rest), if st = Pdf then probe else done_part @ rest))"
  using assms
proof (induction st maximum n magic probe rest arbitrary: done_part rule: read_upload.induct)
  case (1 st maximum n magic probe rest)
  let ?chunk = "take CHUNK_SIZE rest"
  show ?case
  proof (cases "rest = []")
    case True
    then show ?thesis using 1(2-5) by (subst read_upload.simps) (auto simp: CHUNK_SIZE_def)
  next
    case ne: False
    then have c: "?chunk \<noteq> []" by (simp add: CHUNK_SIZE_def)
    show ?thesis
    proof (cases "n + length ?chunk > maximum")
      case True
      then show ?thesis using c by (subst read_upload.simps) (auto simp: Let_def)
    next
      case False
      have magic': "(if length magic < 5 then magic @ take (5 - length magic) ?chunk else magic)
          = take 5 (done_part @ ?chunk)"
        using 1(2) by (auto simp: take_Cons' )
      have "read_upload st maximum n magic probe rest =
          read_upload st maximum (n + length ?chunk) (take 5 (done_part @ ?chunk))
            (if st \<noteq> Pdf then probe @ ?chunk else probe) (drop CHUNK_SIZE rest)"
        using c False magic' by (subst read_upload.simps) (simp add: Let_def)
      also have "\<dots> = (if n + length rest > maximum then Inl KnowledgeUploadTooLargeError
          else Inr (n + length rest, take 5 (done_part @ rest), if st = Pdf then probe else done_part @ rest))"
        using 1(1)[OF refl c False, of "done_part @ ?chunk"] 1(2-4) False magic' by auto
      finally show ?thesis .
    qed
  qed
qed

corollary read_upload_whole:
  "read_upload st maximum 0 [] [] content =
    (if length content > maximum then Inl KnowledgeUploadTooLargeError
     else Inr (length content, take 5 content, if st = Pdf then [] else content))"
  using read_upload_spec[of "[]" "[]" 0 st "[]" maximum content] by auto

section \<open>Properties\<close>

definition declared_type :: "UploadFile \<Rightarrow> string" where
  "declared_type u = lower (strip (hd (split_on (CHR '';'') (case uf_content_type u of None \<Rightarrow> [] | Some ct \<Rightarrow> ct))))"

lemma validate_upload_iff:
  "validate_upload u st = Inr v \<longleftrightarrow>
     (\<exists>filename exts mimes maximum. safe_filename (uf_filename u) = Inr filename \<and> RULES st = Some (exts, mimes, maximum) \<and>
        lower (suffix_of filename) \<in> set exts \<and> declared_type u \<in> set mimes \<and> length (uf_content u) \<le> maximum \<and>
        (if st = Pdf then startswith (uf_content u) ''%PDF-''
         else CHR 0x00 \<notin> set (uf_content u) \<and> utf8_valid (map ord (uf_content u))) \<and>
        v = \<lparr>vu_source_type = st, vu_content_type = declared_type u, vu_original_filename = filename,
             vu_size = int (length (uf_content u))\<rparr>)"
proof -
  have pdf: "startswith (take 5 xs) ''%PDF-'' = startswith xs ''%PDF-''" for xs
    by (simp add: startswith_def)
  show ?thesis
  proof (cases "RULES st")
    case None
    then show ?thesis by (auto simp: validate_upload_def result_simps)
  next
    case (Some p)
    then obtain exts mimes maximum where r: "RULES st = Some (exts, mimes, maximum)" by (cases p) auto
    show ?thesis
      unfolding validate_upload_def read_upload_whole declared_type_def[symmetric] Let_def r option.case prod.case
      by (cases "st = Pdf") (auto simp: result_simps pdf split: if_splits)
  qed
qed

text \<open>
  C18: Reading the file in 64 KiB chunks accepts exactly the files a check of the whole content
  would: the extension and the declared type belong to the source type, the content is within its
  limit, a PDF starts with its signature and a text file is NUL-free UTF-8; the reported size is
  the length of the content.
\<close>

theorem validate_upload_exact:
  "validate_upload u st = Inr v \<longleftrightarrow>
     (\<exists>filename exts mimes maximum. safe_filename (uf_filename u) = Inr filename \<and> RULES st = Some (exts, mimes, maximum) \<and>
        lower (suffix_of filename) \<in> set exts \<and> declared_type u \<in> set mimes \<and> length (uf_content u) \<le> maximum \<and>
        (if st = Pdf then startswith (uf_content u) ''%PDF-''
         else CHR 0x00 \<notin> set (uf_content u) \<and> utf8_valid (map ord (uf_content u))) \<and>
        v = \<lparr>vu_source_type = st, vu_content_type = declared_type u, vu_original_filename = filename,
             vu_size = int (length (uf_content u))\<rparr>)"
  by (rule validate_upload_iff)

lemma safe_filename_clean:
  assumes "safe_filename f = Inr n"
  shows "n \<noteq> []" "length n \<le> 255" "\<forall>c \<in> set n. ord c \<ge> 32 \<and> c \<noteq> CHR ''/'' \<and> c \<noteq> CHR 0x5C"
proof -
  obtain v where f: "f = Some v" using assms by (auto simp: safe_filename_def split: option.splits)
  let ?w = "map (\<lambda>c. if c = CHR 0x5C then CHR ''/'' else c) v"
  have seg: "CHR ''/'' \<notin> set p" if "p \<in> set (split_on (CHR ''/'') xs)" for p xs
    using that
  proof (induction xs arbitrary: p)
    case (Cons x xs)
    then show ?case by (cases "split_on (CHR ''/'') xs") (auto split: if_splits)
  qed simp
  have sub: "set p \<subseteq> set xs" if "p \<in> set (split_on (CHR ''/'') xs)" for p xs
    using that
  proof (induction xs arbitrary: p)
    case (Cons x xs)
    then show ?case by (cases "split_on (CHR ''/'') xs") (fastforce split: if_splits)+
  qed simp
  let ?p = "last (split_on (CHR ''/'') ?w)"
  have p: "?p \<in> set (split_on (CHR ''/'') ?w)" by (rule last_in_set) simp
  have n: "n = filter (\<lambda>c. ord c \<ge> 32 \<and> c \<noteq> CHR 0x7F) (strip ?p)" "n \<noteq> []" "length n \<le> 255"
    using assms by (auto simp: safe_filename_def f Let_def split: if_splits)
  show "n \<noteq> []" "length n \<le> 255" by (fact n)+
  have "set n \<subseteq> set ?p" using set_strip[of ?p] by (auto simp: n(1))
  then show "\<forall>c \<in> set n. ord c \<ge> 32 \<and> c \<noteq> CHR ''/'' \<and> c \<noteq> CHR 0x5C"
    using seg[OF p] sub[OF p] n(1) by (auto simp: image_iff subset_iff split: if_splits)
qed

text \<open>
  A validated upload never makes a later stage raise anything but a storage error: its size
  is within the 25 MiB the quota functions and the table accept, its filename is a single clean
  path segment of at most 255 characters, and the PUT with that filename as metadata either stores
  or reports \<open>ObjectStorageError\<close>.
\<close>

theorem validated_upload_storable:
  assumes "validate_upload u st = Inr v"
  shows "0 \<le> vu_size v \<and> vu_size v \<le> MAX_KNOWLEDGE_FILE_BYTES \<and>
    vu_original_filename v \<noteq> [] \<and> length (vu_original_filename v) \<le> 255 \<and>
    (\<forall>c \<in> set (vu_original_filename v). ord c \<ge> 32 \<and> c \<noteq> CHR ''/'' \<and> c \<noteq> CHR 0x5C) \<and>
    fst (s3_put_object a key (uf_content u) (vu_content_type v)
      (Some [(''original-filename'', vu_original_filename v)]) b) \<in> {Inr (), Inl ObjectStorageError}"
proof -
  from assms[unfolded validate_upload_iff] obtain filename exts mimes maximum where
    f: "safe_filename (uf_filename u) = Inr filename" and r: "RULES st = Some (exts, mimes, maximum)"
    and ct: "declared_type u \<in> set mimes" and len: "length (uf_content u) \<le> maximum"
    and v: "v = \<lparr>vu_source_type = st, vu_content_type = declared_type u, vu_original_filename = filename,
             vu_size = int (length (uf_content u))\<rparr>" by blast
  note clean = safe_filename_clean[OF f]
  have mime: "set mimes \<subseteq> {''application/pdf'', ''text/markdown'', ''text/plain''}" "maximum \<le> 26214400"
    using r by (auto simp: RULES_def split: source_type.splits)
  have "list_all (\<lambda>x. strip x \<noteq> []) [''application/pdf'', ''text/markdown'', ''text/plain'']" by code_simp
  then have "\<forall>x \<in> {''application/pdf'', ''text/markdown'', ''text/plain''}. strip x \<noteq> []"
    by (simp only: list.pred_inject ball_simps simp_thms)
  with ct mime(1) have ct': "strip (declared_type u) \<noteq> []" by blast
  have "ord (CHR 0x0D) = 13" "ord (CHR 0x0A) = 10" "ord (CHR 0x00) = 0" by code_simp+
  then have "\<not> has_control filename" using clean(3) unfolding has_control_def by fastforce
  moreover have "lower (strip ''original-filename'') = ''original-filename''" by code_simp
  moreover have "\<not> has_control ''original-filename''" by code_simp
  ultimately have "copy_metadata [(''original-filename'', filename)] [] = Inr [(''original-filename'', filename)]"
    by simp
  then have "fst (s3_put_object a key (uf_content u) (declared_type u) (Some [(''original-filename'', filename)]) b)
      \<in> {Inr (), Inl ObjectStorageError}"
    using ct' by (auto simp: s3_put_object_def split: prod.splits option.splits)
  then show ?thesis using clean len mime(2) by (auto simp: v MAX_KNOWLEDGE_FILE_BYTES_def)
qed

definition sample_upload :: UploadFile where
  "sample_upload = \<lparr>uf_filename = Some ''docs/Guide.MD'', uf_content_type = Some ''text/markdown; charset=utf-8'',
     uf_content = ''# Guide''\<rparr>"

lemma sample_upload_valid:
  "validate_upload sample_upload Markdown =
     Inr \<lparr>vu_source_type = Markdown, vu_content_type = ''text/markdown'', vu_original_filename = ''Guide.MD'', vu_size = 7\<rparr>"
proof -
  have "safe_filename (uf_filename sample_upload) = Inr ''Guide.MD''" by code_simp
  moreover have "lower (suffix_of ''Guide.MD'') = ''.md''" "declared_type sample_upload = ''text/markdown''" by code_simp+
  moreover have "utf8_valid (map ord (uf_content sample_upload))" "CHR 0x00 \<notin> set (uf_content sample_upload)"
    "length (uf_content sample_upload) = 7" by code_simp+
  ultimately show ?thesis by (simp add: validate_upload_iff RULES_def)
qed

theorem validated_upload_storable_witness:
  "\<exists>v. validate_upload sample_upload Markdown = Inr v \<and> vu_original_filename v = ''Guide.MD'' \<and> vu_size v = 7 \<and>
    fst (s3_put_object list_adapter ''k'' (uf_content sample_upload) (vu_content_type v)
      (Some [(''original-filename'', vu_original_filename v)]) []) \<in> {Inr (), Inl ObjectStorageError}"
proof -
  note run = sample_upload_valid
  show ?thesis using validated_upload_storable[OF run, of list_adapter "''k''" "[]"] run by auto
qed

end
