(* ===== verification/Content_Normalization.thy ===== *)
theory Content_Normalization
  imports Markdown_Normalization Html_Normalization Chunking Uploads
begin

text \<open>
  The entry point of \<open>knowledge_normalization.py\<close>: the size and encoding checks, the dispatch on the
  source type and the PDF path.  \<open>pypdf.PdfReader\<close> is an argument that yields whether the document is
  encrypted and the text of each page, or the exception it raises.
\<close>

record pdf_reader =
  pdf_encrypted :: bool
  pdf_pages :: "utext result list"

record normalizer_env =
  ne_ucd :: ucd
  ne_read_pdf :: "string \<Rightarrow> pdf_reader result"
  ne_tokenize :: "utext \<Rightarrow> html_event list option"

definition decode_text :: "string \<Rightarrow> utext result" where
  "decode_text raw =
     (if CHR 0x00 \<in> set raw then Inl (KnowledgeNormalizationError TextInvalid)
      else (case utf8_sig_decode raw of
              None \<Rightarrow> Inl (KnowledgeNormalizationError InvalidUtf8)
            | Some t \<Rightarrow> Inr t))"

definition pdf_caught :: "exn \<Rightarrow> bool" where
  "pdf_caught e \<longleftrightarrow> e \<in> {PdfError, ValueError, TypeError, KeyError, AssertionError, RecursionError}"

fun pdf_blocks :: "int \<Rightarrow> utext result list \<Rightarrow> Block list result" where
  "pdf_blocks n [] = Inr []"
| "pdf_blocks n (page # pages) =
     bind_result page (\<lambda>extracted.
     bind_result (pdf_blocks (n + 1) pages) (\<lambda>blocks.
     Inr (map (\<lambda>b. \<lparr>bk_text = bk_text b, bk_page_number = Some n, bk_heading_path = [], bk_start_line = None,
                     bk_end_line = None\<rparr>)
            (blocks_from_lines (normalized_lines extracted) plain_line) @ blocks)))"

definition normalize_pdf :: "(string \<Rightarrow> pdf_reader result) \<Rightarrow> string \<Rightarrow> NormalizationLimits \<Rightarrow> Block list result" where
  "normalize_pdf read_pdf raw l =
     (case bind_result (read_pdf raw) (\<lambda>reader.
            if pdf_encrypted reader then Inl (KnowledgeNormalizationError PdfEncrypted)
            else if int (length (pdf_pages reader)) > nl_max_pdf_pages l
            then Inl (KnowledgeNormalizationError PdfPageLimitExceeded)
            else pdf_blocks 1 (pdf_pages reader)) of
        Inr blocks \<Rightarrow> Inr blocks
      | Inl e \<Rightarrow> Inl (if pdf_caught e then KnowledgeNormalizationError PdfMalformed else e))"

definition normalize_knowledge_content ::
  "normalizer_env \<Rightarrow> string \<Rightarrow> string \<Rightarrow> NormalizationLimits \<Rightarrow> NormalizedSegment list result option" where
  "normalize_knowledge_content env raw source_type l =
     (if source_type \<notin> {''pdf'', ''markdown'', ''text'', ''url''}
      then Some (Inl (KnowledgeNormalizationError SourceTypeUnsupported))
      else if int (length raw) > (if source_type = ''pdf'' then nl_max_pdf_bytes l else nl_max_text_bytes l)
      then Some (Inl (KnowledgeNormalizationError InputTooLarge))
      else
        (case (if source_type = ''pdf'' then normalize_pdf (ne_read_pdf env) raw l
               else bind_result (decode_text raw) (\<lambda>decoded.
                 if source_type = ''markdown'' then Inr (normalize_markdown (ne_ucd env) decoded)
                 else if source_type = ''url'' then normalize_html (ne_tokenize env) decoded
                 else Inr (normalize_plain_text decoded))) of
           Inl e \<Rightarrow> Some (Inl e)
         | Inr blocks \<Rightarrow> materialize_segments blocks l))"

section \<open>Totality and chunkability\<close>

lemma normalize_knowledge_content_cases:
  obtains e where "normalize_knowledge_content env raw source_type l = Some (Inl e)"
  | blocks where "normalize_knowledge_content env raw source_type l = materialize_segments blocks l"
proof -
  have "(\<exists>e. normalize_knowledge_content env raw source_type l = Some (Inl e)) \<or>
      (\<exists>blocks. normalize_knowledge_content env raw source_type l = materialize_segments blocks l)"
    unfolding normalize_knowledge_content_def by (simp only: split: if_split sum.split) blast
  then show ?thesis using that by blast
qed

text \<open>
  C24: With positive limits the normalisation of any bytes returns.  When it returns segments, the
  chunker accepts them under every valid policy: it returns the reference chunks or reports its chunk
  limit.
\<close>

theorem normalization_feeds_chunker:
  assumes "limits_positive l" "policy_valid p"
  shows "\<exists>r. normalize_knowledge_content env raw source_type l = Some r \<and>
    (\<forall>segs. r = Inr segs \<longrightarrow>
       chunk_normalized_segments segs p =
         (if int (length (reference_chunks p segs)) \<le> cp_max_chunks p then Inr (reference_chunks p segs)
          else Inl (KnowledgeChunkingError ChunkLimitExceeded)))"
proof (cases rule: normalize_knowledge_content_cases[of env raw source_type l])
  case (2 blocks)
  obtain r where "materialize_segments blocks l = Some r"
    using materialize_segments_total[OF assms(1), of blocks] by blast
  with 2 materialized_chunks[OF assms] show ?thesis by auto
qed auto

definition sample_normalizer :: normalizer_env where
  "sample_normalizer = \<lparr>ne_ucd = ascii_ucd, ne_read_pdf = (\<lambda>_. Inl PdfError), ne_tokenize = (\<lambda>_. None)\<rparr>"

theorem normalization_feeds_chunker_witness:
  "\<exists>segs. normalize_knowledge_content sample_normalizer ''ab  cd efg hi'' ''text'' sample_limits = Some (Inr segs) \<and>
     chunk_normalized_segments segs sample_policy = Inr (reference_chunks sample_policy segs) \<and>
     map kc_text (reference_chunks sample_policy segs) = [cps ''ab cd'' @ [10, 10] @ cps ''efg'', cps ''efg hi'']"
proof -
  let ?segs = "[\<lparr>ns_ordinal = 0, ns_text = cps ''ab cd'', ns_page_number = None, ns_heading_path = [],
                ns_start_line = Some 1, ns_end_line = Some 1\<rparr>,
               \<lparr>ns_ordinal = 1, ns_text = cps ''efg hi'', ns_page_number = None, ns_heading_path = [],
                ns_start_line = Some 1, ns_end_line = Some 1\<rparr>]"
  have ok: "limits_positive sample_limits" "policy_valid sample_policy" by code_simp+
  have run: "normalize_knowledge_content sample_normalizer ''ab  cd efg hi'' ''text'' sample_limits = Some (Inr ?segs)"
    by code_simp
  have "int (length (reference_chunks sample_policy ?segs)) \<le> cp_max_chunks sample_policy"
    "map kc_text (reference_chunks sample_policy ?segs) = [cps ''ab cd'' @ [10, 10] @ cps ''efg'', cps ''efg hi'']" by code_simp+
  then show ?thesis
    using normalization_feeds_chunker[OF ok, of sample_normalizer "''ab  cd efg hi''" "''text''"] run by auto
qed

section \<open>Validated uploads\<close>

lemmas utf8_classes = continuation_def continuation_byte_def second_of_three_def second_of_four_def

lemma utf8_decode_valid: "utf8_decode (map int bs) \<noteq> None \<longleftrightarrow> utf8_valid bs"
proof (induction "length bs" arbitrary: bs rule: less_induct)
  case less
  show ?case
  proof (cases bs)
    case (Cons a rest)
    have IH: "utf8_decode (map int ys) = None \<longleftrightarrow> \<not> utf8_valid ys" if "length ys < length bs" for ys
      using less[OF that] by auto
    consider "a \<le> 127" | "194 \<le> a" "a \<le> 223" | "224 \<le> a" "a \<le> 239" | "240 \<le> a" "a \<le> 244" | "127 < a" "a < 194" | "244 < a"
      by linarith
    then show ?thesis
    proof cases
      case 1
      then show ?thesis using IH[of rest] Cons by simp
    next
      case 2
      then show ?thesis using IH[of "tl rest"] Cons by (cases rest) (auto simp: utf8_classes)
    next
      case 3
      show ?thesis
      proof (cases "length rest \<le> 1")
        case True
        then show ?thesis using 3 Cons by (auto simp: le_Suc_eq length_Suc_conv)
      next
        case False
        then obtain b c r where r: "rest = b # c # r" by (cases rest; cases "tl rest") auto
        have "utf8_decode (map int bs) = None \<longleftrightarrow> \<not> (second_of_three (int a) (int b) \<and> continuation (int c) \<and> utf8_valid r)"
          using 3 Cons r IH[of r] by auto
        then show ?thesis using 3 Cons r by (auto simp: utf8_classes)
      qed
    next
      case 4
      show ?thesis
      proof (cases "length rest \<le> 2")
        case True
        then show ?thesis using 4 Cons by (auto simp: le_Suc_eq length_Suc_conv numeral_2_eq_2)
      next
        case False
        then obtain b c e r where r: "rest = b # c # e # r"
          by (cases rest; cases "tl rest"; cases "tl (tl rest)") auto
        have "utf8_decode (map int bs) = None \<longleftrightarrow>
            \<not> (second_of_four (int a) (int b) \<and> continuation (int c) \<and> continuation (int e) \<and> utf8_valid r)"
          using 4 Cons r IH[of r] by auto
        then show ?thesis using 4 Cons r by (auto simp: utf8_classes)
      qed
    qed (use Cons in simp_all)
  qed simp
qed

lemma utf8_sig_decode_valid:
  assumes "utf8_valid (map ord raw)"
  shows "utf8_sig_decode raw \<noteq> None"
proof -
  have conv: "utf8_decode (map of_char xs) \<noteq> None \<longleftrightarrow> utf8_valid (map ord xs)" for xs
    using utf8_decode_valid[of "map ord xs"] by (simp add: ord_def o_def of_nat_of_char)
  show ?thesis
  proof (cases "take 3 raw = [CHR 0xEF, CHR 0xBB, CHR 0xBF]")
    case True
    then obtain rest where "raw = [CHR 0xEF, CHR 0xBB, CHR 0xBF] @ rest" by (metis append_take_drop_id)
    then have "utf8_valid (map ord rest)" using assms by (simp add: ord_def continuation_byte_def)
    then show ?thesis using conv[of rest] True \<open>raw = _\<close> by (simp add: utf8_sig_decode_def)
  next
    case False
    then show ?thesis using assms conv[of raw] by (simp add: utf8_sig_decode_def)
  qed
qed

lemma add_pieces_errors: "add_pieces l b ps acc = Inl e \<Longrightarrow>
    e \<in> KnowledgeNormalizationError ` {OutputTooLarge, SegmentLimitExceeded}"
  by (induction l b ps acc rule: add_pieces.induct) (auto simp: Let_def split: if_splits)

lemma materialize_blocks_errors: "materialize_blocks l bs acc = Some (Inl e) \<Longrightarrow>
    e \<in> KnowledgeNormalizationError ` {OutputTooLarge, SegmentLimitExceeded}"
proof (induction l bs acc rule: materialize_blocks.induct)
  case (2 l b bs acc)
  then obtain ps where ps: "split_text (bk_text b) (nat (nl_max_segment_chars l)) = Some ps"
    by (cases "split_text (bk_text b) (nat (nl_max_segment_chars l))") auto
  show ?case
  proof (cases "add_pieces l b ps acc")
    case (Inl e')
    then show ?thesis using 2(2) ps add_pieces_errors by auto
  next
    case (Inr acc')
    then show ?thesis using 2 ps by auto
  qed
qed simp

lemma materialize_segments_errors: "materialize_segments bs l = Some (Inl e) \<Longrightarrow>
    e \<in> KnowledgeNormalizationError ` {OutputTooLarge, SegmentLimitExceeded, EmptyContent}"
  by (auto simp: materialize_segments_def bind_eq_Some_conv result_simps dest!: materialize_blocks_errors split: if_splits)

text \<open>
  A text or Markdown file that passed the upload validation is never rejected by the normaliser
  for its size or its encoding: under the default limits the only errors left concern the extracted
  text.
\<close>

theorem validated_upload_decodes:
  assumes "validate_upload upload st = Inr v" "(st, source_type) \<in> {(Markdown, ''markdown''), (TextFile, ''text'')}"
  shows "\<exists>r. normalize_knowledge_content env (uf_content upload) source_type DEFAULT_NORMALIZATION_LIMITS = Some r \<and>
    r \<in> range Inr \<union> (Inl \<circ> KnowledgeNormalizationError) ` {OutputTooLarge, SegmentLimitExceeded, EmptyContent}"
proof -
  let ?l = DEFAULT_NORMALIZATION_LIMITS and ?raw = "uf_content upload"
  from assms(1)[unfolded validate_upload_iff] assms(2)
  have len: "length ?raw \<le> 5 * 1048576" and enc: "CHR 0x00 \<notin> set ?raw" "utf8_valid (map ord ?raw)"
    by (auto simp: RULES_def)
  obtain t where t: "decode_text ?raw = Inr t"
    using enc utf8_sig_decode_valid[OF enc(2)] by (auto simp: decode_text_def)
  have "int (length ?raw) \<le> nl_max_text_bytes ?l" using len by (simp add: DEFAULT_NORMALIZATION_LIMITS_def)
  then have "\<exists>bs. normalize_knowledge_content env ?raw source_type ?l = materialize_segments bs ?l"
    using assms(2) t by (auto simp: normalize_knowledge_content_def)
  then obtain bs where bs: "normalize_knowledge_content env ?raw source_type ?l = materialize_segments bs ?l" ..
  have "limits_positive ?l" by (simp add: limits_positive_def DEFAULT_NORMALIZATION_LIMITS_def)
  from materialize_segments_total[OF this, of bs] bs obtain r where r: "materialize_segments bs ?l = Some r" by auto
  with bs materialize_segments_errors[of bs ?l] show ?thesis by (cases r) auto
qed

theorem validated_upload_decodes_witness:
  "\<exists>r. normalize_knowledge_content sample_normalizer (uf_content sample_upload) ''markdown'' DEFAULT_NORMALIZATION_LIMITS = Some r \<and>
    r \<in> range Inr \<union> (Inl \<circ> KnowledgeNormalizationError) ` {OutputTooLarge, SegmentLimitExceeded, EmptyContent}"
  using validated_upload_decodes[OF sample_upload_valid, of "''markdown''" sample_normalizer] by simp

end
