(* ===== verification/Urls.thy ===== *)
theory Urls
  imports Prelude
begin

text \<open>
  The parts of Python's \<open>urllib.parse\<close>, \<open>int\<close> and the \<open>idna\<close> codec that the source registration
  (\<open>services/api/app/modules/knowledge/schemas.py\<close>) and the public fetch use, and the validator of a
  source URI.

  What rests on Unicode tables or on the parser of IPv6 literals is an argument: \<open>ue_brackets_ok\<close>
  (\<open>_check_bracketed_netloc\<close>), \<open>ue_netloc_ok\<close> (\<open>_checknetloc\<close> on a network location that is not ASCII) and
  \<open>ue_idna\<close> (the \<open>idna\<close> codec on a host that is not ASCII).
\<close>

record url_env =
  ue_brackets_ok :: "string \<Rightarrow> bool"
  ue_netloc_ok :: "string \<Rightarrow> bool"
  ue_idna :: "string \<Rightarrow> string option"

section \<open>Pieces of Python\<close>

text \<open>\<open>s.partition(c)\<close> and \<open>s.rpartition(c)\<close> for one character; the middle says whether it was found.\<close>

definition partition_at :: "char \<Rightarrow> string \<Rightarrow> string \<times> bool \<times> string" where
  "partition_at c s = (takeWhile (\<lambda>x. x \<noteq> c) s, c \<in> set s, drop 1 (dropWhile (\<lambda>x. x \<noteq> c) s))"

definition rpartition_at :: "char \<Rightarrow> string \<Rightarrow> string \<times> bool \<times> string" where
  "rpartition_at c s =
     (if c \<in> set s
      then (let tail = takeWhile (\<lambda>x. x \<noteq> c) (rev s) in (take (length s - length tail - 1) s, True, rev tail))
      else ([], False, s))"

definition is_ascii :: "string \<Rightarrow> bool" where
  "is_ascii s \<longleftrightarrow> list_all (\<lambda>c. ord c < 128) s"

text \<open>\<open>hmac.compare_digest\<close> on \<open>str\<close> raises \<open>TypeError\<close> (None) unless both are ASCII.\<close>

definition compare_digest :: "string \<Rightarrow> string \<Rightarrow> bool option" where
  "compare_digest a b = (if is_ascii a \<and> is_ascii b then Some (a = b) else None)"

definition ascii_digit :: "char \<Rightarrow> bool" where
  "ascii_digit c \<longleftrightarrow> 48 \<le> ord c \<and> ord c \<le> 57"

definition ascii_alpha :: "char \<Rightarrow> bool" where
  "ascii_alpha c \<longleftrightarrow> (65 \<le> ord c \<and> ord c \<le> 90) \<or> (97 \<le> ord c \<and> ord c \<le> 122)"

text \<open>\<open>int(text, 10)\<close>: white space around, one sign, digits with single underscores between them, at
  most 4300 of them.\<close>

fun decimal_groups :: "string \<Rightarrow> bool" where
  "decimal_groups [] = False"
| "decimal_groups [c] = ascii_digit c"
| "decimal_groups (c # c' # cs) =
     (ascii_digit c \<and> (if c' = CHR ''_'' then decimal_groups cs else decimal_groups (c' # cs)))"

definition decimal_value :: "string \<Rightarrow> int" where
  "decimal_value s = foldl (\<lambda>v c. v * 10 + (int (ord c) - 48)) 0 (filter ascii_digit s)"

definition py_int10 :: "string \<Rightarrow> int option" where
  "py_int10 s =
     (let t = strip s;
          body = (if startswith t ''+'' \<or> startswith t ''-'' then drop 1 t else t)
      in if decimal_groups body \<and> length (filter ascii_digit body) \<le> 4300
         then Some (if startswith t ''-'' then - decimal_value body else decimal_value body) else None)"

text \<open>The \<open>idna\<close> codec: the fast path of an ASCII name checks its labels; anything else is the argument.\<close>

definition idna_encode :: "url_env \<Rightarrow> string \<Rightarrow> string option" where
  "idna_encode env s =
     (if is_ascii s
      then (let labels = split_on (CHR ''.'') s
            in if list_all (\<lambda>l. 0 < length l \<and> length l < 64) (butlast labels) \<and> length (last labels) < 64
               then Some s else None)
      else ue_idna env s)"

section \<open>Splitting a URL\<close>

record SplitResult =
  sr_scheme :: string
  sr_netloc :: string
  sr_path :: string
  sr_query :: string
  sr_fragment :: string

definition scheme_char :: "char \<Rightarrow> bool" where
  "scheme_char c \<longleftrightarrow> ascii_alpha c \<or> ascii_digit c \<or> c \<in> {CHR ''+'', CHR ''-'', CHR ''.''}"

definition split_scheme :: "string \<Rightarrow> string \<times> string" where
  "split_scheme url =
     (let (before, found, after) = partition_at (CHR '':'') url
      in if found \<and> before \<noteq> [] \<and> ascii_alpha (hd before) \<and> list_all scheme_char before
         then (lower before, after) else ([], url))"

definition check_netloc :: "url_env \<Rightarrow> string \<Rightarrow> bool" where
  "check_netloc env netloc \<longleftrightarrow> netloc = [] \<or> is_ascii netloc \<or> ue_netloc_ok env netloc"

definition brackets_ok :: "url_env \<Rightarrow> string \<Rightarrow> bool" where
  "brackets_ok env netloc \<longleftrightarrow>
     (CHR ''['' \<in> set netloc \<longleftrightarrow> CHR '']'' \<in> set netloc) \<and> (CHR ''['' \<in> set netloc \<longrightarrow> ue_brackets_ok env netloc)"

definition urlsplit :: "url_env \<Rightarrow> string \<Rightarrow> SplitResult result" where
  "urlsplit env url =
     (let url = filter (\<lambda>c. c \<notin> {CHR 0x09, CHR 0x0D, CHR 0x0A}) (dropWhile (\<lambda>c. ord c \<le> 32) url);
          (scheme, url) = split_scheme url;
          (netloc, url) =
            (if startswith url ''//''
             then (let r = drop 2 url; n = takeWhile (\<lambda>c. c \<notin> {CHR ''/'', CHR ''?'', CHR ''#''}) r in (n, drop (length n) r))
             else ([], url))
      in if \<not> brackets_ok env netloc then Inl ValueError
         else (let (url, _, fragment) = partition_at (CHR ''#'') url;
                   (url, _, query) = partition_at (CHR ''?'') url
               in if \<not> check_netloc env netloc then Inl ValueError
                  else Inr \<lparr>sr_scheme = scheme, sr_netloc = netloc, sr_path = url, sr_query = query, sr_fragment = fragment\<rparr>))"

definition hostinfo :: "SplitResult \<Rightarrow> string \<times> string" where
  "hostinfo r =
     (let (_, _, info) = rpartition_at (CHR ''@'') (sr_netloc r);
          (_, have_open_br, bracketed) = partition_at (CHR ''['') info
      in if have_open_br
         then (let (hostname, _, port) = partition_at (CHR '']'') bracketed in (hostname, snd (snd (partition_at (CHR '':'') port))))
         else (let (hostname, _, port) = partition_at (CHR '':'') info in (hostname, port)))"

definition url_hostname :: "SplitResult \<Rightarrow> string option" where
  "url_hostname r =
     (let hostname = fst (hostinfo r)
      in if hostname = [] then None
         else (let (h, percent, zone) = partition_at (CHR ''%'') hostname
               in Some (lower h @ (if percent then ''%'' else []) @ zone)))"

definition url_port :: "SplitResult \<Rightarrow> int option result" where
  "url_port r =
     (let port = snd (hostinfo r)
      in if port = [] then Inr None
         else if \<not> list_all ascii_digit port \<or> length port > 4300 then Inl ValueError
         else if decimal_value port > 65535 then Inl ValueError
         else Inr (Some (decimal_value port)))"

definition has_credentials :: "SplitResult \<Rightarrow> bool" where
  "has_credentials r \<longleftrightarrow> CHR ''@'' \<in> set (sr_netloc r)"

section \<open>Registering a source URI\<close>

definition control_or_space :: "char \<Rightarrow> bool" where
  "control_or_space c \<longleftrightarrow> is_space c \<or> ord c < 32 \<or> ord c = 127"

text \<open>\<open>KnowledgeSourceCreateRequest.validate_source_uri\<close> on a \<open>str\<close>.\<close>

definition validate_source_uri :: "url_env \<Rightarrow> string \<Rightarrow> string result" where
  "validate_source_uri env value =
     (let normalized = strip value
      in if normalized = [] then Inl ValueError
         else if CHR ''#'' \<in> set normalized then Inl ValueError
         else if list_ex control_or_space normalized then Inl ValueError
         else bind_result (urlsplit env normalized) (\<lambda>parsed.
              bind_result (url_port parsed) (\<lambda>_.
                if lower (sr_scheme parsed) \<noteq> ''https'' then Inl ValueError
                else if sr_netloc parsed = [] \<or> url_hostname parsed = None then Inl ValueError
                else if has_credentials parsed then Inl ValueError
                else Inr normalized)))"

text \<open>An environment whose tables refuse everything: all that ASCII names without brackets need.\<close>

definition ascii_env :: url_env where
  "ascii_env = \<lparr>ue_brackets_ok = (\<lambda>_. False), ue_netloc_ok = (\<lambda>_. False), ue_idna = (\<lambda>_. None)\<rparr>"

end
