(* ===== verification/Public_Fetch.thy ===== *)
theory Public_Fetch
  imports Urls
begin

text \<open>
  The fetch boundary for public knowledge sources (\<open>services/worker/app/core/public_knowledge_fetch.py\<close>):
  host normalisation, URL validation, address checks, the pinned request, the bounded body and the
  redirect loop.

  The network is an argument: a record of functions over an arbitrary state \<open>'w\<close>, one for
  \<open>getaddrinfo\<close>, one for \<open>connect\<close> (with the peer the socket reports) and one for sending the request and
  reading the reply.  An \<open>ipaddress\<close> object is its text with the seven classifications the code reads.
  \<open>urljoin\<close> parses both of its arguments, which may raise; the text it builds is the argument
  \<open>fe_join\<close>, since every URL it returns is validated again.  \<open>quote\<close> is \<open>fe_quote\<close>.  A fetch returns, with its
  result, the connections it dialled and the requests it sent, in order.
\<close>

section \<open>Errors and policy\<close>

datatype fetch_code =
    INVALID_URL | DOMAIN_NOT_ALLOWED | DNS_FAILURE | BLOCKED_ADDRESS | PEER_MISMATCH | TOO_MANY_REDIRECTS
  | REDIRECT_MISSING_LOCATION | HTTP_STATUS | UNSUPPORTED_MIME | UNSUPPORTED_ENCODING | RESPONSE_TOO_LARGE
  | INVALID_RESPONSE | TIMEOUT | TLS_FAILURE | NETWORK_FAILURE

text \<open>\<open>PublicKnowledgeFetchError\<close>, or another exception that leaves the function.\<close>

datatype fetch_error = FetchError fetch_code bool | OtherError exn

definition max_redirects :: nat where "max_redirects = 5"

definition ALLOWED_CONTENT_TYPES :: "string list" where
  "ALLOWED_CONTENT_TYPES = [''text/html'', ''application/xhtml+xml'', ''text/plain'', ''text/markdown'', ''application/xml'',
     ''text/xml'', ''application/rss+xml'', ''application/atom+xml'']"

definition REDIRECT_STATUSES :: "int list" where
  "REDIRECT_STATUSES = [301, 302, 303, 307, 308]"

definition RETRYABLE_HTTP_STATUSES :: "int list" where
  "RETRYABLE_HTTP_STATUSES = [408, 425, 429]"

record fetch_policy =
  fp_allowed_hosts :: "string list"
  fp_max_response_bytes :: int
  fp_timeout_ms :: int

definition normalize_host :: "url_env \<Rightarrow> string \<Rightarrow> string result" where
  "normalize_host env host =
     (let candidate = rev (dropWhile (\<lambda>c. c = CHR ''.'') (rev (strip host)))
      in if candidate = [] \<or> CHR ''*'' \<in> set candidate \<or> CHR ''/'' \<in> set candidate \<or> list_ex control_or_space candidate
         then Inl ValueError
         else (case idna_encode env candidate of None \<Rightarrow> Inl ValueError | Some h \<Rightarrow> Inr (lower h)))"

fun normalize_hosts :: "url_env \<Rightarrow> string list \<Rightarrow> string list result" where
  "normalize_hosts env [] = Inr []"
| "normalize_hosts env (h # hs) =
     bind_result (normalize_host env h) (\<lambda>n. bind_result (normalize_hosts env hs) (\<lambda>ns. Inr (n # ns)))"

text \<open>\<open>PublicKnowledgeFetchPolicy\<close> with its \<open>__post_init__\<close>; the timeout is in milliseconds.\<close>

definition PublicKnowledgeFetchPolicy :: "url_env \<Rightarrow> string list \<Rightarrow> int \<Rightarrow> int \<Rightarrow> fetch_policy result" where
  "PublicKnowledgeFetchPolicy env hosts max_bytes timeout_ms =
     (if hosts = [] then Inl ValueError
      else bind_result (normalize_hosts env hosts) (\<lambda>normalized.
        if \<not> (1 \<le> max_bytes \<and> max_bytes \<le> 50 * 1024 * 1024) then Inl ValueError
        else if \<not> (0 < timeout_ms \<and> timeout_ms \<le> 30000) then Inl ValueError
        else Inr \<lparr>fp_allowed_hosts = normalized, fp_max_response_bytes = max_bytes, fp_timeout_ms = timeout_ms\<rparr>))"

section \<open>The network\<close>

record ip_address =
  ip_text :: string
  ip_is_global :: bool
  ip_is_private :: bool
  ip_is_loopback :: bool
  ip_is_link_local :: bool
  ip_is_multicast :: bool
  ip_is_reserved :: bool
  ip_is_unspecified :: bool

text \<open>Exceptions of sockets, TLS and \<open>http.client\<close>, by the clause that catches them.\<close>

datatype net_exn = TimeoutError | SSLError | OSError

datatype peer = NoSocket | PeerUnreadable | Peer ip_address

record http_response =
  rs_status :: int
  rs_location :: "string option"
  rs_content_encoding :: "string option"
  rs_content_type :: "string option"
  rs_content_length :: "string option"
  rs_reads :: "(net_exn + string) list"

record 'w network =
  nw_getaddrinfo :: "string \<Rightarrow> 'w \<Rightarrow> ip_address option list option \<times> 'w"
  nw_connect :: "string \<Rightarrow> string \<Rightarrow> int \<Rightarrow> 'w \<Rightarrow> (net_exn + peer) \<times> 'w"
  nw_request :: "string \<Rightarrow> string \<Rightarrow> string \<Rightarrow> 'w \<Rightarrow> (net_exn + http_response) \<times> 'w"

record fetch_env =
  fe_url :: url_env
  fe_join :: "string \<Rightarrow> string \<Rightarrow> string"
  fe_quote :: "string \<Rightarrow> string \<Rightarrow> string"

datatype net_event = Dial string ip_address | Get string ip_address string

section \<open>One request\<close>

definition validate_url :: "url_env \<Rightarrow> string \<Rightarrow> fetch_policy \<Rightarrow> fetch_error + (SplitResult \<times> string)" where
  "validate_url env url policy =
     (if url = [] \<or> url \<noteq> strip url \<or> CHR ''#'' \<in> set url \<or> list_ex control_or_space url
      then Inl (FetchError INVALID_URL False)
      else (case urlsplit env url of
              Inl _ \<Rightarrow> Inl (FetchError INVALID_URL False)
            | Inr parsed \<Rightarrow>
                (case url_port parsed of
                   Inl _ \<Rightarrow> Inl (FetchError INVALID_URL False)
                 | Inr port \<Rightarrow>
                     (case url_hostname parsed of
                        None \<Rightarrow> Inl (FetchError INVALID_URL False)
                      | Some host \<Rightarrow>
                          if lower (sr_scheme parsed) \<noteq> ''https'' \<or> sr_netloc parsed = [] \<or> has_credentials parsed
                          then Inl (FetchError INVALID_URL False)
                          else if port \<notin> {None, Some 443} then Inl (FetchError INVALID_URL False)
                          else (case normalize_host env host of
                                  Inl _ \<Rightarrow> Inl (FetchError INVALID_URL False)
                                | Inr normalized_host \<Rightarrow>
                                    if normalized_host \<notin> set (fp_allowed_hosts policy)
                                    then Inl (FetchError DOMAIN_NOT_ALLOWED False)
                                    else Inr (parsed, normalized_host))))))"

definition is_allowed_address :: "ip_address \<Rightarrow> bool" where
  "is_allowed_address a \<longleftrightarrow> ip_is_global a \<and> \<not> ip_is_private a \<and> \<not> ip_is_loopback a \<and> \<not> ip_is_link_local a \<and>
     \<not> ip_is_multicast a \<and> \<not> ip_is_reserved a \<and> \<not> ip_is_unspecified a"

text \<open>The loop over the records; \<open>None\<close> is an address text \<open>ip_address\<close> refuses.\<close>

fun parse_records :: "ip_address option list \<Rightarrow> ip_address list \<Rightarrow> fetch_error + ip_address list" where
  "parse_records [] addresses = Inr addresses"
| "parse_records (None # rest) addresses = Inl (FetchError BLOCKED_ADDRESS False)"
| "parse_records (Some a # rest) addresses =
     parse_records rest (if a \<in> set addresses then addresses else addresses @ [a])"

definition resolve_host :: "'w network \<Rightarrow> string \<Rightarrow> 'w \<Rightarrow> (fetch_error + ip_address list) \<times> 'w" where
  "resolve_host net host w =
     (case nw_getaddrinfo net host w of
        (None, w') \<Rightarrow> (Inl (FetchError DNS_FAILURE True), w')
      | (Some records, w') \<Rightarrow>
          (case parse_records records [] of
             Inl e \<Rightarrow> (Inl e, w')
           | Inr addresses \<Rightarrow>
               if addresses = [] then (Inl (FetchError DNS_FAILURE True), w')
               else if list_ex (\<lambda>a. \<not> is_allowed_address a) addresses then (Inl (FetchError BLOCKED_ADDRESS False), w')
               else (Inr addresses, w')))"

definition request_target :: "fetch_env \<Rightarrow> SplitResult \<Rightarrow> string" where
  "request_target env parsed =
     (let path = fe_quote env (''/%:@!$&'' @ [CHR 0x27] @ ''()*+,;=-._~'') (if sr_path parsed = [] then ''/'' else sr_path parsed)
      in if sr_query parsed = [] then path
         else path @ ''?'' @ fe_quote env (''=&?/%:@!$'' @ [CHR 0x27] @ ''()*+,;=-._~'') (sr_query parsed))"

fun read_chunks :: "(net_exn + string) list \<Rightarrow> int \<Rightarrow> string \<Rightarrow> int \<Rightarrow> (net_exn + fetch_error) + string" where
  "read_chunks [] count body max_bytes = Inr body"
| "read_chunks (Inl e # rest) count body max_bytes = Inl (Inl e)"
| "read_chunks (Inr chunk # rest) count body max_bytes =
     (if chunk = [] then Inr body
      else if count + int (length chunk) > max_bytes then Inl (Inr (FetchError RESPONSE_TOO_LARGE False))
      else read_chunks rest (count + int (length chunk)) (body @ chunk) max_bytes)"

definition read_success_body :: "http_response \<Rightarrow> int \<Rightarrow> (net_exn + fetch_error) + (string \<times> string)" where
  "read_success_body response max_bytes =
     (if (case rs_content_encoding response of None \<Rightarrow> False | Some enc \<Rightarrow> lower (strip enc) \<notin> {[], ''identity''})
      then Inl (Inr (FetchError UNSUPPORTED_ENCODING False))
      else (let content_type = (case rs_content_type response of
                  None \<Rightarrow> [] | Some raw \<Rightarrow> lower (strip (fst (partition_at (CHR '';'') raw))))
            in if content_type \<notin> set ALLOWED_CONTENT_TYPES then Inl (Inr (FetchError UNSUPPORTED_MIME False))
               else (case (case rs_content_length response of
                        None \<Rightarrow> Inr ()
                      | Some raw \<Rightarrow>
                          (case py_int10 raw of
                             None \<Rightarrow> Inl (FetchError INVALID_RESPONSE False)
                           | Some n \<Rightarrow> if n < 0 then Inl (FetchError INVALID_RESPONSE False)
                                      else if n > max_bytes then Inl (FetchError RESPONSE_TOO_LARGE False) else Inr ())) of
                   Inl e \<Rightarrow> Inl (Inr e)
                 | Inr _ \<Rightarrow> (case read_chunks (rs_reads response) 0 [] max_bytes of
                      Inl e \<Rightarrow> Inl e | Inr body \<Rightarrow> Inr (content_type, body)))))"

definition map_net_error :: "net_exn \<Rightarrow> fetch_error" where
  "map_net_error e = (case e of TimeoutError \<Rightarrow> FetchError TIMEOUT True | SSLError \<Rightarrow> FetchError TLS_FAILURE True
     | OSError \<Rightarrow> FetchError NETWORK_FAILURE True)"

text \<open>Status, location, content type and body.\<close>

type_synonym reply = "int \<times> string option \<times> string option \<times> string option"

definition handle_response :: "http_response \<Rightarrow> int \<Rightarrow> fetch_error + reply" where
  "handle_response response max_bytes =
     (if rs_status response \<in> set REDIRECT_STATUSES then Inr (rs_status response, rs_location response, None, None)
      else if \<not> (200 \<le> rs_status response \<and> rs_status response \<le> 299)
      then Inl (FetchError HTTP_STATUS (rs_status response \<in> set RETRYABLE_HTTP_STATUSES \<or> rs_status response \<ge> 500))
      else (case read_success_body response max_bytes of
              Inl (Inl e) \<Rightarrow> Inl (map_net_error e)
            | Inl (Inr e) \<Rightarrow> Inl e
            | Inr (content_type, body) \<Rightarrow> Inr (rs_status response, None, Some content_type, Some body)))"

definition perform_request ::
  "fetch_env \<Rightarrow> 'w network \<Rightarrow> SplitResult \<Rightarrow> string \<Rightarrow> ip_address \<Rightarrow> fetch_policy \<Rightarrow> 'w
     \<Rightarrow> (fetch_error + reply) \<times> net_event list \<times> 'w" where
  "perform_request env net parsed host address policy w =
     (case nw_connect net host (ip_text address) (fp_timeout_ms policy) w of
        (Inl e, w1) \<Rightarrow> (Inl (map_net_error e), [Dial host address], w1)
      | (Inr NoSocket, w1) \<Rightarrow> (Inl (FetchError NETWORK_FAILURE True), [Dial host address], w1)
      | (Inr PeerUnreadable, w1) \<Rightarrow> (Inl (FetchError NETWORK_FAILURE True), [Dial host address], w1)
      | (Inr (Peer peer), w1) \<Rightarrow>
          if peer \<noteq> address \<or> \<not> is_allowed_address peer
          then (Inl (FetchError PEER_MISMATCH False), [Dial host address], w1)
          else (let target = request_target env parsed; sent = [Dial host address, Get host peer target]
                in case nw_request net host (ip_text peer) target w1 of
                     (Inl e, w2) \<Rightarrow> (Inl (map_net_error e), sent, w2)
                   | (Inr response, w2) \<Rightarrow> (handle_response response (fp_max_response_bytes policy), sent, w2)))"

section \<open>The redirect loop\<close>

record fetch_result =
  fr_final_url :: string
  fr_status_code :: int
  fr_content_type :: string
  fr_body :: string

definition urljoin :: "fetch_env \<Rightarrow> string \<Rightarrow> string \<Rightarrow> string result" where
  "urljoin env base url =
     (if base = [] then Inr url else if url = [] then Inr base
      else bind_result (urlsplit (fe_url env) base) (\<lambda>_.
           bind_result (urlsplit (fe_url env) url) (\<lambda>_. Inr (fe_join env base url))))"

function fetch_loop ::
  "fetch_env \<Rightarrow> 'w network \<Rightarrow> fetch_policy \<Rightarrow> string \<Rightarrow> nat \<Rightarrow> 'w \<Rightarrow> (fetch_error + fetch_result) \<times> net_event list \<times> 'w" where
  "fetch_loop env net policy current_url redirects w =
     (case validate_url (fe_url env) current_url policy of
        Inl e \<Rightarrow> (Inl e, [], w)
      | Inr (parsed, host) \<Rightarrow>
          (case resolve_host net host w of
             (Inl e, w1) \<Rightarrow> (Inl e, [], w1)
           | (Inr addresses, w1) \<Rightarrow>
               (case perform_request env net parsed host (hd addresses) policy w1 of
                  (Inl e, ev, w2) \<Rightarrow> (Inl e, ev, w2)
                | (Inr (status, location, content_type, body), ev, w2) \<Rightarrow>
                    if status \<in> set REDIRECT_STATUSES then
                      (case location of
                         None \<Rightarrow> (Inl (FetchError REDIRECT_MISSING_LOCATION False), ev, w2)
                       | Some loc \<Rightarrow>
                           if strip loc = [] then (Inl (FetchError REDIRECT_MISSING_LOCATION False), ev, w2)
                           else if redirects \<ge> max_redirects then (Inl (FetchError TOO_MANY_REDIRECTS False), ev, w2)
                           else (case urljoin env current_url (strip loc) of
                                   Inl e \<Rightarrow> (Inl (OtherError e), ev, w2)
                                 | Inr next_url \<Rightarrow>
                                     (case fetch_loop env net policy next_url (redirects + 1) w2 of
                                        (r, ev', w3) \<Rightarrow> (r, ev @ ev', w3))))
                    else (case (content_type, body) of
                            (Some ct, Some bs) \<Rightarrow>
                              (Inr \<lparr>fr_final_url = current_url, fr_status_code = status, fr_content_type = ct, fr_body = bs\<rparr>, ev, w2)
                          | _ \<Rightarrow> (Inl (FetchError INVALID_RESPONSE False), ev, w2)))))"
  by pat_completeness auto
termination
  by (relation "measure (\<lambda>(env, net, policy, url, redirects, w). max_redirects - redirects)") auto

declare fetch_loop.simps [simp del]

definition fetch_public_knowledge ::
  "fetch_env \<Rightarrow> 'w network \<Rightarrow> string \<Rightarrow> fetch_policy \<Rightarrow> 'w \<Rightarrow> (fetch_error + fetch_result) \<times> net_event list \<times> 'w" where
  "fetch_public_knowledge env net url policy w = fetch_loop env net policy url 0 w"

section \<open>The boundary holds\<close>

text \<open>An event inside the boundary: an allowed host at an allowed address.\<close>

fun inside :: "string list \<Rightarrow> net_event \<Rightarrow> bool" where
  "inside hosts (Dial h a) = (h \<in> set hosts \<and> is_allowed_address a)"
| "inside hosts (Get h a target) = (h \<in> set hosts \<and> is_allowed_address a)"

fun is_dial :: "net_event \<Rightarrow> bool" where
  "is_dial (Dial h a) = True"
| "is_dial (Get h a target) = False"

abbreviation dials :: "net_event list \<Rightarrow> nat" where
  "dials ev \<equiv> length (filter is_dial ev)"

lemma resolve_host_allowed:
  assumes "resolve_host net host w = (Inr addresses, w')"
  shows "addresses \<noteq> [] \<and> list_all is_allowed_address addresses"
  using assms by (auto simp: resolve_host_def list_all_iff list_ex_iff split: prod.splits option.splits sum.splits if_splits)

lemma validate_url_host: "validate_url env url policy = Inr (parsed, host) \<Longrightarrow> host \<in> set (fp_allowed_hosts policy)"
  by (auto simp: validate_url_def split: if_splits sum.splits option.splits)

lemma perform_request_events:
  assumes "perform_request env net parsed host address policy w = (r, ev, w')"
    "host \<in> set hosts" "is_allowed_address address"
  shows "list_all (inside hosts) ev \<and> dials ev = 1"
  using assms by (auto simp: perform_request_def Let_def split: prod.splits sum.splits peer.splits if_splits)

lemma read_chunks_bound:
  "read_chunks reads n body max_bytes = Inr bs \<Longrightarrow> n = int (length body) \<Longrightarrow> n \<le> max_bytes \<Longrightarrow> int (length bs) \<le> max_bytes"
  by (induction reads n body max_bytes rule: read_chunks.induct) (auto split: if_splits)

lemma handle_response_body:
  assumes "handle_response response max_bytes = Inr (status, loc, ct, bs)" "0 \<le> max_bytes"
  shows "(ct \<noteq> None \<longrightarrow> the ct \<in> set ALLOWED_CONTENT_TYPES) \<and> (bs \<noteq> None \<longrightarrow> int (length (the bs)) \<le> max_bytes) \<and>
    (status \<notin> set REDIRECT_STATUSES \<longrightarrow> 200 \<le> status \<and> status \<le> 299)"
  using assms read_chunks_bound[of "rs_reads response" 0 "[]" max_bytes]
  by (auto simp: handle_response_def read_success_body_def Let_def split: if_splits sum.splits option.splits prod.splits)

lemma perform_request_reply:
  assumes "perform_request env net parsed host address policy w = (Inr (status, loc, ct, bs), ev, w')"
    "0 \<le> fp_max_response_bytes policy"
  shows "(ct \<noteq> None \<longrightarrow> the ct \<in> set ALLOWED_CONTENT_TYPES) \<and>
    (bs \<noteq> None \<longrightarrow> int (length (the bs)) \<le> fp_max_response_bytes policy) \<and>
    (status \<notin> set REDIRECT_STATUSES \<longrightarrow> 200 \<le> status \<and> status \<le> 299)"
proof -
  from assms(1) obtain response where "handle_response response (fp_max_response_bytes policy) = Inr (status, loc, ct, bs)"
    by (auto simp: perform_request_def Let_def split: prod.splits sum.splits peer.splits if_splits)
  then show ?thesis using assms(2) by (rule handle_response_body)
qed

text \<open>The result of a fetch is a bounded success of an allowed type at a URL that passes the validation.\<close>

definition fetched_ok :: "fetch_env \<Rightarrow> fetch_policy \<Rightarrow> fetch_result \<Rightarrow> bool" where
  "fetched_ok env policy r \<longleftrightarrow> 200 \<le> fr_status_code r \<and> fr_status_code r \<le> 299 \<and>
     fr_content_type r \<in> set ALLOWED_CONTENT_TYPES \<and> int (length (fr_body r)) \<le> fp_max_response_bytes policy \<and>
     (\<exists>parsed host. validate_url (fe_url env) (fr_final_url r) policy = Inr (parsed, host))"

lemma fetch_loop_safe:
  assumes "fetch_loop env net policy url redirects w = (r, ev, w')" "0 \<le> fp_max_response_bytes policy"
    "redirects \<le> max_redirects"
  shows "list_all (inside (fp_allowed_hosts policy)) ev \<and> dials ev \<le> max_redirects + 1 - redirects \<and>
    (\<forall>x. r = Inr x \<longrightarrow> fetched_ok env policy x)"
  using assms
proof (induction env net policy url redirects w arbitrary: r ev w' rule: fetch_loop.induct)
  case (1 env net policy url redirects w)
  note step = 1(2)[unfolded fetch_loop.simps[of env net policy url redirects w]]
  show ?case
  proof (cases "validate_url (fe_url env) url policy")
    case (Inl e)
    then show ?thesis using step by auto
  next
    case (Inr p)
    obtain parsed host where p: "p = (parsed, host)" by fastforce
    note v = Inr[unfolded p]
    have host: "host \<in> set (fp_allowed_hosts policy)" by (rule validate_url_host[OF v])
    obtain a w1 where res: "resolve_host net host w = (a, w1)" by fastforce
    show ?thesis
    proof (cases a)
      case (Inl e)
      then show ?thesis using step v res by auto
    next
      case (Inr addresses)
      note res = res[unfolded Inr]
      have addr: "is_allowed_address (hd addresses)" using resolve_host_allowed[OF res] by (cases addresses) auto
      obtain x ev1 w2 where req: "perform_request env net parsed host (hd addresses) policy w1 = (x, ev1, w2)"
        by (metis surj_pair)
      note ev1 = perform_request_events[OF req host addr]
      show ?thesis
      proof (cases x)
        case (Inl e)
        then show ?thesis using step v res req ev1 1(4) by auto
      next
        case (Inr q)
        obtain status loc ct bs where q: "q = (status, loc, ct, bs)" by (metis surj_pair)
        note reply = perform_request_reply[OF req[unfolded Inr q] 1(3)]
        consider (final) b t where "status \<notin> set REDIRECT_STATUSES" "ct = Some t" "bs = Some b"
            "r = Inr \<lparr>fr_final_url = url, fr_status_code = status, fr_content_type = t, fr_body = b\<rparr>" "ev = ev1"
          | (follow) l next_url ev2 where "status \<in> set REDIRECT_STATUSES" "loc = Some l" "strip l \<noteq> []" "redirects < max_redirects"
            "urljoin env url (strip l) = Inr next_url" "fetch_loop env net policy next_url (redirects + 1) w2 = (r, ev2, w')" "ev = ev1 @ ev2"
          | (failed) e where "r = Inl e" "ev = ev1"
          using step v res req Inr q by (auto split: if_splits option.splits sum.splits prod.splits)
        then show ?thesis
        proof cases
          case final
          then show ?thesis using reply ev1 v 1(4) by (auto simp: fetched_ok_def)
        next
          case follow
          have "list_all (inside (fp_allowed_hosts policy)) ev2 \<and> dials ev2 \<le> max_redirects + 1 - (redirects + 1) \<and>
              (\<forall>x. r = Inr x \<longrightarrow> fetched_ok env policy x)"
            using 1(1)[OF v refl res[symmetric] refl req[symmetric, unfolded Inr q] refl refl refl refl refl follow(1,2,3) _ follow(5,6)]
              follow(4) 1(3) by simp
          then show ?thesis using ev1 follow(4,7) by auto
        next
          case failed
          then show ?thesis using ev1 1(4) by auto
        qed
      qed
    qed
  qed
qed

text \<open>
  C10: Whatever the network answers, a fetch under a policy always returns, dials and queries only the
  allowed hosts at addresses that pass every address check, makes at most six connections, and a
  successful result is a bounded body of an allowed type from a URL that itself passes the validation.
\<close>

theorem public_fetch_contained:
  assumes "PublicKnowledgeFetchPolicy (fe_url env) hosts max_bytes timeout = Inr policy"
    "fetch_public_knowledge env net url policy w = (r, ev, w')"
  shows "list_all (inside (fp_allowed_hosts policy)) ev \<and> dials ev \<le> 6 \<and>
    (\<forall>x. r = Inr x \<longrightarrow> fetched_ok env policy x \<and> int (length (fr_body x)) \<le> max_bytes)"
proof -
  have pol: "fp_max_response_bytes policy = max_bytes" "1 \<le> max_bytes"
    using assms(1) by (auto simp: PublicKnowledgeFetchPolicy_def result_simps split: if_splits)
  have "fetch_loop env net policy url 0 w = (r, ev, w')" using assms(2) by (simp add: fetch_public_knowledge_def)
  from fetch_loop_safe[OF this] pol have safe: "list_all (inside (fp_allowed_hosts policy)) ev" "dials ev \<le> 6"
    "\<forall>x. r = Inr x \<longrightarrow> fetched_ok env policy x" by (auto simp: max_redirects_def)
  then show ?thesis using pol by (auto simp: fetched_ok_def)
qed

section \<open>A concrete network\<close>

definition public_ip :: ip_address where
  "public_ip = \<lparr>ip_text = ''93.184.216.34'', ip_is_global = True, ip_is_private = False, ip_is_loopback = False,
     ip_is_link_local = False, ip_is_multicast = False, ip_is_reserved = False, ip_is_unspecified = False\<rparr>"

text \<open>A server that redirects the first request and answers the next ones; the state counts requests.\<close>

definition redirecting :: "string \<Rightarrow> int network" where
  "redirecting location =
     \<lparr>nw_getaddrinfo = (\<lambda>host n. (Some [Some public_ip], n)),
      nw_connect = (\<lambda>host ip timeout n. (Inr (Peer public_ip), n)),
      nw_request = (\<lambda>host ip target n.
        (Inr (if n = 0
              then \<lparr>rs_status = 302, rs_location = Some location, rs_content_encoding = None, rs_content_type = None,
                    rs_content_length = None, rs_reads = []\<rparr>
              else \<lparr>rs_status = 200, rs_location = None, rs_content_encoding = None, rs_content_type = Some ''text/plain; x'',
                    rs_content_length = Some ''2'', rs_reads = [Inr ''ok'']\<rparr>), n + 1))\<rparr>"

definition sample_fetch_env :: fetch_env where
  "sample_fetch_env = \<lparr>fe_url = ascii_env, fe_join = (\<lambda>base loc. ''https://a.io'' @ loc), fe_quote = (\<lambda>safe s. s)\<rparr>"

lemma sample_policy:
  "PublicKnowledgeFetchPolicy (fe_url sample_fetch_env) [''a.io''] 5242880 10000 =
     Inr \<lparr>fp_allowed_hosts = [''a.io''], fp_max_response_bytes = 5242880, fp_timeout_ms = 10000\<rparr>"
  by code_simp

lemma sample_fetch:
  "fetch_public_knowledge sample_fetch_env (redirecting ''/b'') ''https://a.io''
     \<lparr>fp_allowed_hosts = [''a.io''], fp_max_response_bytes = 5242880, fp_timeout_ms = 10000\<rparr> 0 =
   (Inr \<lparr>fr_final_url = ''https://a.io/b'', fr_status_code = 200, fr_content_type = ''text/plain'', fr_body = ''ok''\<rparr>,
    [Dial ''a.io'' public_ip, Get ''a.io'' public_ip ''/'', Dial ''a.io'' public_ip, Get ''a.io'' public_ip ''/b''], 2)"
  by code_simp

theorem public_fetch_contained_witness:
  "\<exists>r ev. fetch_public_knowledge sample_fetch_env (redirecting ''/b'') ''https://a.io''
     \<lparr>fp_allowed_hosts = [''a.io''], fp_max_response_bytes = 5242880, fp_timeout_ms = 10000\<rparr> 0 = (Inr r, ev, 2) \<and>
   fr_body r = ''ok'' \<and> list_all (inside [''a.io'']) ev \<and> dials ev \<le> 6"
  using public_fetch_contained[OF sample_policy sample_fetch] sample_fetch by auto

text \<open>A redirect whose target \<open>urljoin\<close> cannot parse leaves the function as a plain \<open>ValueError\<close>.\<close>

lemma fetch_redirect_value_error:
  "fst (fetch_public_knowledge sample_fetch_env (redirecting ''https://['') ''https://a.io''
     \<lparr>fp_allowed_hosts = [''a.io''], fp_max_response_bytes = 5242880, fp_timeout_ms = 10000\<rparr> 0) = Inl (OtherError ValueError)"
  by code_simp

end
