(* ===== verification/Json.thy ===== *)
theory Json
  imports Unicode_Text "HOL-Library.List_Lexorder"
begin

text \<open>
  The \<open>json\<close> module as the event pipeline uses it:
  \<open>json.dumps(v, ensure_ascii=False, separators=(",", ":"), sort_keys=True)\<close> and \<open>json.loads\<close>.  A
  \<open>dict\<close> is the list of its items in insertion order.  \<open>json.loads\<close> of an integer literal with more
  than 4300 digits raises a plain \<open>ValueError\<close>, as \<open>int\<close> does; the recursion limit of the interpreter
  is not modelled.
\<close>

datatype wjson =
    WNull
  | WBool bool
  | WInt int
  | WFloat utext
  | WStr utext
  | WArr "wjson list"
  | WObj "(utext \<times> wjson) list"

section \<open>Printing\<close>

function digits :: "int \<Rightarrow> utext" where
  "digits n = (if n < 10 then [48 + n] else digits (n div 10) @ [48 + n mod 10])"
  by pat_completeness auto
termination
  by (relation "measure nat") auto

declare digits.simps [simp del]

definition decimal :: "int \<Rightarrow> utext" where
  "decimal n = (if n < 0 then 45 # digits (- n) else digits n)"

definition hex_char :: "int \<Rightarrow> int" where
  "hex_char d = (if d < 10 then 48 + d else 87 + d)"

definition escape_char :: "int \<Rightarrow> utext" where
  "escape_char c =
     (if c = 34 then [92, 34]
      else if c = 92 then [92, 92]
      else if c = 10 then [92, 110]
      else if c = 13 then [92, 114]
      else if c = 9 then [92, 116]
      else if c = 12 then [92, 102]
      else if c = 8 then [92, 98]
      else if c < 32 then [92, 117, 48, 48, hex_char (c div 16), hex_char (c mod 16)]
      else [c])"

definition quote_json :: "utext \<Rightarrow> utext" where
  "quote_json s = [34] @ concat (map escape_char s) @ [34]"

fun dumps :: "wjson \<Rightarrow> utext" where
  "dumps WNull = cps ''null''"
| "dumps (WBool b) = (if b then cps ''true'' else cps ''false'')"
| "dumps (WInt n) = decimal n"
| "dumps (WFloat t) = t"
| "dumps (WStr s) = quote_json s"
| "dumps (WArr vs) = [91] @ u_join [44] (map dumps vs) @ [93]"
| "dumps (WObj kvs) =
     [123] @ u_join [44] (map (\<lambda>(k, t). quote_json k @ [58] @ t) (sort_key fst (map (\<lambda>(k, v). (k, dumps v)) kvs))) @ [125]"

section \<open>Reading\<close>

definition json_ws :: "int \<Rightarrow> bool" where
  "json_ws c \<longleftrightarrow> c = 32 \<or> c = 9 \<or> c = 10 \<or> c = 13"

definition skip_ws :: "utext \<Rightarrow> utext" where
  "skip_ws s = dropWhile json_ws s"

definition hex_val :: "int \<Rightarrow> int option" where
  "hex_val c =
     (if 48 \<le> c \<and> c \<le> 57 then Some (c - 48)
      else if 97 \<le> c \<and> c \<le> 102 then Some (c - 87)
      else if 65 \<le> c \<and> c \<le> 70 then Some (c - 55) else None)"

fun hex4 :: "utext \<Rightarrow> (int \<times> utext) option" where
  "hex4 (a # b # c # d # r) =
     (case (hex_val a, hex_val b, hex_val c, hex_val d) of
        (Some w, Some x, Some y, Some z) \<Rightarrow> Some (((w * 16 + x) * 16 + y) * 16 + z, r)
      | _ \<Rightarrow> None)"
| "hex4 _ = None"

definition simple_escape :: "int \<Rightarrow> int option" where
  "simple_escape c = map_of [(34, 34), (92, 92), (47, 47), (98, 8), (102, 12), (110, 10), (114, 13), (116, 9)] c"

text \<open>One character of a string literal, after the opening quote; an escape may stand for a surrogate pair.\<close>

definition scan_unicode :: "utext \<Rightarrow> (int \<times> utext) option" where
  "scan_unicode s =
     (case hex4 s of
        None \<Rightarrow> None
      | Some (uni, r) \<Rightarrow>
          if 55296 \<le> uni \<and> uni \<le> 56319 \<and> take 2 r = [92, 117]
          then (case hex4 (drop 2 r) of
                  None \<Rightarrow> None
                | Some (uni2, r2) \<Rightarrow>
                    if 56320 \<le> uni2 \<and> uni2 \<le> 57343
                    then Some (65536 + ((uni - 55296) * 1024 + (uni2 - 56320)), r2) else Some (uni, r))
          else Some (uni, r))"

fun scan_string :: "nat \<Rightarrow> utext \<Rightarrow> (utext \<times> utext) result" where
  "scan_string 0 s = Inl JSONDecodeError"
| "scan_string (Suc n) [] = Inl JSONDecodeError"
| "scan_string (Suc n) (c # r) =
     (if c = 34 then Inr ([], r)
      else if c = 92 then
        (case r of
           [] \<Rightarrow> Inl JSONDecodeError
         | e # r1 \<Rightarrow>
             if e = 117 then
               (case scan_unicode r1 of
                  None \<Rightarrow> Inl JSONDecodeError
                | Some (x, r2) \<Rightarrow> bind_result (scan_string n r2) (\<lambda>(s, rest). Inr (x # s, rest)))
             else (case simple_escape e of
                     None \<Rightarrow> Inl JSONDecodeError
                   | Some x \<Rightarrow> bind_result (scan_string n r1) (\<lambda>(s, rest). Inr (x # s, rest))))
      else if c < 32 then Inl JSONDecodeError
      else bind_result (scan_string n r) (\<lambda>(s, rest). Inr (c # s, rest)))"

definition is_digit :: "int \<Rightarrow> bool" where
  "is_digit c \<longleftrightarrow> 48 \<le> c \<and> c \<le> 57"

definition number_value :: "utext \<Rightarrow> int" where
  "number_value ds = foldl (\<lambda>v c. v * 10 + (c - 48)) 0 ds"

text \<open>The digits of the integer part: a single zero, or digits that start with another one.\<close>

definition integer_part :: "utext \<Rightarrow> utext" where
  "integer_part s = (case s of c # _ \<Rightarrow> if c = 48 then [48] else takeWhile is_digit s | [] \<Rightarrow> [])"

definition fraction_part :: "utext \<Rightarrow> utext" where
  "fraction_part s =
     (case s of c # r \<Rightarrow> if c = 46 \<and> takeWhile is_digit r \<noteq> [] then c # takeWhile is_digit r else [] | [] \<Rightarrow> [])"

definition exponent_part :: "utext \<Rightarrow> utext" where
  "exponent_part s =
     (case s of
        c # r \<Rightarrow>
          if c = 101 \<or> c = 69
          then (let sign = (case r of x # _ \<Rightarrow> if x = 43 \<or> x = 45 then [x] else [] | [] \<Rightarrow> []);
                    ds = takeWhile is_digit (drop (length sign) r)
                in if ds \<noteq> [] then c # sign @ ds else [])
          else []
      | [] \<Rightarrow> [])"

definition scan_number :: "utext \<Rightarrow> (wjson \<times> utext) result" where
  "scan_number s =
     (let sign = (case s of c # _ \<Rightarrow> if c = 45 then [c] else [] | [] \<Rightarrow> []);
          ds = integer_part (drop (length sign) s);
          r1 = drop (length sign + length ds) s;
          fr = fraction_part r1; r2 = drop (length fr) r1;
          ex = exponent_part r2; r3 = drop (length ex) r2
      in if ds = [] then Inl JSONDecodeError
         else if fr \<noteq> [] \<or> ex \<noteq> [] then Inr (WFloat (sign @ ds @ fr @ ex), r3)
         else if length ds > 4300 then Inl ValueError
         else Inr (WInt (if sign = [] then number_value ds else - number_value ds), r1))"

text \<open>\<open>dict(pairs)\<close>: a repeated key keeps its first place and its last value.\<close>

fun dict_put :: "utext \<times> wjson \<Rightarrow> (utext \<times> wjson) list \<Rightarrow> (utext \<times> wjson) list" where
  "dict_put (k, v) [] = [(k, v)]"
| "dict_put (k, v) ((k', v') # kvs) = (if k' = k then (k, v) # kvs else (k', v') # dict_put (k, v) kvs)"

definition dict_of :: "(utext \<times> wjson) list \<Rightarrow> (utext \<times> wjson) list" where
  "dict_of kvs = fold dict_put kvs []"

abbreviation word_at :: "string \<Rightarrow> utext \<Rightarrow> bool" where
  "word_at w s \<equiv> u_startswith s (cps w)"

text \<open>The fuel bounds the nesting and the number of elements; twice the length of the text is enough.\<close>

fun scan_value :: "nat \<Rightarrow> utext \<Rightarrow> (wjson \<times> utext) result"
  and scan_items :: "nat \<Rightarrow> utext \<Rightarrow> (wjson list \<times> utext) result"
  and scan_members :: "nat \<Rightarrow> utext \<Rightarrow> ((utext \<times> wjson) list \<times> utext) result" where
  "scan_value 0 s = Inl RecursionError"
| "scan_value (Suc n) s =
     (case s of
        [] \<Rightarrow> Inl JSONDecodeError
      | c # r \<Rightarrow>
          if c = 34 then bind_result (scan_string (length s) r) (\<lambda>(t, rest). Inr (WStr t, rest))
          else if c = 123 then
            (case skip_ws r of
               [] \<Rightarrow> Inl JSONDecodeError
             | d # r' \<Rightarrow> if d = 125 then Inr (WObj [], r')
                        else bind_result (scan_members n (d # r')) (\<lambda>(kvs, rest). Inr (WObj (dict_of kvs), rest)))
          else if c = 91 then
            (case skip_ws r of
               [] \<Rightarrow> Inl JSONDecodeError
             | d # r' \<Rightarrow> if d = 93 then Inr (WArr [], r')
                        else bind_result (scan_items n (d # r')) (\<lambda>(vs, rest). Inr (WArr vs, rest)))
          else if word_at ''null'' s then Inr (WNull, drop 4 s)
          else if word_at ''true'' s then Inr (WBool True, drop 4 s)
          else if word_at ''false'' s then Inr (WBool False, drop 5 s)
          else if word_at ''NaN'' s then Inr (WFloat (cps ''NaN''), drop 3 s)
          else if word_at ''Infinity'' s then Inr (WFloat (cps ''Infinity''), drop 8 s)
          else if word_at ''-Infinity'' s then Inr (WFloat (cps ''-Infinity''), drop 9 s)
          else scan_number s)"
| "scan_items 0 s = Inl RecursionError"
| "scan_items (Suc n) s =
     bind_result (scan_value n s) (\<lambda>(v, r).
       case skip_ws r of
         [] \<Rightarrow> Inl JSONDecodeError
       | c # t \<Rightarrow>
           if c = 44 then bind_result (scan_items n (skip_ws t)) (\<lambda>(vs, rest). Inr (v # vs, rest))
           else if c = 93 then Inr ([v], t) else Inl JSONDecodeError)"
| "scan_members 0 s = Inl RecursionError"
| "scan_members (Suc n) s =
     (case s of
        [] \<Rightarrow> Inl JSONDecodeError
      | q # r \<Rightarrow>
          if q \<noteq> 34 then Inl JSONDecodeError
          else bind_result (scan_string (length s) r) (\<lambda>(k, r1).
            case skip_ws r1 of
              [] \<Rightarrow> Inl JSONDecodeError
            | c # r2 \<Rightarrow>
                if c \<noteq> 58 then Inl JSONDecodeError
                else bind_result (scan_value n (skip_ws r2)) (\<lambda>(v, r3).
                  case skip_ws r3 of
                    [] \<Rightarrow> Inl JSONDecodeError
                  | e # t \<Rightarrow>
                      if e = 44 then bind_result (scan_members n (skip_ws t)) (\<lambda>(kvs, rest). Inr ((k, v) # kvs, rest))
                      else if e = 125 then Inr ([(k, v)], t) else Inl JSONDecodeError)))"

definition loads :: "utext \<Rightarrow> wjson result" where
  "loads s =
     (if u_startswith s [65279] then Inl JSONDecodeError
      else bind_result (scan_value (2 * length s + 2) (skip_ws s)) (\<lambda>(v, rest).
        if skip_ws rest = [] then Inr v else Inl JSONDecodeError))"

section \<open>Reading consumes text and the fuel suffices\<close>

lemma length_skip_ws: "length (skip_ws s) \<le> length s"
  unfolding skip_ws_def by (rule length_dropWhile_le)

lemma hex4_shorter: "hex4 s = Some (x, r) \<Longrightarrow> length r < length s"
  by (induction s rule: hex4.induct) (auto split: option.splits)

lemma scan_unicode_shorter: "scan_unicode s = Some (x, r) \<Longrightarrow> length r < length s"
proof -
  assume a: "scan_unicode s = Some (x, r)"
  then obtain uni r0 where h: "hex4 s = Some (uni, r0)" by (auto simp: scan_unicode_def split: option.splits)
  note short = hex4_shorter[OF h]
  show ?thesis
  proof (cases "hex4 (drop 2 r0)")
    case None
    then show ?thesis using a h short by (auto simp: scan_unicode_def split: if_splits)
  next
    case (Some p)
    obtain uni2 r2 where p: "p = (uni2, r2)" by fastforce
    have "length r2 < length (drop 2 r0)" using hex4_shorter Some p by blast
    then show ?thesis using a h short Some p by (auto simp: scan_unicode_def split: if_splits)
  qed
qed

lemma scan_string_shorter: "scan_string n s = Inr (t, r) \<Longrightarrow> length r < length s"
proof (induction n arbitrary: s t)
  case (Suc n)
  then obtain c cs where s: "s = c # cs" by (cases s) auto
  consider "c = 34" | e r1 x r2 t' where "c = 92" "cs = e # r1" "scan_unicode r1 = Some (x, r2)" "scan_string n r2 = Inr (t', r)"
    | e r1 t' where "c = 92" "cs = e # r1" "scan_string n r1 = Inr (t', r)" | t' where "scan_string n cs = Inr (t', r)"
    using Suc.prems unfolding s by (auto simp: result_simps split: if_splits list.splits option.splits)
  then show ?case
  proof cases
    case (2 e r1 x r2 t')
    then show ?thesis using Suc.IH[OF 2(4)] scan_unicode_shorter[OF 2(3)] s by simp
  next
    case (3 e r1 t')
    then show ?thesis using Suc.IH[OF 3(3)] s by simp
  next
    case (4 t')
    then show ?thesis using Suc.IH[OF 4] s by simp
  qed (use Suc.prems s in auto)
qed simp

lemma scan_number_shorter: "scan_number s = Inr (v, r) \<Longrightarrow> length r < length s"
proof -
  assume a: "scan_number s = Inr (v, r)"
  define sign where "sign = (case s of c # _ \<Rightarrow> if c = 45 then [c] else [] | [] \<Rightarrow> [])"
  define ds where "ds = integer_part (drop (length sign) s)"
  define r1 where "r1 = drop (length sign + length ds) s"
  have ne: "ds \<noteq> []" and r: "length r \<le> length r1"
    using a by (auto simp: scan_number_def Let_def r1_def ds_def sign_def split: if_splits)
  have "drop (length sign) s \<noteq> []" using ne by (auto simp: ds_def integer_part_def)
  then have "length sign < length s" by simp
  moreover have "0 < length ds" using ne by blast
  ultimately have "length r1 < length s" unfolding r1_def length_drop by linarith
  with r show ?thesis by simp
qed

lemma scan_shorter:
  "(scan_value n s = Inr (v, r) \<longrightarrow> length r < length s) \<and>
   (scan_items n s = Inr (vs, r) \<longrightarrow> length r < length s) \<and>
   (scan_members n s = Inr (kvs, r) \<longrightarrow> length r < length s)"
proof (induction n arbitrary: s v vs kvs r)
  case (Suc n)
  have IHv: "scan_value n s' = Inr (v', r') \<Longrightarrow> length r' < length s'" for s' v' r' using Suc by blast
  have IHi: "scan_items n s' = Inr (vs', r') \<Longrightarrow> length r' < length s'" for s' vs' r' using Suc by blast
  have IHm: "scan_members n s' = Inr (kvs', r') \<Longrightarrow> length r' < length s'" for s' kvs' r' using Suc by blast
  have ws: "skip_ws x = y # z \<Longrightarrow> length z < length x" for x y z using length_skip_ws[of x] by simp
  have "length r < length s" if V: "scan_value (Suc n) s = Inr (v, r)"
  proof -
    obtain c t where s: "s = c # t" using V by (cases s) auto
    consider x where "scan_string (length s) t = Inr (x, r)"
      | d r' x where "skip_ws t = d # r'" "scan_members n (d # r') = Inr (x, r)"
      | d r' x where "skip_ws t = d # r'" "scan_items n (d # r') = Inr (x, r)"
      | d where "skip_ws t = d # r" | k where "r = drop k s" "0 < k" | "scan_number s = Inr (v, r)"
      using V unfolding s by (auto simp: result_simps split: if_splits list.splits) (metis drop_Suc_Cons zero_less_Suc)+
    then show ?thesis
    proof cases
      case 1
      then show ?thesis using scan_string_shorter s by fastforce
    next
      case (2 d r' x)
      then show ?thesis using IHm[OF 2(2)] ws[OF 2(1)] s by simp
    next
      case (3 d r' x)
      then show ?thesis using IHi[OF 3(2)] ws[OF 3(1)] s by simp
    next
      case (4 d)
      then show ?thesis using ws[OF 4] s by simp
    next
      case (5 k)
      then show ?thesis using s by simp
    next
      case 6
      then show ?thesis by (rule scan_number_shorter)
    qed
  qed
  moreover have "length r < length s" if I: "scan_items (Suc n) s = Inr (vs, r)"
  proof -
    from I obtain v' r1 where h0: "scan_value n s = Inr (v', r1)" by (auto simp: result_simps)
    with I obtain c t where h1: "skip_ws r1 = c # t" by (cases "skip_ws r1") auto
    with I h0 have "r = t \<or> (\<exists>vs'. scan_items n (skip_ws t) = Inr (vs', r))"
      by (auto simp: result_simps split: if_splits)
    note h = h0 h1 this
    then show ?thesis using IHv[OF h(1)] ws[OF h(2)] IHi[of "skip_ws t" _ r] length_skip_ws[of t] by fastforce
  qed
  moreover have "length r < length s" if M: "scan_members (Suc n) s = Inr (kvs, r)"
  proof -
    from M obtain s1 where h0: "s = 34 # s1" by (cases s) (auto split: if_splits)
    with M obtain k r1 where h1: "scan_string (length s) s1 = Inr (k, r1)" by (auto simp: result_simps)
    with M h0 obtain r2 where h2: "skip_ws r1 = 58 # r2" by (cases "skip_ws r1") (auto split: if_splits)
    with M h0 h1 obtain v' r3 where h3: "scan_value n (skip_ws r2) = Inr (v', r3)" by (auto simp: result_simps)
    with M h0 h1 h2 obtain e t where h4: "skip_ws r3 = e # t" by (cases "skip_ws r3") auto
    with M h0 h1 h2 h3 have "r = t \<or> (\<exists>kvs'. scan_members n (skip_ws t) = Inr (kvs', r))"
      by (auto simp: result_simps split: if_splits)
    note h = h0 h1 h2 h3 h4 this
    have "length t < length s"
      using scan_string_shorter[OF h(2)] ws[OF h(3)] IHv[OF h(4)] ws[OF h(5)] length_skip_ws[of r2] h(1) by simp
    then show ?thesis using h(6) IHm[of "skip_ws t" _ r] length_skip_ws[of t] by fastforce
  qed
  ultimately show ?case by blast
qed simp

lemma scan_value_shorter: "scan_value n s = Inr (v, r) \<Longrightarrow> length r < length s"
  using scan_shorter[of n s v r] by blast

lemma scan_string_errors: "scan_string n s = Inl e \<Longrightarrow> e = JSONDecodeError"
proof (induction n arbitrary: s)
  case (Suc n)
  then show ?case by (cases s) (auto simp: result_simps split: if_splits list.splits option.splits)
qed simp

lemma scan_number_errors: "scan_number s = Inl e \<Longrightarrow> e = JSONDecodeError \<or> e = ValueError"
  by (auto simp: scan_number_def Let_def split: if_splits)

lemma scan_fuel:
  "(2 * length s + 1 \<le> n \<longrightarrow> scan_value n s \<noteq> Inl RecursionError) \<and>
   (2 * length s + 2 \<le> n \<longrightarrow> scan_items n s \<noteq> Inl RecursionError) \<and>
   (2 * length s + 2 \<le> n \<longrightarrow> scan_members n s \<noteq> Inl RecursionError)"
proof (induction n arbitrary: s)
  case (Suc n)
  have str: "scan_string k x \<noteq> Inl RecursionError" and num: "scan_number x \<noteq> Inl RecursionError" for k x
    using scan_string_errors[of k x] scan_number_errors[of x] by auto
  have IHv: "2 * length x + 1 \<le> n \<Longrightarrow> scan_value n x \<noteq> Inl RecursionError"
    and IHi: "2 * length x + 2 \<le> n \<Longrightarrow> scan_items n x \<noteq> Inl RecursionError"
    and IHm: "2 * length x + 2 \<le> n \<Longrightarrow> scan_members n x \<noteq> Inl RecursionError" for x using Suc by blast+
  have ws: "skip_ws x = y # z \<Longrightarrow> length z < length x" for x y z using length_skip_ws[of x] by simp
  have "scan_value (Suc n) s \<noteq> Inl RecursionError" if "2 * length s + 1 \<le> Suc n"
  proof (cases s)
    case (Cons c t)
    have "scan_items n (d # r) \<noteq> Inl RecursionError" "scan_members n (d # r) \<noteq> Inl RecursionError" if "skip_ws t = d # r" for d r
      using ws[OF that] \<open>2 * length s + 1 \<le> Suc n\<close> Cons by (auto intro!: IHi IHm)
    then show ?thesis unfolding Cons
      using str num by (auto simp: result_simps split: list.splits)
  qed simp
  moreover have "scan_items (Suc n) s \<noteq> Inl RecursionError" if b: "2 * length s + 2 \<le> Suc n"
  proof
    assume e: "scan_items (Suc n) s = Inl RecursionError"
    have "scan_value n s \<noteq> Inl RecursionError" using b by (intro IHv) simp
    with e obtain v r where v: "scan_value n s = Inr (v, r)" by (cases "scan_value n s") (auto simp: result_simps)
    obtain c t where t: "skip_ws r = c # t" using e v by (cases "skip_ws r") auto
    have "scan_items n (skip_ws t) \<noteq> Inl RecursionError"
      using scan_value_shorter[OF v] ws[OF t] length_skip_ws[of t] b by (intro IHi) simp
    with e v t show False by (auto simp: result_simps split: if_splits)
  qed
  moreover have "scan_members (Suc n) s \<noteq> Inl RecursionError" if b: "2 * length s + 2 \<le> Suc n"
  proof
    assume e: "scan_members (Suc n) s = Inl RecursionError"
    obtain s1 where s1: "s = 34 # s1" using e by (cases s) (auto split: if_splits)
    obtain k r1 where k: "scan_string (length s) s1 = Inr (k, r1)"
      using e s1 str[of "length s" s1] by (cases "scan_string (length s) s1") (auto simp: result_simps)
    obtain r2 where r2: "skip_ws r1 = 58 # r2" using e s1 k by (cases "skip_ws r1") (auto split: if_splits)
    have len: "length (skip_ws r2) < length s" using scan_string_shorter[OF k] ws[OF r2] length_skip_ws[of r2] s1 by simp
    then have "scan_value n (skip_ws r2) \<noteq> Inl RecursionError" using b by (intro IHv) simp
    with e s1 k r2 obtain v r3 where v: "scan_value n (skip_ws r2) = Inr (v, r3)"
      by (cases "scan_value n (skip_ws r2)") (auto simp: result_simps)
    obtain c t where t: "skip_ws r3 = c # t" using e s1 k r2 v by (cases "skip_ws r3") auto
    have "scan_members n (skip_ws t) \<noteq> Inl RecursionError"
      using scan_value_shorter[OF v] ws[OF t] length_skip_ws[of t] len b by (intro IHm) simp
    with e s1 k r2 v t show False by (auto simp: result_simps split: if_splits)
  qed
  ultimately show ?case by blast
qed simp

lemma loads_fuel: "loads s \<noteq> Inl RecursionError"
proof
  assume e: "loads s = Inl RecursionError"
  have "scan_value (2 * length s + 2) (skip_ws s) \<noteq> Inl RecursionError"
    using scan_fuel[of "skip_ws s" "2 * length s + 2"] length_skip_ws[of s] by simp
  with e show False by (auto simp: loads_def result_simps split: if_splits)
qed

section \<open>Round trip\<close>

text \<open>Values \<open>dumps\<close> is used on: integers within the digit limit, real code points, distinct keys.\<close>

fun plain_json :: "wjson \<Rightarrow> bool" where
  "plain_json WNull = True"
| "plain_json (WBool b) = True"
| "plain_json (WInt n) = (length (digits \<bar>n\<bar>) \<le> 4300)"
| "plain_json (WFloat t) = False"
| "plain_json (WStr s) = list_all (\<lambda>c. 0 \<le> c) s"
| "plain_json (WArr vs) = list_all plain_json vs"
| "plain_json (WObj kvs) = (distinct (map fst kvs) \<and> list_all (\<lambda>(k, v). list_all (\<lambda>c. 0 \<le> c) k \<and> plain_json v) kvs)"

text \<open>The same value with the items of every \<open>dict\<close> in key order.\<close>

fun sort_keys :: "wjson \<Rightarrow> wjson" where
  "sort_keys (WArr vs) = WArr (map sort_keys vs)"
| "sort_keys (WObj kvs) = WObj (sort_key fst (map (\<lambda>(k, v). (k, sort_keys v)) kvs))"
| "sort_keys v = v"

lemma scan_string_quote:
  assumes "list_all (\<lambda>c. 0 \<le> c) s" "length s < n"
  shows "scan_string n (concat (map escape_char s) @ 34 # rest) = Inr (s, rest)"
  using assms
proof (induction s arbitrary: n)
  case Nil
  then show ?case by (cases n) auto
next
  case (Cons c s)
  obtain m where n: "n = Suc m" and IH: "scan_string m (concat (map escape_char s) @ 34 # rest) = Inr (s, rest)"
    using Cons by (cases n) auto
  have hex: "hex_val (hex_char d) = Some d" if "0 \<le> d" "d < 16" for d using that by (simp add: hex_char_def hex_val_def)
  have "scan_unicode (48 # 48 # hex_char (c div 16) # hex_char (c mod 16) # t) = Some (c, t)" if "0 \<le> c" "c < 32" for t
    using that hex[of "c div 16"] hex[of "c mod 16"] by (simp add: scan_unicode_def hex_val_def)
  then show ?case
    using Cons.prems(1) IH n by (auto simp: escape_char_def[of c] simple_escape_def)
qed

text \<open>What may follow a value in the text \<open>dumps\<close> writes.\<close>

definition closes :: "utext \<Rightarrow> bool" where
  "closes rest \<longleftrightarrow> rest = [] \<or> hd rest \<in> {44, 93, 125}"

lemma digits_props:
  assumes "0 \<le> n"
  shows "digits n \<noteq> [] \<and> list_all is_digit (digits n) \<and> number_value (digits n) = n \<and> (hd (digits n) = 48 \<longrightarrow> n = 0)"
  using assms
proof (induction n rule: digits.induct)
  case (1 n)
  show ?case
  proof (cases "n < 10")
    case True
    then show ?thesis using 1(2) by (simp add: digits.simps[of n] is_digit_def number_value_def)
  next
    case False
    then have IH: "digits (n div 10) \<noteq> []" "list_all is_digit (digits (n div 10))" "number_value (digits (n div 10)) = n div 10"
      "hd (digits (n div 10)) = 48 \<longrightarrow> n div 10 = 0" using 1 by auto
    have d: "digits n = digits (n div 10) @ [48 + n mod 10]" using False by (subst digits.simps) simp
    have "number_value (digits n) = number_value (digits (n div 10)) * 10 + n mod 10" by (simp add: d number_value_def)
    moreover have "is_digit (48 + n mod 10)" by (simp add: is_digit_def)
    moreover have "n div 10 \<noteq> 0" using False by presburger
    ultimately show ?thesis using IH by (simp add: d)
  qed
qed

lemma takeWhile_digits: "list_all is_digit ds \<Longrightarrow> closes rest \<Longrightarrow> takeWhile is_digit (ds @ rest) = ds"
  by (induction ds) (auto simp: closes_def is_digit_def takeWhile_eq_Nil_iff)

lemma integer_part_digits:
  assumes "0 \<le> n" "closes rest"
  shows "integer_part (digits n @ rest) = digits n"
proof -
  note p = digits_props[OF assms(1)]
  show ?thesis
  proof (cases "hd (digits n) = 48")
    case True
    then have "digits n = [48]" using p by (simp add: digits.simps[of 0])
    then show ?thesis by (simp add: integer_part_def)
  next
    case False
    then obtain c cs where "digits n = c # cs" "c \<noteq> 48" using p by (cases "digits n") auto
    then show ?thesis using takeWhile_digits[of "digits n" rest] p assms(2) by (simp add: integer_part_def)
  qed
qed

lemma scan_decimal:
  assumes "length (digits \<bar>n\<bar>) \<le> 4300" "closes rest"
  shows "scan_number (decimal n @ rest) = Inr (WInt n, rest)"
proof -
  have tail: "fraction_part rest = []" "exponent_part rest = []"
    using assms(2) by (auto simp: closes_def fraction_part_def exponent_part_def split: list.splits)
  note p = digits_props[of "\<bar>n\<bar>", simplified]
  have first: "\<exists>c cs. digits \<bar>n\<bar> = c # cs \<and> c \<noteq> 45" using p by (cases "digits \<bar>n\<bar>") (auto simp: is_digit_def)
  show ?thesis
  proof (cases "n < 0")
    case True
    then have "decimal n = 45 # digits \<bar>n\<bar>" by (simp add: decimal_def)
    then show ?thesis using integer_part_digits[of "\<bar>n\<bar>" rest] assms tail p True by (simp add: scan_number_def Let_def)
  next
    case False
    then have d: "decimal n = digits \<bar>n\<bar>" by (simp add: decimal_def)
    from first obtain c cs where c: "digits \<bar>n\<bar> = c # cs" "c \<noteq> 45" by blast
    then have "(case decimal n @ rest of c # _ \<Rightarrow> if c = 45 then [c] else [] | [] \<Rightarrow> []) = []" by (simp add: d)
    then show ?thesis unfolding scan_number_def
      using integer_part_digits[of "\<bar>n\<bar>" rest] assms tail p False d by (simp add: Let_def)
  qed
qed

lemma sort_key_map: "sort_key f (map g xs) = map g (sort_key (\<lambda>x. f (g x)) xs)"
proof -
  have ins: "insort_key f (g x) (map g ys) = map g (insort_key (\<lambda>x. f (g x)) x ys)" for x ys by (induction ys) auto
  show ?thesis by (induction xs) (auto simp: ins)
qed

lemma sort_items_map:
  fixes kvs :: "('k::linorder \<times> 'v) list"
  shows "sort_key fst (map (\<lambda>(k, v). (k, h v)) kvs) = map (\<lambda>(k, v). (k, h v)) (sort_key fst kvs)"
proof -
  have "(\<lambda>x. fst (case x of (k, v) \<Rightarrow> (k, h v))) = (fst :: 'k \<times> 'v \<Rightarrow> 'k)" by auto
  then show ?thesis unfolding sort_key_map by (simp only:)
qed

lemma dict_of_distinct: "distinct (map fst kvs) \<Longrightarrow> dict_of kvs = kvs"
proof -
  have put: "k \<notin> fst ` set acc \<Longrightarrow> dict_put (k, v) acc = acc @ [(k, v)]" for k v acc
    by (induction acc) auto
  have "distinct (map fst (acc @ kvs)) \<Longrightarrow> fold dict_put kvs acc = acc @ kvs" for acc
    by (induction kvs arbitrary: acc) (auto simp: put)
  then show "distinct (map fst kvs) \<Longrightarrow> dict_of kvs = kvs" by (simp add: dict_of_def)
qed

lemma skip_ws_id [simp]: "\<not> json_ws c \<Longrightarrow> skip_ws (c # s) = c # s"
  by (simp add: skip_ws_def)

lemma decimal_head: "\<exists>c cs. decimal n = c # cs \<and> (is_digit c \<or> c = 45 \<and> (\<exists>d ds. cs = d # ds \<and> is_digit d))"
proof -
  obtain d ds where "digits \<bar>n\<bar> = d # ds" "is_digit d" using digits_props[of "\<bar>n\<bar>"] by (cases "digits \<bar>n\<bar>") auto
  then show ?thesis by (cases "n < 0") (auto simp: decimal_def)
qed

definition opens :: "utext \<Rightarrow> bool" where
  "opens s \<longleftrightarrow> s \<noteq> [] \<and> \<not> json_ws (hd s) \<and> hd s \<notin> {93, 125, 65279}"

lemma dumps_opens: "plain_json w \<Longrightarrow> opens (dumps w)"
proof (cases w)
  case (WInt n)
  then show ?thesis using decimal_head[of n] by (auto simp: opens_def json_ws_def is_digit_def)
qed (auto simp: opens_def json_ws_def quote_json_def cps_def)

lemma word_at_Cons: "word_at (h # w) (c # s) \<longleftrightarrow> c = of_char h \<and> word_at w s"
  by (auto simp: u_startswith_def cps_def)

lemma scan_value_decimal:
  assumes "length (digits \<bar>n\<bar>) \<le> 4300" "closes rest" "0 < m"
  shows "scan_value m (decimal n @ rest) = Inr (WInt n, rest)"
proof -
  obtain m' where m: "m = Suc m'" using assms(3) by (cases m) auto
  obtain c cs where d: "decimal n = c # cs" and c: "is_digit c \<or> c = 45 \<and> (\<exists>d ds. cs = d # ds \<and> is_digit d)"
    using decimal_head[of n] by (elim exE conjE) (rule that)
  have "scan_value (Suc m') (c # cs @ rest) = scan_number (c # cs @ rest)"
  proof -
    have "c \<notin> {34, 123, 91, 110, 116, 102, 78, 73}" using c by (auto simp: is_digit_def)
    moreover have "\<not> word_at ''-Infinity'' (c # cs @ rest)" using c by (elim disjE conjE exE) (simp_all add: word_at_Cons is_digit_def)
    ultimately show ?thesis by (auto simp: word_at_Cons)
  qed
  then show ?thesis using scan_decimal[OF assms(1,2)] by (simp add: m d)
qed

lemma length_quote_json: "length s + 2 \<le> length (quote_json s)"
  by (induction s) (auto simp: quote_json_def escape_char_def)

lemma scan_quoted:
  assumes "list_all (\<lambda>c. 0 \<le> c) s"
  shows "\<exists>t. quote_json s @ rest = 34 # t \<and> scan_string (length (quote_json s @ rest)) t = Inr (s, rest)"
proof (intro exI conjI)
  show "quote_json s @ rest = 34 # concat (map escape_char s) @ 34 # rest" by (simp add: quote_json_def)
  show "scan_string (length (quote_json s @ rest)) (concat (map escape_char s) @ 34 # rest) = Inr (s, rest)"
    using assms length_quote_json[of s] by (intro scan_string_quote) auto
qed

abbreviation reads_back :: "wjson \<Rightarrow> bool" where
  "reads_back v \<equiv> \<forall>n rest. closes rest \<longrightarrow> 2 * length (dumps v) \<le> n \<longrightarrow> scan_value n (dumps v @ rest) = Inr (sort_keys v, rest)"

lemma opens_skip_ws: "opens s \<Longrightarrow> skip_ws (s @ r) = s @ r"
  by (cases s) (auto simp: opens_def)

lemma scan_items_join:
  assumes "vs \<noteq> []" "\<And>v. v \<in> set vs \<Longrightarrow> reads_back v" "\<And>v. v \<in> set vs \<Longrightarrow> opens (dumps v)"
    "2 * length (u_join [44] (map dumps vs)) + 1 \<le> m"
  shows "scan_items m (u_join [44] (map dumps vs) @ 93 # rest) = Inr (map sort_keys vs, rest)"
  using assms
proof (induction vs arbitrary: m)
  case (Cons v vs)
  obtain k where m: "m = Suc k" using Cons.prems(4) by (cases m) auto
  have v: "reads_back v" using Cons.prems(2) by simp
  show ?case
  proof (cases vs)
    case Nil
    have "scan_value k (dumps v @ 93 # rest) = Inr (sort_keys v, 93 # rest)"
      using v Cons.prems(4) m Nil by (simp add: closes_def)
    then show ?thesis by (simp add: m Nil json_ws_def)
  next
    case (Cons w ws)
    define t where "t = u_join [44] (map dumps vs)"
    have joined: "u_join [44] (map dumps (v # vs)) = dumps v @ 44 # t" by (simp add: t_def Cons)
    have "scan_value k (dumps v @ 44 # t @ 93 # rest) = Inr (sort_keys v, 44 # t @ 93 # rest)"
      using v \<open>2 * length (u_join [44] (map dumps (v # vs))) + 1 \<le> m\<close> m unfolding joined by (simp add: closes_def)
    moreover have "scan_items k (t @ 93 # rest) = Inr (map sort_keys vs, rest)"
      unfolding t_def using Cons.IH Cons.prems joined m by (simp add: t_def Cons)
    moreover have "skip_ws (t @ 93 # rest) = t @ 93 # rest"
      using Cons.prems(3)[of w] opens_skip_ws[of "dumps w"] by (cases ws) (auto simp: t_def Cons)
    ultimately show ?thesis unfolding joined m by (simp add: json_ws_def)
  qed
qed simp

abbreviation member_text :: "utext \<times> wjson \<Rightarrow> utext" where
  "member_text kv \<equiv> quote_json (fst kv) @ 58 # dumps (snd kv)"

lemma scan_members_join:
  assumes "kvs \<noteq> []" "\<And>k v. (k, v) \<in> set kvs \<Longrightarrow> reads_back v \<and> opens (dumps v) \<and> list_all (\<lambda>c. 0 \<le> c) k"
    "2 * length (u_join [44] (map member_text kvs)) + 1 \<le> m"
  shows "scan_members m (u_join [44] (map member_text kvs) @ 125 # rest) = Inr (map (\<lambda>(k, v). (k, sort_keys v)) kvs, rest)"
  using assms
proof (induction kvs arbitrary: m)
  case (Cons kv kvs)
  obtain k v where kv: "kv = (k, v)" by fastforce
  obtain n where m: "m = Suc n" using Cons.prems(3) by (cases m) auto
  have v: "reads_back v" "opens (dumps v)" "list_all (\<lambda>c. 0 \<le> c) k" using Cons.prems(2) kv by auto
  have step: "scan_members (Suc n) (quote_json k @ 58 # dumps v @ e # t) =
      (if e = 44 then bind_result (scan_members n (skip_ws t)) (\<lambda>(kvs, rest). Inr ((k, sort_keys v) # kvs, rest))
       else Inr ([(k, sort_keys v)], t))" if "e = 44 \<or> e = 125" "2 * length (dumps v) \<le> n" for e t
  proof -
    obtain q where q: "quote_json k @ 58 # dumps v @ e # t = 34 # q"
        "scan_string (length (quote_json k @ 58 # dumps v @ e # t)) q = Inr (k, 58 # dumps v @ e # t)"
      using scan_quoted[OF v(3)] by blast
    have "scan_value n (dumps v @ e # t) = Inr (sort_keys v, e # t)" using v(1) that by (auto simp: closes_def)
    moreover have "skip_ws (dumps v @ e # t) = dumps v @ e # t" by (rule opens_skip_ws[OF v(2)])
    moreover have "\<not> json_ws e" "\<not> json_ws 58" using that by (auto simp: json_ws_def)
    moreover have "scan_string (length (34 # q)) q = Inr (k, 58 # dumps v @ e # t)" using q by simp
    ultimately show ?thesis unfolding q(1) using that by auto
  qed
  show ?case
  proof (cases kvs)
    case Nil
    then show ?thesis using step[of 125 rest] Cons.prems(3) by (simp add: m kv)
  next
    case (Cons w ws)
    define t where "t = u_join [44] (map member_text kvs)"
    have joined: "u_join [44] (map member_text (kv # kvs)) = member_text kv @ 44 # t" by (simp add: t_def Cons)
    have "scan_members n (t @ 125 # rest) = Inr (map (\<lambda>(k, v). (k, sort_keys v)) kvs, rest)"
      unfolding t_def
    proof (rule Cons.IH)
      show "2 * length (u_join [44] (map member_text kvs)) + 1 \<le> n" using Cons.prems(3) m unfolding joined t_def by simp
    qed (use Cons Cons.prems(2) in auto)
    moreover have "skip_ws (t @ 125 # rest) = t @ 125 # rest"
      by (cases ws) (auto simp: t_def Cons quote_json_def json_ws_def)
    moreover have "2 * length (dumps v) \<le> n" using Cons.prems(3) m kv unfolding joined by simp
    ultimately show ?thesis unfolding joined m using step[of 44 "t @ 125 # rest"] by (simp add: kv)
  qed
qed simp

lemma length_cps: "length (cps w) = length w"
  by (simp add: cps_def)

lemma scan_value_words:
  assumes "0 < n"
  shows "scan_value n (cps ''null'' @ rest) = Inr (WNull, rest)"
    and "scan_value n (cps ''true'' @ rest) = Inr (WBool True, rest)"
    and "scan_value n (cps ''false'' @ rest) = Inr (WBool False, rest)"
  using assms by (cases n; simp add: cps_def u_startswith_def)+

lemma scan_dumps: "plain_json w \<Longrightarrow> reads_back w"
proof (induction w)
  case (WStr s)
  show ?case
  proof (intro allI impI)
    fix n rest
    assume "2 * length (dumps (WStr s)) \<le> n"
    then obtain m where n: "n = Suc m" using length_quote_json[of s] by (cases n) auto
    obtain t where t: "quote_json s @ rest = 34 # t" "scan_string (length (quote_json s @ rest)) t = Inr (s, rest)"
      using scan_quoted WStr by fastforce
    then have "scan_string (length (34 # t)) t = Inr (s, rest)" by simp
    then show "scan_value n (dumps (WStr s) @ rest) = Inr (sort_keys (WStr s), rest)" by (simp add: n t(1))
  qed
next
  case (WArr vs)
  have vs: "reads_back v \<and> opens (dumps v)" if "v \<in> set vs" for v
    using WArr that dumps_opens[of v] by (simp add: list_all_iff)
  define t where "t = u_join [44] (map dumps vs)"
  show ?case
  proof (intro allI impI)
    fix n rest
    assume "2 * length (dumps (WArr vs)) \<le> n"
    then obtain m where n: "n = Suc m" and m: "2 * length t + 1 \<le> m" by (cases n) (auto simp: t_def)
    show "scan_value n (dumps (WArr vs) @ rest) = Inr (sort_keys (WArr vs), rest)"
    proof (cases vs)
      case Nil
      then show ?thesis by (simp add: n json_ws_def)
    next
      case (Cons v ws)
      then have "opens t" using vs[of v] by (cases ws) (auto simp: t_def opens_def)
      then obtain c cs where "t = c # cs" "\<not> json_ws c" "c \<noteq> 93" by (cases t) (auto simp: opens_def)
      moreover have "scan_items m (t @ 93 # rest) = Inr (map sort_keys vs, rest)"
        unfolding t_def using vs m Cons by (intro scan_items_join) (auto simp: t_def)
      ultimately show ?thesis by (simp add: n flip: t_def)
    qed
  qed
next
  case (WObj kvs)
  define L where "L = sort_key fst kvs"
  have L: "set L = set kvs" "distinct (map fst L)"
    using WObj.prems sort_key_map[of "\<lambda>x. x" fst kvs, symmetric] by (simp_all add: L_def distinct_sort)
  have mem: "reads_back v \<and> opens (dumps v) \<and> list_all (\<lambda>c. 0 \<le> c) k" if "(k, v) \<in> set L" for k v
  proof -
    have "plain_json v" "list_all (\<lambda>c. 0 \<le> c) k" using WObj.prems that L(1) by (auto simp: list_all_iff)
    moreover have "v \<in> Basic_BNFs.snds (k, v)" by (simp add: snds.simps)
    ultimately show ?thesis using WObj.IH[of "(k, v)" v] that L(1) dumps_opens[of v] by blast
  qed
  define t where "t = u_join [44] (map member_text L)"
  have out: "dumps (WObj kvs) = 123 # t @ [125]"
    by (simp add: t_def L_def sort_items_map case_prod_beta comp_def)
  show ?case
  proof (intro allI impI)
    fix n rest
    assume "2 * length (dumps (WObj kvs)) \<le> n"
    then obtain m where n: "n = Suc m" and m: "2 * length t + 1 \<le> m" unfolding out by (cases n) auto
    show "scan_value n (dumps (WObj kvs) @ rest) = Inr (sort_keys (WObj kvs), rest)"
    proof (cases L)
      case Nil
      then have "kvs = []" using L(1) by simp
      then show ?thesis by (simp add: n json_ws_def)
    next
      case (Cons kv ws)
      then obtain cs where "t = 34 # cs" by (cases ws) (auto simp: t_def quote_json_def)
      moreover have "scan_members m (t @ 125 # rest) = Inr (map (\<lambda>(k, v). (k, sort_keys v)) L, rest)"
        unfolding t_def using mem m Cons by (intro scan_members_join) (auto simp: t_def)
      moreover have "map fst (map (\<lambda>(k, v). (k, sort_keys v)) L) = map fst L" by auto
      then have "dict_of (map (\<lambda>(k, v). (k, sort_keys v)) L) = map (\<lambda>(k, v). (k, sort_keys v)) L"
        using L(2) by (intro dict_of_distinct) (simp only:)
      ultimately show ?thesis unfolding out n
        by (simp add: json_ws_def sort_items_map flip: L_def)
    qed
  qed
next
  case (WInt n)
  then show ?case using decimal_head[of n] by (auto intro!: scan_value_decimal)
qed (auto simp: scan_value_words length_cps simp del: scan_value.simps split: if_splits)

lemma loads_dumps: "plain_json w \<Longrightarrow> loads (dumps w) = Inr (sort_keys w)"
proof -
  assume w: "plain_json w"
  then have o: "opens (dumps w)" by (rule dumps_opens)
  then have "skip_ws (dumps w) = dumps w" using opens_skip_ws[of "dumps w" "[]"] by simp
  moreover have "\<not> u_startswith (dumps w) [65279]" using o by (cases "dumps w") (auto simp: opens_def u_startswith_def)
  moreover have "scan_value (2 * length (dumps w) + 2) (dumps w @ []) = Inr (sort_keys w, [])"
    by (rule scan_dumps[OF w, rule_format]) (simp_all add: closes_def)
  ultimately show ?thesis by (simp add: loads_def skip_ws_def del: scan_value.simps)
qed

section \<open>UTF-8 encoding\<close>

definition utf8_char :: "int \<Rightarrow> int list" where
  "utf8_char c =
     (if c < 128 then [c]
      else if c < 2048 then [192 + c div 64, 128 + c mod 64]
      else if c < 65536 then [224 + c div 4096, 128 + c div 64 mod 64, 128 + c mod 64]
      else [240 + c div 262144, 128 + c div 4096 mod 64, 128 + c div 64 mod 64, 128 + c mod 64])"

text \<open>\<open>str.encode("utf-8")\<close>: a surrogate raises \<open>UnicodeEncodeError\<close>, a \<open>ValueError\<close>.\<close>

definition scalar :: "int \<Rightarrow> bool" where
  "scalar c \<longleftrightarrow> 0 \<le> c \<and> c < 1114112 \<and> \<not> (55296 \<le> c \<and> c \<le> 57343)"

definition utf8_encode :: "utext \<Rightarrow> int list result" where
  "utf8_encode s = (if list_all scalar s then Inr (concat (map utf8_char s)) else Inl ValueError)"

lemma utf8_decode_char: "scalar c \<Longrightarrow> utf8_decode (utf8_char c @ r) = map_option (Cons c) (utf8_decode r)"
proof -
  assume c: "scalar c"
  define b d m where parts: "b = c div 4096 mod 64" "d = c div 64 mod 64" "m = c mod 64"
  have rng: "0 \<le> b" "b \<le> 63" "0 \<le> d" "d \<le> 63" "0 \<le> m" "m \<le> 63" unfolding parts by simp_all
  have dec: "c = c div 64 * 64 + m" "c = c div 4096 * 4096 + d * 64 + m" "c = c div 262144 * 262144 + b * 4096 + d * 64 + m"
  proof -
    have "c div 4096 = c div 64 div 64" "c div 262144 = c div 4096 div 64"
      using zdiv_zmult2_eq[of 64 c 64] zdiv_zmult2_eq[of 64 c 4096] by simp_all
    moreover have "x div 64 * 64 + x mod 64 = x" for x :: int by simp
    note this[of c] this[of "c div 64"] this[of "c div 4096"]
    ultimately show "c = c div 64 * 64 + m" "c = c div 4096 * 4096 + d * 64 + m" "c = c div 262144 * 262144 + b * 4096 + d * 64 + m"
      unfolding parts by linarith+
  qed
  consider "c < 128" | "128 \<le> c" "c < 2048" | "2048 \<le> c" "c < 65536" | "65536 \<le> c" by linarith
  then show ?thesis
  proof cases
    case 2
    define a where "a = c div 64"
    have a: "a * 64 + m = c" "2 \<le> a" "a \<le> 31" using 2 dec(1) rng unfolding a_def by linarith+
    have "utf8_char c = [192 + a, 128 + m]" using 2 by (simp add: utf8_char_def a_def parts)
    then show ?thesis using a rng by (simp add: continuation_def)
  next
    case 3
    define a where "a = c div 4096"
    have a: "a * 4096 + d * 64 + m = c" "0 \<le> a" "a \<le> 15" using 3 dec(2) rng unfolding a_def by linarith+
    moreover have "second_of_three (224 + a) (128 + d)"
      using 3 c a rng unfolding second_of_three_def continuation_def scalar_def by auto
    moreover have "utf8_char c = [224 + a, 128 + d, 128 + m]" using 3 by (simp add: utf8_char_def a_def parts)
    ultimately show ?thesis using rng by (simp add: continuation_def)
  next
    case 4
    define a where "a = c div 262144"
    have a: "a * 262144 + b * 4096 + d * 64 + m = c" "0 \<le> a" "a \<le> 4"
      using 4 dec(3) rng c unfolding a_def scalar_def by linarith+
    moreover have "second_of_four (240 + a) (128 + b)"
      using 4 c a rng unfolding second_of_four_def continuation_def scalar_def by auto
    moreover have "utf8_char c = [240 + a, 128 + b, 128 + d, 128 + m]" using 4 by (simp add: utf8_char_def a_def parts)
    ultimately show ?thesis using rng by (simp add: continuation_def)
  qed (simp add: utf8_char_def)
qed

lemma utf8_round_trip: "utf8_encode s = Inr bs \<Longrightarrow> utf8_decode bs = Some s"
proof -
  have "list_all scalar s \<Longrightarrow> utf8_decode (concat (map utf8_char s)) = Some s"
    by (induction s) (auto simp: utf8_decode_char)
  then show "utf8_encode s = Inr bs \<Longrightarrow> utf8_decode bs = Some s" by (auto simp: utf8_encode_def split: if_splits)
qed

section \<open>Characters of the printed text\<close>

lemma scalar_of_char: "scalar (of_char c)"
proof -
  have "(of_char c :: int) = int (of_char c)" by (rule of_nat_of_char[symmetric])
  moreover have "(of_char c :: nat) < 256" by (rule nat_of_char_less_256)
  ultimately show ?thesis unfolding scalar_def by linarith
qed

lemma cps_scalar: "c \<in> set (cps s) \<Longrightarrow> scalar c"
  by (auto simp: cps_def scalar_of_char)

lemma cps_inject: "cps s = cps t \<longleftrightarrow> s = t"
proof -
  have "inj (of_char :: char \<Rightarrow> int)" by (rule inj_of_char)
  then show ?thesis unfolding cps_def by (simp add: inj_map_eq_map)
qed

text \<open>Every character of every string of a value is in a class; then so is the whole printed text.\<close>

fun text_json :: "(int \<Rightarrow> bool) \<Rightarrow> wjson \<Rightarrow> bool" where
  "text_json P (WStr s) = list_all P s"
| "text_json P (WFloat s) = list_all P s"
| "text_json P (WArr vs) = list_all (text_json P) vs"
| "text_json P (WObj kvs) = list_all (\<lambda>(k, v). list_all P k \<and> text_json P v) kvs"
| "text_json P v = True"

lemma list_all_u_join: "list_all P sep \<Longrightarrow> \<forall>s \<in> set ss. list_all P s \<Longrightarrow> list_all P (u_join sep ss)"
  by (induction sep ss rule: u_join.induct) auto

lemma dumps_text:
  assumes small: "\<And>x. 0 \<le> x \<Longrightarrow> x < 127 \<Longrightarrow> P x" and nonneg: "\<And>x. P x \<Longrightarrow> 0 \<le> x" and w: "text_json P w"
  shows "list_all P (dumps w)"
proof -
  have hex: "0 \<le> d \<Longrightarrow> d < 16 \<Longrightarrow> P (hex_char d)" for d by (simp add: hex_char_def small)
  have "P c \<Longrightarrow> list_all P (escape_char c)" for c
  proof -
    assume c: "P c"
    then have "c < 32 \<Longrightarrow> 0 \<le> c div 16 \<and> c div 16 < 16" using nonneg[OF c] by linarith
    then have "c < 32 \<Longrightarrow> P (hex_char (c div 16)) \<and> P (hex_char (c mod 16))" by (simp add: hex)
    then show ?thesis using c by (simp add: escape_char_def small)
  qed
  then have quote: "list_all P s \<Longrightarrow> list_all P (quote_json s)" for s
    by (auto simp: quote_json_def list_all_iff small)
  have "list_all P (digits m)" if "0 \<le> m" for m
    using digits_props[OF that] small by (auto simp: list_all_iff is_digit_def)
  then have dec: "list_all P (decimal n)" for n by (auto simp: decimal_def small)
  have word: "list_all P (cps ''null'')" "list_all P (cps ''true'')" "list_all P (cps ''false'')"
    by (simp_all add: cps_def small)
  from w show ?thesis
  proof (induction w)
    case (WArr vs)
    then have "list_all P (u_join [44] (map dumps vs))" by (intro list_all_u_join) (auto simp: list_all_iff small)
    then show ?case by (simp add: small)
  next
    case (WObj kvs)
    let ?ms = "map (\<lambda>(k, t). quote_json k @ [58] @ t) (sort_key fst (map (\<lambda>(k, v). (k, dumps v)) kvs))"
    have "list_all P m" if "m \<in> set ?ms" for m
    proof -
      from that obtain k v where kv: "(k, v) \<in> set kvs" "m = quote_json k @ [58] @ dumps v" by auto
      then have "list_all P k" "text_json P v" using WObj.prems by (auto simp: list_all_iff)
      moreover have "v \<in> Basic_BNFs.snds (k, v)" by (simp add: snds.simps)
      ultimately have "list_all P (dumps v)" using WObj.IH[OF kv(1)] by blast
      then show ?thesis using kv(2) quote[OF \<open>list_all P k\<close>] by (simp add: small)
    qed
    then have "list_all P (u_join [44] ?ms)" by (intro list_all_u_join) (auto simp: small)
    then show ?case by (simp add: small)
  qed (simp_all add: word dec quote)
qed

end
