(* ===== verification/Knowledge_Sync.thy ===== *)
theory Knowledge_Sync
  imports Public_Fetch Json Knowledge_Store Object_Storage
begin

text \<open>
  The sync job of the worker (\<open>services/worker/app/jobs/knowledge_sync.py\<close>): it fetches one version of a
  source and commits the document together with the obligation to parse it.

  The job opens four sessions, and other transactions may run between them: \<open>rn_interfere k\<close> is what
  they do to the database before the \<open>k\<close>th one, \<open>rn_up k\<close> says whether the database answers it, and
  \<open>rn_commit\<close> how the last one ends.  The storage client, the network and \<open>sha256(...).hexdigest()\<close> are
  arguments.  Rows are typed, so the type tests of \<open>_snapshot_from_row\<close> and \<open>_required_uuid\<close> always pass.
\<close>

section \<open>Commands and results\<close>

record KnowledgeSyncCommand =
  cm_event_id :: uuid
  cm_tenant_id :: uuid
  cm_source_id :: uuid
  cm_sync_version :: int
  cm_correlation_id :: string

record KnowledgeSyncResult =
  sr_completed :: bool
  sr_noop :: bool
  sr_error_code :: "string option"
  sr_retryable :: bool

definition sync_success :: KnowledgeSyncResult where
  "sync_success = \<lparr>sr_completed = True, sr_noop = False, sr_error_code = None, sr_retryable = False\<rparr>"

definition sync_no_op :: KnowledgeSyncResult where
  "sync_no_op = \<lparr>sr_completed = True, sr_noop = True, sr_error_code = None, sr_retryable = False\<rparr>"

definition sync_failure :: "string \<Rightarrow> bool \<Rightarrow> KnowledgeSyncResult" where
  "sync_failure code retryable =
     \<lparr>sr_completed = False, sr_noop = False, sr_error_code = Some code, sr_retryable = retryable\<rparr>"

datatype sync_code = SOURCE_NOT_FOUND | SOURCE_DISABLED | VERSION_AHEAD | SOURCE_TYPE_UNSUPPORTED | OBJECT_UNAVAILABLE
  | REPLAY_CONTENT_MISMATCH

fun sync_code_value :: "sync_code \<Rightarrow> string" where
  "sync_code_value SOURCE_NOT_FOUND = ''KNOWLEDGE_SYNC_SOURCE_NOT_FOUND''"
| "sync_code_value SOURCE_DISABLED = ''KNOWLEDGE_SOURCE_DISABLED''"
| "sync_code_value VERSION_AHEAD = ''KNOWLEDGE_SYNC_VERSION_AHEAD''"
| "sync_code_value SOURCE_TYPE_UNSUPPORTED = ''KNOWLEDGE_SYNC_SOURCE_TYPE_UNSUPPORTED''"
| "sync_code_value OBJECT_UNAVAILABLE = ''KNOWLEDGE_SOURCE_OBJECT_UNAVAILABLE''"
| "sync_code_value REPLAY_CONTENT_MISMATCH = ''KNOWLEDGE_SYNC_REPLAY_CONTENT_MISMATCH''"

fun fetch_code_value :: "fetch_code \<Rightarrow> string" where
  "fetch_code_value INVALID_URL = ''PUBLIC_FETCH_INVALID_URL''"
| "fetch_code_value DOMAIN_NOT_ALLOWED = ''PUBLIC_FETCH_DOMAIN_NOT_ALLOWED''"
| "fetch_code_value DNS_FAILURE = ''PUBLIC_FETCH_DNS_FAILURE''"
| "fetch_code_value BLOCKED_ADDRESS = ''PUBLIC_FETCH_BLOCKED_ADDRESS''"
| "fetch_code_value PEER_MISMATCH = ''PUBLIC_FETCH_PEER_MISMATCH''"
| "fetch_code_value TOO_MANY_REDIRECTS = ''PUBLIC_FETCH_TOO_MANY_REDIRECTS''"
| "fetch_code_value REDIRECT_MISSING_LOCATION = ''PUBLIC_FETCH_REDIRECT_MISSING_LOCATION''"
| "fetch_code_value HTTP_STATUS = ''PUBLIC_FETCH_HTTP_STATUS''"
| "fetch_code_value UNSUPPORTED_MIME = ''PUBLIC_FETCH_UNSUPPORTED_MIME''"
| "fetch_code_value UNSUPPORTED_ENCODING = ''PUBLIC_FETCH_UNSUPPORTED_ENCODING''"
| "fetch_code_value RESPONSE_TOO_LARGE = ''PUBLIC_FETCH_RESPONSE_TOO_LARGE''"
| "fetch_code_value INVALID_RESPONSE = ''PUBLIC_FETCH_INVALID_RESPONSE''"
| "fetch_code_value TIMEOUT = ''PUBLIC_FETCH_TIMEOUT''"
| "fetch_code_value TLS_FAILURE = ''PUBLIC_FETCH_TLS_FAILURE''"
| "fetch_code_value NETWORK_FAILURE = ''PUBLIC_FETCH_NETWORK_FAILURE''"

fun source_type_value :: "source_type \<Rightarrow> string" where
  "source_type_value Url = ''url''"
| "source_type_value Sitemap = ''sitemap''"
| "source_type_value Pdf = ''pdf''"
| "source_type_value Markdown = ''markdown''"
| "source_type_value TextFile = ''text''"

definition PARSE_EVENT_TYPE :: string where
  "PARSE_EVENT_TYPE = ''serviq.knowledge.parse.v1''"

record FetchedContent =
  fc_raw_bytes :: string
  fc_raw_object_key :: string
  fc_canonical_uri :: "string option"
  fc_content_type :: string

section \<open>Statements\<close>

definition SOURCE_SELECT :: "KnowledgeSyncCommand \<Rightarrow> db \<Rightarrow> KnowledgeSource option result" where
  "SOURCE_SELECT cm d =
     one_or_none (filter (\<lambda>r. ks_id r = cm_source_id cm \<and> ks_tenant_id r = cm_tenant_id cm) (sources d))"

definition version_documents :: "KnowledgeSyncCommand \<Rightarrow> db \<Rightarrow> KnowledgeDocument list" where
  "version_documents cm d =
     filter (\<lambda>r. kd_tenant_id r = cm_tenant_id cm \<and> kd_source_id r = cm_source_id cm \<and>
       kd_document_version r = cm_sync_version cm) (documents d)"

definition DOCUMENT_BY_VERSION :: "KnowledgeSyncCommand \<Rightarrow> db \<Rightarrow> KnowledgeDocument option" where
  "DOCUMENT_BY_VERSION cm d = (case sort_key kd_created_at (version_documents cm d) of [] \<Rightarrow> None | r # _ \<Rightarrow> Some r)"

definition DOCUMENT_INSERT ::
  "KnowledgeSyncCommand \<Rightarrow> uuid \<Rightarrow> timestamp \<Rightarrow> string option \<Rightarrow> string \<Rightarrow> string \<Rightarrow> db \<Rightarrow> db" where
  "DOCUMENT_INSERT cm doc_id now uri title content_hash d =
     d\<lparr>documents := documents d @
        [\<lparr>kd_id = doc_id, kd_tenant_id = cm_tenant_id cm, kd_source_id = cm_source_id cm, kd_canonical_uri = uri, kd_title = title,
          kd_content_hash = content_hash, kd_document_version = cm_sync_version cm, kd_status = DocumentActive,
          kd_fetched_at = Some now, kd_created_at = now, kd_updated_at = now\<rparr>]\<rparr>"

definition parse_event :: "OutboxEvent \<Rightarrow> bool" where
  "parse_event e \<longleftrightarrow> oe_event_type e = PARSE_EVENT_TYPE \<and> oe_aggregate_type e = ''knowledge_document''"

definition PARSE_EVENT_EXISTS :: "uuid \<Rightarrow> string \<Rightarrow> db \<Rightarrow> bool" where
  "PARSE_EVENT_EXISTS t aggregate_id d \<longleftrightarrow>
     list_ex (\<lambda>e. oe_tenant_id e = Some t \<and> parse_event e \<and> oe_aggregate_id e = aggregate_id) (outbox d)"

definition PARSE_EVENT_INSERT :: "KnowledgeSyncCommand \<Rightarrow> uuid \<Rightarrow> timestamp \<Rightarrow> string \<Rightarrow> json \<Rightarrow> db \<Rightarrow> db" where
  "PARSE_EVENT_INSERT cm event_id now aggregate_id payload d =
     d\<lparr>outbox := outbox d @
        [\<lparr>oe_id = event_id, oe_tenant_id = Some (cm_tenant_id cm), oe_event_type = PARSE_EVENT_TYPE, oe_schema_version = 1,
          oe_aggregate_type = ''knowledge_document'', oe_aggregate_id = aggregate_id, oe_payload = payload,
          oe_correlation_id = cm_correlation_id cm, oe_causation_id = Some (uuid_str (cm_event_id cm)),
          oe_status = OutboxPending, oe_attempts = 0, oe_next_attempt_at = now, oe_published_at = None\<rparr>]\<rparr>"

abbreviation owns_version :: "KnowledgeSyncCommand \<Rightarrow> KnowledgeSource \<Rightarrow> bool" where
  "owns_version cm r \<equiv> ks_id r = cm_source_id cm \<and> ks_tenant_id r = cm_tenant_id cm \<and> ks_sync_version r = cm_sync_version cm"

definition SOURCE_SUCCESS_UPDATE :: "KnowledgeSyncCommand \<Rightarrow> timestamp \<Rightarrow> db \<Rightarrow> db" where
  "SOURCE_SUCCESS_UPDATE cm now d =
     d\<lparr>sources := map (\<lambda>r. if owns_version cm r
          then r\<lparr>ks_status := Syncing, ks_last_synced_at := Some now, ks_last_error_code := None, ks_updated_at := now\<rparr> else r)
        (sources d)\<rparr>"

definition SOURCE_FAILURE_UPDATE :: "KnowledgeSyncCommand \<Rightarrow> string \<Rightarrow> timestamp \<Rightarrow> db \<Rightarrow> db" where
  "SOURCE_FAILURE_UPDATE cm code now d =
     d\<lparr>sources := map (\<lambda>r. if owns_version cm r \<and> ks_status r \<noteq> Disabled
          then r\<lparr>ks_status := SourceFailed, ks_last_error_code := Some code, ks_updated_at := now\<rparr> else r) (sources d)\<rparr>"

definition mark_matching_source_failed :: "commit_outcome \<Rightarrow> timestamp \<Rightarrow> KnowledgeSyncCommand \<Rightarrow> string \<Rightarrow> db \<Rightarrow> unit result \<times> db" where
  "mark_matching_source_failed c now cm code d = in_txn c (tx_write (SOURCE_FAILURE_UPDATE cm code now)) d"

section \<open>Fetching\<close>

record ('b, 'w) sync_world =
  wd_fetch :: fetch_env
  wd_network :: "'w network"
  wd_storage :: "'b s3_adapter"
  wd_sha256 :: "string \<Rightarrow> string"

definition int_str :: "int \<Rightarrow> string" where
  "int_str n = map (\<lambda>c. char_of (nat c)) (decimal n)"

definition sync_raw_key :: "KnowledgeSyncCommand \<Rightarrow> string" where
  "sync_raw_key cm = ''tenants/'' @ uuid_str (cm_tenant_id cm) @ ''/knowledge/'' @ uuid_str (cm_source_id cm) @ ''/sync/'' @
     int_str (cm_sync_version cm) @ ''/raw''"

definition is_tenant_source_key :: "string \<Rightarrow> KnowledgeSyncCommand \<Rightarrow> bool" where
  "is_tenant_source_key key cm \<longleftrightarrow>
     startswith key (''tenants/'' @ uuid_str (cm_tenant_id cm) @ ''/knowledge/'' @ uuid_str (cm_source_id cm) @ ''/'') \<and>
     CHR 0x00 \<notin> set key \<and> CHR 0x0D \<notin> set key \<and> CHR 0x0A \<notin> set key"

fun file_content_type :: "source_type \<Rightarrow> string" where
  "file_content_type Pdf = ''application/pdf''"
| "file_content_type Markdown = ''text/markdown''"
| "file_content_type _ = ''text/plain''"

definition fetch_url_content ::
  "('b, 'w) sync_world \<Rightarrow> KnowledgeSyncCommand \<Rightarrow> string option \<Rightarrow> 'w
     \<Rightarrow> (KnowledgeSyncResult + FetchedContent) result \<times> net_event list \<times> 'w" where
  "fetch_url_content wd cm source_uri w =
     (case source_uri of
        None \<Rightarrow> (Inr (Inl (sync_failure (sync_code_value SOURCE_NOT_FOUND) False)), [], w)
      | Some uri \<Rightarrow>
          (case urlsplit (fe_url (wd_fetch wd)) uri of
             Inl e \<Rightarrow> (Inl e, [], w)
           | Inr parsed \<Rightarrow>
               (case url_hostname parsed of
                  None \<Rightarrow> (Inr (Inl (sync_failure (sync_code_value SOURCE_NOT_FOUND) False)), [], w)
                | Some host \<Rightarrow>
                    (case PublicKnowledgeFetchPolicy (fe_url (wd_fetch wd)) [host] 5242880 10000 of
                       Inl e \<Rightarrow> (Inl e, [], w)
                     | Inr policy \<Rightarrow>
                         (case fetch_public_knowledge (wd_fetch wd) (wd_network wd) uri policy w of
                            (Inl (FetchError code retryable), ev, w') \<Rightarrow>
                              (Inr (Inl (sync_failure (fetch_code_value code) retryable)), ev, w')
                          | (Inl (OtherError e), ev, w') \<Rightarrow> (Inl e, ev, w')
                          | (Inr r, ev, w') \<Rightarrow>
                              (Inr (Inr \<lparr>fc_raw_bytes = fr_body r, fc_raw_object_key = sync_raw_key cm,
                                 fc_canonical_uri = Some (fr_final_url r), fc_content_type = fr_content_type r\<rparr>), ev, w'))))))"

definition fetch_file_content ::
  "('b, 'w) sync_world \<Rightarrow> KnowledgeSyncCommand \<Rightarrow> KnowledgeSource \<Rightarrow> 'b \<Rightarrow> (KnowledgeSyncResult + FetchedContent) result" where
  "fetch_file_content wd cm source b =
     (if ks_source_type source \<notin> {Pdf, Markdown, TextFile}
      then Inr (Inl (sync_failure (sync_code_value SOURCE_TYPE_UNSUPPORTED) False))
      else (case ks_object_key source of
              None \<Rightarrow> Inr (Inl (sync_failure (sync_code_value SOURCE_NOT_FOUND) False))
            | Some key \<Rightarrow>
                if \<not> is_tenant_source_key key cm then Inr (Inl (sync_failure (sync_code_value SOURCE_NOT_FOUND) False))
                else (case worker_get_bytes (wd_storage wd) key b of
                        Inl e \<Rightarrow>
                          if e = ObjectNotFoundError \<or> e = ObjectStorageError
                          then Inr (Inl (sync_failure (sync_code_value OBJECT_UNAVAILABLE) True)) else Inl e
                      | Inr raw \<Rightarrow>
                          Inr (Inr \<lparr>fc_raw_bytes = raw, fc_raw_object_key = key, fc_canonical_uri = None,
                             fc_content_type = file_content_type (ks_source_type source)\<rparr>))))"

definition fetch_content ::
  "('b, 'w) sync_world \<Rightarrow> KnowledgeSyncCommand \<Rightarrow> KnowledgeSource \<Rightarrow> 'b \<Rightarrow> 'w
     \<Rightarrow> (KnowledgeSyncResult + FetchedContent) result \<times> net_event list \<times> 'w" where
  "fetch_content wd cm source b w =
     (if ks_source_type source = Url then fetch_url_content wd cm (ks_source_uri source) w
      else (fetch_file_content wd cm source b, [], w))"

section \<open>The handoff\<close>

definition completed_handoff_exists :: "KnowledgeSyncCommand \<Rightarrow> db \<Rightarrow> bool" where
  "completed_handoff_exists cm d =
     (case DOCUMENT_BY_VERSION cm d of
        None \<Rightarrow> False
      | Some doc \<Rightarrow> PARSE_EVENT_EXISTS (cm_tenant_id cm) (uuid_str (kd_id doc)) d)"

definition preflight_replay_mismatch :: "KnowledgeSyncCommand \<Rightarrow> string \<Rightarrow> db \<Rightarrow> KnowledgeSyncResult option" where
  "preflight_replay_mismatch cm content_hash d =
     (case DOCUMENT_BY_VERSION cm d of
        None \<Rightarrow> None
      | Some doc \<Rightarrow>
          if kd_content_hash doc = content_hash then None
          else Some (sync_failure (sync_code_value REPLAY_CONTENT_MISMATCH) False))"

definition parse_payload :: "KnowledgeSyncCommand \<Rightarrow> KnowledgeSource \<Rightarrow> FetchedContent \<Rightarrow> string \<Rightarrow> string \<Rightarrow> json" where
  "parse_payload cm source fetched aggregate_id content_hash =
     JObj [(''tenantId'', JStr (uuid_str (cm_tenant_id cm))), (''sourceId'', JStr (uuid_str (cm_source_id cm))),
           (''documentId'', JStr aggregate_id), (''documentVersion'', JInt (cm_sync_version cm)),
           (''sourceType'', JStr (source_type_value (ks_source_type source))),
           (''rawObjectKey'', JStr (fc_raw_object_key fetched)),
           (''canonicalUri'', (case fc_canonical_uri fetched of None \<Rightarrow> JNull | Some u \<Rightarrow> JStr u)),
           (''contentHash'', JStr content_hash)]"

record sync_run =
  rn_interfere :: "nat \<Rightarrow> db \<Rightarrow> db"
  rn_up :: "nat \<Rightarrow> bool"
  rn_commit :: commit_outcome
  rn_now :: timestamp
  rn_document_id :: uuid
  rn_event_id :: uuid

definition hand_off ::
  "sync_run \<Rightarrow> KnowledgeSyncCommand \<Rightarrow> KnowledgeSource \<Rightarrow> FetchedContent \<Rightarrow> string \<Rightarrow> uuid \<Rightarrow> KnowledgeSyncResult tx" where
  "hand_off rn cm source fetched content_hash document_id =
     tx_bind (tx_read (PARSE_EVENT_EXISTS (cm_tenant_id cm) (uuid_str document_id))) (\<lambda>event_exists.
     tx_bind (if event_exists then tx_return ()
              else tx_write (PARSE_EVENT_INSERT cm (rn_event_id rn) (rn_now rn) (uuid_str document_id)
                     (parse_payload cm source fetched (uuid_str document_id) content_hash))) (\<lambda>_.
     tx_bind (tx_write (SOURCE_SUCCESS_UPDATE cm (rn_now rn))) (\<lambda>_.
     tx_return sync_success)))"

definition persist_body ::
  "sync_run \<Rightarrow> KnowledgeSyncCommand \<Rightarrow> KnowledgeSource \<Rightarrow> FetchedContent \<Rightarrow> string \<Rightarrow> KnowledgeSyncResult tx" where
  "persist_body rn cm source fetched content_hash =
     tx_bind (tx_query (SOURCE_SELECT cm)) (\<lambda>row.
       case row of
         None \<Rightarrow> tx_return (sync_failure (sync_code_value SOURCE_NOT_FOUND) False)
       | Some locked \<Rightarrow>
           if ks_status locked = Disabled then tx_return (sync_failure (sync_code_value SOURCE_DISABLED) False)
           else if cm_sync_version cm < ks_sync_version locked then tx_return sync_no_op
           else if cm_sync_version cm > ks_sync_version locked
           then tx_return (sync_failure (sync_code_value VERSION_AHEAD) False)
           else tx_bind (tx_read (DOCUMENT_BY_VERSION cm)) (\<lambda>existing.
             case existing of
               Some doc \<Rightarrow>
                 if kd_content_hash doc \<noteq> content_hash
                 then tx_return (sync_failure (sync_code_value REPLAY_CONTENT_MISMATCH) False)
                 else hand_off rn cm source fetched content_hash (kd_id doc)
             | None \<Rightarrow>
                 tx_bind (tx_write (DOCUMENT_INSERT cm (rn_document_id rn) (rn_now rn) (fc_canonical_uri fetched) (ks_name source)
                   content_hash)) (\<lambda>_. hand_off rn cm source fetched content_hash (rn_document_id rn))))"

section \<open>The job\<close>

record ('b, 'w) sync_state =
  st_db :: db
  st_objects :: 'b
  st_network :: 'w
  st_contacted :: "net_event list"

text \<open>The checks on the loaded source; \<open>None\<close> when the job goes on.\<close>

definition source_refusal :: "KnowledgeSyncCommand \<Rightarrow> KnowledgeSource option \<Rightarrow> KnowledgeSyncResult option" where
  "source_refusal cm row =
     (case row of
        None \<Rightarrow> Some (sync_failure (sync_code_value SOURCE_NOT_FOUND) False)
      | Some source \<Rightarrow>
          if ks_status source = Disabled then Some (sync_failure (sync_code_value SOURCE_DISABLED) False)
          else if cm_sync_version cm < ks_sync_version source then Some sync_no_op
          else if cm_sync_version cm > ks_sync_version source then Some (sync_failure (sync_code_value VERSION_AHEAD) False)
          else if ks_source_type source = Sitemap then Some (sync_failure (sync_code_value SOURCE_TYPE_UNSUPPORTED) False)
          else None)"

definition store_and_persist ::
  "('b, 'w) sync_world \<Rightarrow> sync_run \<Rightarrow> KnowledgeSyncCommand \<Rightarrow> KnowledgeSource \<Rightarrow> FetchedContent \<Rightarrow> string \<Rightarrow> ('b, 'w) sync_state
     \<Rightarrow> KnowledgeSyncResult result \<times> ('b, 'w) sync_state" where
  "store_and_persist wd rn cm source fetched content_hash st =
     (let (stored, b) =
        (if ks_source_type source = Url
         then worker_put_bytes (wd_storage wd) (fc_raw_object_key fetched) (fc_raw_bytes fetched) (fc_content_type fetched) (st_objects st)
         else (Inr (), st_objects st));
          st = st\<lparr>st_objects := b\<rparr>
      in case stored of
           Inl e \<Rightarrow>
             if e = ObjectStorageError then (Inr (sync_failure (sync_code_value OBJECT_UNAVAILABLE) True), st) else (Inl e, st)
         | Inr _ \<Rightarrow>
             (let d = rn_interfere rn 4 (st_db st);
                  (r, d') = (if rn_up rn 4 then in_txn (rn_commit rn) (persist_body rn cm source fetched content_hash) d
                             else (Inl SQLAlchemyError, d))
              in (r, st\<lparr>st_db := d'\<rparr>)))"

definition run_knowledge_sync ::
  "('b, 'w) sync_world \<Rightarrow> sync_run \<Rightarrow> KnowledgeSyncCommand \<Rightarrow> ('b, 'w) sync_state
     \<Rightarrow> KnowledgeSyncResult result \<times> ('b, 'w) sync_state" where
  "run_knowledge_sync wd rn cm st =
     (let st = st\<lparr>st_db := rn_interfere rn 1 (st_db st)\<rparr>
      in if \<not> rn_up rn 1 then (Inl SQLAlchemyError, st)
      else (case SOURCE_SELECT cm (st_db st) of
        Inl e \<Rightarrow> (Inl e, st)
      | Inr row \<Rightarrow>
          (case source_refusal cm row of
             Some r \<Rightarrow> (Inr r, st)
           | None \<Rightarrow>
     (let source = the row; st = st\<lparr>st_db := rn_interfere rn 2 (st_db st)\<rparr>
      in if \<not> rn_up rn 2 then (Inl SQLAlchemyError, st)
      else if completed_handoff_exists cm (st_db st) then (Inr sync_no_op, st)
      else (case fetch_content wd cm source (st_objects st) (st_network st) of
        (fetched, ev, w) \<Rightarrow>
     (let st = st\<lparr>st_network := w, st_contacted := st_contacted st @ ev\<rparr>
      in case fetched of
        Inl e \<Rightarrow> (Inl e, st)
      | Inr (Inl r) \<Rightarrow> (Inr r, st)
      | Inr (Inr content) \<Rightarrow>
     (let content_hash = wd_sha256 wd (fc_raw_bytes content); st = st\<lparr>st_db := rn_interfere rn 3 (st_db st)\<rparr>
      in if \<not> rn_up rn 3 then (Inl SQLAlchemyError, st)
      else (case preflight_replay_mismatch cm content_hash (st_db st) of
        Some mismatch \<Rightarrow> (Inr mismatch, st)
      | None \<Rightarrow> store_and_persist wd rn cm source content content_hash st))))))))"

section \<open>Exactly one handoff per version\<close>

text \<open>At most one document per source version and at most one parse event per document.\<close>

definition handoff_ok :: "db \<Rightarrow> bool" where
  "handoff_ok d \<longleftrightarrow>
     distinct (map (\<lambda>r. (kd_tenant_id r, kd_source_id r, kd_document_version r)) (documents d)) \<and>
     distinct (map (\<lambda>e. (oe_tenant_id e, oe_aggregate_id e)) (filter parse_event (outbox d)))"

definition handed_off :: "KnowledgeSyncCommand \<Rightarrow> string \<Rightarrow> db \<Rightarrow> bool" where
  "handed_off cm content_hash d \<longleftrightarrow>
     (\<exists>doc. version_documents cm d = [doc] \<and> kd_content_hash doc = content_hash \<and>
        PARSE_EVENT_EXISTS (cm_tenant_id cm) (uuid_str (kd_id doc)) d)"

lemma DOCUMENT_BY_VERSION_None: "DOCUMENT_BY_VERSION cm d = None \<longleftrightarrow> version_documents cm d = []"
proof -
  have "sort_key kd_created_at (version_documents cm d) = [] \<longleftrightarrow> version_documents cm d = []"
    by (metis set_sort set_empty)
  then show ?thesis by (auto simp: DOCUMENT_BY_VERSION_def split: list.splits)
qed

lemma version_documents_unique:
  assumes "handoff_ok d" "DOCUMENT_BY_VERSION cm d = Some doc"
  shows "version_documents cm d = [doc]"
proof -
  let ?key = "\<lambda>r. (kd_tenant_id r, kd_source_id r, kd_document_version r)"
  have ne: "version_documents cm d \<noteq> []" using assms(2) DOCUMENT_BY_VERSION_None[of cm d] by auto
  have "distinct (map ?key (version_documents cm d))"
    unfolding version_documents_def using assms(1) by (intro distinct_map_filterI) (simp add: handoff_ok_def)
  moreover have "\<forall>r \<in> set (version_documents cm d). ?key r = (cm_tenant_id cm, cm_source_id cm, cm_sync_version cm)"
    by (simp add: version_documents_def)
  ultimately have "length (version_documents cm d) \<le> 1"
    by (cases "version_documents cm d" rule: remdups_adj.cases) auto
  with ne obtain x where x: "version_documents cm d = [x]" by (cases "version_documents cm d") auto
  with assms(2) show ?thesis by (simp add: DOCUMENT_BY_VERSION_def)
qed

lemma version_documents_simps:
  "version_documents cm (SOURCE_SUCCESS_UPDATE cm' now d) = version_documents cm d"
  "version_documents cm (PARSE_EVENT_INSERT cm' i now a p d) = version_documents cm d"
  "PARSE_EVENT_EXISTS t a (SOURCE_SUCCESS_UPDATE cm' now d) = PARSE_EVENT_EXISTS t a d"
  "PARSE_EVENT_EXISTS t a (DOCUMENT_INSERT cm' i now u ti h d) = PARSE_EVENT_EXISTS t a d"
  "handoff_ok (SOURCE_SUCCESS_UPDATE cm' now d) = handoff_ok d"
  by (simp_all add: version_documents_def SOURCE_SUCCESS_UPDATE_def PARSE_EVENT_INSERT_def PARSE_EVENT_EXISTS_def
      DOCUMENT_INSERT_def handoff_ok_def)

lemma handoff_ok_insert_document:
  assumes "handoff_ok d" "version_documents cm d = []"
  shows "handoff_ok (DOCUMENT_INSERT cm i now uri title h d)"
    and "\<exists>doc. version_documents cm (DOCUMENT_INSERT cm i now uri title h d) = [doc] \<and> kd_id doc = i \<and> kd_content_hash doc = h"
  using assms by (auto simp: handoff_ok_def DOCUMENT_INSERT_def version_documents_def filter_empty_conv)

lemma handoff_ok_insert_event:
  assumes "handoff_ok d" "\<not> PARSE_EVENT_EXISTS (cm_tenant_id cm) a d"
  shows "handoff_ok (PARSE_EVENT_INSERT cm i now a p d)" "PARSE_EVENT_EXISTS (cm_tenant_id cm) a (PARSE_EVENT_INSERT cm i now a p d)"
  using assms by (auto simp: handoff_ok_def PARSE_EVENT_INSERT_def PARSE_EVENT_EXISTS_def parse_event_def list_ex_iff)

text \<open>The tables a handoff leaves alone, and the source afterwards.\<close>

definition handoff_frame :: "KnowledgeSyncCommand \<Rightarrow> timestamp \<Rightarrow> db \<Rightarrow> db \<Rightarrow> bool" where
  "handoff_frame cm now d d' \<longleftrightarrow>
     d' = d\<lparr>documents := documents d', outbox := outbox d', sources := sources (SOURCE_SUCCESS_UPDATE cm now d)\<rparr>"

lemma hand_off_effect:
  assumes "hand_off rn cm source fetched h i d = Inr (r, d')" "handoff_ok d" "version_documents cm d = [doc]"
    "kd_id doc = i" "kd_content_hash doc = h"
  shows "r = sync_success \<and> handoff_ok d' \<and> handed_off cm h d' \<and> handoff_frame cm (rn_now rn) d d'"
proof -
  let ?a = "uuid_str i"
  define d1 where "d1 = (if PARSE_EVENT_EXISTS (cm_tenant_id cm) ?a d then d
      else PARSE_EVENT_INSERT cm (rn_event_id rn) (rn_now rn) ?a (parse_payload cm source fetched ?a h) d)"
  have r: "r = sync_success" "d' = SOURCE_SUCCESS_UPDATE cm (rn_now rn) d1"
    using assms(1) by (auto simp: hand_off_def result_simps d1_def split: if_splits)
  have "handoff_ok d1" "PARSE_EVENT_EXISTS (cm_tenant_id cm) ?a d1" "version_documents cm d1 = [doc]"
    using assms handoff_ok_insert_event[OF assms(2)] by (auto simp: d1_def version_documents_simps)
  then have "handoff_ok d' \<and> handed_off cm h d'" using assms(4,5) r by (simp add: handed_off_def version_documents_simps)
  moreover have "handoff_frame cm (rn_now rn) d d'"
    unfolding r(2) by (simp add: handoff_frame_def d1_def SOURCE_SUCCESS_UPDATE_def PARSE_EVENT_INSERT_def)
  ultimately show ?thesis using r(1) by blast
qed

lemma persist_body_effect:
  assumes "persist_body rn cm source fetched h d = Inr (r, d')" "handoff_ok d"
  shows "(d' = d \<and> r \<noteq> sync_success) \<or>
    (r = sync_success \<and> handoff_ok d' \<and> handed_off cm h d' \<and> handoff_frame cm (rn_now rn) d d' \<and>
     (\<exists>s. SOURCE_SELECT cm d = Inr (Some s) \<and> ks_status s \<noteq> Disabled \<and> ks_sync_version s = cm_sync_version cm))"
proof -
  have neq: "sync_no_op \<noteq> sync_success" "sync_failure c b \<noteq> sync_success" for c b
    by (simp_all add: sync_no_op_def sync_success_def sync_failure_def)
  from assms(1) obtain row where row: "SOURCE_SELECT cm d = Inr row" by (auto simp: persist_body_def result_simps)
  show ?thesis
  proof (cases "\<exists>s. row = Some s \<and> ks_status s \<noteq> Disabled \<and> ks_sync_version s = cm_sync_version cm")
    case False
    then show ?thesis using assms(1) row neq
      by (cases row) (auto simp: persist_body_def result_simps split: if_splits)
  next
    case True
    then obtain s where s: "row = Some s" "ks_status s \<noteq> Disabled" "ks_sync_version s = cm_sync_version cm" by blast
    show ?thesis
    proof (cases "DOCUMENT_BY_VERSION cm d")
      case None
      let ?d1 = "DOCUMENT_INSERT cm (rn_document_id rn) (rn_now rn) (fc_canonical_uri fetched) (ks_name source) h d"
      have "hand_off rn cm source fetched h (rn_document_id rn) ?d1 = Inr (r, d')"
        using assms(1) row s None by (auto simp: persist_body_def result_simps)
      moreover have "version_documents cm d = []" using None DOCUMENT_BY_VERSION_None by blast
      note ins = handoff_ok_insert_document[OF assms(2) this, where i = "rn_document_id rn" and now = "rn_now rn"
          and uri = "fc_canonical_uri fetched" and title = "ks_name source" and h = h]
      ultimately have "r = sync_success \<and> handoff_ok d' \<and> handed_off cm h d' \<and> handoff_frame cm (rn_now rn) ?d1 d'"
        using hand_off_effect by blast
      then show ?thesis using row s
        by (auto simp: handoff_frame_def DOCUMENT_INSERT_def SOURCE_SUCCESS_UPDATE_def)
    next
      case (Some doc)
      show ?thesis
      proof (cases "kd_content_hash doc = h")
        case True
        then have "hand_off rn cm source fetched h (kd_id doc) d = Inr (r, d')"
          using assms(1) row s Some by (auto simp: persist_body_def result_simps)
        from hand_off_effect[OF this assms(2) version_documents_unique[OF assms(2) Some] refl True] row s
        show ?thesis by blast
      next
        case False
        then show ?thesis using assms(1) row s Some neq by (auto simp: persist_body_def result_simps)
      qed
    qed
  qed
qed

text \<open>How the job can end: before the last transaction, or in it.\<close>

lemma run_knowledge_sync_cases:
  assumes "run_knowledge_sync wd rn cm st = (r, st')"
  obtains (early) k where "st_db st' = k (st_db st)" "k \<in> {rn_interfere rn 1, rn_interfere rn 2 \<circ> rn_interfere rn 1,
      rn_interfere rn 3 \<circ> rn_interfere rn 2 \<circ> rn_interfere rn 1}" "r \<noteq> Inr sync_success"
  | (late) source content d where "d = (rn_interfere rn 4 \<circ> rn_interfere rn 3 \<circ> rn_interfere rn 2 \<circ> rn_interfere rn 1) (st_db st)"
      "(r, st_db st') = in_txn (rn_commit rn) (persist_body rn cm source content (wd_sha256 wd (fc_raw_bytes content))) d \<or>
       st_db st' = d \<and> r \<noteq> Inr sync_success"
proof -
  have neq: "sync_no_op \<noteq> sync_success" "sync_failure c b \<noteq> sync_success" for c b
    by (simp_all add: sync_no_op_def sync_success_def sync_failure_def)
  define d1 where "d1 = rn_interfere rn 1 (st_db st)"
  define d2 where "d2 = rn_interfere rn 2 d1"
  define d3 where "d3 = rn_interfere rn 3 d2"
  have ref: "source_refusal cm row = Some x \<Longrightarrow> x \<noteq> sync_success" for row x
    by (auto simp: source_refusal_def neq split: option.splits if_splits)
  have fu: "fetch_url_content wd cm u w = (Inr (Inl x), ev, w') \<Longrightarrow> x \<noteq> sync_success" for u w x ev w'
    by (auto simp: fetch_url_content_def neq split: option.splits sum.splits prod.splits fetch_error.splits)
  have fc: "fetch_content wd cm source b w = (Inr (Inl x), ev, w') \<Longrightarrow> x \<noteq> sync_success" for source b w x ev w'
    using fu by (auto simp: fetch_content_def fetch_file_content_def neq split: if_splits option.splits sum.splits)
  have pre: "preflight_replay_mismatch cm h d = Some x \<Longrightarrow> x \<noteq> sync_success" for h d x
    by (auto simp: preflight_replay_mismatch_def neq split: option.splits if_splits)
  show thesis
  proof (cases "rn_up rn 1 \<and> (\<exists>row. SOURCE_SELECT cm d1 = Inr row \<and> source_refusal cm row = None) \<and> rn_up rn 2 \<and>
      \<not> completed_handoff_exists cm d2")
    case False
    have "(st_db st' = d1 \<or> st_db st' = d2) \<and> r \<noteq> Inr sync_success"
      using assms False ref neq unfolding run_knowledge_sync_def Let_def
      by (auto simp: d1_def d2_def split: if_splits sum.splits option.splits)
    then show thesis using early[of "rn_interfere rn 1"] early[of "rn_interfere rn 2 \<circ> rn_interfere rn 1"]
      by (auto simp: d1_def d2_def)
  next
    case True
    then obtain row where row: "SOURCE_SELECT cm d1 = Inr row" "source_refusal cm row = None" by blast
    obtain x ev w where f: "fetch_content wd cm (the row) (st_objects st) (st_network st) = (x, ev, w)" by (metis surj_pair)
    show thesis
    proof (cases "\<exists>content. x = Inr (Inr content)")
      case False
      have "st_db st' = d2 \<and> r \<noteq> Inr sync_success"
        using assms True row f False fc[of "the row" "st_objects st" "st_network st"] unfolding run_knowledge_sync_def Let_def
        by (auto simp: d1_def d2_def split: sum.splits)
      then show thesis using early[of "rn_interfere rn 2 \<circ> rn_interfere rn 1"] by (simp add: d1_def d2_def)
    next
      case xc: True
      then obtain content where c: "x = Inr (Inr content)" by blast
      let ?h = "wd_sha256 wd (fc_raw_bytes content)"
      show thesis
      proof (cases "rn_up rn 3 \<and> preflight_replay_mismatch cm ?h d3 = None")
        case False
        have "st_db st' = d3 \<and> r \<noteq> Inr sync_success"
          using assms True row f c False pre[of ?h d3] unfolding run_knowledge_sync_def Let_def
          by (auto simp: d1_def d2_def d3_def split: option.splits if_splits)
        then show thesis
          using early[of "rn_interfere rn 3 \<circ> rn_interfere rn 2 \<circ> rn_interfere rn 1"] by (simp add: d1_def d2_def d3_def)
      next
        case up3: True
        let ?st = "st\<lparr>st_network := w, st_contacted := st_contacted st @ ev, st_db := d3\<rparr>"
        have run: "store_and_persist wd rn cm (the row) content ?h ?st = (r, st')"
          using assms True row f c up3 unfolding run_knowledge_sync_def Let_def
          by (simp add: d1_def d2_def d3_def)
        show thesis
        proof (cases "st_db st' = d3 \<and> r \<noteq> Inr sync_success")
          case True
          then show thesis
            using early[of "rn_interfere rn 3 \<circ> rn_interfere rn 2 \<circ> rn_interfere rn 1"] by (simp add: d1_def d2_def d3_def)
        next
          case False
          then have "(r, st_db st') = in_txn (rn_commit rn) (persist_body rn cm (the row) content ?h) (rn_interfere rn 4 d3) \<or>
              st_db st' = rn_interfere rn 4 d3 \<and> r \<noteq> Inr sync_success"
            using run neq unfolding store_and_persist_def Let_def
            by (auto split: prod.splits sum.splits if_splits)
          then show thesis using late[of "rn_interfere rn 4 d3" "the row" content] by (simp add: d1_def d2_def d3_def)
        qed
      qed
    qed
  qed
qed

text \<open>Other transactions may run in between, but none of them breaks the uniqueness.\<close>

abbreviation benign :: "sync_run \<Rightarrow> bool" where
  "benign rn \<equiv> \<forall>k d. handoff_ok d \<longrightarrow> handoff_ok (rn_interfere rn k d)"

lemma run_success_effect:
  assumes "run_knowledge_sync wd rn cm st = (r, st')" "benign rn" "handoff_ok (st_db st)"
  shows "handoff_ok (st_db st')"
    and "r = Inr sync_success \<Longrightarrow> \<exists>h d s. handed_off cm h (st_db st') \<and> handoff_frame cm (rn_now rn) d (st_db st') \<and>
      SOURCE_SELECT cm d = Inr (Some s) \<and> ks_status s \<noteq> Disabled \<and> ks_sync_version s = cm_sync_version cm"
proof -
  have "handoff_ok (st_db st') \<and> (r = Inr sync_success \<longrightarrow> (\<exists>h d s. handed_off cm h (st_db st') \<and>
      handoff_frame cm (rn_now rn) d (st_db st') \<and>
      SOURCE_SELECT cm d = Inr (Some s) \<and> ks_status s \<noteq> Disabled \<and> ks_sync_version s = cm_sync_version cm))"
    using assms(1)
  proof (cases rule: run_knowledge_sync_cases)
    case (early k)
    then show ?thesis using assms(2,3) by auto
  next
    case (late source content d)
    let ?h = "wd_sha256 wd (fc_raw_bytes content)"
    have ok: "handoff_ok d" using late(1) assms(2,3) by auto
    from late(2) show ?thesis
    proof
      assume "(r, st_db st') = in_txn (rn_commit rn) (persist_body rn cm source content ?h) d"
      then have "in_txn (rn_commit rn) (persist_body rn cm source content ?h) d = (r, st_db st')" by simp
      then show ?thesis
      proof (cases rule: in_txn_cases)
        case unchanged
        then show ?thesis using ok by auto
      next
        case (committed x)
        then show ?thesis using persist_body_effect[OF committed(1) ok] ok by auto
      qed
    qed (use ok in auto)
  qed
  then show "handoff_ok (st_db st')"
    and "r = Inr sync_success \<Longrightarrow> \<exists>h d s. handed_off cm h (st_db st') \<and> handoff_frame cm (rn_now rn) d (st_db st') \<and>
      SOURCE_SELECT cm d = Inr (Some s) \<and> ks_status s \<noteq> Disabled \<and> ks_sync_version s = cm_sync_version cm" by auto
qed

text \<open>
  C8: However the database, the storage, the network and concurrent transactions behave, a sync keeps
  at most one document per source version and one parse event per document, and a sync that reports
  success has committed both for its version.
\<close>

theorem sync_handoff_exactly_once:
  assumes "run_knowledge_sync wd rn cm st = (r, st')" "benign rn" "handoff_ok (st_db st)"
  shows "handoff_ok (st_db st') \<and> (r = Inr sync_success \<longrightarrow> (\<exists>h. handed_off cm h (st_db st')))"
  using run_success_effect[OF assms] by blast

text \<open>
  C26: A second delivery of a command that succeeded is a no-op: it contacts nothing and changes neither
  the database nor the storage.
\<close>

theorem sync_replay_no_op:
  assumes "run_knowledge_sync wd rn cm st = (Inr sync_success, st')" "benign rn" "handoff_ok (st_db st)"
    "list_all (\<lambda>s. ks_id s = cm_source_id cm \<longrightarrow> ks_source_type s \<noteq> Sitemap) (sources (st_db st'))"
    "\<And>k d. rn_interfere again k d = d" "rn_up again 1" "rn_up again 2"
  shows "run_knowledge_sync wd again cm st' = (Inr sync_no_op, st')"
proof -
  from run_success_effect(2)[OF assms(1-3) refl] obtain h d s where
    h: "handed_off cm h (st_db st')" "handoff_frame cm (rn_now rn) d (st_db st')"
    "SOURCE_SELECT cm d = Inr (Some s)" "ks_status s \<noteq> Disabled" "ks_sync_version s = cm_sync_version cm" by blast
  let ?f = "\<lambda>r. if owns_version cm r then r\<lparr>ks_status := Syncing, ks_last_synced_at := Some (rn_now rn),
      ks_last_error_code := None, ks_updated_at := rn_now rn\<rparr> else r"
  have src: "sources (st_db st') = map ?f (sources d)"
    using arg_cong[OF h(2)[unfolded handoff_frame_def], of sources] by (simp add: SOURCE_SUCCESS_UPDATE_def)
  from h(3) have flt: "filter (\<lambda>r. ks_id r = cm_source_id cm \<and> ks_tenant_id r = cm_tenant_id cm) (sources d) = [s]"
    by (simp add: SOURCE_SELECT_def one_or_none_Some)
  have "filter (\<lambda>r. ks_id r = cm_source_id cm \<and> ks_tenant_id r = cm_tenant_id cm) (map ?f (sources d)) = [?f s]"
    by (subst filter_map_same) (auto simp: flt)
  then have sel: "SOURCE_SELECT cm (st_db st') = Inr (Some (?f s))" by (simp add: SOURCE_SELECT_def src)
  have s: "s \<in> set (sources d)" "ks_id s = cm_source_id cm" "ks_tenant_id s = cm_tenant_id cm"
    using flt by (metis (mono_tags, lifting) list.set_intros(1) mem_Collect_eq set_filter)+
  then have "?f s \<in> set (sources (st_db st'))" unfolding src by simp
  then have "ks_source_type (?f s) \<noteq> Sitemap" using assms(4) s(2) unfolding list_all_iff by fastforce
  then have ref: "source_refusal cm (Some (?f s)) = None" using h(5) s by (simp add: source_refusal_def)
  have "completed_handoff_exists cm (st_db st')"
    using h(1) by (auto simp: completed_handoff_exists_def handed_off_def DOCUMENT_BY_VERSION_def)
  then show ?thesis using sel ref assms(5-7) by (simp add: run_knowledge_sync_def)
qed

section \<open>Where a sync may connect to\<close>

text \<open>
  A sync contacts nothing but the host of the source's own address, at addresses that pass every
  address check, whatever that host redirects to.
\<close>

theorem sync_contacts_only_source_host:
  assumes "fetch_content wd cm source b w = (r, ev, w')" "ev \<noteq> []"
  shows "\<exists>uri parsed host n. ks_source_uri source = Some uri \<and> urlsplit (fe_url (wd_fetch wd)) uri = Inr parsed \<and>
    url_hostname parsed = Some host \<and> normalize_host (fe_url (wd_fetch wd)) host = Inr n \<and>
    list_all (inside [n]) ev \<and> dials ev \<le> 6"
proof -
  from assms have f: "fetch_url_content wd cm (ks_source_uri source) w = (r, ev, w')"
    by (auto simp: fetch_content_def split: if_splits)
  from f assms(2) obtain uri where uri: "ks_source_uri source = Some uri"
    by (cases "ks_source_uri source") (auto simp: fetch_url_content_def)
  from f assms(2) uri obtain parsed where parsed: "urlsplit (fe_url (wd_fetch wd)) uri = Inr parsed"
    by (cases "urlsplit (fe_url (wd_fetch wd)) uri") (auto simp: fetch_url_content_def)
  from f assms(2) uri parsed obtain host where host: "url_hostname parsed = Some host"
    by (cases "url_hostname parsed") (auto simp: fetch_url_content_def)
  from f assms(2) uri parsed host obtain policy where
    policy: "PublicKnowledgeFetchPolicy (fe_url (wd_fetch wd)) [host] 5242880 10000 = Inr policy"
    by (cases "PublicKnowledgeFetchPolicy (fe_url (wd_fetch wd)) [host] 5242880 10000") (auto simp: fetch_url_content_def)
  obtain x where x: "fetch_loop (wd_fetch wd) (wd_network wd) policy uri 0 w = (x, ev, w')"
    using f uri parsed host policy
    by (auto simp: fetch_url_content_def fetch_public_knowledge_def split: sum.splits prod.splits fetch_error.splits)
  from policy obtain n where n: "normalize_host (fe_url (wd_fetch wd)) host = Inr n" "fp_allowed_hosts policy = [n]"
    "fp_max_response_bytes policy = 5242880"
    by (auto simp: PublicKnowledgeFetchPolicy_def result_simps split: if_splits)
  from fetch_loop_safe[OF x] n have "list_all (inside [n]) ev" "dials ev \<le> 6" by (auto simp: max_redirects_def)
  with uri parsed host n show ?thesis by blast
qed

section \<open>A concrete sync\<close>

definition url_source :: "string \<Rightarrow> KnowledgeSource" where
  "url_source uri = (new_knowledge_source 3 1 Url ''Docs'' uri Customer 2 0)\<lparr>ks_sync_version := 1, ks_status := Syncing\<rparr>"

definition sync_db :: "string \<Rightarrow> db" where
  "sync_db uri = sample_db\<lparr>sources := [url_source uri]\<rparr>"

definition sample_command :: KnowledgeSyncCommand where
  "sample_command = \<lparr>cm_event_id = 7, cm_tenant_id = 1, cm_source_id = 3, cm_sync_version = 1, cm_correlation_id = ''c''\<rparr>"

definition sample_world :: "string \<Rightarrow> (string list, int) sync_world" where
  "sample_world location = \<lparr>wd_fetch = sample_fetch_env, wd_network = redirecting location, wd_storage = list_adapter, wd_sha256 = (\<lambda>s. s)\<rparr>"

definition quiet_run :: sync_run where
  "quiet_run = \<lparr>rn_interfere = (\<lambda>k d. d), rn_up = (\<lambda>k. True), rn_commit = Committed, rn_now = 5, rn_document_id = 8, rn_event_id = 9\<rparr>"

definition sync_start :: "string \<Rightarrow> (string list, int) sync_state" where
  "sync_start uri = \<lparr>st_db = sync_db uri, st_objects = [], st_network = 0, st_contacted = []\<rparr>"

abbreviation sample_sync :: "KnowledgeSyncResult result \<times> (string list, int) sync_state" where
  "sample_sync \<equiv> run_knowledge_sync (sample_world ''/b'') quiet_run sample_command (sync_start ''https://a.io'')"

lemma sample_sync_facts:
  "fst sample_sync = Inr sync_success"
  "list_all (\<lambda>s. ks_id s = cm_source_id sample_command \<longrightarrow> ks_source_type s \<noteq> Sitemap) (sources (st_db (snd sample_sync)))"
  "handoff_ok (st_db (sync_start ''https://a.io''))"
proof -
  have "(case sample_sync of (r, st) \<Rightarrow> r = Inr sync_success \<and>
      list_all (\<lambda>s. ks_id s = cm_source_id sample_command \<longrightarrow> ks_source_type s \<noteq> Sitemap) (sources (st_db st)))" by code_simp
  then show "fst sample_sync = Inr sync_success"
    "list_all (\<lambda>s. ks_id s = cm_source_id sample_command \<longrightarrow> ks_source_type s \<noteq> Sitemap) (sources (st_db (snd sample_sync)))"
    by (auto split: prod.splits)
  show "handoff_ok (st_db (sync_start ''https://a.io''))" by code_simp
qed

lemma sample_sync_run: "sample_sync = (Inr sync_success, snd sample_sync)"
  using sample_sync_facts(1) by (metis prod.collapse)

lemma quiet_benign: "benign quiet_run"
  by (simp add: quiet_run_def)

theorem sync_handoff_exactly_once_witness:
  "\<exists>st'. sample_sync = (Inr sync_success, st') \<and> handoff_ok (st_db st') \<and> (\<exists>h. handed_off sample_command h (st_db st'))"
  using sync_handoff_exactly_once[OF sample_sync_run quiet_benign sample_sync_facts(3)] sample_sync_run by blast

theorem sync_replay_no_op_witness:
  "\<exists>st'. sample_sync = (Inr sync_success, st') \<and>
     run_knowledge_sync (sample_world ''/b'') quiet_run sample_command st' = (Inr sync_no_op, st')"
  using sync_replay_no_op[OF sample_sync_run quiet_benign sample_sync_facts(3,2), of quiet_run] sample_sync_run
  by (auto simp: quiet_run_def)

theorem sync_contacts_only_source_host_witness:
  "\<exists>r ev w. fetch_content (sample_world ''/b'') sample_command (url_source ''https://a.io'') [] 0 = (r, ev, w) \<and>
     length ev = 4 \<and> (\<exists>n. list_all (inside [n]) ev \<and> dials ev \<le> 6)"
proof -
  obtain r ev w where f: "fetch_content (sample_world ''/b'') sample_command (url_source ''https://a.io'') [] 0 = (r, ev, w)"
    by (metis surj_pair)
  have "length (fst (snd (fetch_content (sample_world ''/b'') sample_command (url_source ''https://a.io'') [] 0))) = 4" by code_simp
  then have "length ev = 4" "ev \<noteq> []" using f by auto
  with sync_contacts_only_source_host[OF f] f show ?thesis by blast
qed

end
