(* ===== verification/Broker.thy ===== *)
theory Broker
  imports Prelude
begin

text \<open>
  The broker boundary of the worker (\<open>services/worker/app/core/broker.py\<close>): the Kafka adapter over a
  producer, and the contract the outbox publisher and the sync consumer rely on.

  The \<open>confluent_kafka\<close> producer is an argument, a record of functions over an arbitrary state \<open>'p\<close>.
  \<open>produce\<close> either raises or enqueues the message; \<open>flush\<close> either raises or returns the delivery reports
  the \<open>on_delivery\<close> callback of that message received (True for a report with an error) and the number of
  messages still in the queue.  Bytes are lists of their values.
\<close>

section \<open>The adapter\<close>

record BrokerMessage =
  bm_topic :: string
  bm_key :: "int list"
  bm_value :: "int list"
  bm_headers :: "(string \<times> int list) list option"

record 'p producer =
  pr_produce :: "BrokerMessage \<Rightarrow> 'p \<Rightarrow> exn option \<times> 'p"
  pr_flush :: "'p \<Rightarrow> (exn + bool list \<times> int) \<times> 'p"

text \<open>The closure \<open>on_delivery\<close> with its two flags: delivered and delivery failed.\<close>

definition on_delivery :: "bool \<Rightarrow> bool \<times> bool \<Rightarrow> bool \<times> bool" where
  "on_delivery is_error flags = (True, is_error)"

definition broker_error :: "exn \<Rightarrow> exn" where
  "broker_error e = (if e = BufferError \<or> e = RuntimeError then BrokerUnavailableError else e)"

definition publish_sync :: "'p producer \<Rightarrow> BrokerMessage \<Rightarrow> 'p \<Rightarrow> unit result \<times> 'p" where
  "publish_sync P m p =
     (case pr_produce P m p of
        (Some e, p1) \<Rightarrow> (Inl (broker_error e), p1)
      | (None, p1) \<Rightarrow>
          (case pr_flush P p1 of
             (Inl e, p2) \<Rightarrow> (Inl (broker_error e), p2)
           | (Inr (reports, remaining), p2) \<Rightarrow>
               (let (delivered, delivery_failed) = fold on_delivery reports (False, False)
                in if remaining \<noteq> 0 \<or> \<not> delivered \<or> delivery_failed
                   then (Inl BrokerUnavailableError, p2) else (Inr (), p2))))"

definition publisher_close :: "'p producer \<Rightarrow> 'p \<Rightarrow> 'p" where
  "publisher_close P p = snd (pr_flush P p)"

section \<open>The contract\<close>

text \<open>What a client of \<open>EventPublisher.publish\<close> relies on: a normal return means the message is in the log.\<close>

locale event_broker =
  fixes publish :: "BrokerMessage \<Rightarrow> 'b \<Rightarrow> unit result \<times> 'b"
    and log :: "'b \<Rightarrow> BrokerMessage list"
  assumes accepted: "publish m b = (Inr u, b') \<Longrightarrow> m \<in> set (log b')"
    and log_grows: "publish m b = (r, b') \<Longrightarrow> set (log b) \<subseteq> set (log b')"

text \<open>
  The documented behaviour of the producer: a delivery report without an error, the last one of the
  message, means that the broker has the message; nothing is removed from the log.
\<close>

definition producer_ok :: "'p producer \<Rightarrow> ('p \<Rightarrow> BrokerMessage list) \<Rightarrow> bool" where
  "producer_ok P log \<longleftrightarrow>
     (\<forall>m p e p'. pr_produce P m p = (e, p') \<longrightarrow> set (log p) \<subseteq> set (log p')) \<and>
     (\<forall>p r p'. pr_flush P p = (r, p') \<longrightarrow> set (log p) \<subseteq> set (log p')) \<and>
     (\<forall>m p p1 reports n p2. pr_produce P m p = (None, p1) \<longrightarrow> pr_flush P p1 = (Inr (reports, n), p2) \<longrightarrow>
        reports \<noteq> [] \<longrightarrow> \<not> last reports \<longrightarrow> m \<in> set (log p2))"

lemma fold_on_delivery: "reports \<noteq> [] \<Longrightarrow> fold on_delivery reports flags = (True, last reports)"
  by (induction reports arbitrary: flags) (auto simp: on_delivery_def)

lemma publish_sync_cases:
  assumes "publish_sync P m p = (r, p')"
  obtains (rejected) e where "pr_produce P m p = (Some e, p')" "r = Inl (broker_error e)"
  | (raised) p1 e where "pr_produce P m p = (None, p1)" "pr_flush P p1 = (Inl e, p')" "r = Inl (broker_error e)"
  | (undelivered) p1 reports n where "pr_produce P m p = (None, p1)" "pr_flush P p1 = (Inr (reports, n), p')"
      "r = Inl BrokerUnavailableError"
  | (delivered) p1 reports where "pr_produce P m p = (None, p1)" "pr_flush P p1 = (Inr (reports, 0), p')"
      "reports \<noteq> []" "\<not> last reports" "r = Inr ()"
proof (cases "pr_produce P m p")
  case (Pair e p1)
  show thesis
  proof (cases e)
    case (Some e')
    then show thesis using assms Pair rejected by (simp add: publish_sync_def)
  next
    case None
    obtain x p2 where f: "pr_flush P p1 = (x, p2)" by fastforce
    show thesis
    proof (cases x)
      case (Inl e')
      then show thesis using assms Pair None f raised by (simp add: publish_sync_def)
    next
      case (Inr q)
      obtain reports n where q: "q = (reports, n)" by fastforce
      show thesis
        using assms Pair None f Inr q undelivered[of p1 reports n] delivered[of p1 reports] fold_on_delivery[of reports "(False, False)"]
        by (cases "reports = []") (auto simp: publish_sync_def split: if_splits)
    qed
  qed
qed

lemma kafka_event_broker:
  assumes documented: "producer_ok P log"
  shows "event_broker (publish_sync P) log"
proof
  note laws = documented[unfolded producer_ok_def]
  fix m p u p'
  assume "publish_sync P m p = (Inr u, p')"
  then show "m \<in> set (log p')" by (cases rule: publish_sync_cases) (use laws in auto)
next
  note laws = documented[unfolded producer_ok_def]
  fix m p r p'
  assume "publish_sync P m p = (r, p')"
  then show "set (log p) \<subseteq> set (log p')"
  proof (cases rule: publish_sync_cases)
    case (rejected e)
    then show ?thesis using laws by blast
  qed (use laws in blast)+
qed

text \<open>A producer that records every message it is given; an empty topic is refused by \<open>produce\<close>.\<close>

definition list_producer :: "BrokerMessage list producer" where
  "list_producer = \<lparr>pr_produce = (\<lambda>m p. if bm_topic m = [] then (Some KafkaException, p) else (None, p @ [m])),
     pr_flush = (\<lambda>p. (Inr ([False], 0), p))\<rparr>"

lemma list_producer_ok: "producer_ok list_producer (\<lambda>p. p)"
  by (auto simp: producer_ok_def list_producer_def split: if_splits)

interpretation recorded: event_broker "publish_sync list_producer" "\<lambda>p. p"
  by (rule kafka_event_broker[OF list_producer_ok])

lemma publish_list_producer: "bm_topic m \<noteq> [] \<Longrightarrow> publish_sync list_producer m p = (Inr (), p @ [m])"
  by (simp add: publish_sync_def list_producer_def on_delivery_def)

end
