(* ===== verification/Outbox.thy ===== *)
theory Outbox
  imports Broker Json Database
begin

text \<open>
  The transactional outbox publisher (\<open>services/worker/app/jobs/outbox_publisher.py\<close>): its SQL
  statements on the \<open>outbox_events\<close> table, the serialisation of a row to the wire envelope, the retry
  delay, and one bounded batch inside one transaction.

  Messages leave through the broker while the transaction is open, so a batch that is rolled back has
  still published: the broker state is threaded outside the database transaction.  The columns are
  typed, so \<open>_required_uuid\<close> and the type tests of the other readers always succeed; their value tests
  are kept.
\<close>

section \<open>Statements\<close>

abbreviation outbox_due :: "timestamp \<Rightarrow> OutboxEvent \<Rightarrow> bool" where
  "outbox_due now e \<equiv> oe_status e = OutboxPending \<and> oe_next_attempt_at e \<le> now"

text \<open>\<open>FOR UPDATE SKIP LOCKED\<close>: rows another publisher holds are left out.\<close>

definition CLAIM_DUE_EVENTS :: "(uuid \<Rightarrow> bool) \<Rightarrow> timestamp \<Rightarrow> nat \<Rightarrow> db \<Rightarrow> OutboxEvent list" where
  "CLAIM_DUE_EVENTS locked now batch_size d =
     take batch_size (filter (\<lambda>e. \<not> locked (oe_id e))
       (sort_key (\<lambda>e. (oe_next_attempt_at e, oe_id e)) (filter (outbox_due now) (outbox d))))"

definition update_event :: "uuid \<Rightarrow> (OutboxEvent \<Rightarrow> OutboxEvent) \<Rightarrow> db \<Rightarrow> db" where
  "update_event i f d =
     d\<lparr>outbox := map (\<lambda>e. if oe_id e = i \<and> oe_status e = OutboxPending then f e else e) (outbox d)\<rparr>"

definition MARK_PUBLISHED :: "uuid \<Rightarrow> timestamp \<Rightarrow> db \<Rightarrow> db" where
  "MARK_PUBLISHED i now = update_event i (\<lambda>e. e\<lparr>oe_status := Published, oe_published_at := Some now\<rparr>)"

definition MARK_RETRY :: "uuid \<Rightarrow> int \<Rightarrow> int \<Rightarrow> timestamp \<Rightarrow> db \<Rightarrow> db" where
  "MARK_RETRY i attempts delay now =
     update_event i (\<lambda>e. e\<lparr>oe_attempts := attempts, oe_next_attempt_at := now + seconds delay\<rparr>)"

definition MARK_FAILED :: "uuid \<Rightarrow> db \<Rightarrow> db" where
  "MARK_FAILED i = update_event i (\<lambda>e. e\<lparr>oe_status := OutboxFailed, oe_attempts := oe_attempts e + 1\<rparr>)"

definition publisher_backoff_seconds :: "int \<Rightarrow> int result" where
  "publisher_backoff_seconds n =
     (if n < 1 then Inl ValueError
      else if n \<ge> 7 then Inr 300
      else Inr (min (push_bit (nat (n - 1)) 5) 300))"

section \<open>The wire envelope\<close>

record BrokerRecord =
  br_topic :: string
  br_key :: "int list"
  br_value :: "int list"

definition event_text :: "string \<Rightarrow> string result" where
  "event_text v = (if v = [] then Inl OutboxSerializationError else Inr v)"

definition event_optional_text :: "string option \<Rightarrow> string option result" where
  "event_optional_text v = (case v of None \<Rightarrow> Inr None | Some s \<Rightarrow> bind_result (event_text s) (\<lambda>t. Inr (Some t)))"

definition required_positive_int :: "int \<Rightarrow> int result" where
  "required_positive_int v = (if v < 1 then Inl OutboxSerializationError else Inr v)"

definition required_nonnegative_int :: "int \<Rightarrow> int result" where
  "required_nonnegative_int v = (if v < 0 then Inl OutboxSerializationError else Inr v)"

text \<open>A stored JSON value as the Python value the driver returns.\<close>

fun wire :: "json \<Rightarrow> wjson" where
  "wire JNull = WNull"
| "wire (JBool b) = WBool b"
| "wire (JInt n) = WInt n"
| "wire (JStr s) = WStr (cps s)"
| "wire (JArr vs) = WArr (map wire vs)"
| "wire (JObj kvs) = WObj (map (\<lambda>(k, v). (cps k, wire v)) kvs)"

text \<open>\<open>json.dumps\<close> prints integers with \<open>int.__repr__\<close>, which refuses more than 4300 digits.\<close>

fun printable :: "wjson \<Rightarrow> bool" where
  "printable (WInt n) = (length (digits \<bar>n\<bar>) \<le> 4300)"
| "printable (WArr vs) = list_all printable vs"
| "printable (WObj kvs) = list_all (\<lambda>(k, v). printable v) kvs"
| "printable v = True"

definition json_dumps :: "wjson \<Rightarrow> utext result" where
  "json_dumps w = (if printable w then Inr (dumps w) else Inl ValueError)"

definition envelope :: "OutboxEvent \<Rightarrow> wjson" where
  "envelope row = WObj
     [(cps ''id'', WStr (cps (uuid_str (oe_id row)))),
      (cps ''eventType'', WStr (cps (oe_event_type row))),
      (cps ''schemaVersion'', WInt (oe_schema_version row)),
      (cps ''tenantId'', (case oe_tenant_id row of None \<Rightarrow> WNull | Some t \<Rightarrow> WStr (cps (uuid_str t)))),
      (cps ''aggregateType'', WStr (cps (oe_aggregate_type row))),
      (cps ''aggregateId'', WStr (cps (oe_aggregate_id row))),
      (cps ''payload'', wire (oe_payload row)),
      (cps ''correlationId'', WStr (cps (oe_correlation_id row))),
      (cps ''causationId'', (case oe_causation_id row of None \<Rightarrow> WNull | Some c \<Rightarrow> WStr (cps c)))]"

definition serialize_outbox_row :: "OutboxEvent \<Rightarrow> BrokerRecord result" where
  "serialize_outbox_row row =
     bind_result (event_text (oe_event_type row)) (\<lambda>event_type.
     bind_result (required_positive_int (oe_schema_version row)) (\<lambda>schema_version.
     bind_result (event_text (oe_aggregate_type row)) (\<lambda>aggregate_type.
     bind_result (event_text (oe_aggregate_id row)) (\<lambda>aggregate_id.
     bind_result (event_text (oe_correlation_id row)) (\<lambda>correlation_id.
     bind_result (event_optional_text (oe_causation_id row)) (\<lambda>causation_id.
       case oe_payload row of
         JObj _ \<Rightarrow>
           (case bind_result (json_dumps (envelope row)) utf8_encode of
              Inl e \<Rightarrow> Inl OutboxSerializationError
            | Inr value \<Rightarrow>
                bind_result (utf8_encode (cps aggregate_id)) (\<lambda>key.
                Inr \<lparr>br_topic = event_type, br_key = key, br_value = value\<rparr>))
       | _ \<Rightarrow> Inl OutboxSerializationError))))))"

section \<open>One batch\<close>

abbreviation message_of :: "BrokerRecord \<Rightarrow> BrokerMessage" where
  "message_of r \<equiv> \<lparr>bm_topic = br_topic r, bm_key = br_key r, bm_value = br_value r, bm_headers = None\<rparr>"

text \<open>
  The loop over the claimed rows.  \<open>up\<close> is the number of UPDATE statements the database answers before
  the session fails.
\<close>

fun publish_rows ::
  "(BrokerMessage \<Rightarrow> 'b \<Rightarrow> unit result \<times> 'b) \<Rightarrow> timestamp \<Rightarrow> nat \<Rightarrow> OutboxEvent list \<Rightarrow> nat \<Rightarrow> db \<Rightarrow> 'b
     \<Rightarrow> (nat \<times> db) result \<times> 'b" where
  "publish_rows publish now up [] processed d b = (Inr (processed, d), b)"
| "publish_rows publish now up (row # rows) processed d b =
     (case required_nonnegative_int (oe_attempts row) of
        Inl e \<Rightarrow> (Inl e, b)
      | Inr attempts \<Rightarrow>
          (let execute = (\<lambda>mark b'. case up of
                 0 \<Rightarrow> (Inl SQLAlchemyError, b')
               | Suc up' \<Rightarrow> publish_rows publish now up' rows (processed + 1) (mark d) b')
           in case serialize_outbox_row row of
                Inl e \<Rightarrow> if e = OutboxSerializationError then execute (MARK_FAILED (oe_id row)) b else (Inl e, b)
              | Inr record \<Rightarrow>
                  (case publish (message_of record) b of
                     (Inl e, b') \<Rightarrow>
                       if e = BrokerUnavailableError
                       then (case publisher_backoff_seconds (attempts + 1) of
                               Inl e' \<Rightarrow> (Inl e', b')
                             | Inr delay \<Rightarrow> execute (MARK_RETRY (oe_id row) (attempts + 1) delay now) b')
                       else (Inl e, b')
                   | (Inr _, b') \<Rightarrow> execute (MARK_PUBLISHED (oe_id row) now) b')))"

definition publish_due_batch ::
  "(BrokerMessage \<Rightarrow> 'b \<Rightarrow> unit result \<times> 'b) \<Rightarrow> (uuid \<Rightarrow> bool) \<Rightarrow> timestamp \<Rightarrow> nat \<Rightarrow> commit_outcome \<Rightarrow> int
     \<Rightarrow> db \<Rightarrow> 'b \<Rightarrow> nat result \<times> db \<times> 'b" where
  "publish_due_batch publish locked now up c batch_size d b =
     (if \<not> (1 \<le> batch_size \<and> batch_size \<le> 100) then (Inl ValueError, d, b)
      else (let (r, b') = publish_rows publish now up (CLAIM_DUE_EVENTS locked now (nat batch_size) d) 0 d b;
                (x, d') = in_txn c (\<lambda>_. r) d
            in (x, d', b')))"

section \<open>Serialisation\<close>

text \<open>The rows that satisfy the wire contract.\<close>

definition valid_event :: "OutboxEvent \<Rightarrow> bool" where
  "valid_event row \<longleftrightarrow> oe_event_type row \<noteq> [] \<and> 1 \<le> oe_schema_version row \<and> oe_aggregate_type row \<noteq> [] \<and>
     oe_aggregate_id row \<noteq> [] \<and> oe_correlation_id row \<noteq> [] \<and> oe_causation_id row \<noteq> Some [] \<and>
     (case oe_payload row of JObj _ \<Rightarrow> True | _ \<Rightarrow> False) \<and> printable (envelope row)"

text \<open>Keys are distinct at every level, as in a \<open>dict\<close>.\<close>

fun wf_json :: "json \<Rightarrow> bool" where
  "wf_json (JArr vs) = list_all wf_json vs"
| "wf_json (JObj kvs) = (distinct (map fst kvs) \<and> list_all (\<lambda>(k, v). wf_json v) kvs)"
| "wf_json v = True"

lemma scalar_wire [simp]: "text_json scalar (wire j)"
  by (induction j) (auto simp: list_all_iff cps_scalar)

lemma scalar_dumps: "text_json scalar w \<Longrightarrow> list_all scalar (dumps w)"
  by (rule dumps_text) (simp_all add: scalar_def)

lemma scalar_envelope: "text_json scalar (envelope row)"
  by (auto simp: envelope_def list_all_iff cps_scalar split: option.splits)

lemma utf8_encode_cps: "utf8_encode (cps s) = Inr (concat (map utf8_char (cps s)))"
  by (simp add: utf8_encode_def list_all_iff cps_scalar)

lemma serialize_valid:
  "serialize_outbox_row row =
     (if valid_event row
      then Inr \<lparr>br_topic = oe_event_type row, br_key = concat (map utf8_char (cps (oe_aggregate_id row))),
             br_value = concat (map utf8_char (dumps (envelope row)))\<rparr>
      else Inl OutboxSerializationError)"
proof -
  have "utf8_encode (dumps (envelope row)) = Inr (concat (map utf8_char (dumps (envelope row))))"
    using scalar_dumps[OF scalar_envelope] by (simp add: utf8_encode_def)
  then show ?thesis
    by (auto simp: serialize_outbox_row_def valid_event_def event_text_def required_positive_int_def event_optional_text_def
        json_dumps_def utf8_encode_cps split: option.splits json.splits)
qed

lemma plain_wire: "wf_json j \<Longrightarrow> printable (wire j) \<Longrightarrow> plain_json (wire j)"
proof (induction j)
  case (JObj kvs)
  have "inj cps" by (simp add: inj_def cps_inject)
  then have "distinct (map (cps \<circ> fst) kvs)" using JObj.prems(1) by (simp add: distinct_map comp_inj_on inj_on_subset)
  moreover have "map fst (map (\<lambda>(k, v). (cps k, wire v)) kvs) = map (cps \<circ> fst) kvs" by auto
  moreover have "plain_json (wire v)" if "(k, v) \<in> set kvs" for k v
  proof (rule JObj.IH[OF that])
    show "wf_json v" using JObj.prems(1) that by (auto simp: list_all_iff)
    show "printable (wire v)" using JObj.prems(2) that by (fastforce simp: list_all_iff)
  qed (simp add: snds.simps)
  ultimately show ?case using cps_scalar by (auto simp: list_all_iff scalar_def simp del: map_map)
qed (use cps_scalar in \<open>auto simp: list_all_iff scalar_def\<close>)

lemma serialize_round_trip:
  assumes "serialize_outbox_row row = Inr r" "wf_json (oe_payload row)"
  shows "br_topic r = oe_event_type row \<and> utf8_decode (br_key r) = Some (cps (oe_aggregate_id row)) \<and>
    (\<exists>t. utf8_decode (br_value r) = Some t \<and> loads t = Inr (sort_keys (envelope row)))"
proof -
  have v: "valid_event row" and r: "r = \<lparr>br_topic = oe_event_type row, br_key = concat (map utf8_char (cps (oe_aggregate_id row))),
      br_value = concat (map utf8_char (dumps (envelope row)))\<rparr>"
    using assms(1) by (auto simp: serialize_valid split: if_splits)
  have nonneg: "list_all (\<lambda>c. 0 \<le> c) (cps s)" for s using cps_scalar by (auto simp: list_all_iff scalar_def)
  have "printable (wire (oe_payload row))" using v by (simp add: valid_event_def envelope_def)
  then have "plain_json (wire (oe_payload row))" using plain_wire assms(2) by blast
  moreover have "length (digits \<bar>oe_schema_version row\<bar>) \<le> 4300"
    using v unfolding valid_event_def envelope_def by (simp del: abs_of_pos abs_of_nonneg)
  ultimately have "plain_json (envelope row)" using nonneg by (simp add: envelope_def cps_inject split: option.splits)
  then have "loads (dumps (envelope row)) = Inr (sort_keys (envelope row))" by (rule loads_dumps)
  moreover have "utf8_decode (concat (map utf8_char (dumps (envelope row)))) = Some (dumps (envelope row))"
    using utf8_round_trip scalar_dumps[OF scalar_envelope] by (simp add: utf8_encode_def)
  ultimately show ?thesis using utf8_round_trip[OF utf8_encode_cps] by (simp add: r)
qed

text \<open>
  The bytes of a published record decode to exactly the envelope of the row, with the members of
  every object in key order, and its topic and key are the event type and the aggregate of the row.
\<close>

theorem outbox_wire_round_trip:
  assumes "serialize_outbox_row row = Inr r" "wf_json (oe_payload row)"
  shows "br_topic r = oe_event_type row \<and> utf8_decode (br_key r) = Some (cps (oe_aggregate_id row)) \<and>
    (\<exists>t. utf8_decode (br_value r) = Some t \<and> loads t = Inr (sort_keys (envelope row)))"
  using assms by (rule serialize_round_trip)

section \<open>Retry delay\<close>

lemma backoff_capped:
  assumes "1 \<le> n"
  shows "publisher_backoff_seconds n = Inr (min (5 * 2 ^ nat (n - 1)) 300)"
proof (cases "7 \<le> n")
  case True
  then have "(2::int) ^ 6 \<le> 2 ^ nat (n - 1)" by (intro power_increasing) auto
  then show ?thesis using True by (simp add: publisher_backoff_seconds_def)
next
  case False
  then show ?thesis using assms by (simp add: publisher_backoff_seconds_def push_bit_eq_mult)
qed

section \<open>Effect of a batch\<close>

text \<open>What one batch may do to one event, given the messages the broker has at the end.\<close>

inductive event_step :: "timestamp \<Rightarrow> BrokerMessage set \<Rightarrow> OutboxEvent \<Rightarrow> OutboxEvent \<Rightarrow> bool"
  for now :: timestamp and L :: "BrokerMessage set" where
  event_published: "\<lbrakk>outbox_due now e; serialize_outbox_row e = Inr r; message_of r \<in> L\<rbrakk> \<Longrightarrow>
     event_step now L e (e\<lparr>oe_status := Published, oe_published_at := Some now\<rparr>)"
| event_retried: "\<lbrakk>outbox_due now e; valid_event e; 0 \<le> oe_attempts e\<rbrakk> \<Longrightarrow>
     event_step now L e (e\<lparr>oe_attempts := oe_attempts e + 1,
       oe_next_attempt_at := now + seconds (min (5 * 2 ^ nat (oe_attempts e)) 300)\<rparr>)"
| event_failed: "\<lbrakk>outbox_due now e; \<not> valid_event e\<rbrakk> \<Longrightarrow>
     event_step now L e (e\<lparr>oe_status := OutboxFailed, oe_attempts := oe_attempts e + 1\<rparr>)"

lemma event_step_mono: "event_step now L e e' \<Longrightarrow> L \<subseteq> L' \<Longrightarrow> event_step now L' e e'"
  by (induction rule: event_step.induct) (auto intro: event_step.intros)

lemma event_step_key: "event_step now L e e' \<Longrightarrow> oe_id e' = oe_id e \<and> oe_tenant_id e' = oe_tenant_id e"
  by (induction rule: event_step.induct) auto

lemma event_step_not_due: "event_step now L e e' \<Longrightarrow> \<not> outbox_due now e'"
proof (induction rule: event_step.induct)
  case (event_retried e)
  have "0 < min (5 * 2 ^ nat (oe_attempts e)) (300 :: int)" by simp
  then show ?case by (simp del: min_less_iff_conj)
qed auto

lemma CLAIM_DUE_EVENTS_rows:
  assumes "outbox_ok d"
  shows "set (CLAIM_DUE_EVENTS locked now n d) \<subseteq> {e \<in> set (outbox d). outbox_due now e \<and> \<not> locked (oe_id e)}"
    and "distinct (map oe_id (CLAIM_DUE_EVENTS locked now n d))" and "length (CLAIM_DUE_EVENTS locked now n d) \<le> n"
proof -
  let ?s = "sort_key (\<lambda>e. (oe_next_attempt_at e, oe_id e)) (filter (outbox_due now) (outbox d))"
  show "set (CLAIM_DUE_EVENTS locked now n d) \<subseteq> {e \<in> set (outbox d). outbox_due now e \<and> \<not> locked (oe_id e)}"
    by (auto simp: CLAIM_DUE_EVENTS_def dest: in_set_takeD)
  have "distinct (map oe_id (filter (outbox_due now) (outbox d)))"
    using assms by (simp add: outbox_ok_def distinct_map_filterI)
  then have "distinct (filter (outbox_due now) (outbox d))" "inj_on oe_id (set (filter (outbox_due now) (outbox d)))"
    by (auto simp: distinct_map)
  then have "distinct (map oe_id ?s)" by (simp add: distinct_map)
  then have "distinct (map oe_id (filter (\<lambda>e. \<not> locked (oe_id e)) ?s))" by (rule distinct_map_filterI)
  then show "distinct (map oe_id (CLAIM_DUE_EVENTS locked now n d))"
    unfolding CLAIM_DUE_EVENTS_def take_map[symmetric] by (rule distinct_take)
  show "length (CLAIM_DUE_EVENTS locked now n d) \<le> n" by (simp add: CLAIM_DUE_EVENTS_def)
qed

lemma update_event_row:
  assumes "outbox_ok d" "row \<in> set (outbox d)" "oe_status row = OutboxPending"
  shows "update_event (oe_id row) f d = d\<lparr>outbox := map (\<lambda>e. if e = row then f e else e) (outbox d)\<rparr>"
proof -
  have "inj_on oe_id (set (outbox d))" using assms(1) by (simp add: outbox_ok_def distinct_map)
  then have "(oe_id e = oe_id row \<and> oe_status e = OutboxPending) = (e = row)" if "e \<in> set (outbox d)" for e
    using assms that by (auto simp: inj_on_def)
  then show ?thesis by (simp add: update_event_def)
qed

lemma constraints_outbox:
  "sources_ok (d\<lparr>outbox := es\<rparr>) = sources_ok d" "cleanups_ok (d\<lparr>outbox := es\<rparr>) = cleanups_ok d"
  "reservations_ok (d\<lparr>outbox := es\<rparr>) = reservations_ok d" "documents_ok (d\<lparr>outbox := es\<rparr>) = documents_ok d"
  by (simp_all add: sources_ok_def source_row_ok_def cleanups_ok_def cleanup_row_ok_def[abs_def] reservations_ok_def
      reservation_row_ok_def[abs_def] documents_ok_def)

lemma outbox_ok_map:
  assumes "outbox_ok d" "\<And>e. e \<in> set (outbox d) \<Longrightarrow> oe_id (f e) = oe_id e \<and> oe_tenant_id (f e) = oe_tenant_id e"
  shows "outbox_ok (d\<lparr>outbox := map f (outbox d)\<rparr>)"
proof -
  have "map oe_id (map f (outbox d)) = map oe_id (outbox d)" using assms(2) by simp
  then have "distinct (map oe_id (map f (outbox d)))" using assms(1) unfolding outbox_ok_def by (simp only:)
  then show ?thesis using assms by (simp add: outbox_ok_def list_all_iff cong: option.case_cong)
qed

text \<open>A batch changes exactly the rows it processes, each by one step.\<close>

definition rows_advanced :: "timestamp \<Rightarrow> BrokerMessage set \<Rightarrow> OutboxEvent list \<Rightarrow> db \<Rightarrow> db \<Rightarrow> bool" where
  "rows_advanced now L rows d d' \<longleftrightarrow>
     (\<exists>f. d' = d\<lparr>outbox := map f (outbox d)\<rparr> \<and>
        (\<forall>e \<in> set (outbox d). if e \<in> set rows then event_step now L e (f e) else f e = e))"

lemma rows_advanced_Cons:
  assumes ok: "outbox_ok d" and row: "row \<in> set (outbox d)" "row \<notin> set rows" "oe_id row \<notin> oe_id ` set rows"
    and step: "event_step now L row row'" and d1: "d1 = d\<lparr>outbox := map (\<lambda>e. if e = row then row' else e) (outbox d)\<rparr>"
    and rest: "rows_advanced now L rows d1 d'"
  shows "rows_advanced now L (row # rows) d d'"
proof -
  define g where "g = (\<lambda>e. if e = row then row' else e)"
  from rest obtain f where f: "d' = d1\<lparr>outbox := map f (outbox d1)\<rparr>"
    "\<And>e. e \<in> set (outbox d1) \<Longrightarrow> if e \<in> set rows then event_step now L e (f e) else f e = e"
    unfolding rows_advanced_def by blast
  have out: "outbox d1 = map g (outbox d)" by (simp add: d1 g_def)
  have "row' \<notin> set rows" using event_step_key[OF step] row(3) by (metis imageI)
  moreover have "row' \<in> set (outbox d1)" using row(1) by (force simp: out g_def)
  ultimately have "f row' = row'" using f(2) by fastforce
  have "if e \<in> set (row # rows) then event_step now L e ((f \<circ> g) e) else (f \<circ> g) e = e" if e: "e \<in> set (outbox d)" for e
  proof (cases "e = row")
    case True
    then show ?thesis using step \<open>f row' = row'\<close> by (simp add: g_def)
  next
    case False
    then have "e \<in> set (outbox d1)" using e by (force simp: out g_def)
    then show ?thesis using f(2)[of e] False by (simp add: g_def)
  qed
  moreover have "d' = d\<lparr>outbox := map (f \<circ> g) (outbox d)\<rparr>" using f(1) by (simp add: out) (simp add: d1)
  ultimately show ?thesis unfolding rows_advanced_def by blast
qed

context event_broker
begin

lemma publish_rows_effect:
  assumes "publish_rows publish now up rows n d b = (r, b')" "outbox_ok d" "distinct (map oe_id rows)"
    "set rows \<subseteq> {e \<in> set (outbox d). outbox_due now e}"
  shows "set (log b) \<subseteq> set (log b') \<and>
    (\<forall>k d'. r = Inr (k, d') \<longrightarrow> k = n + length rows \<and> rows_advanced now (set (log b')) rows d d')"
  using assms
proof (induction rows arbitrary: up n d b)
  case Nil
  have "rows_advanced now L [] d d" for L unfolding rows_advanced_def by (rule exI[of _ id]) simp
  then show ?case using Nil by auto
next
  case (Cons row rows)
  have row: "row \<in> set (outbox d)" "outbox_due now row" "row \<notin> set rows" "oe_id row \<notin> oe_id ` set rows"
    using Cons.prems(3,4) by auto
  have cont: ?case
    if ex: "(case up of 0 \<Rightarrow> (Inl SQLAlchemyError, b1)
               | Suc up' \<Rightarrow> publish_rows publish now up' rows (n + 1) (update_event (oe_id row) f d) b1) = (r, b')"
      and b1: "set (log b) \<subseteq> set (log b1)" and st: "event_step now (set (log b1)) row (f row)" for b1 f
  proof (cases up)
    case 0
    then show ?thesis using ex b1 by auto
  next
    case (Suc up')
    define d1 where "d1 = d\<lparr>outbox := map (\<lambda>e. if e = row then f row else e) (outbox d)\<rparr>"
    have upd: "update_event (oe_id row) f d = d1"
      using update_event_row[OF Cons.prems(2) row(1)] row(2) by (auto simp: d1_def intro!: arg_cong[of _ _ "\<lambda>x. d\<lparr>outbox := x\<rparr>"])
    have ok1: "outbox_ok d1" unfolding d1_def using event_step_key[OF st] by (intro outbox_ok_map[OF Cons.prems(2)]) auto
    have sub: "set rows \<subseteq> {e \<in> set (outbox d1). outbox_due now e}"
      using Cons.prems(4) row(3) by (force simp: d1_def)
    have "publish_rows publish now up' rows (n + 1) d1 b1 = (r, b')" using ex Suc upd by simp
    note IH = Cons.IH[OF this ok1 _ sub]
    have ih: "set (log b1) \<subseteq> set (log b')"
      "\<And>k d'. r = Inr (k, d') \<Longrightarrow> k = n + 1 + length rows \<and> rows_advanced now (set (log b')) rows d1 d'"
      using IH Cons.prems(3) by auto
    have "event_step now (set (log b')) row (f row)" using st ih(1) by (rule event_step_mono)
    then have "rows_advanced now (set (log b')) (row # rows) d d'" if "rows_advanced now (set (log b')) rows d1 d'" for d'
      using rows_advanced_Cons[OF Cons.prems(2) row(1,3,4) _ d1_def that] by blast
    then show ?thesis using ih b1 by auto
  qed
  show ?case
  proof (cases "oe_attempts row < 0 \<or> \<not> valid_event row")
    case True
    then show ?thesis
    proof (cases "oe_attempts row < 0")
      case True
      then show ?thesis using Cons.prems(1) by (auto simp: required_nonnegative_int_def)
    next
      case False
      then show ?thesis using True Cons.prems(1) row(2)
        by (intro cont[of b "\<lambda>e. e\<lparr>oe_status := OutboxFailed, oe_attempts := oe_attempts e + 1\<rparr>"])
          (auto simp: required_nonnegative_int_def serialize_valid MARK_FAILED_def Let_def intro: event_failed)
    qed
  next
    case False
    then obtain rec where rec: "serialize_outbox_row row = Inr rec" by (simp add: serialize_valid)
    obtain x b1 where pub: "publish (message_of rec) b = (x, b1)" by fastforce
    have grow: "set (log b) \<subseteq> set (log b1)" by (rule log_grows[OF pub])
    show ?thesis
    proof (cases x)
      case (Inl e)
      show ?thesis
      proof (cases "e = BrokerUnavailableError")
        case True
        then show ?thesis using Cons.prems(1) False rec pub Inl row(2) grow backoff_capped[of "oe_attempts row + 1"]
          by (intro cont[of b1 "\<lambda>e. e\<lparr>oe_attempts := oe_attempts row + 1,
              oe_next_attempt_at := now + seconds (min (5 * 2 ^ nat (oe_attempts row)) 300)\<rparr>"])
            (auto simp: required_nonnegative_int_def MARK_RETRY_def Let_def intro: event_retried)
      next
        case False
        then show ?thesis using \<open>\<not> (oe_attempts row < 0 \<or> \<not> valid_event row)\<close> Cons.prems(1) rec pub Inl grow
          by (auto simp: required_nonnegative_int_def Let_def)
      qed
    next
      case (Inr u)
      then show ?thesis using Cons.prems(1) False rec pub row(2) grow accepted[of "message_of rec" b u b1]
        by (intro cont[of b1 "\<lambda>e. e\<lparr>oe_status := Published, oe_published_at := Some now\<rparr>"])
          (auto simp: required_nonnegative_int_def MARK_PUBLISHED_def Let_def intro: event_published)
    qed
  qed
qed

text \<open>A broker that only ever accepts or reports itself unavailable does not stop a batch.\<close>

lemma publish_rows_total:
  assumes "\<And>m b. bm_topic m \<noteq> [] \<Longrightarrow> fst (publish m b) \<in> {Inr (), Inl BrokerUnavailableError}"
    "list_all (\<lambda>e. 0 \<le> oe_attempts e) rows" "length rows \<le> up"
  shows "\<exists>k d'. fst (publish_rows publish now up rows n d b) = Inr (k, d')"
  using assms(2,3)
proof (induction rows arbitrary: up n d b)
  case (Cons row rows)
  then obtain up' where up: "up = Suc up'" by (cases up) auto
  have IH: "\<exists>k d'. fst (publish_rows publish now up' rows (n + 1) d1 b1) = Inr (k, d')" for d1 b1
    using Cons up by simp
  have att: "required_nonnegative_int (oe_attempts row) = Inr (oe_attempts row)"
    using Cons.prems(1) by (simp add: required_nonnegative_int_def)
  show ?case
  proof (cases "serialize_outbox_row row")
    case (Inl e)
    then show ?thesis using IH att up by (auto simp: serialize_valid split: if_splits)
  next
    case (Inr rec)
    obtain x b1 where pub: "publish (message_of rec) b = (x, b1)" by fastforce
    have "br_topic rec \<noteq> []" using Inr by (auto simp: serialize_valid valid_event_def split: if_splits)
    then have x: "x = Inr () \<or> x = Inl BrokerUnavailableError" using assms(1)[of "message_of rec" b] pub by simp
    have "0 \<le> oe_attempts row" using Cons.prems(1) by simp
    then have "publisher_backoff_seconds (oe_attempts row + 1) = Inr (min (5 * 2 ^ nat (oe_attempts row)) 300)"
      using backoff_capped[of "oe_attempts row + 1"] by simp
    with x show ?thesis using IH att up Inr pub by auto
  qed
qed simp

lemma batch_effect:
  assumes "schema_ok d" "publish_due_batch publish locked now up c n d b = (r, d', b')"
  shows "set (log b) \<subseteq> set (log b') \<and> schema_ok d' \<and>
    (d' = d \<or> rows_advanced now (set (log b')) (CLAIM_DUE_EVENTS locked now (nat n) d) d d') \<and>
    (\<forall>k. r = Inr k \<longrightarrow> k = length (CLAIM_DUE_EVENTS locked now (nat n) d) \<and>
       rows_advanced now (set (log b')) (CLAIM_DUE_EVENTS locked now (nat n) d) d d')"
proof (cases "1 \<le> n \<and> n \<le> 100")
  case True
  let ?rows = "CLAIM_DUE_EVENTS locked now (nat n) d"
  obtain x b1 where x: "publish_rows publish now up ?rows 0 d b = (x, b1)" by fastforce
  obtain y d1 where y: "in_txn c (\<lambda>_. x) d = (y, d1)" by fastforce
  have eq: "r = y" "d' = d1" "b' = b1" using assms(2) True x y by (auto simp: publish_due_batch_def)
  have ok: "outbox_ok d" using assms(1) by (simp add: schema_ok_def)
  have sub: "set ?rows \<subseteq> {e \<in> set (outbox d). outbox_due now e}" using CLAIM_DUE_EVENTS_rows(1)[OF ok] by blast
  note E = publish_rows_effect[OF x ok CLAIM_DUE_EVENTS_rows(2)[OF ok] sub]
  from y show ?thesis
  proof (cases rule: in_txn_cases)
    case unchanged
    then show ?thesis using E eq assms(1) by auto
  next
    case (committed k)
    then show ?thesis using E eq by auto
  qed
qed (use assms in \<open>auto simp: publish_due_batch_def\<close>)

end

text \<open>
  C7: Whatever the broker and the database do, a batch touches no other table and changes an event only
  by one step: a due event is marked published only if its message is in the broker's log, is rescheduled
  with the capped doubled delay, or is failed only if it cannot be serialised.
\<close>

theorem outbox_at_least_once:
  assumes "producer_ok P log" "schema_ok d"
    "publish_due_batch (publish_sync P) locked now up c n d p = (r, d', p')"
  shows "d' = d\<lparr>outbox := outbox d'\<rparr> \<and> schema_ok d' \<and>
    list_all2 (\<lambda>e e'. e' = e \<or> event_step now (set (log p')) e e') (outbox d) (outbox d')"
proof -
  from event_broker.batch_effect[OF kafka_event_broker[OF assms(1)] assms(2,3)] show ?thesis
    by (auto simp: rows_advanced_def list_all2_map2 list_all2_same split: if_splits)
qed

text \<open>
  C25: When the broker answers every call and the database commits, a batch whose size and lock view
  cover the due events processes all of them and leaves no event due.
\<close>

theorem outbox_batch_drains:
  assumes "producer_ok P log" "\<And>m p. bm_topic m \<noteq> [] \<Longrightarrow> fst (publish_sync P m p) \<in> {Inr (), Inl BrokerUnavailableError}"
    "schema_ok d" "list_all (\<lambda>e. 0 \<le> oe_attempts e) (outbox d)"
    "1 \<le> n" "n \<le> 100" "length (filter (outbox_due now) (outbox d)) \<le> min (nat n) up"
    "publish_due_batch (publish_sync P) (\<lambda>_. False) now up Committed n d p = (r, d', p')"
  shows "r = Inr (length (filter (outbox_due now) (outbox d))) \<and> filter (outbox_due now) (outbox d') = []"
proof -
  let ?rows = "CLAIM_DUE_EVENTS (\<lambda>_. False) now (nat n) d"
  note kp = kafka_event_broker[OF assms(1)]
  have len: "length ?rows = length (filter (outbox_due now) (outbox d))" and
    rows: "set ?rows = set (filter (outbox_due now) (outbox d))"
    using assms(7) by (simp_all add: CLAIM_DUE_EVENTS_def)
  have "list_all (\<lambda>e. 0 \<le> oe_attempts e) ?rows" using assms(4) rows by (auto simp: list_all_iff)
  moreover have "length ?rows \<le> up" using len assms(7) by simp
  ultimately obtain k d1 p1 where x: "publish_rows (publish_sync P) now up ?rows 0 d p = (Inr (k, d1), p1)"
    using event_broker.publish_rows_total[OF kp assms(2), of ?rows up now 0 d p]
    by (metis fst_conv surj_pair)
  have ok: "outbox_ok d" using assms(3) by (simp add: schema_ok_def)
  have sub: "set ?rows \<subseteq> {e \<in> set (outbox d). outbox_due now e}" using rows by auto
  have adv: "rows_advanced now (set (log p1)) ?rows d d1" "k = length ?rows"
    using event_broker.publish_rows_effect[OF kp x ok CLAIM_DUE_EVENTS_rows(2)[OF ok] sub] by auto
  from adv(1) obtain f where f: "d1 = d\<lparr>outbox := map f (outbox d)\<rparr>"
    "\<And>e. e \<in> set (outbox d) \<Longrightarrow> if e \<in> set ?rows then event_step now (set (log p1)) e (f e) else f e = e"
    unfolding rows_advanced_def by blast
  have keys: "oe_id (f e) = oe_id e \<and> oe_tenant_id (f e) = oe_tenant_id e" if "e \<in> set (outbox d)" for e
    using f(2)[OF that] event_step_key by (metis (full_types))
  have "schema_ok d1" using assms(3) outbox_ok_map[OF ok keys] unfolding f(1)
    by (simp add: schema_ok_def constraints_outbox)
  then have res: "r = Inr k" "d' = d1" using assms(5,6,8) x by (auto simp: publish_due_batch_def in_txn_def)
  have "\<not> outbox_due now (f e)" if "e \<in> set (outbox d)" for e
    using f(2)[OF that] rows that event_step_not_due[of now _ e "f e"] by (auto split: if_splits)
  then have "filter (outbox_due now) (outbox d') = []" unfolding res(2) f(1) by (auto simp: filter_empty_conv)
  then show ?thesis using res(1) adv(2) len by simp
qed

section \<open>A concrete batch\<close>

definition sample_event :: OutboxEvent where
  "sample_event = \<lparr>oe_id = 7, oe_tenant_id = Some 1, oe_event_type = ''serviq.knowledge.sync.v1'', oe_schema_version = 1,
     oe_aggregate_type = ''knowledge_source'', oe_aggregate_id = ''s'', oe_payload = JObj [(''syncVersion'', JInt 1)],
     oe_correlation_id = ''c'', oe_causation_id = None, oe_status = OutboxPending, oe_attempts = 0,
     oe_next_attempt_at = 0, oe_published_at = None\<rparr>"

definition outbox_db :: db where
  "outbox_db = sample_db\<lparr>outbox := [sample_event]\<rparr>"

lemma sample_event_valid: "valid_event sample_event"
  by (simp add: valid_event_def envelope_def sample_event_def digits.simps)

lemma outbox_db_ok: "schema_ok outbox_db"
  by (simp add: outbox_db_def sample_db_def empty_db_def sample_event_def sample_tenant_def sample_user_def constraint_defs tenant_row_ok_def)

theorem outbox_wire_round_trip_witness:
  "\<exists>r. serialize_outbox_row sample_event = Inr r \<and> utf8_decode (br_key r) = Some (cps ''s'') \<and>
    (\<exists>t. utf8_decode (br_value r) = Some t \<and> loads t = Inr (sort_keys (envelope sample_event)))"
proof -
  have wf: "wf_json (oe_payload sample_event)" by (simp add: sample_event_def)
  obtain r where r: "serialize_outbox_row sample_event = Inr r" using sample_event_valid by (simp add: serialize_valid)
  from outbox_wire_round_trip[OF r wf] r show ?thesis by (auto simp: sample_event_def)
qed

lemma sample_batch:
  "publish_due_batch (publish_sync list_producer) (\<lambda>_. False) 10 (Suc 4) Committed 20 outbox_db [] =
     (Inr 1, outbox_db\<lparr>outbox := [sample_event\<lparr>oe_status := Published, oe_published_at := Some 10\<rparr>]\<rparr>,
      [\<lparr>bm_topic = ''serviq.knowledge.sync.v1'', bm_key = concat (map utf8_char (cps ''s'')),
         bm_value = concat (map utf8_char (dumps (envelope sample_event))), bm_headers = None\<rparr>])"
proof -
  have due: "CLAIM_DUE_EVENTS (\<lambda>_. False) 10 20 outbox_db = [sample_event]"
    by (simp add: CLAIM_DUE_EVENTS_def outbox_db_def sample_event_def)
  have "schema_ok (outbox_db\<lparr>outbox := [sample_event\<lparr>oe_status := Published, oe_published_at := Some 10\<rparr>]\<rparr>)"
    using outbox_db_ok by (simp add: outbox_db_def sample_db_def empty_db_def sample_event_def sample_tenant_def
        sample_user_def constraint_defs tenant_row_ok_def)
  moreover have "MARK_PUBLISHED (oe_id sample_event) 10 outbox_db =
      outbox_db\<lparr>outbox := [sample_event\<lparr>oe_status := Published, oe_published_at := Some 10\<rparr>]\<rparr>"
    by (simp add: MARK_PUBLISHED_def update_event_def outbox_db_def sample_event_def)
  moreover have "oe_attempts sample_event = 0" "oe_event_type sample_event = ''serviq.knowledge.sync.v1''" "oe_aggregate_id sample_event = ''s''"
    by (simp_all add: sample_event_def)
  ultimately show ?thesis using sample_event_valid
    by (simp add: publish_due_batch_def due serialize_valid publish_list_producer required_nonnegative_int_def in_txn_def)
qed

theorem outbox_at_least_once_witness:
  "\<exists>d' p'. publish_due_batch (publish_sync list_producer) (\<lambda>_. False) 10 (Suc 4) Committed 20 outbox_db [] = (Inr 1, d', p') \<and>
    length p' = 1 \<and> list_all2 (\<lambda>e e'. e' = e \<or> event_step 10 (set p') e e') (outbox outbox_db) (outbox d')"
  using outbox_at_least_once[OF list_producer_ok outbox_db_ok sample_batch] sample_batch by simp

theorem outbox_batch_drains_witness:
  "filter (outbox_due 10) (outbox outbox_db) \<noteq> [] \<and>
   (let (r, d', p') = publish_due_batch (publish_sync list_producer) (\<lambda>_. False) 10 (Suc 4) Committed 20 outbox_db []
    in r = Inr 1 \<and> filter (outbox_due 10) (outbox d') = [])"
proof -
  have one: "length (filter (outbox_due 10) (outbox outbox_db)) = 1" by (simp add: outbox_db_def sample_event_def)
  have "list_all (\<lambda>e. 0 \<le> oe_attempts e) (outbox outbox_db)" by (simp add: outbox_db_def sample_event_def)
  from outbox_batch_drains[OF list_producer_ok _ outbox_db_ok this _ _ _ sample_batch] one show ?thesis
    unfolding sample_batch by (auto simp: publish_list_producer)
qed

end
