(* ===== verification/Tenancy.thy ===== *)
theory Tenancy
  imports Database "HOL-Library.Char_ord" "HOL-Library.List_Lexorder"
begin

text \<open>
  \<open>services/api/app/modules/tenancy\<close>: membership lookup, effective permissions and the activation
  of a membership by an accepted invitation (\<open>repository.py\<close>, \<open>service.py\<close>).  The identifier and
  the creation time of a new membership row are chosen by the database and are arguments.
\<close>

section \<open>Repository\<close>

definition find_membership :: "uuid \<Rightarrow> uuid \<Rightarrow> db \<Rightarrow> Membership option result" where
  "find_membership t u d =
     one_or_none (filter (\<lambda>m. mb_tenant_id m = t \<and> mb_user_id m = u) (memberships d))"

definition list_active_tenant_ids_for_user :: "uuid \<Rightarrow> db \<Rightarrow> uuid list" where
  "list_active_tenant_ids_for_user u d =
     sort (map mb_tenant_id (filter (\<lambda>m. mb_user_id m = u \<and> mb_status m = Active) (memberships d)))"

definition find_membership_for_update :: "uuid \<Rightarrow> uuid \<Rightarrow> db \<Rightarrow> Membership option result" where
  "find_membership_for_update t u d =
     one_or_none (filter (\<lambda>m. mb_tenant_id m = t \<and> mb_user_id m = u) (memberships d))"

definition add_invited_membership ::
  "uuid \<Rightarrow> timestamp \<Rightarrow> uuid \<Rightarrow> uuid \<Rightarrow> uuid \<Rightarrow> Membership" where
  "add_invited_membership mid db_now t u invitation =
     \<lparr>mb_id = mid, mb_tenant_id = t, mb_user_id = u, mb_status = Active,
      mb_created_by_invitation_id = Some invitation, mb_created_at = db_now, mb_updated_at = db_now\<rparr>"

definition list_membership_role_ids :: "uuid \<Rightarrow> db \<Rightarrow> uuid list" where
  "list_membership_role_ids mid d =
     map mr_role_id (filter (\<lambda>m. mr_membership_id m = mid) (membership_roles d))"

definition add_membership_role :: "uuid \<Rightarrow> uuid \<Rightarrow> db \<Rightarrow> db" where
  "add_membership_role mid rid d =
     d\<lparr>membership_roles := membership_roles d @ [\<lparr>mr_membership_id = mid, mr_role_id = rid\<rparr>]\<rparr>"

definition approved_role :: "uuid \<Rightarrow> Role \<Rightarrow> bool" where
  "approved_role t r \<longleftrightarrow> ro_tenant_id r = Some t \<or> (ro_tenant_id r = None \<and> ro_is_system r)"

definition list_effective_permission_keys :: "uuid \<Rightarrow> uuid \<Rightarrow> db \<Rightarrow> string list" where
  "list_effective_permission_keys mid t d =
     sort (remdups
       [rp_permission_key p. p \<leftarrow> role_permissions d, m \<leftarrow> membership_roles d, mr_role_id m = rp_role_id p,
          r \<leftarrow> roles d, ro_id r = mr_role_id m, mr_membership_id m = mid, approved_role t r])"

section \<open>Service\<close>

record ResolvedTenantMembership =
  rm_membership_id :: uuid
  rm_tenant_id :: uuid
  rm_user_id :: uuid
  rm_status :: membership_status
  rm_permissions :: "string list"

definition resolve_tenant_membership :: "uuid \<Rightarrow> uuid \<Rightarrow> db \<Rightarrow> ResolvedTenantMembership result" where
  "resolve_tenant_membership u t d =
     bind_result (find_membership t u d) (\<lambda>found.
       case found of
         None \<Rightarrow> Inl TenantMembershipAccessError
       | Some m \<Rightarrow>
           if mb_status m \<noteq> Active then Inl TenantMembershipAccessError
           else Inr \<lparr>rm_membership_id = mb_id m, rm_tenant_id = mb_tenant_id m, rm_user_id = mb_user_id m,
                     rm_status = mb_status m,
                     rm_permissions = list_effective_permission_keys (mb_id m) t d\<rparr>)"

definition resolve_default_active_tenant_id :: "uuid \<Rightarrow> db \<Rightarrow> uuid option" where
  "resolve_default_active_tenant_id u d =
     (let tenant_ids = list_active_tenant_ids_for_user u d
      in if length tenant_ids = 1 then Some (tenant_ids ! 0) else None)"

definition save_membership :: "Membership \<Rightarrow> db \<Rightarrow> db" where
  "save_membership m d = d\<lparr>memberships := map (\<lambda>x. if mb_id x = mb_id m then m else x) (memberships d)\<rparr>"

text \<open>
  \<open>MembershipStatus\<close> has two values, so the branch for a status other than \<open>suspended\<close> and
  \<open>active\<close> is the last one of the case analysis and raises for no row.
\<close>

definition activate_row :: "uuid \<Rightarrow> timestamp \<Rightarrow> uuid \<Rightarrow> uuid \<Rightarrow> uuid \<Rightarrow> timestamp \<Rightarrow> Membership tx" where
  "activate_row mid db_now t u invitation now =
     tx_bind (tx_query (find_membership_for_update t u)) (\<lambda>found.
       case found of
         None \<Rightarrow>
           (let m = add_invited_membership mid db_now t u invitation
            in tx_bind (tx_write (\<lambda>d. d\<lparr>memberships := memberships d @ [m]\<rparr>)) (\<lambda>_.
               tx_bind flush (\<lambda>_. tx_return m)))
       | Some m \<Rightarrow>
           if mb_status m = Suspended
           then (let m' = m\<lparr>mb_status := Active, mb_updated_at := now\<rparr>
                 in tx_bind (tx_write (save_membership m')) (\<lambda>_.
                    tx_bind flush (\<lambda>_. tx_return m')))
           else if mb_status m \<noteq> Active then tx_raise TenantMembershipAccessError
           else tx_return m)"

definition activate_membership_from_invitation ::
  "uuid \<Rightarrow> timestamp \<Rightarrow> uuid \<Rightarrow> uuid \<Rightarrow> uuid \<Rightarrow> uuid list \<Rightarrow> timestamp \<Rightarrow> Membership tx" where
  "activate_membership_from_invitation mid db_now t u invitation role_ids now =
     tx_bind (activate_row mid db_now t u invitation now) (\<lambda>m.
     tx_bind (tx_read (list_membership_role_ids (mb_id m))) (\<lambda>existing.
     tx_bind (tx_write (fold (add_membership_role (mb_id m)) (filter (\<lambda>r. r \<notin> set existing) role_ids))) (\<lambda>_.
     tx_bind flush (\<lambda>_. tx_return m))))"

section \<open>Membership resolution\<close>

lemma find_membership_iff:
  assumes "memberships_ok d"
  shows "find_membership t u d = Inr (Some m) \<longleftrightarrow>
     m \<in> set (memberships d) \<and> mb_tenant_id m = t \<and> mb_user_id m = u"
proof
  assume "find_membership t u d = Inr (Some m)"
  from one_or_none_filter[OF this[unfolded find_membership_def]]
  show "m \<in> set (memberships d) \<and> mb_tenant_id m = t \<and> mb_user_id m = u" .
next
  assume m: "m \<in> set (memberships d) \<and> mb_tenant_id m = t \<and> mb_user_id m = u"
  have "distinct (map (\<lambda>r. (mb_tenant_id r, mb_user_id r)) (memberships d))"
    using assms by (simp add: memberships_ok_def)
  from filter_key_unique[OF this, of m "\<lambda>_. True"] m
  show "find_membership t u d = Inr (Some m)"
    by (simp add: find_membership_def one_or_none_Some)
qed

lemma find_membership_total:
  assumes "memberships_ok d"
  shows "\<exists>r. find_membership t u d = Inr r"
proof (cases "filter (\<lambda>m. mb_tenant_id m = t \<and> mb_user_id m = u) (memberships d)")
  case Nil
  then show ?thesis by (simp add: find_membership_def)
next
  case (Cons m ms)
  then have "m \<in> set (filter (\<lambda>m. mb_tenant_id m = t \<and> mb_user_id m = u) (memberships d))" by simp
  then show ?thesis using find_membership_iff[OF assms, of t u m] by auto
qed

lemma list_effective_permission_keys_iff:
  "k \<in> set (list_effective_permission_keys mid t d) \<longleftrightarrow>
     (\<exists>p \<in> set (role_permissions d). rp_permission_key p = k \<and>
        (\<exists>m \<in> set (membership_roles d). mr_membership_id m = mid \<and> mr_role_id m = rp_role_id p \<and>
           (\<exists>r \<in> set (roles d). ro_id r = rp_role_id p \<and> approved_role t r)))"
  unfolding list_effective_permission_keys_def by (auto split: if_splits)

text \<open>
  C15: A user is resolved in a tenant exactly when the tenant's own membership row of that user is
  active.  The resolved permissions are, without duplicates and in order, the keys granted by
  roles assigned to that membership which belong to the tenant or are global system roles; a role
  of another tenant contributes nothing.
\<close>

theorem resolve_tenant_membership_exact:
  assumes "memberships_ok d"
  shows "resolve_tenant_membership u t d = Inr r \<longleftrightarrow>
     (\<exists>m \<in> set (memberships d). mb_tenant_id m = t \<and> mb_user_id m = u \<and> mb_status m = Active \<and>
        rm_membership_id r = mb_id m \<and> rm_tenant_id r = t \<and> rm_user_id r = u \<and> rm_status r = Active \<and>
        sorted_wrt (<) (rm_permissions r) \<and>
        (\<forall>k. k \<in> set (rm_permissions r) \<longleftrightarrow>
           (\<exists>p \<in> set (role_permissions d). rp_permission_key p = k \<and>
              (\<exists>x \<in> set (membership_roles d). mr_membership_id x = mb_id m \<and> mr_role_id x = rp_role_id p \<and>
                 (\<exists>ro \<in> set (roles d). ro_id ro = rp_role_id p \<and>
                    (ro_tenant_id ro = Some t \<or> (ro_tenant_id ro = None \<and> ro_is_system ro)))))))"
    (is "?L \<longleftrightarrow> (\<exists>m \<in> set (memberships d). ?R m)")
proof -
  have keys: "sorted_wrt (<) (list_effective_permission_keys mid t d)" for mid
    unfolding list_effective_permission_keys_def by (simp add: strict_sorted_iff)
  have perms: "(sorted_wrt (<) ps \<and> (\<forall>k. k \<in> set ps \<longleftrightarrow>
           (\<exists>p \<in> set (role_permissions d). rp_permission_key p = k \<and>
              (\<exists>x \<in> set (membership_roles d). mr_membership_id x = mid \<and> mr_role_id x = rp_role_id p \<and>
                 (\<exists>ro \<in> set (roles d). ro_id ro = rp_role_id p \<and>
                    (ro_tenant_id ro = Some t \<or> (ro_tenant_id ro = None \<and> ro_is_system ro)))))))
      \<longleftrightarrow> ps = list_effective_permission_keys mid t d" for ps mid
    unfolding list_effective_permission_keys_iff[unfolded approved_role_def, symmetric]
    using keys[of mid] strict_sorted_equal by blast
  have "?L \<longleftrightarrow> (\<exists>m \<in> set (memberships d). mb_tenant_id m = t \<and> mb_user_id m = u \<and> mb_status m = Active \<and>
      r = \<lparr>rm_membership_id = mb_id m, rm_tenant_id = t, rm_user_id = u, rm_status = Active,
           rm_permissions = list_effective_permission_keys (mb_id m) t d\<rparr>)"
    using find_membership_iff[OF assms, of t u]
    by (auto simp: resolve_tenant_membership_def result_simps split: option.splits if_splits)
  also have "\<dots> \<longleftrightarrow> (\<exists>m \<in> set (memberships d). ?R m)"
  proof (intro bex_cong refl)
    fix m
    show "(mb_tenant_id m = t \<and> mb_user_id m = u \<and> mb_status m = Active \<and>
        r = \<lparr>rm_membership_id = mb_id m, rm_tenant_id = t, rm_user_id = u, rm_status = Active,
           rm_permissions = list_effective_permission_keys (mb_id m) t d\<rparr>) = ?R m"
      unfolding perms by (cases r) auto
  qed
  finally show ?thesis .
qed

definition tenancy_db :: db where
  "tenancy_db = sample_db\<lparr>
     tenants := [sample_tenant, sample_tenant\<lparr>og_id := 7, og_slug := ''other''\<rparr>],
     memberships := [\<lparr>mb_id = 10, mb_tenant_id = 1, mb_user_id = 2, mb_status = Active,
       mb_created_by_invitation_id = None, mb_created_at = 0, mb_updated_at = 0\<rparr>],
     roles := [\<lparr>ro_id = 20, ro_tenant_id = None, ro_key = ''admin'', ro_display_name = ''Admin'', ro_is_system = True\<rparr>,
               \<lparr>ro_id = 21, ro_tenant_id = Some 7, ro_key = ''foreign'', ro_display_name = ''Foreign'', ro_is_system = False\<rparr>],
     role_permissions := [\<lparr>rp_role_id = 20, rp_permission_key = ''knowledge.sources.manage''\<rparr>,
                          \<lparr>rp_role_id = 21, rp_permission_key = ''members.manage''\<rparr>],
     membership_roles := [\<lparr>mr_membership_id = 10, mr_role_id = 20\<rparr>, \<lparr>mr_membership_id = 10, mr_role_id = 21\<rparr>]\<rparr>"

theorem resolve_tenant_membership_exact_witness:
  "memberships_ok tenancy_db \<and>
   (\<exists>r. resolve_tenant_membership 2 1 tenancy_db = Inr r \<and> rm_permissions r = [''knowledge.sources.manage''] \<and>
        sorted_wrt (<) (rm_permissions r))"
proof -
  let ?r = "\<lparr>rm_membership_id = 10, rm_tenant_id = 1, rm_user_id = 2, rm_status = Active,
     rm_permissions = [''knowledge.sources.manage'']\<rparr>"
  have ok: "memberships_ok tenancy_db" by code_simp
  have run: "resolve_tenant_membership 2 1 tenancy_db = Inr ?r" by code_simp
  have "sorted_wrt (<) (rm_permissions ?r)"
    using iffD1[OF resolve_tenant_membership_exact[OF ok] run] by blast
  with ok run show ?thesis by auto
qed

section \<open>Activation by invitation\<close>

lemma fold_add_membership_role:
  "fold (add_membership_role mid) rs d =
     d\<lparr>membership_roles := membership_roles d @ map (\<lambda>r. \<lparr>mr_membership_id = mid, mr_role_id = r\<rparr>) rs\<rparr>"
  by (induction rs arbitrary: d) (simp_all add: add_membership_role_def)

lemma activate_row_effect:
  assumes "activate_row mid db_now t u invitation now d = Inr (m, d')"
  shows "mb_status m = Active \<and> mb_tenant_id m = t \<and> mb_user_id m = u \<and> m \<in> set (memberships d') \<and>
    (\<forall>x \<in> set (memberships d). mb_id x \<noteq> mb_id m \<longrightarrow> x \<in> set (memberships d')) \<and>
    (\<forall>x \<in> set (memberships d'). x \<noteq> m \<longrightarrow> x \<in> set (memberships d)) \<and>
    membership_roles d' = membership_roles d \<and> roles d' = roles d \<and> role_permissions d' = role_permissions d"
proof -
  have found: "m' \<in> set (memberships d) \<and> mb_tenant_id m' = t \<and> mb_user_id m' = u"
    if "find_membership_for_update t u d = Inr (Some m')" for m'
    using one_or_none_filter[OF that[unfolded find_membership_for_update_def]] .
  obtain r where q: "find_membership_for_update t u d = Inr r"
    using assms by (auto simp: activate_row_def result_simps)
  show ?thesis
  proof (cases r)
    case None
    then show ?thesis
      using assms q by (auto simp: activate_row_def result_simps Let_def add_invited_membership_def)
  next
    case (Some m')
    show ?thesis
    proof (cases "mb_status m'")
      case Active
      then show ?thesis using assms q Some found by (auto simp: activate_row_def result_simps Let_def)
    next
      case Suspended
      then show ?thesis
        using assms q Some found
        by (auto simp: activate_row_def result_simps Let_def save_membership_def image_iff)
    qed
  qed
qed

text \<open>
  Activation leaves the row of the invited user with an active status and touches no other membership.
\<close>

lemma activate_membership_effect:
  assumes "activate_membership_from_invitation mid db_now t u invitation role_ids now d = Inr (m, d')"
  shows "mb_status m = Active \<and> mb_tenant_id m = t \<and> mb_user_id m = u \<and> m \<in> set (memberships d') \<and>
    set (list_membership_role_ids (mb_id m) d') = set (list_membership_role_ids (mb_id m) d) \<union> set role_ids \<and>
    (\<forall>x. mb_id x \<noteq> mb_id m \<longrightarrow>
       (x \<in> set (memberships d') \<longleftrightarrow> x \<in> set (memberships d)) \<and>
       list_membership_role_ids (mb_id x) d' = list_membership_role_ids (mb_id x) d) \<and>
    schema_ok d'"
proof -
  from assms obtain d1 where row: "activate_row mid db_now t u invitation now d = Inr (m, d1)"
    and d': "d' = fold (add_membership_role (mb_id m))
       (filter (\<lambda>r. r \<notin> set (list_membership_role_ids (mb_id m) d1)) role_ids) d1" and ok: "schema_ok d'"
    by (auto simp: activate_membership_from_invitation_def result_simps)
  note e = activate_row_effect[OF row]
  have mem: "memberships d' = memberships d1"
    and roles: "membership_roles d' = membership_roles d @ map (\<lambda>r. \<lparr>mr_membership_id = mb_id m, mr_role_id = r\<rparr>)
      (filter (\<lambda>r. r \<notin> set (list_membership_role_ids (mb_id m) d1)) role_ids)"
    using e by (auto simp: d' fold_add_membership_role)
  have same: "list_membership_role_ids i d1 = list_membership_role_ids i d" for i
    using e by (simp add: list_membership_role_ids_def)
  have "set (list_membership_role_ids (mb_id m) d') = set (list_membership_role_ids (mb_id m) d) \<union> set role_ids"
    unfolding same[symmetric] using same by (auto simp: list_membership_role_ids_def roles image_iff)
  moreover have "list_membership_role_ids i d' = list_membership_role_ids i d" if "i \<noteq> mb_id m" for i
    using that by (simp add: list_membership_role_ids_def roles filter_map o_def)
  moreover have "x \<in> set (memberships d') \<longleftrightarrow> x \<in> set (memberships d)" if "mb_id x \<noteq> mb_id m" for x
    using e that unfolding mem by metis
  ultimately show ?thesis using e ok mem by simp
qed

text \<open>A row that had the identifier of the activated membership belonged to the same tenant.\<close>

lemma activate_row_tenant:
  assumes run: "activate_row mid db_now t u invitation now d = Inr (m, d')" and ok: "memberships_ok d"
    and x: "x \<in> set (memberships d)" "mb_id x = mb_id m"
  shows "mb_tenant_id x = t"
proof -
  obtain found where q: "find_membership_for_update t u d = Inr found"
    using run by (auto simp: activate_row_def result_simps)
  show ?thesis
  proof (cases found)
    case None
    with run q have "schema_ok (d\<lparr>memberships := memberships d @ [m]\<rparr>)"
      by (auto simp: activate_row_def result_simps Let_def)
    from schema_ok_memberships[OF this] have "mb_id m \<notin> mb_id ` set (memberships d)" by (simp add: memberships_ok_def)
    with x show ?thesis by (metis imageI)
  next
    case (Some y)
    then have y: "y \<in> set (memberships d) \<and> mb_tenant_id y = t \<and> mb_user_id y = u"
      using one_or_none_filter[OF q[unfolded Some find_membership_for_update_def]] by simp
    have "mb_id m = mb_id y" using run q Some by (auto simp: activate_row_def result_simps Let_def split: if_splits)
    with x y ok show ?thesis by (auto simp: memberships_ok_def distinct_map dest: inj_onD)
  qed
qed

text \<open>
  Accepting an invitation leaves the invited user with an active membership of the inviting
  tenant that holds its previous roles and the invited ones and no others.  Memberships with
  another identifier and their role assignments are the same before and after.
\<close>

theorem activate_membership_exact:
  assumes "activate_membership_from_invitation mid db_now t u invitation role_ids now d = Inr (m, d')"
  shows "mb_status m = Active \<and> mb_tenant_id m = t \<and> mb_user_id m = u \<and> m \<in> set (memberships d') \<and>
    set (list_membership_role_ids (mb_id m) d') = set (list_membership_role_ids (mb_id m) d) \<union> set role_ids \<and>
    (\<forall>x. mb_id x \<noteq> mb_id m \<longrightarrow>
       (x \<in> set (memberships d') \<longleftrightarrow> x \<in> set (memberships d)) \<and>
       list_membership_role_ids (mb_id x) d' = list_membership_role_ids (mb_id x) d) \<and>
    schema_ok d'"
  using assms by (rule activate_membership_effect)

theorem activate_membership_exact_witness:
  "\<exists>m d'. activate_membership_from_invitation 10 5 1 2 9 [21, 20] 6
     (tenancy_db\<lparr>memberships := map (\<lambda>m. m\<lparr>mb_status := Suspended\<rparr>) (memberships tenancy_db),
                 membership_roles := [\<lparr>mr_membership_id = 10, mr_role_id = 20\<rparr>]\<rparr>) = Inr (m, d') \<and>
     set (list_membership_role_ids (mb_id m) d') = {20, 21}"
proof -
  let ?d = "tenancy_db\<lparr>memberships := map (\<lambda>m. m\<lparr>mb_status := Suspended\<rparr>) (memberships tenancy_db),
                 membership_roles := [\<lparr>mr_membership_id = 10, mr_role_id = 20\<rparr>]\<rparr>"
  let ?m = "\<lparr>mb_id = 10, mb_tenant_id = 1, mb_user_id = 2, mb_status = Active,
       mb_created_by_invitation_id = None, mb_created_at = 0, mb_updated_at = 6\<rparr>"
  have run: "activate_membership_from_invitation 10 5 1 2 9 [21, 20] 6 ?d = Inr (?m,
     tenancy_db\<lparr>memberships := [?m],
       membership_roles := [\<lparr>mr_membership_id = 10, mr_role_id = 20\<rparr>, \<lparr>mr_membership_id = 10, mr_role_id = 21\<rparr>]\<rparr>)"
    by code_simp
  have "set (list_membership_role_ids 10 ?d) = {20}" by code_simp
  then show ?thesis using activate_membership_exact[OF run] run by force
qed

end
