(* ===== verification/Knowledge_Service.thy ===== *)
theory Knowledge_Service
  imports Tenancy Upload_Cleanup Uploads
begin

text \<open>
  \<open>services/api/app/modules/knowledge/service.py\<close>: registration, sync start and the file upload
  path.  A function that runs several transactions and storage calls threads the database and the
  bucket; how the database answers each transaction, the clock readings and the values of
  \<open>uuid4()\<close> are collected in one environment record per function.
\<close>

section \<open>Permission, views, correlation\<close>

definition KNOWLEDGE_SOURCE_MANAGE_PERMISSION :: string where
  "KNOWLEDGE_SOURCE_MANAGE_PERMISSION = ''knowledge.sources.manage''"

definition KNOWLEDGE_SYNC_EVENT_TYPE :: string where
  "KNOWLEDGE_SYNC_EVENT_TYPE = ''serviq.knowledge.sync.v1''"

definition KNOWLEDGE_SYNC_AGGREGATE_TYPE :: string where
  "KNOWLEDGE_SYNC_AGGREGATE_TYPE = ''knowledge_source''"

definition require_permission :: "uuid \<Rightarrow> uuid \<Rightarrow> db \<Rightarrow> unit result" where
  "require_permission u t d =
     (case resolve_tenant_membership u t d of
        Inl e \<Rightarrow> if e = TenantMembershipAccessError then Inl KnowledgeSourceForbiddenError else Inl e
      | Inr m \<Rightarrow>
          if KNOWLEDGE_SOURCE_MANAGE_PERMISSION \<notin> set (rm_permissions m) then Inl KnowledgeSourceForbiddenError
          else Inr ())"

definition normalize_correlation_id :: "uuid \<Rightarrow> string option \<Rightarrow> string" where
  "normalize_correlation_id fresh request_id =
     (case request_id of
        None \<Rightarrow> uuid_str fresh
      | Some r \<Rightarrow>
          (let candidate = strip r
           in if 1 \<le> length candidate \<and> length candidate \<le> 128 \<and> list_all (\<lambda>c. 33 \<le> ord c \<and> ord c \<le> 126) candidate
              then candidate else uuid_str fresh))"

record KnowledgeSourceView =
  kv_id :: uuid
  kv_source_type :: source_type
  kv_name :: string
  kv_source_uri :: "string option"
  kv_access_scope :: access_scope
  kv_status :: source_status
  kv_sync_version :: int
  kv_last_synced_at :: "timestamp option"
  kv_last_error_code :: "string option"
  kv_created_at :: timestamp
  kv_updated_at :: timestamp

definition to_view :: "KnowledgeSource \<Rightarrow> KnowledgeSourceView" where
  "to_view s =
     \<lparr>kv_id = ks_id s, kv_source_type = ks_source_type s, kv_name = ks_name s, kv_source_uri = ks_source_uri s,
      kv_access_scope = ks_access_scope s, kv_status = ks_status s, kv_sync_version = ks_sync_version s,
      kv_last_synced_at = ks_last_synced_at s, kv_last_error_code = ks_last_error_code s,
      kv_created_at = ks_created_at s, kv_updated_at = ks_updated_at s\<rparr>"

section \<open>Listing, registration, sync start\<close>

definition list_sources :: "uuid \<Rightarrow> uuid \<Rightarrow> db \<Rightarrow> KnowledgeSourceView list result" where
  "list_sources u t d =
     bind_result (require_permission u t d) (\<lambda>_. Inr (map to_view (list_knowledge_sources t d)))"

record KnowledgeSourceCreateRequest =
  cr_source_type :: source_type
  cr_name :: string
  cr_source_uri :: string
  cr_access_scope :: access_scope

definition create_source_body ::
  "uuid \<Rightarrow> uuid \<Rightarrow> KnowledgeSourceCreateRequest \<Rightarrow> timestamp \<Rightarrow> uuid \<Rightarrow> KnowledgeSourceView tx" where
  "create_source_body u t request now sid =
     tx_bind (tx_query (require_permission u t)) (\<lambda>_.
     tx_bind (assert_source_capacity t now) (\<lambda>_.
     let source = new_knowledge_source sid t (cr_source_type request) (cr_name request) (cr_source_uri request)
                    (cr_access_scope request) u now in
     tx_bind (tx_write (add_source source)) (\<lambda>_.
     tx_bind flush (\<lambda>_. tx_return (to_view source)))))"

definition create_source ::
  "commit_outcome \<Rightarrow> uuid \<Rightarrow> uuid \<Rightarrow> KnowledgeSourceCreateRequest \<Rightarrow> timestamp \<Rightarrow> uuid \<Rightarrow> db
     \<Rightarrow> KnowledgeSourceView result \<times> db" where
  "create_source co u t request now sid d = in_txn co (create_source_body u t request now sid) d"

definition sync_payload :: "uuid \<Rightarrow> uuid \<Rightarrow> int \<Rightarrow> json" where
  "sync_payload t sid version =
     JObj [(''tenantId'', JStr (uuid_str t)), (''sourceId'', JStr (uuid_str sid)), (''syncVersion'', JInt version)]"

definition start_source_sync_body ::
  "uuid \<Rightarrow> uuid \<Rightarrow> uuid \<Rightarrow> string \<Rightarrow> timestamp \<Rightarrow> uuid \<Rightarrow> timestamp \<Rightarrow> KnowledgeSourceView tx" where
  "start_source_sync_body u t sid correlation_id now event_id db_now =
     tx_bind (tx_query (require_permission u t)) (\<lambda>_.
     tx_bind (tx_query (get_knowledge_source_for_update t sid)) (\<lambda>found.
       case found of
         None \<Rightarrow> tx_raise KnowledgeSourceNotFoundError
       | Some s \<Rightarrow>
           if ks_status s = Disabled then tx_raise KnowledgeSourceDisabledError
           else
     (let source = s\<lparr>ks_sync_version := ks_sync_version s + 1, ks_status := Syncing, ks_last_error_code := None,
                     ks_updated_at := now\<rparr> in
     tx_bind (tx_write (save_source source)) (\<lambda>_.
     tx_bind (tx_write (add_outbox_event event_id db_now t KNOWLEDGE_SYNC_EVENT_TYPE KNOWLEDGE_SYNC_AGGREGATE_TYPE
                (uuid_str (ks_id source)) (sync_payload t (ks_id source) (ks_sync_version source)) correlation_id)) (\<lambda>_.
     tx_bind flush (\<lambda>_. tx_return (to_view source)))))))"

definition start_source_sync ::
  "commit_outcome \<Rightarrow> uuid \<Rightarrow> uuid \<Rightarrow> uuid \<Rightarrow> string option \<Rightarrow> uuid \<Rightarrow> timestamp \<Rightarrow> uuid \<Rightarrow> timestamp \<Rightarrow> db
     \<Rightarrow> KnowledgeSourceView result \<times> db" where
  "start_source_sync co u t sid request_id fresh now event_id db_now d =
     in_txn co (start_source_sync_body u t sid (normalize_correlation_id fresh request_id) now event_id db_now) d"

section \<open>Admission\<close>

record admission_env =
  ae_permission :: commit_outcome
  ae_list :: commit_outcome
  ae_measure :: commit_outcome
  ae_reserve :: commit_outcome
  ae_now :: timestamp
  ae_source_id :: uuid
  ae_reservation_id :: uuid

text \<open>The permission check opens an implicit transaction that is rolled back.\<close>

definition check_permission :: "commit_outcome \<Rightarrow> uuid \<Rightarrow> uuid \<Rightarrow> db \<Rightarrow> unit result" where
  "check_permission co u t d = fst (in_txn co (tx_query (require_permission u t)) d)"

definition prepare_file_upload_admission ::
  "admission_env \<Rightarrow> 'b storage \<Rightarrow> uuid \<Rightarrow> uuid \<Rightarrow> db \<times> 'b \<Rightarrow> KnowledgeUploadReservationClaim result \<times> db" where
  "prepare_file_upload_admission env st u t w =
     (case w of (d, b) \<Rightarrow>
      case check_permission (ae_permission env) u t d of
        Inl e \<Rightarrow> (Inl e, d)
      | Inr _ \<Rightarrow>
          (case reconcile_legacy_file_sizes (ae_list env) (ae_measure env)
                  (\<lambda>key. st_head st (raw_key_value key) b) t d of
             (Inl e, d1) \<Rightarrow> (Inl e, d1)
           | (Inr _, d1) \<Rightarrow>
               reserve_file_upload (ae_reserve env) t (ae_source_id env) 0 (ae_now env) (ae_reservation_id env) d1))"

text \<open>Errors of the release are swallowed and the session is rolled back.\<close>

definition best_effort_release_unlinked_admission ::
  "commit_outcome \<Rightarrow> uuid \<Rightarrow> KnowledgeUploadReservationClaim \<Rightarrow> db \<Rightarrow> db" where
  "best_effort_release_unlinked_admission co t adm d =
     snd (release_unlinked_reservation co t (rc_reservation_id adm) d)"

definition release_file_upload_admission ::
  "commit_outcome \<Rightarrow> uuid \<Rightarrow> KnowledgeUploadReservationClaim \<Rightarrow> db \<Rightarrow> db" where
  "release_file_upload_admission co t adm d = best_effort_release_unlinked_admission co t adm d"

section \<open>Upload\<close>

record upload_env =
  ue_permission :: commit_outcome
  ue_finalize :: commit_outcome
  ue_finalize_now :: timestamp
  ue_release :: commit_outcome
  ue_object_id :: uuid
  ue_cleanup_id :: uuid
  ue_prepared_at :: timestamp
  ue_bind :: commit_outcome
  ue_final :: commit_outcome
  ue_final_now :: timestamp
  ue_expire :: commit_outcome
  ue_arm :: commit_outcome
  ue_inline :: commit_outcome
  ue_failure_now :: timestamp

definition best_effort_failed_upload_cleanup ::
  "upload_env \<Rightarrow> 'b storage \<Rightarrow> uuid \<Rightarrow> uuid \<Rightarrow> KnowledgeRawObjectKey \<Rightarrow> bool \<Rightarrow> db \<times> 'b \<Rightarrow> unit result \<times> db \<times> 'b" where
  "best_effort_failed_upload_cleanup env st t cid key put_outcome_confirmed w =
     (case w of (d, b) \<Rightarrow>
      let now = ue_failure_now env;
          d1 = snd (in_txn (ue_expire env)
                 (tx_bind (tx_write (expire_upload_concurrency_lease_for_cleanup t cid now)) (\<lambda>_. flush)) d);
          d2 = (if put_outcome_confirmed
                then snd (arm_upload_cleanup (ue_arm env) t cid SOURCE_PERSISTENCE_ERROR_CODE now d1) else d1)
      in case st_delete st (raw_key_value key) b of
           (Inl e, b') \<Rightarrow> if e \<in> {ObjectStorageError, ObjectNotFoundError} then (Inr (), d2, b') else (Inl e, d2, b')
         | (Inr _, b') \<Rightarrow>
             if \<not> put_outcome_confirmed then (Inr (), d2, b')
             else (Inr (), snd (mark_inline_cleanup_succeeded (ue_inline env) t cid now d2), b'))"

definition bind_body :: "upload_env \<Rightarrow> uuid \<Rightarrow> KnowledgeUploadReservationClaim \<Rightarrow> unit tx" where
  "bind_body env t reservation =
     (let source_id = rc_source_id reservation;
          key = knowledge_raw_key t source_id (ue_object_id env)
      in tx_bind (tx_write (add_upload_cleanup_intent (ue_cleanup_id env) t source_id (ue_object_id env)
                    (raw_key_value key) (prepared_cleanup_due_at (ue_prepared_at env)) (ue_prepared_at env))) (\<lambda>_.
         tx_bind (bind_upload_reservation_to_cleanup t (rc_reservation_id reservation) (ue_cleanup_id env)
                    (ue_prepared_at env)) (\<lambda>_. flush)))"

definition reference_body ::
  "upload_env \<Rightarrow> uuid \<Rightarrow> uuid \<Rightarrow> source_type \<Rightarrow> string \<Rightarrow> access_scope \<Rightarrow> KnowledgeUploadReservationClaim \<Rightarrow> int
     \<Rightarrow> KnowledgeSourceView tx" where
  "reference_body env u t source_type name scope reservation size_bytes =
     tx_bind (tx_query (get_upload_cleanup_for_update t (ue_cleanup_id env))) (\<lambda>found.
       case found of
         None \<Rightarrow> tx_raise RuntimeError
       | Some c \<Rightarrow>
           if uc_status c \<noteq> Prepared then tx_raise RuntimeError
           else
     (let now = ue_final_now env;
          key = knowledge_raw_key t (rc_source_id reservation) (ue_object_id env);
          source = new_file_knowledge_source (rc_source_id reservation) t source_type name (raw_key_value key)
                     size_bytes scope u now
      in
     tx_bind (tx_write (add_source source)) (\<lambda>_.
     tx_bind (write_marked (mark_upload_cleanup_referenced c now)) (\<lambda>_.
     tx_bind (tx_write (release_upload_reservation t (rc_reservation_id reservation))) (\<lambda>_.
     tx_bind flush (\<lambda>_. tx_return (to_view source)))))))"

text \<open>The permission check, the validation and the byte reservation, with the release on any exception.\<close>

definition finalize_upload ::
  "upload_env \<Rightarrow> uuid \<Rightarrow> uuid \<Rightarrow> source_type \<Rightarrow> UploadFile \<Rightarrow> KnowledgeUploadReservationClaim \<Rightarrow> db
     \<Rightarrow> (ValidatedKnowledgeUpload \<times> KnowledgeUploadReservationClaim) result \<times> db" where
  "finalize_upload env u t source_type upload adm d =
     (case bind_result (check_permission (ue_permission env) u t d) (\<lambda>_. validate_upload upload source_type) of
        Inl e \<Rightarrow> (Inl e, best_effort_release_unlinked_admission (ue_release env) t adm d)
      | Inr validated \<Rightarrow>
          (case finalize_file_upload_reservation (ue_finalize env) t adm (vu_size validated) (ue_finalize_now env) d of
             (Inl e, d1) \<Rightarrow> (Inl e, best_effort_release_unlinked_admission (ue_release env) t adm d1)
           | (Inr reservation, d1) \<Rightarrow> (Inr (validated, reservation), d1)))"

text \<open>The exception handlers: the cleanup attempt, then the original exception again.\<close>

definition failed_upload ::
  "upload_env \<Rightarrow> 'b storage \<Rightarrow> uuid \<Rightarrow> KnowledgeRawObjectKey \<Rightarrow> bool \<Rightarrow> exn \<Rightarrow> db \<times> 'b \<Rightarrow> 'a result \<times> db \<times> 'b" where
  "failed_upload env st t key put_outcome_confirmed e w =
     (case best_effort_failed_upload_cleanup env st t (ue_cleanup_id env) key put_outcome_confirmed w of
        (Inl e', w') \<Rightarrow> (Inl e', w')
      | (Inr _, w') \<Rightarrow> (Inl e, w'))"

definition create_file_source ::
  "upload_env \<Rightarrow> 'b storage \<Rightarrow> uuid \<Rightarrow> uuid \<Rightarrow> source_type \<Rightarrow> string \<Rightarrow> access_scope \<Rightarrow> UploadFile
     \<Rightarrow> KnowledgeUploadReservationClaim \<Rightarrow> db \<times> 'b \<Rightarrow> KnowledgeSourceView result \<times> db \<times> 'b" where
  "create_file_source env st u t source_type name scope upload adm w =
     (case w of (d, b) \<Rightarrow>
      case finalize_upload env u t source_type upload adm d of
        (Inl e, d1) \<Rightarrow> (Inl e, d1, b)
      | (Inr (validated, reservation), d1) \<Rightarrow>
      (let key = knowledge_raw_key t (rc_source_id reservation) (ue_object_id env)
       in case in_txn (ue_bind env) (bind_body env t reservation) d1 of
            (Inl e, d2) \<Rightarrow> (Inl e, snd (release_unlinked_reservation (ue_release env) t (rc_reservation_id reservation) d2), b)
          | (Inr _, d2) \<Rightarrow>
              (case st_put st (raw_key_value key) (uf_content upload) (vu_content_type validated)
                      (Some [(''original-filename'', vu_original_filename validated)]) b of
                 (Inl e, b1) \<Rightarrow> if e \<in> {ObjectStorageError, ObjectNotFoundError} then failed_upload env st t key False e (d2, b1)
                               else (Inl e, d2, b1)
               | (Inr _, b1) \<Rightarrow>
                   (case in_txn (ue_final env)
                           (reference_body env u t source_type name scope reservation (vu_size validated)) d2 of
                      (Inl e, d3) \<Rightarrow> failed_upload env st t key True e (d3, b1)
                    | (Inr view, d3) \<Rightarrow> (Inr view, d3, b1)))))"

section \<open>Authorization\<close>

definition may_manage :: "uuid \<Rightarrow> uuid \<Rightarrow> db \<Rightarrow> bool" where
  "may_manage u t d \<longleftrightarrow>
     (\<exists>m \<in> set (memberships d). mb_tenant_id m = t \<and> mb_user_id m = u \<and> mb_status m = Active \<and>
        KNOWLEDGE_SOURCE_MANAGE_PERMISSION \<in> set (list_effective_permission_keys (mb_id m) t d))"

lemma require_permission_Inr:
  assumes "require_permission u t d = Inr x"
  shows "may_manage u t d"
proof -
  obtain m where m: "find_membership t u d = Inr (Some m)" "mb_status m = Active"
      "KNOWLEDGE_SOURCE_MANAGE_PERMISSION \<in> set (list_effective_permission_keys (mb_id m) t d)"
    using assms
    by (auto simp: require_permission_def resolve_tenant_membership_def result_simps
        split: sum.splits if_splits option.splits)
  from one_or_none_filter[OF m(1)[unfolded find_membership_def]] m(2,3) show ?thesis
    unfolding may_manage_def by blast
qed

section \<open>Registration and sync start\<close>

lemma create_source_body_effect:
  assumes "create_source_body u t request now sid d = Inr (v, d')"
  shows "may_manage u t d"
    and "d' = add_source (new_knowledge_source sid t (cr_source_type request) (cr_name request) (cr_source_uri request)
           (cr_access_scope request) u now) (reclaim t now d)"
    and "slots_charged t (reclaim t now d) < KNOWLEDGE_SOURCE_LIMIT" "schema_ok d'"
    and "v = to_view (new_knowledge_source sid t (cr_source_type request) (cr_name request) (cr_source_uri request)
           (cr_access_scope request) u now)"
proof -
  from assms obtain x d1 where perm: "require_permission u t d = Inr ()" and cap: "assert_source_capacity t now d = Inr (x, d1)"
    and d': "d' = add_source (new_knowledge_source sid t (cr_source_type request) (cr_name request) (cr_source_uri request)
           (cr_access_scope request) u now) d1" "schema_ok d'"
      "v = to_view (new_knowledge_source sid t (cr_source_type request) (cr_name request) (cr_source_uri request)
           (cr_access_scope request) u now)"
    by (auto simp: create_source_body_def result_simps Let_def)
  show "may_manage u t d" by (rule require_permission_Inr[OF perm])
  note c = assert_source_capacity_effect[OF cap]
  show "d' = add_source (new_knowledge_source sid t (cr_source_type request) (cr_name request) (cr_source_uri request)
           (cr_access_scope request) u now) (reclaim t now d)"
    "slots_charged t (reclaim t now d) < KNOWLEDGE_SOURCE_LIMIT" using d'(1) c by simp_all
qed (use assms in \<open>auto simp: create_source_body_def result_simps Let_def\<close>)

text \<open>
  C14: A registered URL or sitemap source was requested by an active member with the manage
  permission, is the only row added, and leaves the tenant with at most 100 charged slots;
  whatever the database answers, no tenant is taken over its quota.
\<close>

theorem create_source_authorized_and_bounded:
  assumes "create_source co u t request now sid d = (r, d')" "schema_ok d"
  shows "(\<forall>x. quota_ok x d \<longrightarrow> quota_ok x d') \<and> schema_ok d' \<and>
    (\<forall>v. r = Inr v \<longrightarrow> may_manage u t d \<and> slots_charged t d' \<le> 100 \<and>
       sources d' = sources d @ [new_knowledge_source sid t (cr_source_type request) (cr_name request)
         (cr_source_uri request) (cr_access_scope request) u now] \<and> kv_id v = sid)"
proof -
  let ?s = "new_knowledge_source sid t (cr_source_type request) (cr_name request) (cr_source_uri request) (cr_access_scope request) u now"
  have body: "(quota_ok x d \<longrightarrow> quota_ok x e) \<and> slots_charged t e \<le> 100 \<and> sources e = sources d @ [?s]
      \<and> may_manage u t d \<and> kv_id v = sid"
    if "create_source_body u t request now sid d = Inr (v, e)" for v e x
  proof -
    note eff = create_source_body_effect[OF that]
    have "quota_ok x d \<longrightarrow> quota_ok x (reclaim t now d)" by (simp add: quota_ok_reclaim[OF assms(2)])
    then have "quota_ok x d \<longrightarrow> quota_ok x e"
      unfolding eff(2) using eff(3)
      by (intro impI quota_ok_add_source) (auto simp: new_knowledge_source_def source_bytes_def unknown_size_def quota_ok_def)
    moreover have "slots_charged t e \<le> 100"
      unfolding eff(2) using eff(3) by (simp add: slots_charged_def slots.charge_add_source new_knowledge_source_def quota_limits)
    ultimately show ?thesis using eff by (simp add: store_simps to_view_def new_knowledge_source_def)
  qed
  have txn: "in_txn co (create_source_body u t request now sid) d = (r, d')"
    using assms(1) by (simp add: create_source_def)
  have "quota_ok x d \<longrightarrow> quota_ok x d'" for x
    using txn by (cases rule: in_txn_cases) (use body in blast)+
  moreover have "schema_ok d'" by (rule in_txn_schema[OF txn assms(2)])
  moreover have "create_source_body u t request now sid d = Inr (v, d')" if "r = Inr v" for v
    using in_txn_Inr[OF txn[unfolded that]] by simp
  ultimately show ?thesis using body by (intro conjI allI impI) blast+
qed

definition sample_request :: KnowledgeSourceCreateRequest where
  "sample_request = \<lparr>cr_source_type = Url, cr_name = ''Help'', cr_source_uri = ''https://example.com/'', cr_access_scope = Customer\<rparr>"

theorem create_source_authorized_and_bounded_witness:
  "\<exists>v d'. create_source Committed 2 1 sample_request 5 30 tenancy_db = (Inr v, d') \<and> slots_charged 1 d' \<le> 100 \<and> kv_id v = 30"
proof -
  let ?r = "create_source Committed 2 1 sample_request 5 30 tenancy_db"
  have "isl (fst ?r) = False" by code_simp
  then obtain v where v: "fst ?r = Inr v" by (cases "fst ?r") auto
  then have run: "?r = (Inr v, snd ?r)" by (simp add: prod_eq_iff)
  have "schema_ok tenancy_db" by code_simp
  from create_source_authorized_and_bounded[OF run this] run show ?thesis by blast
qed

definition started_sync :: "timestamp \<Rightarrow> KnowledgeSource \<Rightarrow> KnowledgeSource" where
  "started_sync now s = s\<lparr>ks_sync_version := ks_sync_version s + 1, ks_status := Syncing, ks_last_error_code := None,
     ks_updated_at := now\<rparr>"

lemma start_source_sync_body_effect:
  assumes "start_source_sync_body u t sid corr now event_id db_now d = Inr (v, d')"
  obtains s where "s \<in> set (sources d)" "ks_id s = sid" "ks_tenant_id s = t" "ks_status s \<noteq> Disabled" "may_manage u t d"
    "d' = add_outbox_event event_id db_now t KNOWLEDGE_SYNC_EVENT_TYPE KNOWLEDGE_SYNC_AGGREGATE_TYPE (uuid_str sid)
       (sync_payload t sid (ks_sync_version s + 1)) corr (save_source (started_sync now s) d)"
    "v = to_view (started_sync now s)" "schema_ok d'"
proof -
  from assms obtain s where found: "get_knowledge_source_for_update t sid d = Inr (Some s)"
    and perm: "require_permission u t d = Inr ()" and nd: "ks_status s \<noteq> Disabled"
    and d': "d' = add_outbox_event event_id db_now t KNOWLEDGE_SYNC_EVENT_TYPE KNOWLEDGE_SYNC_AGGREGATE_TYPE
       (uuid_str (ks_id s)) (sync_payload t (ks_id s) (ks_sync_version s + 1)) corr (save_source (started_sync now s) d)"
    and v: "v = to_view (started_sync now s)" "schema_ok d'"
    unfolding start_source_sync_body_def started_sync_def
    by (auto simp: result_simps Let_def split: option.splits if_splits)
  note s = get_knowledge_source_for_update_Some[OF found]
  show thesis using that[OF s nd require_permission_Inr[OF perm] _ v] d' s(2) by simp
qed

text \<open>
  C3: Starting a sync is atomic under every answer of the database: either nothing changes, or an
  enabled source of the caller's tenant gets the next sync version and the status \<open>syncing\<close>, and in
  the same transaction exactly one pending outbox event is appended that carries that tenant,
  source and version.  A success is always the second case, and the caller may manage sources.
\<close>

theorem start_source_sync_atomic:
  assumes "start_source_sync co u t sid request_id fresh now event_id db_now d = (r, d')"
  shows "(d' = d \<and> (\<forall>v. r \<noteq> Inr v)) \<or>
    (\<exists>s \<in> set (sources d). ks_id s = sid \<and> ks_tenant_id s = t \<and> ks_status s \<noteq> Disabled \<and> may_manage u t d \<and>
       (\<forall>v. r = Inr v \<longrightarrow> kv_sync_version v = ks_sync_version s + 1 \<and> kv_status v = Syncing) \<and>
       sources d' = map (\<lambda>x. if ks_id x = sid then s\<lparr>ks_sync_version := ks_sync_version s + 1, ks_status := Syncing,
           ks_last_error_code := None, ks_updated_at := now\<rparr> else x) (sources d) \<and>
       (\<exists>e. outbox d' = outbox d @ [e] \<and> oe_id e = event_id \<and> oe_tenant_id e = Some t \<and> oe_status e = OutboxPending \<and>
          oe_event_type e = ''serviq.knowledge.sync.v1'' \<and>
          oe_payload e = sync_payload t sid (ks_sync_version s + 1)) \<and>
       cleanups d' = cleanups d \<and> reservations d' = reservations d)"
  using assms unfolding start_source_sync_def
proof (cases rule: in_txn_cases)
  case (committed x)
  from committed(1) obtain s where "s \<in> set (sources d)" "ks_id s = sid" "ks_tenant_id s = t" "ks_status s \<noteq> Disabled"
    "may_manage u t d" and d': "d' = add_outbox_event event_id db_now t KNOWLEDGE_SYNC_EVENT_TYPE KNOWLEDGE_SYNC_AGGREGATE_TYPE
       (uuid_str sid) (sync_payload t sid (ks_sync_version s + 1)) (normalize_correlation_id fresh request_id)
       (save_source (started_sync now s) d)" and v: "x = to_view (started_sync now s)"
    by (rule start_source_sync_body_effect)
  then show ?thesis
    using committed(3)
    by (intro disjI2 bexI[of _ s] conjI)
      (auto simp: store_simps add_outbox_event_def save_source_def started_sync_def to_view_def
        KNOWLEDGE_SYNC_EVENT_TYPE_def cong: if_cong)
qed blast

theorem start_source_sync_atomic_witness:
  "\<exists>v d'. start_source_sync Committed 2 1 30 (Some '' req-1 '') 99 50 40 60
     (snd (create_source Committed 2 1 sample_request 5 30 tenancy_db)) = (Inr v, d') \<and>
     kv_sync_version v = 1 \<and> length (outbox d') = 1"
proof -
  let ?d = "snd (create_source Committed 2 1 sample_request 5 30 tenancy_db)"
  let ?r = "start_source_sync Committed 2 1 30 (Some '' req-1 '') 99 50 40 60 ?d"
  have "isl (fst ?r) = False" "map ks_sync_version (sources ?d) = [0]" "outbox ?d = []" by code_simp+
  then obtain v where v: "fst ?r = Inr v" and d: "map ks_sync_version (sources ?d) = [0]" "outbox ?d = []"
    by (cases "fst ?r") auto
  then have run: "?r = (Inr v, snd ?r)" by (simp add: prod_eq_iff)
  have "\<forall>s \<in> set (sources ?d). ks_sync_version s = 0" using d(1) by (metis empty_iff image_eqI list.set(1) list.set(2) list.set_map singletonD)
  then show ?thesis using start_source_sync_atomic[OF run] run d(2) by fastforce
qed

section \<open>An upload whose commit is not acknowledged\<close>

text \<open>The stages of an upload that succeeds, and the rows its last transaction writes.\<close>

lemma create_file_source_stages:
  assumes "create_file_source env st u t source_type name scope upload adm (d, b) = (Inr view, d', b')"
  obtains validated reservation d1 d2 where
    "finalize_upload env u t source_type upload adm d = (Inr (validated, reservation), d1)"
    "in_txn (ue_bind env) (bind_body env t reservation) d1 = (Inr (), d2)"
    "st_put st (raw_key_value (knowledge_raw_key t (rc_source_id reservation) (ue_object_id env))) (uf_content upload)
       (vu_content_type validated) (Some [(''original-filename'', vu_original_filename validated)]) b = (Inr (), b')"
    "in_txn (ue_final env) (reference_body env u t source_type name scope reservation (vu_size validated)) d2 = (Inr view, d')"
  using assms unfolding create_file_source_def failed_upload_def
  by (auto simp: Let_def split: prod.splits sum.splits if_splits)

lemma reference_body_effect:
  assumes "reference_body env u t source_type name scope reservation n d = Inr (view, d')"
  obtains c c' s where "c \<in> set (cleanups d)" "uc_id c = ue_cleanup_id env" "uc_tenant_id c = t"
    "uc_id c' = uc_id c" "uc_tenant_id c' = t" "uc_object_key c' = uc_object_key c" "uc_status c' = Referenced"
    "s = new_file_knowledge_source (rc_source_id reservation) t source_type name
       (raw_key_value (knowledge_raw_key t (rc_source_id reservation) (ue_object_id env))) n scope u (ue_final_now env)"
    "d' = release_upload_reservation t (rc_reservation_id reservation) (save_cleanup c' (add_source s d))"
    "view = to_view s"
proof -
  from assms obtain c where found: "get_upload_cleanup_for_update t (ue_cleanup_id env) d = Inr (Some c)"
    unfolding reference_body_def by (auto simp: result_simps split: option.splits)
  then have c: "c \<in> set (cleanups d)" "uc_id c = ue_cleanup_id env" "uc_tenant_id c = t"
    using get_upload_cleanup_for_update_Some by blast+
  define c' where "c' = c\<lparr>uc_status := Referenced, uc_next_attempt_at := None, uc_last_error_code := None,
    uc_resolved_at := Some (ue_final_now env), uc_updated_at := ue_final_now env\<rparr>"
  define s where "s = new_file_knowledge_source (rc_source_id reservation) t source_type name
       (raw_key_value (knowledge_raw_key t (rc_source_id reservation) (ue_object_id env))) n scope u (ue_final_now env)"
  have "d' = release_upload_reservation t (rc_reservation_id reservation) (save_cleanup c' (add_source s d)) \<and> view = to_view s"
    using assms found
    by (auto simp: reference_body_def result_simps Let_def mark_defs c'_def s_def split: if_splits)
  then show thesis using that[OF c, of c' s] c(3) by (auto simp: c'_def s_def)
qed

lemma bind_body_effect:
  assumes "bind_body env t reservation d = Inr (x, d')"
  shows "\<exists>c \<in> set (cleanups d'). uc_id c = ue_cleanup_id env \<and> uc_tenant_id c = t \<and>
    uc_object_key c = raw_key_value (knowledge_raw_key t (rc_source_id reservation) (ue_object_id env))"
  using assms
  by (auto simp: bind_body_def bind_upload_reservation_to_cleanup_def result_simps Let_def add_upload_cleanup_intent_def
      save_reservation_def split: option.splits if_splits)

text \<open>The failure handler over a cleanup that is already referenced: it only deletes the object.\<close>

lemma arm_referenced:
  assumes "schema_ok d" "c \<in> set (cleanups d)" "uc_status c = Referenced"
  shows "snd (arm_upload_cleanup co (uc_tenant_id c) (uc_id c) err now d) = d"
    "snd (mark_inline_cleanup_succeeded co (uc_tenant_id c) (uc_id c) now d) = d"
proof -
  note lock = locked_cleanup_row[OF assms(1,2)]
  have "arm_body err now (uc_tenant_id c) (uc_id c) d = Inr ((), d)"
    "inline_succeeded_body now (uc_tenant_id c) (uc_id c) d = Inr ((), d)"
    unfolding arm_body_def inline_succeeded_body_def tx_bind_def[of "locked_cleanup (uc_tenant_id c) (uc_id c)"] lock
    using assms(3) by (simp_all add: tx_return_def)
  then show "snd (arm_upload_cleanup co (uc_tenant_id c) (uc_id c) err now d) = d"
    "snd (mark_inline_cleanup_succeeded co (uc_tenant_id c) (uc_id c) now d) = d"
    by (simp_all add: arm_upload_cleanup_def mark_inline_cleanup_succeeded_def in_txn_def)
qed

lemma failed_upload_referenced:
  assumes "schema_ok d" "c \<in> set (cleanups d)" "uc_id c = ue_cleanup_id env" "uc_tenant_id c = t" "uc_status c = Referenced"
    and "st_delete st (raw_key_value key) b = (Inr (), b')"
  shows "\<exists>d'. failed_upload env st t key True e (d, b) = (Inl e, d', b') \<and> sources d' = sources d \<and> cleanups d' = cleanups d"
proof -
  let ?body = "tx_bind (tx_write (expire_upload_concurrency_lease_for_cleanup t (ue_cleanup_id env) (ue_failure_now env))) (\<lambda>_. flush)"
  obtain x d1 where txn: "in_txn (ue_expire env) ?body d = (x, d1)" by fastforce
  have kept: "sources d1 = sources d" "cleanups d1 = cleanups d"
    using txn by (cases rule: in_txn_cases;
      auto simp: result_simps expire_upload_concurrency_lease_for_cleanup_def)+
  have ok: "schema_ok d1" by (rule in_txn_schema[OF txn assms(1)])
  note handled = arm_referenced[OF ok, of c, unfolded kept assms(3,4), OF assms(2,5)]
  show ?thesis
    using txn handled assms(6) kept by (simp add: failed_upload_def best_effort_failed_upload_cleanup_def Let_def)
qed

text \<open>The answer to the last commit matters to no earlier stage.\<close>

lemma upload_stages_final:
  "finalize_upload (env\<lparr>ue_final := co\<rparr>) u t source_type upload adm d = finalize_upload env u t source_type upload adm d"
  "bind_body (env\<lparr>ue_final := co\<rparr>) t reservation = bind_body env t reservation"
  "reference_body (env\<lparr>ue_final := co\<rparr>) u t source_type name scope reservation n = reference_body env u t source_type name scope reservation n"
proof -
  let ?env = "env\<lparr>ue_final := co\<rparr>"
  have sel: "ue_permission ?env = ue_permission env" "ue_release ?env = ue_release env" "ue_finalize ?env = ue_finalize env"
    "ue_finalize_now ?env = ue_finalize_now env" "ue_object_id ?env = ue_object_id env" "ue_cleanup_id ?env = ue_cleanup_id env"
    "ue_prepared_at ?env = ue_prepared_at env" "ue_final_now ?env = ue_final_now env" by simp_all
  show "finalize_upload ?env u t source_type upload adm d = finalize_upload env u t source_type upload adm d"
    "bind_body ?env t reservation = bind_body env t reservation"
    "reference_body ?env u t source_type name scope reservation n = reference_body env u t source_type name scope reservation n"
    unfolding finalize_upload_def bind_body_def reference_body_def sel by (rule refl)+
qed

text \<open>
  C20: Take any upload that would succeed.  If in the same run the last transaction commits but its
  acknowledgement is lost, and storage executes the delete it is then sent, \<open>create_file_source\<close>
  raises \<open>SQLAlchemyError\<close>; the source is committed all the same and names the object under its
  canonical key, its cleanup row is \<open>referenced\<close>, so that no replay will ever touch it, and the
  object, which had been stored, is gone from the bucket.
\<close>

theorem upload_unacknowledged_commit_loses_object:
  assumes "create_file_source env st u t source_type name scope upload adm (d, b) = (Inr view, d1, b1)"
    and "storage_ok st visible"
  defines "key \<equiv> raw_key_value (knowledge_raw_key t (kv_id view) (ue_object_id env))"
  assumes "st_delete st key b1 = (Inr (), b2)"
  shows "\<exists>d2. create_file_source (env\<lparr>ue_final := CommittedUnacknowledged\<rparr>) st u t source_type name scope upload adm (d, b)
       = (Inl SQLAlchemyError, d2, b2) \<and>
     sources d2 = sources d1 \<and> (\<exists>s \<in> set (sources d2). ks_id s = kv_id view \<and> ks_tenant_id s = t \<and> ks_object_key s = Some key) \<and>
     (\<exists>c \<in> set (cleanups d2). uc_id c = ue_cleanup_id env \<and> uc_object_key c = key \<and> uc_status c = Referenced) \<and>
     visible b1 key \<and> \<not> visible b2 key"
proof -
  obtain validated reservation e1 e2 where fin: "finalize_upload env u t source_type upload adm d = (Inr (validated, reservation), e1)"
    and bnd: "in_txn (ue_bind env) (bind_body env t reservation) e1 = (Inr (), e2)"
    and put: "st_put st (raw_key_value (knowledge_raw_key t (rc_source_id reservation) (ue_object_id env))) (uf_content upload)
       (vu_content_type validated) (Some [(''original-filename'', vu_original_filename validated)]) b = (Inr (), b1)"
    and ref: "in_txn (ue_final env) (reference_body env u t source_type name scope reservation (vu_size validated)) e2 = (Inr view, d1)"
    using assms(1) by (rule create_file_source_stages)
  note body = in_txn_Inr[OF ref] and bound = in_txn_Inr[OF bnd]
  obtain c c' s where c: "c \<in> set (cleanups e2)" "uc_id c = ue_cleanup_id env" "uc_tenant_id c = t"
      and c': "uc_id c' = uc_id c" "uc_tenant_id c' = t" "uc_object_key c' = uc_object_key c" "uc_status c' = Referenced"
      and s: "s = new_file_knowledge_source (rc_source_id reservation) t source_type name
         (raw_key_value (knowledge_raw_key t (rc_source_id reservation) (ue_object_id env))) (vu_size validated) scope u (ue_final_now env)"
      and d1: "d1 = release_upload_reservation t (rc_reservation_id reservation) (save_cleanup c' (add_source s e2))"
      and view: "view = to_view s"
    using conjunct1[OF body] by (rule reference_body_effect)
  have key: "raw_key_value (knowledge_raw_key t (rc_source_id reservation) (ue_object_id env)) = key"
    by (simp add: key_def view s to_view_def new_file_knowledge_source_def)
  obtain c0 where "c0 \<in> set (cleanups e2)" "uc_id c0 = ue_cleanup_id env" "uc_object_key c0 = key"
    using bind_body_effect[OF conjunct1[OF bound]] key by auto
  moreover have "distinct (map uc_id (cleanups e2))" using bound by (simp add: schema_ok_def cleanups_ok_def)
  ultimately have ckey: "uc_object_key c = key" using c(1,2) by (metis distinct_map inj_onD)
  have in1: "c' \<in> set (cleanups d1)" "s \<in> set (sources d1)"
    using c(1) c' by (auto simp: d1 release_upload_reservation_def save_cleanup_def add_source_def image_iff)
  have lost: "in_txn CommittedUnacknowledged (reference_body env u t source_type name scope reservation (vu_size validated)) e2
      = (Inl SQLAlchemyError, d1)" using body by (simp add: in_txn_def)
  let ?env = "env\<lparr>ue_final := CommittedUnacknowledged\<rparr>"
  have "create_file_source ?env st u t source_type name scope upload adm (d, b) =
      failed_upload ?env st t (knowledge_raw_key t (rc_source_id reservation) (ue_object_id env)) True SQLAlchemyError (d1, b1)"
    using fin bnd put lost by (simp add: create_file_source_def upload_stages_final Let_def)
  moreover have "\<exists>d2. failed_upload ?env st t (knowledge_raw_key t (rc_source_id reservation) (ue_object_id env)) True SQLAlchemyError (d1, b1)
      = (Inl SQLAlchemyError :: KnowledgeSourceView result, d2, b2) \<and> sources d2 = sources d1 \<and> cleanups d2 = cleanups d1"
    using body in1(1) c(2) c' assms(4) key by (intro failed_upload_referenced) auto
  moreover have "visible b1 key" "\<not> visible b2 key" using storage_okD(2,5)[OF assms(2)] put[unfolded key] assms(4) by blast+
  moreover have "ks_id s = kv_id view" "ks_tenant_id s = t" "ks_object_key s = Some key"
    using key by (simp_all add: s view to_view_def new_file_knowledge_source_def)
  ultimately show ?thesis using in1 c' c(2) ckey by metis
qed

definition sample_upload_env :: "commit_outcome \<Rightarrow> upload_env" where
  "sample_upload_env final = \<lparr>ue_permission = Committed, ue_finalize = Committed, ue_finalize_now = 200,
     ue_release = Committed, ue_object_id = 32, ue_cleanup_id = 33, ue_prepared_at = 300, ue_bind = Committed,
     ue_final = final, ue_final_now = 400, ue_expire = Committed, ue_arm = Committed, ue_inline = Committed,
     ue_failure_now = 500\<rparr>"

definition sample_admission :: KnowledgeUploadReservationClaim where
  "sample_admission = \<lparr>rc_reservation_id = 31, rc_source_id = 30, rc_reserved_bytes = 0, rc_lease_expires_at = 600000100\<rparr>"

definition sample_reserved :: "int \<Rightarrow> uuid option \<Rightarrow> timestamp \<Rightarrow> db" where
  "sample_reserved n cid updated = tenancy_db\<lparr>reservations := [\<lparr>ur_id = 31, ur_tenant_id = 1, ur_source_id = 30,
     ur_reserved_bytes = n, ur_cleanup_id = cid, ur_lease_expires_at = 600000100, ur_created_at = 100,
     ur_updated_at = updated\<rparr>]\<rparr>"

definition sample_bound :: db where
  "sample_bound = add_upload_cleanup_intent 33 1 30 32 (raw_key_value (knowledge_raw_key 1 30 32)) 900000300 300
     (sample_reserved 7 (Some 33) 300)"

definition sample_run :: "commit_outcome \<Rightarrow> KnowledgeSourceView result \<times> db \<times> string list" where
  "sample_run final = create_file_source (sample_upload_env final) (api_storage list_adapter) 2 1 Markdown ''Guide'' Customer
     sample_upload sample_admission (sample_reserved 0 None 100, [])"

lemma sample_run_final:
  "sample_run final =
    (case in_txn final (reference_body (sample_upload_env final) 2 1 Markdown ''Guide'' Customer
            (sample_admission\<lparr>rc_reserved_bytes := 7\<rparr>) 7) sample_bound of
       (Inl e, d) \<Rightarrow> failed_upload (sample_upload_env final) (api_storage list_adapter) 1 (knowledge_raw_key 1 30 32) True e
          (d, [raw_key_value (knowledge_raw_key 1 30 32)])
     | (Inr v, d) \<Rightarrow> (Inr v, d, [raw_key_value (knowledge_raw_key 1 30 32)]))"
proof -
  let ?env = "sample_upload_env final"
  have perm: "check_permission (ue_permission ?env) 2 1 (sample_reserved 0 None 100) = Inr ()" by code_simp
  have fin: "finalize_file_upload_reservation (ue_finalize ?env) 1 sample_admission 7 (ue_finalize_now ?env) (sample_reserved 0 None 100)
      = (Inr (sample_admission\<lparr>rc_reserved_bytes := 7\<rparr>), sample_reserved 7 None 200)" by code_simp
  have bnd: "in_txn (ue_bind ?env) (bind_body ?env 1 (sample_admission\<lparr>rc_reserved_bytes := 7\<rparr>)) (sample_reserved 7 None 200)
      = (Inr (), sample_bound)" by code_simp
  have put: "st_put (api_storage list_adapter) (raw_key_value (knowledge_raw_key 1 30 32)) (uf_content sample_upload) ''text/markdown''
      (Some [(''original-filename'', ''Guide.MD'')]) [] = (Inr (), [raw_key_value (knowledge_raw_key 1 30 32)])" by code_simp
  have ids: "rc_source_id (sample_admission\<lparr>rc_reserved_bytes := 7\<rparr>) = 30" "ue_object_id ?env = 32" "ue_final ?env = final"
    by (simp_all add: sample_admission_def sample_upload_env_def)
  show ?thesis
    unfolding sample_run_def create_file_source_def prod.case finalize_upload_def perm bind_result_simps
      sample_upload_valid sum.case ValidatedKnowledgeUpload.simps fin bnd ids Let_def put ..
qed

theorem upload_unacknowledged_commit_loses_object_witness:
  "\<exists>d2. create_file_source (sample_upload_env CommittedUnacknowledged) (api_storage list_adapter) 2 1 Markdown ''Guide''
       Customer sample_upload sample_admission (sample_reserved 0 None 100, []) = (Inl SQLAlchemyError, d2, []) \<and>
     (\<exists>s \<in> set (sources d2). ks_object_key s = Some (raw_key_value (knowledge_raw_key 1 30 32)))"
proof -
  let ?key = "raw_key_value (knowledge_raw_key 1 30 32)"
  let ?txn = "in_txn Committed (reference_body (sample_upload_env Committed) 2 1 Markdown ''Guide''
     Customer (sample_admission\<lparr>rc_reserved_bytes := 7\<rparr>) 7) sample_bound"
  have fst: "isl (fst ?txn) = False" "(case fst ?txn of Inl _ \<Rightarrow> 0 | Inr v \<Rightarrow> kv_id v) = 30" by code_simp+
  obtain r d1 where txn: "?txn = (r, d1)" by (cases ?txn)
  from fst obtain view where view: "?txn = (Inr view, d1)" "kv_id view = 30" unfolding txn by (cases r) auto
  have run: "create_file_source (sample_upload_env Committed) (api_storage list_adapter) 2 1 Markdown ''Guide'' Customer
      sample_upload sample_admission (sample_reserved 0 None 100, []) = (Inr view, d1, [?key])"
    unfolding sample_run_def[symmetric] sample_run_final view(1) by simp
  have oid: "ue_object_id (sample_upload_env Committed) = 32" by (simp add: sample_upload_env_def)
  have del: "st_delete (api_storage list_adapter) ?key [?key] = (Inr (), [])" by code_simp
  have "(sample_upload_env Committed)\<lparr>ue_final := CommittedUnacknowledged\<rparr> = sample_upload_env CommittedUnacknowledged"
    by (simp add: sample_upload_env_def)
  with upload_unacknowledged_commit_loses_object[OF run list_storage_ok(1), unfolded view(2) oid, OF del]
  show ?thesis by auto
qed

end
