(* ===== verification/Sync_Consumer.thy ===== *)
theory Sync_Consumer
  imports Knowledge_Sync Outbox Knowledge_Service
begin

text \<open>
  The Kafka consumer of sync events (\<open>services/worker/app/consumers/knowledge_sync.py\<close>): decoding of a
  message, its handling with retry and dead-letter topics, and the pausing of partitions.

  The calls on the Kafka consumer object are recorded as actions in the order they are made.  The
  pydantic models are an argument \<open>validate\<close>, a function from a decoded JSON value to the envelope it
  accepts; \<open>pydantic_ok\<close> states the documented behaviour the pipeline relies on.  \<open>clock k\<close> is the \<open>k\<close>th
  reading of \<open>int(time.time() * 1000)\<close>.
\<close>

section \<open>Messages\<close>

record kafka_message =
  km_topic :: string
  km_partition :: int
  km_offset :: int
  km_headers :: "(string \<times> int list option) list option"
  km_key :: "int list option"
  km_value :: "int list option"

datatype consumer_action =
    Commit kafka_message
  | Seek string int int
  | Pause string int
  | Resume "(string \<times> int) list"

definition SYNC_TOPIC :: string where "SYNC_TOPIC = ''serviq.knowledge.sync.v1''"
definition RETRY_TOPIC :: string where "RETRY_TOPIC = ''serviq.knowledge.sync.v1.retry''"
definition DLQ_TOPIC :: string where "DLQ_TOPIC = ''serviq.knowledge.sync.v1.dlq''"
definition ATTEMPT_HEADER :: string where "ATTEMPT_HEADER = ''serviq-attempt''"
definition NOT_BEFORE_HEADER :: string where "NOT_BEFORE_HEADER = ''serviq-not-before-ms''"
definition ERROR_HEADER :: string where "ERROR_HEADER = ''serviq-error-code''"
definition RETRY_DELAYS_SECONDS :: "int list" where "RETRY_DELAYS_SECONDS = [30, 300, 1800]"
definition INVALID_EVENT_CODE :: string where "INVALID_EVENT_CODE = ''KNOWLEDGE_SYNC_EVENT_INVALID''"
definition DATABASE_ERROR_CODE :: string where "DATABASE_ERROR_CODE = ''KNOWLEDGE_SYNC_DATABASE_UNAVAILABLE''"

record SyncPayload =
  sp_tenant_id :: uuid
  sp_source_id :: uuid
  sp_sync_version :: int

record Envelope =
  en_event_id :: uuid
  en_event_type :: string
  en_schema_version :: int
  en_tenant_id :: uuid
  en_aggregate_type :: string
  en_aggregate_id :: string
  en_payload :: SyncPayload
  en_correlation_id :: string
  en_causation_id :: "string option"

section \<open>Decoding\<close>

definition retry_delay_seconds :: "int \<Rightarrow> int result" where
  "retry_delay_seconds attempt =
     (if \<not> (1 \<le> attempt \<and> attempt \<le> int (length RETRY_DELAYS_SECONDS)) then Inl ValueError
      else Inr (RETRY_DELAYS_SECONDS ! nat (attempt - 1)))"

definition decode_command ::
  "(wjson \<Rightarrow> Envelope option) \<Rightarrow> int list \<Rightarrow> int list \<Rightarrow> KnowledgeSyncCommand option result" where
  "decode_command validate key value =
     (case utf8_decode value of
        None \<Rightarrow> Inr None
      | Some t \<Rightarrow>
          (case loads t of
             Inl e \<Rightarrow> if e = JSONDecodeError then Inr None else Inl e
           | Inr decoded \<Rightarrow>
               (case validate decoded of
                  None \<Rightarrow> Inr None
                | Some en \<Rightarrow>
                    (let payload = en_payload en
                     in if en_event_type en \<noteq> SYNC_TOPIC \<or> en_schema_version en \<noteq> 1 then Inr None
                        else if en_aggregate_type en \<noteq> ''knowledge_source'' then Inr None
                        else if en_aggregate_id en \<noteq> uuid_str (sp_source_id payload) then Inr None
                        else if utf8_encode (cps (en_aggregate_id en)) \<noteq> Inr key then Inr None
                        else if en_tenant_id en \<noteq> sp_tenant_id payload then Inr None
                        else Inr (Some \<lparr>cm_event_id = en_event_id en, cm_tenant_id = sp_tenant_id payload,
                               cm_source_id = sp_source_id payload, cm_sync_version = sp_sync_version payload,
                               cm_correlation_id = en_correlation_id en\<rparr>)))))"

definition headers_dict :: "(string \<times> int list option) list option \<Rightarrow> (string \<times> int list) list" where
  "headers_dict headers =
     (case headers of
        None \<Rightarrow> []
      | Some items \<Rightarrow> fold (\<lambda>(k, v) parsed. case v of None \<Rightarrow> parsed | Some bs \<Rightarrow> dict_set k bs parsed) items [])"

definition parse_positive_ascii_int :: "int list option \<Rightarrow> int option" where
  "parse_positive_ascii_int value =
     (case value of
        None \<Rightarrow> None
      | Some bs \<Rightarrow>
          if \<not> list_all (\<lambda>b. 0 \<le> b \<and> b < 128) bs then None
          else (case py_int10 (map (\<lambda>b. char_of (nat b)) bs) of
                  None \<Rightarrow> None
                | Some n \<Rightarrow> if n > 0 then Some n else None))"

definition parse_retry_metadata :: "(string \<times> int list) list \<Rightarrow> (int \<times> int) option" where
  "parse_retry_metadata headers =
     (case (parse_positive_ascii_int (dict_get headers ATTEMPT_HEADER), parse_positive_ascii_int (dict_get headers NOT_BEFORE_HEADER)) of
        (Some attempt, Some not_before) \<Rightarrow>
          if attempt > int (length RETRY_DELAYS_SECONDS) then None else Some (attempt, not_before)
      | _ \<Rightarrow> None)"

definition safe_message_bytes :: "kafka_message \<Rightarrow> int list \<times> int list" where
  "safe_message_bytes m =
     ((case km_key m of Some k \<Rightarrow> k | None \<Rightarrow> []), (case km_value m of Some v \<Rightarrow> v | None \<Rightarrow> []))"

text \<open>\<open>char.isupper()\<close> and \<open>char.isdigit()\<close> on the code points 0 to 255.\<close>

definition is_upper :: "char \<Rightarrow> bool" where
  "is_upper c \<longleftrightarrow> (65 \<le> ord c \<and> ord c \<le> 90) \<or> (192 \<le> ord c \<and> ord c \<le> 222 \<and> ord c \<noteq> 215)"

definition is_digit_char :: "char \<Rightarrow> bool" where
  "is_digit_char c \<longleftrightarrow> ascii_digit c \<or> ord c \<in> {178, 179, 185}"

definition is_safe_error_code :: "string \<Rightarrow> bool" where
  "is_safe_error_code value \<longleftrightarrow> value \<noteq> [] \<and> length value \<le> 100 \<and>
     list_all (\<lambda>c. is_upper c \<or> is_digit_char c \<or> c = CHR ''_'') value"

section \<open>Handling\<close>

record ('b, 'w, 'p) consumer_state =
  cs_sync :: "('b, 'w) sync_state"
  cs_broker :: 'p
  cs_actions :: "consumer_action list"
  cs_paused_until :: "((string \<times> int) \<times> int) list"

text \<open>What one message meets: the sync run, how recording a failure ends, the clock.\<close>

record delivery =
  dl_run :: sync_run
  dl_failed :: commit_outcome
  dl_clock :: "nat \<Rightarrow> int"

record ('b, 'w, 'p) consumer_env =
  ce_world :: "('b, 'w) sync_world"
  ce_publish :: "BrokerMessage \<Rightarrow> 'p \<Rightarrow> unit result \<times> 'p"
  ce_validate :: "wjson \<Rightarrow> Envelope option"

definition act :: "consumer_action list \<Rightarrow> ('b, 'w, 'p) consumer_state \<Rightarrow> ('b, 'w, 'p) consumer_state" where
  "act xs st = st\<lparr>cs_actions := cs_actions st @ xs\<rparr>"

definition consumer_commit :: "kafka_message \<Rightarrow> ('b, 'w, 'p) consumer_state \<Rightarrow> ('b, 'w, 'p) consumer_state" where
  "consumer_commit m st = act [Commit m] st"

fun set_paused :: "string \<times> int \<Rightarrow> int \<Rightarrow> ((string \<times> int) \<times> int) list \<Rightarrow> ((string \<times> int) \<times> int) list" where
  "set_paused k t [] = [(k, t)]"
| "set_paused k t ((k', t') # rest) = (if k' = k then (k, t) # rest else (k', t') # set_paused k t rest)"

definition rewind_and_pause ::
  "delivery \<Rightarrow> kafka_message \<Rightarrow> int option \<Rightarrow> ('b, 'w, 'p) consumer_state \<Rightarrow> ('b, 'w, 'p) consumer_state" where
  "rewind_and_pause dl m resume_at st =
     (let st = act [Seek (km_topic m) (km_partition m) (km_offset m), Pause (km_topic m) (km_partition m)] st;
          resume_ms = (case resume_at of Some t \<Rightarrow> t | None \<Rightarrow> dl_clock dl 2 + 1000)
      in st\<lparr>cs_paused_until := set_paused (km_topic m, km_partition m) resume_ms (cs_paused_until st)\<rparr>)"

definition resume_due_partitions :: "int \<Rightarrow> ('b, 'w, 'p) consumer_state \<Rightarrow> ('b, 'w, 'p) consumer_state" where
  "resume_due_partitions now_ms st =
     (let due = map fst (filter (\<lambda>(k, t). t \<le> now_ms) (cs_paused_until st))
      in if due = [] then st
         else (act [Resume due] st)\<lparr>cs_paused_until := filter (\<lambda>(k, t). \<not> t \<le> now_ms) (cs_paused_until st)\<rparr>)"

text \<open>Publish, then commit the message, or rewind to it when the broker is unavailable.\<close>

definition publish_and_commit ::
  "('b, 'w, 'p) consumer_env \<Rightarrow> delivery \<Rightarrow> kafka_message \<Rightarrow> BrokerMessage \<Rightarrow> ('b, 'w, 'p) consumer_state
     \<Rightarrow> unit result \<times> ('b, 'w, 'p) consumer_state" where
  "publish_and_commit ce dl m out st =
     (case ce_publish ce out (cs_broker st) of
        (Inr _, p) \<Rightarrow> (Inr (), consumer_commit m (st\<lparr>cs_broker := p\<rparr>))
      | (Inl e, p) \<Rightarrow>
          if e = BrokerUnavailableError then (Inr (), rewind_and_pause dl m None (st\<lparr>cs_broker := p\<rparr>))
          else (Inl e, st\<lparr>cs_broker := p\<rparr>))"

definition publish_retry ::
  "('b, 'w, 'p) consumer_env \<Rightarrow> delivery \<Rightarrow> kafka_message \<Rightarrow> int list \<Rightarrow> int list \<Rightarrow> int \<Rightarrow> ('b, 'w, 'p) consumer_state
     \<Rightarrow> unit result \<times> ('b, 'w, 'p) consumer_state" where
  "publish_retry ce dl m key value next_attempt st =
     (case retry_delay_seconds next_attempt of
        Inl e \<Rightarrow> (Inl e, st)
      | Inr delay_seconds \<Rightarrow>
          publish_and_commit ce dl m
            \<lparr>bm_topic = RETRY_TOPIC, bm_key = key, bm_value = value,
             bm_headers = Some [(ATTEMPT_HEADER, decimal next_attempt),
               (NOT_BEFORE_HEADER, decimal (dl_clock dl 1 + delay_seconds * 1000))]\<rparr> st)"

text \<open>\<open>safe_code.encode("ascii")\<close> raises \<open>UnicodeEncodeError\<close>, a \<open>ValueError\<close>, on other characters.\<close>

definition publish_dlq ::
  "('b, 'w, 'p) consumer_env \<Rightarrow> delivery \<Rightarrow> kafka_message \<Rightarrow> int list \<Rightarrow> int list \<Rightarrow> string \<Rightarrow> ('b, 'w, 'p) consumer_state
     \<Rightarrow> unit result \<times> ('b, 'w, 'p) consumer_state" where
  "publish_dlq ce dl m key value error_code st =
     (let safe_code = (if is_safe_error_code error_code then error_code else INVALID_EVENT_CODE)
      in if \<not> is_ascii safe_code then (Inl ValueError, st)
         else publish_and_commit ce dl m
            \<lparr>bm_topic = DLQ_TOPIC, bm_key = key, bm_value = value, bm_headers = Some [(ERROR_HEADER, cps safe_code)]\<rparr> st)"

definition is_sqlalchemy :: "exn \<Rightarrow> bool" where
  "is_sqlalchemy e \<longleftrightarrow> e \<in> {SQLAlchemyError, IntegrityError, MultipleResultsFound}"

text \<open>From the decoded command on; \<open>attempt\<close> is 0 on the main topic.\<close>

definition settle_result ::
  "('b, 'w, 'p) consumer_env \<Rightarrow> delivery \<Rightarrow> kafka_message \<Rightarrow> int list \<Rightarrow> int list \<Rightarrow> int \<Rightarrow> KnowledgeSyncCommand
     \<Rightarrow> KnowledgeSyncResult \<Rightarrow> ('b, 'w, 'p) consumer_state \<Rightarrow> unit result \<times> ('b, 'w, 'p) consumer_state" where
  "settle_result ce dl m key value attempt command result st =
     (if sr_completed result then (Inr (), consumer_commit m st)
      else (let error_code = (case sr_error_code result of Some c \<Rightarrow> if c = [] then INVALID_EVENT_CODE else c | None \<Rightarrow> INVALID_EVENT_CODE)
            in if sr_retryable result \<and> attempt < int (length RETRY_DELAYS_SECONDS)
               then publish_retry ce dl m key value (attempt + 1) st
               else (case mark_matching_source_failed (dl_failed dl) (rn_now (dl_run dl)) command error_code (st_db (cs_sync st)) of
                       (r, d) \<Rightarrow>
                         (let st = st\<lparr>cs_sync := (cs_sync st)\<lparr>st_db := d\<rparr>\<rparr>
                          in case r of
                               Inr _ \<Rightarrow> publish_dlq ce dl m key value error_code st
                             | Inl e \<Rightarrow>
                                 if \<not> is_sqlalchemy e then (Inl e, st)
                                 else if attempt < int (length RETRY_DELAYS_SECONDS)
                                 then publish_retry ce dl m key value (attempt + 1) st
                                 else (Inr (), rewind_and_pause dl m None st)))))"

definition handle_body ::
  "('b, 'w, 'p) consumer_env \<Rightarrow> delivery \<Rightarrow> kafka_message \<Rightarrow> int \<Rightarrow> ('b, 'w, 'p) consumer_state
     \<Rightarrow> unit result \<times> ('b, 'w, 'p) consumer_state" where
  "handle_body ce dl m attempt st =
     (case (km_key m, km_value m) of
        (Some key, Some value) \<Rightarrow>
          (case decode_command (ce_validate ce) key value of
             Inl e \<Rightarrow> (Inl e, st)
           | Inr None \<Rightarrow> publish_dlq ce dl m key value INVALID_EVENT_CODE st
           | Inr (Some command) \<Rightarrow>
               (case run_knowledge_sync (ce_world ce) (dl_run dl) command (cs_sync st) of
                  (r, sync) \<Rightarrow>
                    (let st = st\<lparr>cs_sync := sync\<rparr>
                     in case r of
                          Inr result \<Rightarrow> settle_result ce dl m key value attempt command result st
                        | Inl e \<Rightarrow>
                            if is_sqlalchemy e
                            then settle_result ce dl m key value attempt command (sync_failure DATABASE_ERROR_CODE True) st
                            else (Inl e, st))))
      | _ \<Rightarrow> (let (key, value) = safe_message_bytes m in publish_dlq ce dl m key value INVALID_EVENT_CODE st))"

definition handle_message ::
  "('b, 'w, 'p) consumer_env \<Rightarrow> delivery \<Rightarrow> kafka_message \<Rightarrow> ('b, 'w, 'p) consumer_state
     \<Rightarrow> unit result \<times> ('b, 'w, 'p) consumer_state" where
  "handle_message ce dl m st =
     (if km_topic m = RETRY_TOPIC
      then (case parse_retry_metadata (headers_dict (km_headers m)) of
              None \<Rightarrow> (let (key, value) = safe_message_bytes m in publish_dlq ce dl m key value INVALID_EVENT_CODE st)
            | Some (attempt, not_before_ms) \<Rightarrow>
                if not_before_ms > dl_clock dl 0 then (Inr (), rewind_and_pause dl m (Some not_before_ms) st)
                else handle_body ce dl m attempt st)
      else handle_body ce dl m 0 st)"

text \<open>One turn of \<open>run_forever\<close>; \<open>polled\<close> is what \<open>poll\<close> returned, None also for an error event.\<close>

definition consumer_turn ::
  "('b, 'w, 'p) consumer_env \<Rightarrow> delivery \<Rightarrow> int \<Rightarrow> kafka_message option \<Rightarrow> ('b, 'w, 'p) consumer_state
     \<Rightarrow> unit result \<times> ('b, 'w, 'p) consumer_state" where
  "consumer_turn ce dl now_ms polled st =
     (let st = resume_due_partitions now_ms st
      in case polled of None \<Rightarrow> (Inr (), st) | Some m \<Rightarrow> handle_message ce dl m st)"

section \<open>No message is lost\<close>

text \<open>The attempt number a delivered message carries.\<close>

definition attempt_of :: "kafka_message \<Rightarrow> int" where
  "attempt_of m =
     (if km_topic m = RETRY_TOPIC
      then (case parse_retry_metadata (headers_dict (km_headers m)) of Some (n, _) \<Rightarrow> n | None \<Rightarrow> 0) else 0)"

text \<open>The same bytes are on the dead-letter topic, or on the retry topic with the next attempt number, at most 3.\<close>

definition forwarded :: "('p \<Rightarrow> BrokerMessage list) \<Rightarrow> kafka_message \<Rightarrow> int \<Rightarrow> ('b, 'w, 'p) consumer_state \<Rightarrow> bool" where
  "forwarded log m n st \<longleftrightarrow>
     (\<exists>out \<in> set (log (cs_broker st)). (bm_key out, bm_value out) = safe_message_bytes m \<and>
        (bm_topic out = DLQ_TOPIC \<or>
         bm_topic out = RETRY_TOPIC \<and> n < 3 \<and>
         (\<exists>t. bm_headers out = Some [(ATTEMPT_HEADER, decimal (n + 1)), (NOT_BEFORE_HEADER, decimal t)])))"

definition settled ::
  "('p \<Rightarrow> BrokerMessage list) \<Rightarrow> kafka_message \<Rightarrow> int \<Rightarrow> bool \<Rightarrow> ('b, 'w, 'p) consumer_state
     \<Rightarrow> unit result \<times> ('b, 'w, 'p) consumer_state \<Rightarrow> bool" where
  "settled log m n synced st p \<longleftrightarrow>
     (fst p = Inr () \<and> cs_actions (snd p) = cs_actions st @ [Commit m] \<and> (synced \<or> forwarded log m n (snd p))) \<or>
     (fst p = Inr () \<and> cs_actions (snd p) =
        cs_actions st @ [Seek (km_topic m) (km_partition m) (km_offset m), Pause (km_topic m) (km_partition m)]) \<or>
     (isl (fst p) \<and> cs_actions (snd p) = cs_actions st)"

lemma settled_sync [simp]: "settled log m n ok (st\<lparr>cs_sync := x\<rparr>) p = settled log m n ok st p"
  by (simp add: settled_def)

lemma settled_rewind: "settled log m n ok st (Inr (), rewind_and_pause dl m t st)"
  by (simp add: settled_def rewind_and_pause_def act_def Let_def)

text \<open>The sync of the decoded command completed.\<close>

definition synced :: "('b, 'w, 'p) consumer_env \<Rightarrow> delivery \<Rightarrow> kafka_message \<Rightarrow> ('b, 'w, 'p) consumer_state \<Rightarrow> bool" where
  "synced ce dl m st \<longleftrightarrow>
     (\<exists>key value command result sync. km_key m = Some key \<and> km_value m = Some value \<and>
        decode_command (ce_validate ce) key value = Inr (Some command) \<and>
        run_knowledge_sync (ce_world ce) (dl_run dl) command (cs_sync st) = (Inr result, sync) \<and> sr_completed result)"

context event_broker
begin

lemma publish_and_commit_settled:
  assumes "ce_publish ce = publish" "(bm_key out, bm_value out) = safe_message_bytes m"
    "bm_topic out = DLQ_TOPIC \<or> bm_topic out = RETRY_TOPIC \<and> n < 3 \<and>
       (\<exists>t. bm_headers out = Some [(ATTEMPT_HEADER, decimal (n + 1)), (NOT_BEFORE_HEADER, decimal t)])"
  shows "settled log m n ok st (publish_and_commit ce dl m out st)"
proof -
  obtain r p where pub: "publish out (cs_broker st) = (r, p)" by fastforce
  show ?thesis
  proof (cases r)
    case (Inl e)
    then show ?thesis using assms(1) pub by (auto simp: publish_and_commit_def settled_def rewind_and_pause_def act_def Let_def)
  next
    case (Inr u)
    then have "out \<in> set (log p)" using accepted pub by blast
    then have "forwarded log m n (consumer_commit m (st\<lparr>cs_broker := p\<rparr>))"
      unfolding forwarded_def consumer_commit_def act_def using assms(2,3) by auto
    then show ?thesis using assms(1) pub Inr by (simp add: publish_and_commit_def settled_def consumer_commit_def act_def)
  qed
qed

lemma publish_retry_settled:
  assumes "ce_publish ce = publish" "(key, value) = safe_message_bytes m" "n < 3"
  shows "settled log m n ok st (publish_retry ce dl m key value (n + 1) st)"
proof (cases "retry_delay_seconds (n + 1)")
  case (Inl e)
  then show ?thesis by (simp add: publish_retry_def settled_def)
next
  case (Inr delay)
  then show ?thesis using assms by (auto simp: publish_retry_def intro!: publish_and_commit_settled)
qed

lemma publish_dlq_settled:
  assumes "ce_publish ce = publish" "(key, value) = safe_message_bytes m"
  shows "settled log m n ok st (publish_dlq ce dl m key value code st)"
  using assms publish_and_commit_settled[OF assms(1)]
  by (auto simp: publish_dlq_def Let_def settled_def[of _ _ _ _ _ "(Inl ValueError, st)"])

lemma settle_result_settled:
  assumes "ce_publish ce = publish" "(key, value) = safe_message_bytes m"
  shows "settled log m n (sr_completed result) st (settle_result ce dl m key value n command result st)"
proof (cases "sr_completed result")
  case True
  then show ?thesis by (simp add: settle_result_def settled_def consumer_commit_def act_def)
next
  case False
  have three: "int (length RETRY_DELAYS_SECONDS) = 3" by (simp add: RETRY_DELAYS_SECONDS_def)
  have raised: "isl (fst p) \<Longrightarrow> cs_actions (snd p) = cs_actions st \<Longrightarrow> settled log m n ok st p" for p ok
    by (simp add: settled_def)
  define code where "code = (case sr_error_code result of Some c \<Rightarrow> if c = [] then INVALID_EVENT_CODE else c | None \<Rightarrow> INVALID_EVENT_CODE)"
  obtain r d where mark: "mark_matching_source_failed (dl_failed dl) (rn_now (dl_run dl)) command code (st_db (cs_sync st)) = (r, d)"
    by fastforce
  let ?st = "st\<lparr>cs_sync := (cs_sync st)\<lparr>st_db := d\<rparr>\<rparr>"
  have "settled log m n ok ?st (publish_retry ce dl m key value (n + 1) ?st)" if "n < 3" for ok
    using publish_retry_settled[OF assms that] .
  moreover have "settled log m n ok ?st (publish_dlq ce dl m key value code ?st)" for ok
    using publish_dlq_settled[OF assms] .
  moreover have "settled log m n ok ?st (Inr (), rewind_and_pause dl m None ?st)" for ok by (rule settled_rewind)
  ultimately show ?thesis using False mark publish_retry_settled[OF assms, of n False st dl]
    by (cases r) (auto simp: settle_result_def three Let_def raised simp flip: code_def)
qed

lemma settled_mono: "settled log m n ok st p \<Longrightarrow> (ok \<Longrightarrow> ok') \<Longrightarrow> settled log m n ok' st p"
  by (auto simp: settled_def)

lemma handle_body_settled:
  assumes "ce_publish ce = publish"
  shows "settled log m n (synced ce dl m st) st (handle_body ce dl m n st)"
proof (cases "km_key m = None \<or> km_value m = None")
  case True
  have "settled log m n ok st (publish_dlq ce dl m (fst (safe_message_bytes m)) (snd (safe_message_bytes m)) INVALID_EVENT_CODE st)" for ok
    using assms by (rule publish_dlq_settled) simp
  then show ?thesis using True by (auto simp: handle_body_def split: option.splits prod.splits)
next
  case False
  then obtain key val where kv: "km_key m = Some key" "km_value m = Some val" by auto
  then have safe: "(key, val) = safe_message_bytes m" by (simp add: safe_message_bytes_def)
  show ?thesis
  proof (cases "decode_command (ce_validate ce) key val")
    case (Inl e)
    then show ?thesis using kv by (simp add: handle_body_def settled_def)
  next
    case (Inr c)
    show ?thesis
    proof (cases c)
      case None
      then show ?thesis using kv Inr publish_dlq_settled[OF assms safe] by (simp add: handle_body_def)
    next
      case (Some command)
      obtain r sync where run: "run_knowledge_sync (ce_world ce) (dl_run dl) command (cs_sync st) = (r, sync)" by fastforce
      let ?st = "st\<lparr>cs_sync := sync\<rparr>"
      have settle: "settled log m n (sr_completed res) st (settle_result ce dl m key val n command res ?st)" for res
        using settle_result_settled[OF assms safe, of n res ?st dl command] by simp
      show ?thesis
      proof (cases r)
        case r: (Inl e)
        have "\<not> sr_completed (sync_failure DATABASE_ERROR_CODE True)" by (simp add: sync_failure_def)
        then show ?thesis using kv Inr Some run r settle[of "sync_failure DATABASE_ERROR_CODE True"]
          by (auto simp: handle_body_def Let_def settled_def[of _ _ _ _ _ "(Inl e, _)"] elim: settled_mono)
      next
        case r: (Inr result)
        have "sr_completed result \<Longrightarrow> synced ce dl m st" unfolding synced_def using kv Inr Some run r by blast
        then show ?thesis using kv Inr Some run r settle[of result] settled_mono by (simp add: handle_body_def) blast
      qed
    qed
  qed
qed

lemma handle_message_settled:
  assumes "ce_publish ce = publish"
  shows "settled log m (attempt_of m) (synced ce dl m st) st (handle_message ce dl m st)"
proof (cases "km_topic m = RETRY_TOPIC")
  case False
  then show ?thesis using handle_body_settled[OF assms] by (simp add: handle_message_def attempt_of_def)
next
  case True
  show ?thesis
  proof (cases "parse_retry_metadata (headers_dict (km_headers m))")
    case None
    have "settled log m n ok st (publish_dlq ce dl m (fst (safe_message_bytes m)) (snd (safe_message_bytes m)) INVALID_EVENT_CODE st)" for n ok
      using assms by (rule publish_dlq_settled) simp
    then show ?thesis using True None by (auto simp: handle_message_def split: prod.splits)
  next
    case (Some q)
    obtain n t where "q = (n, t)" by fastforce
    then show ?thesis using True Some handle_body_settled[OF assms]
      by (simp add: handle_message_def attempt_of_def settled_rewind)
  qed
qed

end

text \<open>
  C9: Handling a message ends in one of three ways, whatever the database, storage, network and broker
  do.  The offset is committed once, and then the sync completed or the same bytes are durably on the
  dead-letter topic or on the retry topic with the next attempt number, at most 3; or the partition is
  rewound to the message and paused; or an exception leaves the handler and the offset is untouched.
\<close>

theorem consumer_never_loses_message:
  assumes "producer_ok P log" "ce_publish ce = publish_sync P" "handle_message ce dl m st = (r, st')"
  shows "(r = Inr () \<and> cs_actions st' = cs_actions st @ [Commit m] \<and>
      (synced ce dl m st \<or> forwarded log m (attempt_of m) st')) \<or>
    (r = Inr () \<and> cs_actions st' =
      cs_actions st @ [Seek (km_topic m) (km_partition m) (km_offset m), Pause (km_topic m) (km_partition m)]) \<or>
    (isl r \<and> cs_actions st' = cs_actions st)"
  using event_broker.handle_message_settled[OF kafka_event_broker[OF assms(1)] assms(2), of m dl st] assms(3)
  by (simp add: settled_def)

section \<open>Retry headers\<close>

lemma ascii_digit_char: "is_digit c \<Longrightarrow> ascii_digit (char_of (nat c)) \<and> int (ord (char_of (nat c))) = c"
  by (auto simp: is_digit_def ascii_digit_def ord_def of_char_of)

lemma decimal_groups_digits: "s \<noteq> [] \<Longrightarrow> list_all ascii_digit s \<Longrightarrow> decimal_groups s"
proof (induction s rule: decimal_groups.induct)
  case (3 c c' cs)
  then show ?case by (auto simp: ascii_digit_def ord_def)
qed auto

lemma py_int10_decimal:
  assumes "0 \<le> n" "length (digits n) \<le> 4300"
  shows "py_int10 (map (\<lambda>b. char_of (nat b)) (decimal n)) = Some n"
proof -
  let ?s = "map (\<lambda>b. char_of (nat b)) (digits n)"
  have d: "digits n \<noteq> []" "list_all is_digit (digits n)" "number_value (digits n) = n" using digits_props[OF assms(1)] by auto
  then have all: "list_all ascii_digit ?s" using ascii_digit_char by (auto simp: list_all_iff)
  then have "\<forall>c \<in> set ?s. \<not> is_space c" by (auto simp: list_all_iff ascii_digit_def is_space_def)
  then have strip: "strip ?s = ?s" by (rule strip_no_space)
  have flt: "filter ascii_digit ?s = ?s" using all by (simp add: list_all_iff filter_id_conv)
  have "foldl (\<lambda>v c. v * 10 + (int (ord c) - 48)) a (map (\<lambda>b. char_of (nat b)) ds) = foldl (\<lambda>v c. v * 10 + (c - 48)) a ds"
    if "list_all is_digit ds" for a ds
    using that ascii_digit_char by (induction ds arbitrary: a) auto
  then have val: "decimal_value ?s = n" using d by (simp only: decimal_value_def flt number_value_def)
  obtain c cs where s: "?s = c # cs" "ascii_digit c" using d(1) all by (cases ?s) auto
  then have "\<not> startswith ?s ''+''" "\<not> startswith ?s ''-''" by (auto simp: startswith_def ascii_digit_def ord_def)
  moreover have "decimal_groups ?s" using d(1) all by (intro decimal_groups_digits) auto
  moreover have "length (filter ascii_digit ?s) \<le> 4300" using assms(2) by (simp only: flt length_map)
  ultimately show ?thesis using assms(1) val by (simp add: py_int10_def strip decimal_def del: map_eq_Cons_conv)
qed

lemma length_digits:
  assumes "0 \<le> n" "n < 10 ^ k" "0 < k"
  shows "length (digits n) \<le> k"
  using assms
proof (induction n arbitrary: k rule: digits.induct)
  case (1 n)
  show ?case
  proof (cases "n < 10")
    case True
    then show ?thesis using 1(4) by (simp add: digits.simps[of n])
  next
    case False
    then obtain k' where k: "k = Suc k'" "0 < k'" using 1(3,4) by (cases k; cases "k - 1") auto
    then have "n div 10 < 10 ^ k'" using 1(3) by (simp add: div_less_iff_less_mult)
    then have "length (digits (n div 10)) \<le> k'" using 1(1)[OF False] False 1(2) k(2) by (simp add: pos_imp_zdiv_nonneg_iff)
    then show ?thesis using False k by (simp add: digits.simps[of n])
  qed
qed

lemma parse_decimal_header:
  assumes "0 < n" "n < 10 ^ 20"
  shows "parse_positive_ascii_int (Some (decimal n)) = Some n"
proof -
  have "length (digits n) \<le> 20" using assms by (intro length_digits) auto
  then have len: "length (digits n) \<le> 4300" by simp
  have "list_all is_digit (digits n)" using digits_props[of n] assms(1) by simp
  then have "list_all (\<lambda>b. 0 \<le> b \<and> b < 128) (decimal n)" using assms(1) by (auto simp: decimal_def list_all_iff is_digit_def)
  then show ?thesis using py_int10_decimal[OF _ len] assms(1) by (simp add: parse_positive_ascii_int_def)
qed

text \<open>
  The headers of a retry message read back as exactly the attempt number and the earliest delivery
  time that were written, and the delay is the one of that attempt.
\<close>

theorem retry_headers_round_trip:
  assumes "1 \<le> n" "n \<le> 3" "0 < t" "t < 10 ^ 20"
    "km_topic m = RETRY_TOPIC" "km_headers m = Some [(ATTEMPT_HEADER, Some (decimal n)), (NOT_BEFORE_HEADER, Some (decimal t))]"
  shows "parse_retry_metadata (headers_dict (km_headers m)) = Some (n, t) \<and> attempt_of m = n \<and>
    retry_delay_seconds n = Inr ([30, 300, 1800] ! nat (n - 1))"
proof -
  have neq: "ATTEMPT_HEADER \<noteq> NOT_BEFORE_HEADER" by (simp add: ATTEMPT_HEADER_def NOT_BEFORE_HEADER_def)
  have "n < 10 ^ 20" using assms(2) by simp
  then have "parse_retry_metadata (headers_dict (km_headers m)) = Some (n, t)"
    using assms neq parse_decimal_header[of n] parse_decimal_header[of t]
    by (simp add: parse_retry_metadata_def headers_dict_def RETRY_DELAYS_SECONDS_def)
  then show ?thesis using assms by (simp add: attempt_of_def retry_delay_seconds_def RETRY_DELAYS_SECONDS_def)
qed

theorem retry_headers_round_trip_witness:
  "parse_retry_metadata (headers_dict (Some [(ATTEMPT_HEADER, Some (decimal 2)), (NOT_BEFORE_HEADER, Some (decimal 1700))])) = Some (2, 1700)"
  using retry_headers_round_trip[of 2 1700 "\<lparr>km_topic = RETRY_TOPIC, km_partition = 0, km_offset = 0,
      km_headers = Some [(ATTEMPT_HEADER, Some (decimal 2)), (NOT_BEFORE_HEADER, Some (decimal 1700))], km_key = None, km_value = None\<rparr>"]
  by simp

section \<open>From the API to the worker\<close>

text \<open>The wire form of an envelope, members in key order, and what pydantic documents for such a value.\<close>

definition envelope_json :: "Envelope \<Rightarrow> wjson" where
  "envelope_json en = WObj
     [(cps ''aggregateId'', WStr (cps (en_aggregate_id en))),
      (cps ''aggregateType'', WStr (cps (en_aggregate_type en))),
      (cps ''causationId'', (case en_causation_id en of None \<Rightarrow> WNull | Some c \<Rightarrow> WStr (cps c))),
      (cps ''correlationId'', WStr (cps (en_correlation_id en))),
      (cps ''eventType'', WStr (cps (en_event_type en))),
      (cps ''id'', WStr (cps (uuid_str (en_event_id en)))),
      (cps ''payload'', WObj
         [(cps ''sourceId'', WStr (cps (uuid_str (sp_source_id (en_payload en))))),
          (cps ''syncVersion'', WInt (sp_sync_version (en_payload en))),
          (cps ''tenantId'', WStr (cps (uuid_str (sp_tenant_id (en_payload en)))))]),
      (cps ''schemaVersion'', WInt (en_schema_version en)),
      (cps ''tenantId'', WStr (cps (uuid_str (en_tenant_id en))))]"

definition fields_ok :: "Envelope \<Rightarrow> bool" where
  "fields_ok en \<longleftrightarrow> 1 \<le> sp_sync_version (en_payload en) \<and> 1 \<le> length (en_correlation_id en) \<and> length (en_correlation_id en) \<le> 200"

definition pydantic_ok :: "(wjson \<Rightarrow> Envelope option) \<Rightarrow> bool" where
  "pydantic_ok validate \<longleftrightarrow> (\<forall>en. fields_ok en \<longrightarrow> validate (envelope_json en) = Some en)"

lemma sort_keys_envelope:
  assumes "oe_tenant_id e = Some t" "oe_payload e = sync_payload t s v"
  shows "sort_keys (envelope e) = envelope_json
    \<lparr>en_event_id = oe_id e, en_event_type = oe_event_type e, en_schema_version = oe_schema_version e, en_tenant_id = t,
     en_aggregate_type = oe_aggregate_type e, en_aggregate_id = oe_aggregate_id e,
     en_payload = \<lparr>sp_tenant_id = t, sp_source_id = s, sp_sync_version = v\<rparr>, en_correlation_id = oe_correlation_id e,
     en_causation_id = oe_causation_id e\<rparr>"
  unfolding envelope_def envelope_json_def assms sync_payload_def by (simp add: cps_def[of "_ # _"] split: option.split)

lemma length_correlation: "1 \<le> length (normalize_correlation_id fresh r) \<and> length (normalize_correlation_id fresh r) \<le> 200"
  by (auto simp: normalize_correlation_id_def length_uuid_str Let_def split: option.splits)

lemma decode_serialized:
  assumes "pydantic_ok validate" "serialize_outbox_row e = Inr r" "oe_event_type e = SYNC_TOPIC" "oe_schema_version e = 1"
    "oe_aggregate_type e = ''knowledge_source''" "oe_aggregate_id e = uuid_str s" "oe_tenant_id e = Some t"
    "oe_payload e = sync_payload t s v" "1 \<le> v" "1 \<le> length (oe_correlation_id e)" "length (oe_correlation_id e) \<le> 200"
  shows "decode_command validate (br_key r) (br_value r) =
    Inr (Some \<lparr>cm_event_id = oe_id e, cm_tenant_id = t, cm_source_id = s, cm_sync_version = v, cm_correlation_id = oe_correlation_id e\<rparr>)"
proof -
  let ?en = "\<lparr>en_event_id = oe_id e, en_event_type = oe_event_type e, en_schema_version = oe_schema_version e, en_tenant_id = t,
     en_aggregate_type = oe_aggregate_type e, en_aggregate_id = oe_aggregate_id e,
     en_payload = \<lparr>sp_tenant_id = t, sp_source_id = s, sp_sync_version = v\<rparr>, en_correlation_id = oe_correlation_id e,
     en_causation_id = oe_causation_id e\<rparr>"
  have "wf_json (oe_payload e)" by (simp add: assms(8) sync_payload_def)
  from serialize_round_trip[OF assms(2) this] sort_keys_envelope[OF assms(7,8)]
  obtain x where x: "utf8_decode (br_value r) = Some x" "loads x = Inr (envelope_json ?en)" by auto
  have "validate (envelope_json ?en) = Some ?en" using assms(1,9-11) by (simp add: pydantic_ok_def fields_ok_def)
  moreover have "br_key r = concat (map utf8_char (cps (oe_aggregate_id e)))"
    using assms(2) by (auto simp: serialize_valid split: if_splits)
  ultimately show ?thesis using x assms(3-6) by (simp add: decode_command_def Let_def utf8_encode_cps)
qed

text \<open>
  C27: A sync started through the API reaches the worker: the outbox event it commits is serialisable, and
  the bytes the publisher sends decode in the consumer to the command for exactly that tenant, source,
  version and correlation identifier.
\<close>

theorem started_sync_reaches_worker:
  assumes "start_source_sync co u t sid request_id fresh now event_id db_now d = (Inr v, d')" "pydantic_ok validate"
    "1 \<le> kv_sync_version v" "kv_sync_version v \<le> 2147483647"
  shows "\<exists>e r. e \<in> set (outbox d') \<and> oe_id e = event_id \<and> serialize_outbox_row e = Inr r \<and>
    decode_command validate (br_key r) (br_value r) =
      Inr (Some \<lparr>cm_event_id = event_id, cm_tenant_id = t, cm_source_id = sid, cm_sync_version = kv_sync_version v,
        cm_correlation_id = normalize_correlation_id fresh request_id\<rparr>)"
proof -
  let ?corr = "normalize_correlation_id fresh request_id"
  from assms(1) have "start_source_sync_body u t sid ?corr now event_id db_now d = Inr (v, d')"
    unfolding start_source_sync_def by (blast dest: in_txn_Inr)
  then obtain s where d': "d' = add_outbox_event event_id db_now t KNOWLEDGE_SYNC_EVENT_TYPE KNOWLEDGE_SYNC_AGGREGATE_TYPE
      (uuid_str sid) (sync_payload t sid (ks_sync_version s + 1)) ?corr (save_source (started_sync now s) d)"
    and v: "v = to_view (started_sync now s)" by (rule start_source_sync_body_effect)
  have ver: "kv_sync_version v = ks_sync_version s + 1" by (simp add: v to_view_def started_sync_def)
  let ?e = "last (outbox d')"
  have e: "?e \<in> set (outbox d')" "oe_id ?e = event_id" "oe_tenant_id ?e = Some t" "oe_event_type ?e = SYNC_TOPIC"
    "oe_schema_version ?e = 1" "oe_aggregate_type ?e = ''knowledge_source''" "oe_aggregate_id ?e = uuid_str sid"
    "oe_payload ?e = sync_payload t sid (kv_sync_version v)" "oe_correlation_id ?e = ?corr" "oe_causation_id ?e = None"
    by (simp_all add: d' ver add_outbox_event_def SYNC_TOPIC_def KNOWLEDGE_SYNC_EVENT_TYPE_def KNOWLEDGE_SYNC_AGGREGATE_TYPE_def)
  have "length (digits (kv_sync_version v)) \<le> 10" using assms(3,4) by (intro length_digits) auto
  then have "printable (envelope ?e)" using e assms(3)
    by (simp add: envelope_def sync_payload_def digits.simps[of 1])
  then have "valid_event ?e" using e length_uuid_str[of sid] length_correlation[of fresh request_id]
    by (auto simp: valid_event_def sync_payload_def SYNC_TOPIC_def)
  then obtain r where r: "serialize_outbox_row ?e = Inr r" by (simp add: serialize_valid)
  from decode_serialized[OF assms(2) r e(4,5,6,7,3,8) assms(3)] length_correlation e r show ?thesis by metis
qed

section \<open>Sources that cannot be fetched\<close>

text \<open>One hop of the fetch loop that ends in a redirect: the address it points to and the network afterwards.\<close>

definition redirect_hop :: "fetch_env \<Rightarrow> 'w network \<Rightarrow> fetch_policy \<Rightarrow> string \<Rightarrow> 'w \<Rightarrow> (string \<times> 'w) option" where
  "redirect_hop env net policy url w =
     (case validate_url (fe_url env) url policy of
        Inl _ \<Rightarrow> None
      | Inr (parsed, host) \<Rightarrow>
          (case resolve_host net host w of
             (Inl _, _) \<Rightarrow> None
           | (Inr addresses, w1) \<Rightarrow>
               (case perform_request env net parsed host (hd addresses) policy w1 of
                  (Inr (status, Some loc, _), _, w2) \<Rightarrow>
                    if status \<in> set REDIRECT_STATUSES \<and> strip loc \<noteq> [] then Some (strip loc, w2) else None
                | _ \<Rightarrow> None)))"

text \<open>Within the allowed number of redirects the site sends the worker to an address that cannot be joined.\<close>

inductive led_astray :: "fetch_env \<Rightarrow> 'w network \<Rightarrow> fetch_policy \<Rightarrow> string \<Rightarrow> nat \<Rightarrow> 'w \<Rightarrow> bool" for env net policy where
  here: "redirect_hop env net policy url w = Some (loc, w') \<Longrightarrow> n < max_redirects \<Longrightarrow> urljoin env url loc = Inl ValueError \<Longrightarrow>
    led_astray env net policy url n w"
| later: "redirect_hop env net policy url w = Some (loc, w') \<Longrightarrow> n < max_redirects \<Longrightarrow> urljoin env url loc = Inr url' \<Longrightarrow>
    led_astray env net policy url' (n + 1) w' \<Longrightarrow> led_astray env net policy url n w"

lemma redirect_hop_step:
  assumes "redirect_hop env net policy url w = Some (loc, w')" "n < max_redirects"
  shows "\<exists>ev. fetch_loop env net policy url n w = (case urljoin env url loc of
      Inl e \<Rightarrow> (Inl (OtherError e), ev, w')
    | Inr url' \<Rightarrow> (case fetch_loop env net policy url' (n + 1) w' of (r, ev', w3) \<Rightarrow> (r, ev @ ev', w3)))"
  using assms unfolding redirect_hop_def fetch_loop.simps[of env net policy url n w]
  by (auto split: sum.splits prod.splits option.splits if_splits)

lemma led_astray_escapes:
  "led_astray env net policy url n w \<Longrightarrow> \<exists>ev w'. fetch_loop env net policy url n w = (Inl (OtherError ValueError), ev, w')"
proof (induction rule: led_astray.induct)
  case (here url w loc w' n)
  from redirect_hop_step[OF here(1,2)] here(3) show ?case by auto
next
  case (later url w loc w' n url')
  from redirect_hop_step[OF later(1,2)] later(3) later.IH show ?case by auto
qed

text \<open>
  An address whose host the fetch policy refuses, or whose site leads the worker astray.
\<close>

definition unfetchable :: "('b, 'w) sync_world \<Rightarrow> string \<Rightarrow> 'w \<Rightarrow> bool" where
  "unfetchable wd uri w =
     (case urlsplit (fe_url (wd_fetch wd)) uri of
        Inl _ \<Rightarrow> False
      | Inr parsed \<Rightarrow>
          (case url_hostname parsed of
             None \<Rightarrow> False
           | Some host \<Rightarrow>
               (case PublicKnowledgeFetchPolicy (fe_url (wd_fetch wd)) [host] 5242880 10000 of
                  Inl _ \<Rightarrow> True
                | Inr policy \<Rightarrow> led_astray (wd_fetch wd) (wd_network wd) policy uri 0 w)))"

lemma policy_refusal: "PublicKnowledgeFetchPolicy env [host] 5242880 10000 = Inl e \<Longrightarrow> e = ValueError"
  by (auto simp: PublicKnowledgeFetchPolicy_def normalize_host_def Let_def bind_result_def
      split: if_splits option.splits sum.splits)

lemma unfetchable_escapes:
  assumes "unfetchable wd uri w"
  shows "\<exists>ev w'. fetch_url_content wd cm (Some uri) w = (Inl ValueError, ev, w')"
proof -
  from assms obtain parsed host where u: "urlsplit (fe_url (wd_fetch wd)) uri = Inr parsed" "url_hostname parsed = Some host"
    by (auto simp: unfetchable_def split: sum.splits option.splits)
  show ?thesis
  proof (cases "PublicKnowledgeFetchPolicy (fe_url (wd_fetch wd)) [host] 5242880 10000")
    case (Inl e)
    then show ?thesis using u policy_refusal[OF Inl] by (simp add: fetch_url_content_def)
  next
    case (Inr policy)
    with assms u have "led_astray (wd_fetch wd) (wd_network wd) policy uri 0 w" by (simp add: unfetchable_def)
    from led_astray_escapes[OF this] u Inr show ?thesis
      by (auto simp: fetch_url_content_def fetch_public_knowledge_def)
  qed
qed

lemma sync_escapes:
  assumes "rn_up rn 1" "rn_up rn 2" "SOURCE_SELECT cm (rn_interfere rn 1 (st_db st)) = Inr (Some source)"
    and "source_refusal cm (Some source) = None"
    and "\<not> completed_handoff_exists cm (rn_interfere rn 2 (rn_interfere rn 1 (st_db st)))"
    and "ks_source_type source = Url" "ks_source_uri source = Some uri" "unfetchable wd uri (st_network st)"
  shows "\<exists>st'. run_knowledge_sync wd rn cm st = (Inl ValueError, st') \<and>
    st_db st' = rn_interfere rn 2 (rn_interfere rn 1 (st_db st)) \<and> st_objects st' = st_objects st"
  using assms unfetchable_escapes[OF assms(8), of cm]
  by (auto simp: run_knowledge_sync_def Let_def fetch_content_def)

text \<open>
  C28: Let a URL source be due for the version a delivered message asks for, and let its address be
  one whose host the fetch policy refuses, or whose site redirects the worker, within the allowed
  number of redirects, to something that cannot be parsed as an address.  Then every delivery of
  that message ends with a ValueError that leaves the handler: no offset is committed, nothing is
  rewound or paused, nothing goes to the retry or the dead-letter topic, and the sync writes
  neither to the database nor to storage, so no failure is recorded on the source.
\<close>

theorem unfetchable_source_escapes_consumer:
  fixes st :: "('b, 'w, 'p) consumer_state"
  assumes "km_topic m = RETRY_TOPIC \<longrightarrow>
      (\<exists>attempt due. parse_retry_metadata (headers_dict (km_headers m)) = Some (attempt, due) \<and> due \<le> dl_clock dl 0)"
    and "km_key m = Some key" "km_value m = Some payload" "decode_command (ce_validate ce) key payload = Inr (Some cm)"
    and "rn_up (dl_run dl) 1" "rn_up (dl_run dl) 2"
  defines "d1 \<equiv> rn_interfere (dl_run dl) 1 (st_db (cs_sync st))"
  defines "d2 \<equiv> rn_interfere (dl_run dl) 2 d1"
  assumes "SOURCE_SELECT cm d1 = Inr (Some source)" "source_refusal cm (Some source) = None" "\<not> completed_handoff_exists cm d2"
    and "ks_source_type source = Url" "ks_source_uri source = Some uri"
    and "unfetchable (ce_world ce) uri (st_network (cs_sync st))"
  shows "\<exists>st'. handle_message ce dl m st = (Inl ValueError, st') \<and> cs_actions st' = cs_actions st \<and>
    cs_broker st' = cs_broker st \<and> cs_paused_until st' = cs_paused_until st \<and>
    st_db (cs_sync st') = d2 \<and> st_objects (cs_sync st') = st_objects (cs_sync st)"
proof -
  obtain sync where sync: "run_knowledge_sync (ce_world ce) (dl_run dl) cm (cs_sync st) = (Inl ValueError, sync)"
    "st_db sync = d2" "st_objects sync = st_objects (cs_sync st)"
    using sync_escapes[of "dl_run dl" cm "cs_sync st" source uri "ce_world ce"] assms unfolding d1_def d2_def by blast
  have body: "handle_body ce dl m attempt st = (Inl ValueError, st\<lparr>cs_sync := sync\<rparr>)" for attempt
    using assms(2-4) sync(1) by (simp add: handle_body_def Let_def is_sqlalchemy_def)
  have "handle_message ce dl m st = (Inl ValueError, st\<lparr>cs_sync := sync\<rparr>)"
    using assms(1) body by (auto simp: handle_message_def)
  then show ?thesis using sync(2,3) by auto
qed

section \<open>Concrete deliveries\<close>

text \<open>A validator with the documented behaviour: every member present, with its type, and the bounds.\<close>

definition text_of :: "utext \<Rightarrow> string" where
  "text_of t = map (\<lambda>c. char_of (nat c)) t"

definition str_field :: "(utext \<times> wjson) list \<Rightarrow> string \<Rightarrow> string option" where
  "str_field kvs k = (case map_of kvs (cps k) of Some (WStr s) \<Rightarrow> Some (text_of s) | _ \<Rightarrow> None)"

definition int_field :: "(utext \<times> wjson) list \<Rightarrow> string \<Rightarrow> int option" where
  "int_field kvs k = (case map_of kvs (cps k) of Some (WInt n) \<Rightarrow> Some n | _ \<Rightarrow> None)"

definition uuid_field :: "(utext \<times> wjson) list \<Rightarrow> string \<Rightarrow> uuid option" where
  "uuid_field kvs k = Option.bind (str_field kvs k) (\<lambda>s. case py_uuid s of Inr u \<Rightarrow> Some u | Inl _ \<Rightarrow> None)"

definition payload_field :: "(utext \<times> wjson) list \<Rightarrow> SyncPayload option" where
  "payload_field kvs =
     (case map_of kvs (cps ''payload'') of
        Some (WObj ps) \<Rightarrow>
          Option.bind (uuid_field ps ''tenantId'') (\<lambda>t. Option.bind (uuid_field ps ''sourceId'') (\<lambda>s.
          Option.bind (int_field ps ''syncVersion'') (\<lambda>v. Some \<lparr>sp_tenant_id = t, sp_source_id = s, sp_sync_version = v\<rparr>)))
      | _ \<Rightarrow> None)"

definition strict_validate :: "wjson \<Rightarrow> Envelope option" where
  "strict_validate w =
     (case w of
        WObj kvs \<Rightarrow>
          Option.bind (uuid_field kvs ''id'') (\<lambda>i. Option.bind (str_field kvs ''eventType'') (\<lambda>et.
          Option.bind (int_field kvs ''schemaVersion'') (\<lambda>sv. Option.bind (uuid_field kvs ''tenantId'') (\<lambda>t.
          Option.bind (str_field kvs ''aggregateType'') (\<lambda>aty. Option.bind (str_field kvs ''aggregateId'') (\<lambda>ai.
          Option.bind (payload_field kvs) (\<lambda>p. Option.bind (str_field kvs ''correlationId'') (\<lambda>co.
          let en = \<lparr>en_event_id = i, en_event_type = et, en_schema_version = sv, en_tenant_id = t, en_aggregate_type = aty,
                    en_aggregate_id = ai, en_payload = p, en_correlation_id = co, en_causation_id = str_field kvs ''causationId''\<rparr>
          in if fields_ok en then Some en else None))))))))
      | _ \<Rightarrow> None)"

lemma text_of_cps [simp]: "text_of (cps s) = s"
proof -
  have "char_of (nat (of_char c)) = c" for c :: char
    by (metis char_of_char nat_int of_nat_of_char)
  then show ?thesis by (induction s) (auto simp: text_of_def cps_def)
qed

lemma strict_validate_ok: "pydantic_ok strict_validate"
  unfolding pydantic_ok_def
proof (intro allI impI)
  fix en
  assume "fields_ok en"
  have p: "payload_field kvs = Some (en_payload en)"
    if "map_of kvs (cps ''payload'') = Some (WObj [(cps ''sourceId'', WStr (cps (uuid_str (sp_source_id (en_payload en))))),
        (cps ''syncVersion'', WInt (sp_sync_version (en_payload en))),
        (cps ''tenantId'', WStr (cps (uuid_str (sp_tenant_id (en_payload en)))))])" for kvs
    using that by (simp add: payload_field_def uuid_field_def str_field_def int_field_def cps_inject)
  show "strict_validate (envelope_json en) = Some en"
    unfolding envelope_json_def strict_validate_def wjson.case
    using \<open>fields_ok en\<close>
    by (subst p, simp add: cps_inject)
      (cases en, auto simp: uuid_field_def str_field_def int_field_def cps_inject Let_def split: option.split)
qed

definition delivered_event :: OutboxEvent where
  "delivered_event = sample_event\<lparr>oe_aggregate_id := uuid_str 3, oe_payload := sync_payload 1 3 1\<rparr>"

definition delivered_record :: BrokerRecord where
  "delivered_record = (case serialize_outbox_row delivered_event of Inr r \<Rightarrow> r | Inl _ \<Rightarrow> \<lparr>br_topic = [], br_key = [], br_value = []\<rparr>)"

definition delivered_message :: kafka_message where
  "delivered_message = \<lparr>km_topic = SYNC_TOPIC, km_partition = 0, km_offset = 5, km_headers = None,
     km_key = Some (br_key delivered_record), km_value = Some (br_value delivered_record)\<rparr>"

definition quiet_delivery :: delivery where
  "quiet_delivery = \<lparr>dl_run = quiet_run, dl_failed = Committed, dl_clock = (\<lambda>k. 1000)\<rparr>"

definition sample_consumer :: "string \<Rightarrow> (string list, int, BrokerMessage list) consumer_env" where
  "sample_consumer location = \<lparr>ce_world = sample_world location, ce_publish = publish_sync list_producer, ce_validate = strict_validate\<rparr>"

definition consumer_start :: "string \<Rightarrow> (string list, int, BrokerMessage list) consumer_state" where
  "consumer_start uri = \<lparr>cs_sync = sync_start uri, cs_broker = [], cs_actions = [], cs_paused_until = []\<rparr>"

lemma delivered_decodes:
  "decode_command strict_validate (br_key delivered_record) (br_value delivered_record) = Inr (Some sample_command)"
proof -
  have "valid_event delivered_event"
    by (simp add: valid_event_def envelope_def delivered_event_def sample_event_def sync_payload_def digits.simps uuid_str_def Let_def)
  then obtain r where r: "serialize_outbox_row delivered_event = Inr r" by (simp add: serialize_valid)
  have "decode_command strict_validate (br_key r) (br_value r) =
      Inr (Some \<lparr>cm_event_id = oe_id delivered_event, cm_tenant_id = 1, cm_source_id = 3, cm_sync_version = 1,
        cm_correlation_id = oe_correlation_id delivered_event\<rparr>)"
    by (rule decode_serialized[OF strict_validate_ok r]) (simp_all add: delivered_event_def sample_event_def SYNC_TOPIC_def)
  then show ?thesis using r by (simp add: delivered_record_def sample_command_def delivered_event_def sample_event_def)
qed

lemma handle_delivered:
  assumes "run_knowledge_sync (sample_world loc) quiet_run sample_command (sync_start uri) = (r, sync)"
  shows "handle_message (sample_consumer loc) quiet_delivery delivered_message (consumer_start uri) =
    (let st = (consumer_start uri)\<lparr>cs_sync := sync\<rparr>
     in case r of
          Inr result \<Rightarrow> settle_result (sample_consumer loc) quiet_delivery delivered_message (br_key delivered_record)
            (br_value delivered_record) 0 sample_command result st
        | Inl e \<Rightarrow>
            if is_sqlalchemy e
            then settle_result (sample_consumer loc) quiet_delivery delivered_message (br_key delivered_record)
              (br_value delivered_record) 0 sample_command (sync_failure DATABASE_ERROR_CODE True) st
            else (Inl e, st))"
proof -
  have "km_topic delivered_message \<noteq> RETRY_TOPIC" "km_key delivered_message = Some (br_key delivered_record)"
    "km_value delivered_message = Some (br_value delivered_record)"
    by (simp_all add: delivered_message_def SYNC_TOPIC_def RETRY_TOPIC_def)
  moreover have "ce_validate (sample_consumer loc) = strict_validate" "ce_world (sample_consumer loc) = sample_world loc"
    "dl_run quiet_delivery = quiet_run" "cs_sync (consumer_start uri) = sync_start uri"
    by (simp_all add: sample_consumer_def quiet_delivery_def consumer_start_def)
  ultimately show ?thesis using assms delivered_decodes by (simp add: handle_message_def handle_body_def Let_def)
qed

theorem consumer_never_loses_message_witness:
  "\<exists>st'. handle_message (sample_consumer ''/b'') quiet_delivery delivered_message (consumer_start ''https://a.io'') = (Inr (), st') \<and>
     cs_actions st' = [Commit delivered_message]"
proof -
  obtain r st' where h: "handle_message (sample_consumer ''/b'') quiet_delivery delivered_message (consumer_start ''https://a.io'') = (r, st')"
    by fastforce
  have "r = Inr () \<and> cs_actions st' = [Commit delivered_message]"
    using h handle_delivered[OF sample_sync_run]
    by (simp add: settle_result_def sync_success_def consumer_commit_def act_def consumer_start_def)
  moreover have "ce_publish (sample_consumer ''/b'') = publish_sync list_producer" by (simp add: sample_consumer_def)
  ultimately show ?thesis using h consumer_never_loses_message[OF list_producer_ok _ h] by auto
qed

lemma unfetchable_samples: "unfetchable (sample_world ''/b'') ''https://*.io'' 0" "unfetchable (sample_world ''https://['') ''https://a.io'' 0"
proof -
  have url: "fe_url sample_fetch_env = ascii_env" "wd_fetch (sample_world loc) = sample_fetch_env"
    "wd_network (sample_world loc) = redirecting loc" for loc by (simp_all add: sample_world_def sample_fetch_env_def)
  have "(case urlsplit ascii_env ''https://*.io'' of Inl _ \<Rightarrow> False | Inr parsed \<Rightarrow> url_hostname parsed = Some ''*.io'')"
    "isl (PublicKnowledgeFetchPolicy ascii_env [''*.io''] 5242880 10000)" by code_simp+
  then show "unfetchable (sample_world ''/b'') ''https://*.io'' 0" by (auto simp: unfetchable_def url split: sum.splits)
  let ?policy = "\<lparr>fp_allowed_hosts = [''a.io''], fp_max_response_bytes = 5242880, fp_timeout_ms = 10000\<rparr>"
  have "(case urlsplit ascii_env ''https://a.io'' of Inl _ \<Rightarrow> False | Inr parsed \<Rightarrow> url_hostname parsed = Some ''a.io'')"
    "PublicKnowledgeFetchPolicy ascii_env [''a.io''] 5242880 10000 = Inr ?policy" by code_simp+
  moreover have "led_astray sample_fetch_env (redirecting ''https://['') ?policy ''https://a.io'' 0 0"
  proof (rule led_astray.here)
    show "redirect_hop sample_fetch_env (redirecting ''https://['') ?policy ''https://a.io'' 0 = Some (''https://['', 1)" by code_simp
    show "urljoin sample_fetch_env ''https://a.io'' ''https://['' = Inl ValueError" by code_simp
  qed (simp add: max_redirects_def)
  ultimately show "unfetchable (sample_world ''https://['') ''https://a.io'' 0"
    by (auto simp: unfetchable_def url split: sum.splits)
qed

theorem unfetchable_source_escapes_consumer_witness:
  "validate_source_uri ascii_env ''https://*.io'' = Inr ''https://*.io'' \<and>
   (\<exists>st'. handle_message (sample_consumer ''/b'') quiet_delivery delivered_message (consumer_start ''https://*.io'') = (Inl ValueError, st') \<and>
      cs_actions st' = [] \<and> cs_broker st' = []) \<and>
   (\<exists>st'. handle_message (sample_consumer ''https://['') quiet_delivery delivered_message (consumer_start ''https://a.io'') = (Inl ValueError, st') \<and>
      cs_actions st' = [] \<and> cs_broker st' = [])"
proof -
  have msg: "km_topic delivered_message \<noteq> RETRY_TOPIC" "km_key delivered_message = Some (br_key delivered_record)"
    "km_value delivered_message = Some (br_value delivered_record)"
    by (simp_all add: delivered_message_def SYNC_TOPIC_def RETRY_TOPIC_def)
  have env: "ce_validate (sample_consumer loc) = strict_validate" "ce_world (sample_consumer loc) = sample_world loc"
    "rn_up (dl_run quiet_delivery) k" "rn_interfere (dl_run quiet_delivery) k d = d"
    "st_db (cs_sync (consumer_start uri)) = sync_db uri" "st_network (cs_sync (consumer_start uri)) = 0"
    "cs_actions (consumer_start uri) = []" "cs_broker (consumer_start uri) = []" for loc uri k d
    by (simp_all add: sample_consumer_def quiet_delivery_def quiet_run_def consumer_start_def sync_start_def)
  have src: "SOURCE_SELECT sample_command (sync_db uri) = Inr (Some (url_source uri))"
    "source_refusal sample_command (Some (url_source uri)) = None" "\<not> completed_handoff_exists sample_command (sync_db uri)"
    "ks_source_type (url_source uri) = Url" "ks_source_uri (url_source uri) = Some uri" for uri
    by (simp_all add: SOURCE_SELECT_def source_refusal_def completed_handoff_exists_def DOCUMENT_BY_VERSION_def version_documents_def
        sync_db_def url_source_def sample_command_def new_knowledge_source_def sample_db_def empty_db_def one_or_none_def)
  have run: "\<exists>st'. handle_message (sample_consumer loc) quiet_delivery delivered_message (consumer_start uri) = (Inl ValueError, st') \<and>
      cs_actions st' = [] \<and> cs_broker st' = []" if "unfetchable (sample_world loc) uri 0" for loc uri
    using unfetchable_source_escapes_consumer[of delivered_message quiet_delivery "br_key delivered_record" "br_value delivered_record"
        "sample_consumer loc" sample_command "consumer_start uri" "url_source uri" uri, unfolded env]
    by (auto simp: msg delivered_decodes src env(3) that)
  have "validate_source_uri ascii_env ''https://*.io'' = Inr ''https://*.io''" by code_simp
  then show ?thesis using run unfetchable_samples by blast
qed

theorem started_sync_reaches_worker_witness:
  "\<exists>v d' e r. start_source_sync Committed 2 1 30 (Some '' req-1 '') 99 50 40 60
     (snd (create_source Committed 2 1 sample_request 5 30 tenancy_db)) = (Inr v, d') \<and>
   e \<in> set (outbox d') \<and> serialize_outbox_row e = Inr r \<and>
   decode_command strict_validate (br_key r) (br_value r) = Inr (Some \<lparr>cm_event_id = 40, cm_tenant_id = 1, cm_source_id = 30,
     cm_sync_version = 1, cm_correlation_id = normalize_correlation_id 99 (Some '' req-1 '')\<rparr>)"
proof -
  let ?d = "snd (create_source Committed 2 1 sample_request 5 30 tenancy_db)"
  let ?r = "start_source_sync Committed 2 1 30 (Some '' req-1 '') 99 50 40 60 ?d"
  have "(case fst ?r of Inr v \<Rightarrow> kv_sync_version v = 1 | Inl _ \<Rightarrow> False)" by code_simp
  then obtain v where v: "fst ?r = Inr v" "kv_sync_version v = 1" by (cases "fst ?r") auto
  then have run: "?r = (Inr v, snd ?r)" by (simp add: prod_eq_iff)
  from started_sync_reaches_worker[OF run strict_validate_ok] v(2) run show ?thesis by fastforce
qed

end
