(* ===== verification/Workforce.thy ===== *)
theory Workforce
  imports Tenancy
begin

text \<open>
  \<open>services/api/app/modules/workforce\<close>: the mapping of a verified OIDC identity to one internal
  user.  The service looks the identity up, inserts it inside a savepoint when it is new, and reloads
  the row when another transaction has won the insert.  \<open>others\<close> is what the transactions that commit
  between the lookup and the insert do to the database; under READ COMMITTED the insert sees it.
\<close>

record VerifiedWorkforceIdentity =
  wi_issuer :: string
  wi_subject :: string
  wi_email :: "string option"
  wi_email_verified :: bool
  wi_display_name :: "string option"

record InternalWorkforceUser =
  iu_id :: uuid
  iu_oidc_issuer :: string
  iu_oidc_subject :: string
  iu_email :: string
  iu_display_name :: string
  iu_status :: user_status

section \<open>Repository\<close>

definition find_user_by_oidc_identity :: "string \<Rightarrow> string \<Rightarrow> db \<Rightarrow> User option result" where
  "find_user_by_oidc_identity issuer subject d =
     one_or_none (filter (\<lambda>u. us_oidc_issuer u = issuer \<and> us_oidc_subject u = subject) (users d))"

definition add_user :: "uuid \<Rightarrow> timestamp \<Rightarrow> string \<Rightarrow> string \<Rightarrow> string \<Rightarrow> string \<Rightarrow> User" where
  "add_user uid db_now issuer subject email display_name =
     \<lparr>us_id = uid, us_oidc_issuer = issuer, us_oidc_subject = subject, us_email = email,
      us_display_name = display_name, us_status = UserActive, us_created_at = db_now, us_updated_at = db_now\<rparr>"

section \<open>Service\<close>

definition to_internal_user :: "User \<Rightarrow> InternalWorkforceUser" where
  "to_internal_user u =
     \<lparr>iu_id = us_id u, iu_oidc_issuer = us_oidc_issuer u, iu_oidc_subject = us_oidc_subject u,
      iu_email = us_email u, iu_display_name = us_display_name u, iu_status = us_status u\<rparr>"

definition save_user :: "User \<Rightarrow> db \<Rightarrow> db" where
  "save_user u d = d\<lparr>users := map (\<lambda>x. if us_id x = us_id u then u else x) (users d)\<rparr>"

text \<open>\<open>display_name or email\<close>: an absent and an empty name both fall back.\<close>

definition name_or :: "string option \<Rightarrow> string \<Rightarrow> string" where
  "name_or name email = (case name of None \<Rightarrow> email | Some n \<Rightarrow> if n = [] then email else n)"

definition sync_active_user :: "User \<Rightarrow> string \<Rightarrow> string option \<Rightarrow> timestamp \<Rightarrow> User tx" where
  "sync_active_user user email display_name now =
     (if us_status user \<noteq> UserActive then tx_raise DisabledWorkforceUserError
      else
        let mail_changed = us_email user \<noteq> email;
            user1 = (if mail_changed then user\<lparr>us_email := email\<rparr> else user);
            name_changed = (case display_name of None \<Rightarrow> False | Some n \<Rightarrow> us_display_name user \<noteq> n);
            user2 = (case display_name of
                       None \<Rightarrow> user1
                     | Some n \<Rightarrow> if name_changed then user1\<lparr>us_display_name := n\<rparr> else user1)
        in if mail_changed \<or> name_changed
           then let user3 = user2\<lparr>us_updated_at := now\<rparr>
                in tx_bind (tx_write (save_user user3)) (\<lambda>_. tx_bind flush (\<lambda>_. tx_return user3))
           else tx_return user2)"

definition insert_or_reload ::
  "uuid \<Rightarrow> timestamp \<Rightarrow> timestamp \<Rightarrow> VerifiedWorkforceIdentity \<Rightarrow> string \<Rightarrow> User tx" where
  "insert_or_reload uid db_now now identity email d =
     (let created = add_user uid db_now (wi_issuer identity) (wi_subject identity) email
                      (name_or (wi_display_name identity) email)
      in case tx_bind (tx_write (\<lambda>d. d\<lparr>users := users d @ [created]\<rparr>)) (\<lambda>_. flush) d of
           Inr (_, d') \<Rightarrow> Inr (created, d')
         | Inl e \<Rightarrow>
             if e \<noteq> IntegrityError then Inl e
             else tx_bind (tx_query (find_user_by_oidc_identity (wi_issuer identity) (wi_subject identity)))
                    (\<lambda>winner. case winner of
                       None \<Rightarrow> tx_raise IntegrityError
                     | Some w \<Rightarrow> sync_active_user w email (wi_display_name identity) now) d)"

definition upsert_verified_workforce_user ::
  "commit_outcome \<Rightarrow> (db \<Rightarrow> db) \<Rightarrow> uuid \<Rightarrow> timestamp \<Rightarrow> timestamp \<Rightarrow> VerifiedWorkforceIdentity \<Rightarrow> db
     \<Rightarrow> InternalWorkforceUser result \<times> db" where
  "upsert_verified_workforce_user co others uid db_now now identity d =
     (case wi_email identity of
        None \<Rightarrow> (Inl WorkforceIdentityProfileError, d)
      | Some email \<Rightarrow>
          (case find_user_by_oidc_identity (wi_issuer identity) (wi_subject identity) d of
             Inl e \<Rightarrow> (Inl e, d)
           | Inr (Some existing) \<Rightarrow>
               in_txn co (tx_bind (sync_active_user existing email (wi_display_name identity) now)
                            (\<lambda>u. tx_return (to_internal_user u))) d
           | Inr None \<Rightarrow>
               in_txn co (tx_bind (insert_or_reload uid db_now now identity email)
                            (\<lambda>u. tx_return (to_internal_user u))) (others d)))"

section \<open>One user per identity\<close>

lemma find_user_Some:
  assumes "find_user_by_oidc_identity i s d = Inr (Some u)"
  shows "u \<in> set (users d)" "us_oidc_issuer u = i" "us_oidc_subject u = s"
  using one_or_none_filter[OF assms[unfolded find_user_by_oidc_identity_def]] by auto

lemma find_user_iff:
  assumes "users_ok d"
  shows "find_user_by_oidc_identity i s d = Inr (Some u) \<longleftrightarrow>
     u \<in> set (users d) \<and> us_oidc_issuer u = i \<and> us_oidc_subject u = s"
proof
  assume u: "u \<in> set (users d) \<and> us_oidc_issuer u = i \<and> us_oidc_subject u = s"
  have "distinct (map (\<lambda>r. (us_oidc_issuer r, us_oidc_subject r)) (users d))"
    using assms by (simp add: users_ok_def)
  from filter_key_unique[OF this, of u "\<lambda>_. True"] u
  show "find_user_by_oidc_identity i s d = Inr (Some u)"
    by (simp add: find_user_by_oidc_identity_def one_or_none_Some)
qed (auto dest: find_user_Some)

lemma find_user_total:
  assumes "users_ok d"
  shows "find_user_by_oidc_identity i s d = Inr None \<or> (\<exists>u. find_user_by_oidc_identity i s d = Inr (Some u))"
proof (cases "filter (\<lambda>u. us_oidc_issuer u = i \<and> us_oidc_subject u = s) (users d)")
  case Nil
  then show ?thesis by (simp add: find_user_by_oidc_identity_def)
next
  case (Cons u us)
  then have "u \<in> set (filter (\<lambda>u. us_oidc_issuer u = i \<and> us_oidc_subject u = s) (users d))" by simp
  then show ?thesis using find_user_iff[OF assms, of i s u] by auto
qed

text \<open>
  What a login may do to the table of users: touch the row of its identity and no other, and keep
  the identifier of every identity.
\<close>

abbreviation identities :: "db \<Rightarrow> (uuid \<times> string \<times> string) set" where
  "identities d \<equiv> (\<lambda>u. (us_id u, us_oidc_issuer u, us_oidc_subject u)) ` set (users d)"

definition only_identity :: "string \<Rightarrow> string \<Rightarrow> db \<Rightarrow> db \<Rightarrow> bool" where
  "only_identity i s d d' \<longleftrightarrow>
     d' = d\<lparr>users := users d'\<rparr> \<and> identities d \<subseteq> identities d' \<and>
     (\<forall>u. \<not> (us_oidc_issuer u = i \<and> us_oidc_subject u = s) \<longrightarrow> (u \<in> set (users d') \<longleftrightarrow> u \<in> set (users d)))"

lemma only_identity_refl: "only_identity i s d d"
  by (simp add: only_identity_def)

lemma sync_active_user_effect:
  assumes run: "sync_active_user w email name now d = Inr (u, d')"
    and w: "w \<in> set (users d)" and ok: "users_ok d"
  shows "us_status u = UserActive \<and> us_id u = us_id w \<and> us_oidc_issuer u = us_oidc_issuer w \<and>
     us_oidc_subject u = us_oidc_subject w \<and> us_email u = email \<and> u \<in> set (users d') \<and>
     only_identity (us_oidc_issuer w) (us_oidc_subject w) d d'"
proof -
  have key: "x = w" if "x \<in> set (users d)" "us_id x = us_id w" for x
    using ok w that by (auto simp: users_ok_def distinct_map dest: inj_onD)
  have save: "u' \<in> set (users (save_user u' d)) \<and>
      only_identity (us_oidc_issuer w) (us_oidc_subject w) d (save_user u' d)"
    if "us_id u' = us_id w" "us_oidc_issuer u' = us_oidc_issuer w" "us_oidc_subject u' = us_oidc_subject w" for u'
  proof -
    let ?g = "\<lambda>x. if us_id x = us_id u' then u' else x"
    have g: "?g x = (if x = w then u' else x)" if "x \<in> set (users d)" for x
      using that key \<open>us_id u' = us_id w\<close> by auto
    then have rows: "users (save_user u' d) = map (\<lambda>x. if x = w then u' else x) (users d)"
      by (simp add: save_user_def cong: map_cong)
    have ids: "identities (save_user u' d) = identities d"
      unfolding rows set_map image_image by (rule image_cong) (simp_all add: that)
    have "x \<in> set (users (save_user u' d)) \<longleftrightarrow> x \<in> set (users d)"
      if "\<not> (us_oidc_issuer x = us_oidc_issuer w \<and> us_oidc_subject x = us_oidc_subject w)" for x
    proof -
      have "x \<noteq> w" "x \<noteq> u'" using that \<open>us_oidc_issuer u' = _\<close> \<open>us_oidc_subject u' = _\<close> by auto
      then show ?thesis unfolding rows by (auto simp: image_iff)
    qed
    moreover have "u' \<in> set (users (save_user u' d))" unfolding rows using w by (auto simp: image_iff)
    moreover have "save_user u' d = d\<lparr>users := users (save_user u' d)\<rparr>" by (simp add: save_user_def)
    ultimately show ?thesis unfolding only_identity_def ids by blast
  qed
  show ?thesis
    using run w by (auto simp: sync_active_user_def Let_def result_simps save only_identity_refl
        split: if_splits option.splits)
qed

lemma insert_or_reload_effect:
  assumes run: "insert_or_reload uid db_now now identity email d = Inr (u, d')" and ok: "users_ok d"
  shows "us_status u = UserActive \<and> us_oidc_issuer u = wi_issuer identity \<and>
     us_oidc_subject u = wi_subject identity \<and> us_email u = email \<and> u \<in> set (users d') \<and>
     only_identity (wi_issuer identity) (wi_subject identity) d d'"
proof -
  let ?c = "add_user uid db_now (wi_issuer identity) (wi_subject identity) email (name_or (wi_display_name identity) email)"
  consider "u = ?c" "d' = d\<lparr>users := users d @ [?c]\<rparr>"
    | w where "find_user_by_oidc_identity (wi_issuer identity) (wi_subject identity) d = Inr (Some w)"
        "sync_active_user w email (wi_display_name identity) now d = Inr (u, d')"
    using run unfolding insert_or_reload_def Let_def
    by (auto simp: result_simps tx_bind_def tx_write_def flush_def tx_query_def tx_raise_def
        split: if_splits sum.splits option.splits)
  then show ?thesis
  proof cases
    case 1
    then show ?thesis by (auto simp: only_identity_def add_user_def)
  next
    case 2
    from find_user_Some[OF 2(1)] sync_active_user_effect[OF 2(2) _ ok] show ?thesis by auto
  qed
qed

text \<open>
  The two ways a login can end: nothing but its own row is touched, and a returned user is the one
  active row of the identity, whose address is the verified one.
\<close>

lemma upsert_cases:
  assumes run: "upsert_verified_workforce_user co others uid db_now now identity d = (r, d')"
    and ok: "schema_ok d" "schema_ok (others d)"
  shows "(\<exists>d0. (d0 = d \<or> d0 = others d) \<and> only_identity (wi_issuer identity) (wi_subject identity) d0 d') \<and>
     (\<forall>v. r = Inr v \<longrightarrow> iu_status v = UserActive \<and> wi_email identity = Some (iu_email v) \<and>
        (\<exists>u. find_user_by_oidc_identity (wi_issuer identity) (wi_subject identity) d' = Inr (Some u) \<and>
             v = to_internal_user u))"
proof -
  have uok: "users_ok d" "users_ok (others d)"
    using ok by (simp_all add: schema_ok_def workforce_ok_def)
  show ?thesis
  proof (cases "wi_email identity")
    case None
    with run show ?thesis by (auto simp: upsert_verified_workforce_user_def intro: only_identity_refl)
  next
    case (Some email)
    let ?find = "find_user_by_oidc_identity (wi_issuer identity) (wi_subject identity)"
    have fin: ?thesis
      if t: "in_txn co (tx_bind m (\<lambda>u. tx_return (to_internal_user u))) d0 = (r, d')"
        and d0: "d0 = d \<or> d0 = others d"
        and m: "\<And>u e. m d0 = Inr (u, e) \<Longrightarrow> us_status u = UserActive \<and> us_oidc_issuer u = wi_issuer identity \<and>
           us_oidc_subject u = wi_subject identity \<and> us_email u = email \<and> u \<in> set (users e) \<and>
           only_identity (wi_issuer identity) (wi_subject identity) d0 e" for m d0
      using t
    proof (cases rule: in_txn_cases)
      case unchanged
      with d0 show ?thesis by (auto intro: only_identity_refl)
    next
      case (committed x)
      then obtain u where u: "m d0 = Inr (u, d')" "x = to_internal_user u" by (auto simp: result_simps)
      have "users_ok d'" using committed(2) by (simp add: schema_ok_def workforce_ok_def)
      then have "?find d' = Inr (Some u)" using m[OF u(1)] by (simp add: find_user_iff)
      with m[OF u(1)] u(2) committed(3) d0 Some show ?thesis by (auto simp: to_internal_user_def)
    qed
    consider (none) "?find d = Inr None" | (some) w where "?find d = Inr (Some w)"
      using find_user_total[OF uok(1)] by blast
    then show ?thesis
    proof cases
      case none
      with run Some have "in_txn co (tx_bind (insert_or_reload uid db_now now identity email)
          (\<lambda>u. tx_return (to_internal_user u))) (others d) = (r, d')"
        by (simp add: upsert_verified_workforce_user_def)
      then show ?thesis
        by (rule fin) (use insert_or_reload_effect[OF _ uok(2)] in simp_all)
    next
      case some
      with run Some have "in_txn co (tx_bind (sync_active_user w email (wi_display_name identity) now)
          (\<lambda>u. tx_return (to_internal_user u))) d = (r, d')"
        by (simp add: upsert_verified_workforce_user_def)
      then show ?thesis
        by (rule fin)
          (use sync_active_user_effect[OF _ find_user_Some(1)[OF some] uok(1)] find_user_Some(2,3)[OF some]
            in simp_all)
    qed
  qed
qed

section \<open>A login succeeds\<close>

text \<open>The tables refer to users by their identifiers; no user disappears.\<close>

lemma schema_ok_users:
  assumes ok: "schema_ok d" and sub: "user_ids d \<subseteq> us_id ` set us" and uok: "users_ok (d\<lparr>users := us\<rparr>)"
  shows "schema_ok (d\<lparr>users := us\<rparr>)"
proof -
  let ?d = "d\<lparr>users := us\<rparr>"
  have u: "x \<in> us_id ` set us" if "x \<in> user_ids d" for x using sub that by blast
  have "sources_ok ?d"
    using ok u by (auto simp: schema_ok_def sources_ok_def source_row_ok_def elim!: list.pred_mono_strong)
  moreover have "memberships_ok ?d"
    using ok u by (auto simp: schema_ok_def workforce_ok_def memberships_ok_def elim!: list.pred_mono_strong
        split: option.splits)
  moreover have "connections_ok ?d"
    using ok u by (auto simp: schema_ok_def providers_ok_def connections_ok_def elim!: list.pred_mono_strong)
  moreover have "invitations_ok ?d"
    using ok u by (auto simp: schema_ok_def workforce_ok_def invitations_ok_def invitation_row_ok_def
        elim!: list.pred_mono_strong split: option.splits)
  moreover have "cleanups_ok ?d" "reservations_ok ?d" "documents_ok ?d" "outbox_ok ?d"
    using ok by (simp_all add: schema_ok_def cleanups_ok_def cleanup_row_ok_def[abs_def] reservations_ok_def
        reservation_row_ok_def[abs_def] documents_ok_def outbox_ok_def cong: option.case_cong)
  moreover have "tenants_ok ?d" "roles_ok ?d" "role_permissions_ok ?d" "membership_roles_ok ?d"
      "invitation_roles_ok ?d" "model_configs_ok ?d" "model_references_ok ?d"
    using ok by (simp_all add: schema_ok_def workforce_ok_def providers_ok_def tenants_ok_def roles_ok_def
        role_permissions_ok_def membership_roles_ok_def invitation_roles_ok_def model_configs_ok_def
        model_references_ok_def cong: option.case_cong)
  ultimately show ?thesis using uok by (simp add: schema_ok_def workforce_ok_def providers_ok_def)
qed

lemma save_user_schema:
  assumes ok: "schema_ok d" and w: "w \<in> set (users d)"
    and same: "us_id u = us_id w" "us_oidc_issuer u = us_oidc_issuer w" "us_oidc_subject u = us_oidc_subject w"
  shows "schema_ok (save_user u d)"
proof -
  have uok: "users_ok d" using ok by (simp add: schema_ok_def workforce_ok_def)
  have key: "x = w" if "x \<in> set (users d)" "us_id x = us_id w" for x
    using uok w that by (auto simp: users_ok_def distinct_map dest: inj_onD)
  let ?us = "map (\<lambda>x. if us_id x = us_id u then u else x) (users d)"
  have "map us_id ?us = map us_id (users d)" by simp
  moreover have "map (\<lambda>r. (us_oidc_issuer r, us_oidc_subject r)) ?us = map (\<lambda>r. (us_oidc_issuer r, us_oidc_subject r)) (users d)"
    using key same by (auto simp: map_eq_conv)
  moreover have rows: "users (d\<lparr>users := ?us\<rparr>) = ?us" by simp
  ultimately have "users_ok (d\<lparr>users := ?us\<rparr>)" "us_id ` set ?us = user_ids d"
    using uok unfolding users_ok_def rows list.set_map[symmetric] by (simp_all only:)
  then show ?thesis unfolding save_user_def by (intro schema_ok_users[OF ok]) auto
qed

lemma sync_active_user_runs:
  assumes ok: "schema_ok d" and w: "w \<in> set (users d)" "us_status w = UserActive"
  shows "\<exists>u d'. sync_active_user w email name now d = Inr (u, d') \<and> schema_ok d'"
  using w ok save_user_schema[OF ok w(1)]
  by (auto simp: sync_active_user_def Let_def tx_defs split: option.splits)

lemma insert_or_reload_runs:
  assumes ok: "schema_ok d" and fresh: "uid \<notin> user_ids d"
    and act: "\<And>u. u \<in> set (users d) \<Longrightarrow> us_oidc_issuer u = wi_issuer identity \<Longrightarrow>
      us_oidc_subject u = wi_subject identity \<Longrightarrow> us_status u = UserActive"
  shows "\<exists>u d'. insert_or_reload uid db_now now identity email d = Inr (u, d') \<and> schema_ok d'"
proof -
  let ?c = "add_user uid db_now (wi_issuer identity) (wi_subject identity) email (name_or (wi_display_name identity) email)"
  let ?d = "d\<lparr>users := users d @ [?c]\<rparr>"
  have uok: "users_ok d" using ok by (simp add: schema_ok_def workforce_ok_def)
  from find_user_total[OF uok, of "wi_issuer identity" "wi_subject identity"] show ?thesis
  proof
    assume none: "find_user_by_oidc_identity (wi_issuer identity) (wi_subject identity) d = Inr None"
    then have "(wi_issuer identity, wi_subject identity) \<notin> (\<lambda>r. (us_oidc_issuer r, us_oidc_subject r)) ` set (users d)"
      by (auto simp: find_user_by_oidc_identity_def one_or_none_None filter_empty_conv)
    with uok fresh have "users_ok ?d" by (auto simp: users_ok_def add_user_def)
    then have "schema_ok ?d" by (intro schema_ok_users[OF ok]) auto
    then show ?thesis by (auto simp: insert_or_reload_def Let_def tx_bind_def tx_write_def flush_def)
  next
    assume "\<exists>w. find_user_by_oidc_identity (wi_issuer identity) (wi_subject identity) d = Inr (Some w)"
    then obtain w where f: "find_user_by_oidc_identity (wi_issuer identity) (wi_subject identity) d = Inr (Some w)" ..
    from find_user_Some[OF f] act have w: "w \<in> set (users d)" "us_status w = UserActive" by auto
    have "(wi_issuer identity, wi_subject identity) \<in> (\<lambda>r. (us_oidc_issuer r, us_oidc_subject r)) ` set (users d)"
      using find_user_Some[OF f] by (metis (mono_tags, lifting) image_eqI)
    then have "\<not> users_ok ?d" by (simp add: users_ok_def add_user_def)
    then have "\<not> schema_ok ?d" by (auto simp: schema_ok_def workforce_ok_def)
    with f sync_active_user_runs[OF ok w, of email "wi_display_name identity" now] show ?thesis
      by (auto simp: insert_or_reload_def Let_def tx_bind_def tx_write_def flush_def tx_query_def)
  qed
qed

lemma upsert_runs:
  assumes ok: "schema_ok d" "schema_ok (others d)" and fresh: "uid \<notin> user_ids (others d)"
    and email: "wi_email identity = Some e"
    and act: "\<And>u. u \<in> set (users d) \<union> set (users (others d)) \<Longrightarrow> us_oidc_issuer u = wi_issuer identity \<Longrightarrow>
      us_oidc_subject u = wi_subject identity \<Longrightarrow> us_status u = UserActive"
  shows "\<exists>v d'. upsert_verified_workforce_user Committed others uid db_now now identity d = (Inr v, d')"
proof -
  have uok: "users_ok d" using ok by (simp add: schema_ok_def workforce_ok_def)
  have fin: "\<exists>v d'. in_txn Committed (tx_bind m (\<lambda>u. tx_return (to_internal_user u))) d0 = (Inr v, d')"
    if "\<exists>u d'. m d0 = Inr (u, d') \<and> schema_ok d'" for m d0
    using that by (auto simp: in_txn_def tx_bind_def tx_return_def)
  from find_user_total[OF uok, of "wi_issuer identity" "wi_subject identity"] show ?thesis
  proof
    assume "find_user_by_oidc_identity (wi_issuer identity) (wi_subject identity) d = Inr None"
    with email fin[of "insert_or_reload uid db_now now identity e" "others d"]
      insert_or_reload_runs[OF ok(2) fresh, of identity db_now now e] act show ?thesis
      by (auto simp: upsert_verified_workforce_user_def)
  next
    assume "\<exists>w. find_user_by_oidc_identity (wi_issuer identity) (wi_subject identity) d = Inr (Some w)"
    then obtain w where f: "find_user_by_oidc_identity (wi_issuer identity) (wi_subject identity) d = Inr (Some w)" ..
    with email find_user_Some[OF f] act fin[of "sync_active_user w e (wi_display_name identity) now" d]
      sync_active_user_runs[OF ok(1), of w e "wi_display_name identity" now]
    show ?thesis by (auto simp: upsert_verified_workforce_user_def)
  qed
qed

end
