(* ===== verification/Organizations.thy ===== *)
theory Organizations
  imports Tenancy
begin

text \<open>
  \<open>services/api/app/modules/organizations\<close>: the request schemas, the membership-scoped queries
  and the creation and update of an organization (\<open>schemas.py\<close>, \<open>repository.py\<close>, \<open>service.py\<close>).
  Identifiers and creation times the database chooses are arguments.
\<close>

section \<open>Requests\<close>

definition normalize_display_name :: "string \<Rightarrow> string result" where
  "normalize_display_name name =
     (let normalized = strip name
      in if \<not> (1 \<le> length normalized \<and> length normalized \<le> 120) then Inl ValueError else Inr normalized)"

definition slug_edge :: "char \<Rightarrow> bool" where
  "slug_edge c \<longleftrightarrow> (97 \<le> ord c \<and> ord c \<le> 122) \<or> (48 \<le> ord c \<and> ord c \<le> 57)"

definition slug_inner :: "char \<Rightarrow> bool" where
  "slug_inner c \<longleftrightarrow> slug_edge c \<or> ord c = 45"

text \<open>\<open>fullmatch\<close> of \<open>[a-z0-9][a-z0-9-]*[a-z0-9]\<close>\<close>

definition slug_pattern :: "string \<Rightarrow> bool" where
  "slug_pattern s \<longleftrightarrow> 2 \<le> length s \<and> slug_edge (hd s) \<and> list_all slug_inner (butlast (tl s)) \<and> slug_edge (last s)"

definition validate_slug :: "string \<Rightarrow> string result" where
  "validate_slug s = (if \<not> (3 \<le> length s \<and> length s \<le> 63) \<or> \<not> slug_pattern s then Inl ValueError else Inr s)"

record OrganizationCreateRequest =
  oc_slug :: string
  oc_display_name :: string

definition validate_create_organization :: "string \<Rightarrow> string \<Rightarrow> OrganizationCreateRequest result" where
  "validate_create_organization slug name =
     bind_result (validate_slug slug) (\<lambda>s.
     bind_result (normalize_display_name name) (\<lambda>n. Inr \<lparr>oc_slug = s, oc_display_name = n\<rparr>))"

record OrganizationUpdateRequest =
  ou_display_name :: "string option"
  ou_default_locale :: "string option"

definition validate_update_organization ::
  "string option \<Rightarrow> string option \<Rightarrow> OrganizationUpdateRequest result" where
  "validate_update_organization name locale =
     bind_result (case name of None \<Rightarrow> Inr None | Some n \<Rightarrow> bind_result (normalize_display_name n) (\<lambda>x. Inr (Some x))) (\<lambda>n.
     bind_result (guard (locale = None \<or> locale = Some ''en'') ValueError) (\<lambda>_.
     bind_result (guard (\<not> (n = None \<and> locale = None)) ValueError) (\<lambda>_.
       Inr \<lparr>ou_display_name = n, ou_default_locale = locale\<rparr>)))"

record OrganizationView =
  ov_id :: uuid
  ov_slug :: string
  ov_display_name :: string
  ov_status :: tenant_status
  ov_default_locale :: string

section \<open>Repository\<close>

definition list_active_organizations_for_user :: "uuid \<Rightarrow> db \<Rightarrow> Organization list" where
  "list_active_organizations_for_user u d =
     sort_key (\<lambda>g. (og_created_at g, og_id g))
       [g. g \<leftarrow> tenants d, m \<leftarrow> memberships d, mb_tenant_id m = og_id g, mb_user_id m = u \<and> mb_status m = Active]"

definition find_organization_for_active_member :: "uuid \<Rightarrow> uuid \<Rightarrow> db \<Rightarrow> Organization option result" where
  "find_organization_for_active_member t u d =
     one_or_none [g. g \<leftarrow> tenants d, m \<leftarrow> memberships d, mb_tenant_id m = og_id g,
       og_id g = t \<and> mb_user_id m = u \<and> mb_status m = Active]"

definition find_global_system_role :: "string \<Rightarrow> db \<Rightarrow> Role option result" where
  "find_global_system_role key d =
     one_or_none (filter (\<lambda>r. ro_tenant_id r = None \<and> ro_is_system r \<and> ro_key r = key) (roles d))"

definition add_organization :: "uuid \<Rightarrow> timestamp \<Rightarrow> string \<Rightarrow> string \<Rightarrow> Organization" where
  "add_organization oid db_now slug name =
     \<lparr>og_id = oid, og_slug = slug, og_display_name = name, og_status = TenantActive, og_default_locale = ''en'',
      og_created_at = db_now, og_updated_at = db_now\<rparr>"

definition add_active_membership :: "uuid \<Rightarrow> timestamp \<Rightarrow> uuid \<Rightarrow> uuid \<Rightarrow> Membership" where
  "add_active_membership mid db_now t u =
     \<lparr>mb_id = mid, mb_tenant_id = t, mb_user_id = u, mb_status = Active, mb_created_by_invitation_id = None,
      mb_created_at = db_now, mb_updated_at = db_now\<rparr>"

definition organization_add_membership_role :: "uuid \<Rightarrow> uuid \<Rightarrow> MembershipRole" where
  "organization_add_membership_role mid rid = \<lparr>mr_membership_id = mid, mr_role_id = rid\<rparr>"

section \<open>Service\<close>

definition organization_view :: "Organization \<Rightarrow> OrganizationView" where
  "organization_view g =
     \<lparr>ov_id = og_id g, ov_slug = og_slug g, ov_display_name = og_display_name g, ov_status = og_status g,
      ov_default_locale = og_default_locale g\<rparr>"

definition list_organizations :: "uuid \<Rightarrow> db \<Rightarrow> OrganizationView list" where
  "list_organizations u d = map organization_view (list_active_organizations_for_user u d)"

definition get_organization :: "uuid \<Rightarrow> uuid \<Rightarrow> db \<Rightarrow> OrganizationView result" where
  "get_organization u t d =
     bind_result (find_organization_for_active_member t u d) (\<lambda>found.
       case found of None \<Rightarrow> Inl OrganizationNotFoundError | Some g \<Rightarrow> Inr (organization_view g))"

definition OWNER_ROLE_KEY :: string where
  "OWNER_ROLE_KEY = ''owner''"

definition ORGANIZATION_SETTINGS_PERMISSION :: string where
  "ORGANIZATION_SETTINGS_PERMISSION = ''organization.settings.write''"

definition create_organization_body ::
  "uuid \<Rightarrow> uuid \<Rightarrow> timestamp \<Rightarrow> uuid \<Rightarrow> OrganizationCreateRequest \<Rightarrow> OrganizationView tx" where
  "create_organization_body oid mid db_now u request =
     tx_bind (tx_query (find_global_system_role OWNER_ROLE_KEY)) (\<lambda>found.
       case found of
         None \<Rightarrow> tx_raise OwnerRoleUnavailableError
       | Some owner_role \<Rightarrow>
           let organization = add_organization oid db_now (oc_slug request) (oc_display_name request);
               membership = add_active_membership mid db_now (og_id organization) u
           in tx_bind (tx_write (\<lambda>d. d\<lparr>tenants := tenants d @ [organization]\<rparr>)) (\<lambda>_.
              tx_bind (tx_rethrow IntegrityError OrganizationSlugConflictError flush) (\<lambda>_.
              tx_bind (tx_write (\<lambda>d. d\<lparr>memberships := memberships d @ [membership]\<rparr>)) (\<lambda>_.
              tx_bind flush (\<lambda>_.
              tx_bind (tx_write (\<lambda>d. d\<lparr>membership_roles := membership_roles d
                  @ [organization_add_membership_role (mb_id membership) (ro_id owner_role)]\<rparr>)) (\<lambda>_.
              tx_bind flush (\<lambda>_. tx_return (organization_view organization))))))))"

definition create_organization ::
  "commit_outcome \<Rightarrow> uuid \<Rightarrow> uuid \<Rightarrow> timestamp \<Rightarrow> uuid \<Rightarrow> OrganizationCreateRequest \<Rightarrow> db
     \<Rightarrow> OrganizationView result \<times> db" where
  "create_organization co oid mid db_now u request d =
     in_txn co (create_organization_body oid mid db_now u request) d"

definition save_organization :: "Organization \<Rightarrow> db \<Rightarrow> db" where
  "save_organization g d = d\<lparr>tenants := map (\<lambda>x. if og_id x = og_id g then g else x) (tenants d)\<rparr>"

definition apply_settings :: "OrganizationUpdateRequest \<Rightarrow> timestamp \<Rightarrow> Organization \<Rightarrow> Organization" where
  "apply_settings request now g =
     (let g1 = (case ou_display_name request of None \<Rightarrow> g | Some n \<Rightarrow> g\<lparr>og_display_name := n\<rparr>);
          g2 = (case ou_default_locale request of None \<Rightarrow> g1 | Some l \<Rightarrow> g1\<lparr>og_default_locale := l\<rparr>)
      in g2\<lparr>og_updated_at := now\<rparr>)"

definition update_organization_body ::
  "uuid \<Rightarrow> uuid \<Rightarrow> OrganizationUpdateRequest \<Rightarrow> timestamp \<Rightarrow> OrganizationView tx" where
  "update_organization_body u t request now =
     tx_bind (tx_query (find_organization_for_active_member t u)) (\<lambda>found.
       case found of
         None \<Rightarrow> tx_raise OrganizationNotFoundError
       | Some organization \<Rightarrow>
           tx_bind (tx_query (resolve_tenant_membership u t)) (\<lambda>membership.
           tx_bind (tx_guard (ORGANIZATION_SETTINGS_PERMISSION \<in> set (rm_permissions membership))
                      OrganizationSettingsForbiddenError) (\<lambda>_.
           let updated = apply_settings request now organization
           in tx_bind (tx_write (save_organization updated)) (\<lambda>_.
              tx_bind flush (\<lambda>_. tx_return (organization_view updated))))))"

definition update_organization ::
  "commit_outcome \<Rightarrow> uuid \<Rightarrow> uuid \<Rightarrow> OrganizationUpdateRequest \<Rightarrow> timestamp \<Rightarrow> db
     \<Rightarrow> OrganizationView result \<times> db" where
  "update_organization co u t request now d = in_txn co (update_organization_body u t request now) d"

section \<open>Effects\<close>

lemma validated_create_request:
  assumes "validate_create_organization slug name = Inr q"
  shows "3 \<le> length (oc_slug q) \<and> length (oc_slug q) \<le> 63 \<and> slug_pattern (oc_slug q) \<and>
     1 \<le> length (oc_display_name q) \<and> length (oc_display_name q) \<le> 120"
  using assms
  by (auto simp: validate_create_organization_def validate_slug_def normalize_display_name_def result_simps
      Let_def split: if_splits)

lemma create_organization_body_effect:
  assumes "create_organization_body oid mid db_now u request d = Inr (v, d')"
  shows "\<exists>owner \<in> set (roles d). ro_tenant_id owner = None \<and> ro_is_system owner \<and> ro_key owner = OWNER_ROLE_KEY \<and>
     d' = d\<lparr>tenants := tenants d @ [add_organization oid db_now (oc_slug request) (oc_display_name request)],
            memberships := memberships d @ [add_active_membership mid db_now oid u],
            membership_roles := membership_roles d @ [\<lparr>mr_membership_id = mid, mr_role_id = ro_id owner\<rparr>]\<rparr> \<and>
     schema_ok d'"
proof -
  from assms obtain owner where f: "find_global_system_role OWNER_ROLE_KEY d = Inr (Some owner)"
    by (auto simp: create_organization_body_def result_simps split: option.splits)
  from one_or_none_filter[OF f[unfolded find_global_system_role_def]] assms f show ?thesis
    by (auto simp: create_organization_body_def result_simps Let_def organization_add_membership_role_def
        add_organization_def add_active_membership_def intro!: bexI[of _ owner])
qed

lemma update_organization_body_effect:
  assumes "update_organization_body u t request now d = Inr (v, d')"
  shows "\<exists>g. og_id g = t \<and> d' = save_organization g d \<and>
     (\<exists>m \<in> set (memberships d). mb_tenant_id m = t \<and> mb_user_id m = u \<and> mb_status m = Active)"
proof -
  obtain found where q: "find_organization_for_active_member t u d = Inr found"
    using assms by (auto simp: update_organization_body_def result_simps)
  with assms obtain g where f: "find_organization_for_active_member t u d = Inr (Some g)"
    by (cases found) (auto simp: update_organization_body_def result_simps)
  then have "g \<in> set [g. g \<leftarrow> tenants d, m \<leftarrow> memberships d, mb_tenant_id m = og_id g,
       og_id g = t \<and> mb_user_id m = u \<and> mb_status m = Active]"
    unfolding find_organization_for_active_member_def one_or_none_Some by simp
  then have g: "og_id g = t" "\<exists>m \<in> set (memberships d). mb_tenant_id m = t \<and> mb_user_id m = u \<and> mb_status m = Active"
    by (auto split: if_splits)
  have "og_id (apply_settings request now g) = og_id g"
    by (simp add: apply_settings_def Let_def split: option.splits)
  moreover have "d' = save_organization (apply_settings request now g) d"
    using assms f by (auto simp: update_organization_body_def result_simps Let_def)
  ultimately show ?thesis using g by blast
qed

end
