(* ===== verification/Members.thy ===== *)
theory Members
  imports Tenancy
begin

text \<open>
  \<open>services/api/app/modules/members\<close>: listing the members of a tenant and the update of a member's
  roles and status in one transaction that holds the lock of the organization row, with the guard
  that keeps the last active owner (\<open>schemas.py\<close>, \<open>repository.py\<close>, \<open>service.py\<close>).  Keys are ordered by
  code point.
\<close>

section \<open>Schemas\<close>

record MemberRoleView =
  rv_id :: uuid
  rv_key :: string
  rv_display_name :: string

record MemberView =
  mv_membership_id :: uuid
  mv_user_id :: uuid
  mv_email :: string
  mv_display_name :: string
  mv_status :: membership_status
  mv_roles :: "MemberRoleView list"

record MemberUpdateRequest =
  mu_role_ids :: "uuid list option"
  mu_status :: "membership_status option"

definition validate_member_update ::
  "uuid list option \<Rightarrow> membership_status option \<Rightarrow> MemberUpdateRequest result" where
  "validate_member_update role_ids status =
     bind_result (case role_ids of None \<Rightarrow> Inr () | Some ids \<Rightarrow> guard (1 \<le> length ids \<and> length ids \<le> 20) ValidationError) (\<lambda>_.
     bind_result (guard (\<not> (role_ids = None \<and> status = None)) ValueError) (\<lambda>_.
     bind_result (case role_ids of None \<Rightarrow> Inr () | Some ids \<Rightarrow> guard (length ids = length (remdups ids)) ValueError) (\<lambda>_.
       Inr \<lparr>mu_role_ids = role_ids, mu_status = status\<rparr>)))"

section \<open>Repository\<close>

definition list_tenant_memberships :: "uuid \<Rightarrow> nat \<Rightarrow> nat \<Rightarrow> db \<Rightarrow> Membership list" where
  "list_tenant_memberships t limit offset d =
     take limit (drop offset
       (sort_key (\<lambda>m. (mb_created_at m, mb_id m)) (filter (\<lambda>m. mb_tenant_id m = t) (memberships d))))"

definition find_tenant_membership :: "uuid \<Rightarrow> uuid \<Rightarrow> db \<Rightarrow> Membership option result" where
  "find_tenant_membership t mid d =
     one_or_none (filter (\<lambda>m. mb_id m = mid \<and> mb_tenant_id m = t) (memberships d))"

definition find_workforce_user :: "uuid \<Rightarrow> db \<Rightarrow> User option result" where
  "find_workforce_user u d = one_or_none (filter (\<lambda>x. us_id x = u) (users d))"

definition list_membership_roles :: "uuid \<Rightarrow> db \<Rightarrow> Role list" where
  "list_membership_roles mid d =
     sort_key (\<lambda>r. (ro_key r, ro_id r))
       [r. r \<leftarrow> roles d, x \<leftarrow> membership_roles d, mr_role_id x = ro_id r \<and> mr_membership_id x = mid]"

definition ASSIGNABLE_GLOBAL_ROLE_KEYS :: "string list" where
  "ASSIGNABLE_GLOBAL_ROLE_KEYS = [''owner'', ''admin'']"

definition find_assignable_roles :: "uuid \<Rightarrow> uuid list \<Rightarrow> db \<Rightarrow> Role list" where
  "find_assignable_roles t role_ids d =
     filter (\<lambda>r. ro_id r \<in> set role_ids \<and>
       (ro_tenant_id r = Some t \<or>
        (ro_tenant_id r = None \<and> ro_is_system r \<and> ro_key r \<in> set ASSIGNABLE_GLOBAL_ROLE_KEYS))) (roles d)"

definition lock_organization :: "uuid \<Rightarrow> db \<Rightarrow> Organization option result" where
  "lock_organization t d = one_or_none (filter (\<lambda>g. og_id g = t) (tenants d))"

definition global_owner :: "Role \<Rightarrow> bool" where
  "global_owner r \<longleftrightarrow> ro_tenant_id r = None \<and> ro_is_system r \<and> ro_key r = ''owner''"

definition count_active_owners :: "uuid \<Rightarrow> db \<Rightarrow> nat" where
  "count_active_owners t d =
     length (remdups [mb_id m. m \<leftarrow> memberships d, x \<leftarrow> membership_roles d, mr_membership_id x = mb_id m,
       r \<leftarrow> roles d, ro_id r = mr_role_id x, mb_tenant_id m = t \<and> mb_status m = Active \<and> global_owner r])"

definition replace_membership_roles :: "uuid \<Rightarrow> uuid list \<Rightarrow> unit tx" where
  "replace_membership_roles mid role_ids =
     tx_bind (tx_write (\<lambda>d. d\<lparr>membership_roles := filter (\<lambda>x. mr_membership_id x \<noteq> mid) (membership_roles d)
        @ map (\<lambda>r. \<lparr>mr_membership_id = mid, mr_role_id = r\<rparr>) role_ids\<rparr>)) (\<lambda>_. flush)"

section \<open>Service\<close>

definition MEMBER_MANAGE_PERMISSION :: string where
  "MEMBER_MANAGE_PERMISSION = ''organization.members.manage''"

definition require_manage_permission :: "uuid \<Rightarrow> uuid \<Rightarrow> db \<Rightarrow> unit result" where
  "require_manage_permission u t d =
     (case resolve_tenant_membership u t d of
        Inl e \<Rightarrow> Inl (if e = TenantMembershipAccessError then MembershipAccessNotFoundError else e)
      | Inr caller \<Rightarrow> guard (MEMBER_MANAGE_PERMISSION \<in> set (rm_permissions caller)) MembershipForbiddenError)"

definition member_view :: "Membership \<Rightarrow> User \<Rightarrow> Role list \<Rightarrow> MemberView" where
  "member_view m u rs =
     \<lparr>mv_membership_id = mb_id m, mv_user_id = us_id u, mv_email = us_email u, mv_display_name = us_display_name u,
      mv_status = mb_status m,
      mv_roles = map (\<lambda>r. \<lparr>rv_id = ro_id r, rv_key = ro_key r, rv_display_name = ro_display_name r\<rparr>) rs\<rparr>"

definition membership_view :: "Membership \<Rightarrow> db \<Rightarrow> MemberView result" where
  "membership_view m d =
     bind_result (find_workforce_user (mb_user_id m) d) (\<lambda>found.
       case found of
         None \<Rightarrow> Inl MembershipAccessNotFoundError
       | Some u \<Rightarrow> Inr (member_view m u (list_membership_roles (mb_id m) d)))"

fun member_views :: "Membership list \<Rightarrow> db \<Rightarrow> MemberView list result" where
  "member_views [] d = Inr []"
| "member_views (m # ms) d =
     bind_result (membership_view m d) (\<lambda>v. bind_result (member_views ms d) (\<lambda>vs. Inr (v # vs)))"

definition list_members :: "uuid \<Rightarrow> uuid \<Rightarrow> nat \<Rightarrow> nat \<Rightarrow> db \<Rightarrow> MemberView list result" where
  "list_members u t limit offset d =
     bind_result (require_manage_permission u t d) (\<lambda>_.
       member_views (list_tenant_memberships t limit offset d) d)"

definition contains_owner :: "Role list \<Rightarrow> bool" where
  "contains_owner rs \<longleftrightarrow> list_ex global_owner rs"

definition choose_roles :: "uuid \<Rightarrow> MemberUpdateRequest \<Rightarrow> Role list \<Rightarrow> db \<Rightarrow> Role list result" where
  "choose_roles t request current d =
     (case mu_role_ids request of
        None \<Rightarrow> Inr current
      | Some ids \<Rightarrow>
          (let assignable = find_assignable_roles t ids d
           in if ro_id ` set assignable \<noteq> set ids then Inl MembershipRoleInvalidError else Inr assignable))"

definition removes_active_owner :: "MemberUpdateRequest \<Rightarrow> Membership \<Rightarrow> Role list \<Rightarrow> Role list \<Rightarrow> bool" where
  "removes_active_owner request target current next \<longleftrightarrow>
     (let next_status = (case mu_status request of None \<Rightarrow> mb_status target | Some s \<Rightarrow> s)
      in mb_status target = Active \<and> contains_owner current \<and> (next_status \<noteq> Active \<or> \<not> contains_owner next))"

definition set_member_status :: "MemberUpdateRequest \<Rightarrow> Membership \<Rightarrow> timestamp \<Rightarrow> Membership tx" where
  "set_member_status request target now =
     (case mu_status request of
        None \<Rightarrow> tx_return target
      | Some s \<Rightarrow>
          if s = mb_status target then tx_return target
          else (let target' = target\<lparr>mb_status := s, mb_updated_at := now\<rparr>
                in tx_bind (tx_write (save_membership target')) (\<lambda>_. tx_bind flush (\<lambda>_. tx_return target'))))"

definition apply_member_update ::
  "uuid \<Rightarrow> MemberUpdateRequest \<Rightarrow> timestamp \<Rightarrow> Membership \<Rightarrow> MemberView tx" where
  "apply_member_update t request now target =
     tx_bind (tx_read (list_membership_roles (mb_id target))) (\<lambda>current.
     tx_bind (tx_query (choose_roles t request current)) (\<lambda>next.
     tx_bind (if removes_active_owner request target current next
              then tx_bind (tx_read (count_active_owners t)) (\<lambda>active_owner_count.
                   tx_guard (\<not> active_owner_count \<le> 1) LastActiveOwnerConflictError)
              else tx_return ()) (\<lambda>_.
     tx_bind (if mu_role_ids request = None then tx_return ()
              else replace_membership_roles (mb_id target) (map ro_id next)) (\<lambda>_.
     tx_bind (set_member_status request target now) (\<lambda>target'. tx_query (membership_view target'))))))"

definition update_member_body ::
  "uuid \<Rightarrow> uuid \<Rightarrow> uuid \<Rightarrow> MemberUpdateRequest \<Rightarrow> timestamp \<Rightarrow> MemberView tx" where
  "update_member_body u t mid request now =
     tx_bind (tx_query (lock_organization t)) (\<lambda>organization.
     tx_bind (tx_guard (organization \<noteq> None) MembershipAccessNotFoundError) (\<lambda>_.
     tx_bind (tx_query (require_manage_permission u t)) (\<lambda>_.
     tx_bind (tx_query (find_tenant_membership t mid)) (\<lambda>found.
       case found of
         None \<Rightarrow> tx_raise MembershipAccessNotFoundError
       | Some target \<Rightarrow> apply_member_update t request now target))))"

definition update_member ::
  "commit_outcome \<Rightarrow> uuid \<Rightarrow> uuid \<Rightarrow> uuid \<Rightarrow> MemberUpdateRequest \<Rightarrow> timestamp \<Rightarrow> db \<Rightarrow> MemberView result \<times> db" where
  "update_member co u t mid request now d = in_txn co (update_member_body u t mid request now) d"

section \<open>Active owners\<close>

text \<open>The membership with this identifier is an active owner of the tenant.\<close>

definition active_owner :: "db \<Rightarrow> uuid \<Rightarrow> uuid \<Rightarrow> bool" where
  "active_owner d t mid \<longleftrightarrow>
     (\<exists>m \<in> set (memberships d). mb_id m = mid \<and> mb_tenant_id m = t \<and> mb_status m = Active) \<and>
     (\<exists>x \<in> set (membership_roles d). mr_membership_id x = mid \<and>
        (\<exists>r \<in> set (roles d). ro_id r = mr_role_id x \<and> global_owner r))"

lemma count_active_owners_card: "count_active_owners t d = card {mid. active_owner d t mid}"
proof -
  have "{mid. active_owner d t mid} =
    set [mb_id m. m \<leftarrow> memberships d, x \<leftarrow> membership_roles d, mr_membership_id x = mb_id m,
       r \<leftarrow> roles d, ro_id r = mr_role_id x, mb_tenant_id m = t \<and> mb_status m = Active \<and> global_owner r]"
    by (auto simp: active_owner_def split: if_splits)
  then show ?thesis by (simp only: count_active_owners_def length_remdups_card_conv)
qed

lemma finite_active_owners: "finite {mid. active_owner d t mid}"
  by (rule finite_subset[of _ "mb_id ` set (memberships d)"]) (auto simp: active_owner_def)

lemma count_pos_iff: "1 \<le> count_active_owners t d \<longleftrightarrow> (\<exists>mid. active_owner d t mid)"
  using finite_active_owners[of d t] by (auto simp: count_active_owners_card Suc_le_eq card_gt_0_iff)

lemma another_active_owner:
  assumes "\<not> count_active_owners t d \<le> 1"
  shows "\<exists>mid'. mid' \<noteq> mid \<and> active_owner d t mid'"
proof (rule ccontr)
  assume "\<not> ?thesis"
  then have "{mid. active_owner d t mid} \<subseteq> {mid}" by auto
  from card_mono[OF _ this] assms show False by (simp add: count_active_owners_card)
qed

lemma set_list_membership_roles:
  "r \<in> set (list_membership_roles mid d) \<longleftrightarrow>
     r \<in> set (roles d) \<and> (\<exists>x \<in> set (membership_roles d). mr_role_id x = ro_id r \<and> mr_membership_id x = mid)"
  by (auto simp: list_membership_roles_def split: if_splits)

lemma contains_owner_roles:
  "contains_owner (list_membership_roles mid d) \<longleftrightarrow>
     (\<exists>x \<in> set (membership_roles d). mr_membership_id x = mid \<and>
        (\<exists>r \<in> set (roles d). ro_id r = mr_role_id x \<and> global_owner r))"
  unfolding contains_owner_def list_ex_iff Bex_def set_list_membership_roles by metis

text \<open>What an operation on one membership leaves alone: every other membership and its roles.\<close>

definition only_membership :: "uuid \<Rightarrow> db \<Rightarrow> db \<Rightarrow> bool" where
  "only_membership mid d d' \<longleftrightarrow> roles d' = roles d \<and> tenants d' = tenants d \<and>
     (\<forall>x. mb_id x \<noteq> mid \<longrightarrow> (x \<in> set (memberships d') \<longleftrightarrow> x \<in> set (memberships d))) \<and>
     (\<forall>x. mr_membership_id x \<noteq> mid \<longrightarrow> (x \<in> set (membership_roles d') \<longleftrightarrow> x \<in> set (membership_roles d)))"

lemma only_membership_refl: "only_membership mid d d"
  by (simp add: only_membership_def)

lemma only_membership_trans: "only_membership mid d d1 \<Longrightarrow> only_membership mid d1 d2 \<Longrightarrow> only_membership mid d d2"
  by (simp add: only_membership_def)

lemma only_membership_save: "only_membership (mb_id m) d (save_membership m d)"
  by (auto simp: only_membership_def save_membership_def image_iff)

lemma only_membership_owner:
  assumes "only_membership mid d d'" "mid' \<noteq> mid"
  shows "active_owner d' t mid' \<longleftrightarrow> active_owner d t mid'"
proof -
  have "(\<exists>m \<in> set (memberships d'). mb_id m = mid' \<and> P m) \<longleftrightarrow> (\<exists>m \<in> set (memberships d). mb_id m = mid' \<and> P m)" for P
    using assms unfolding only_membership_def by metis
  moreover have "(\<exists>x \<in> set (membership_roles d'). mr_membership_id x = mid' \<and> P x) \<longleftrightarrow>
      (\<exists>x \<in> set (membership_roles d). mr_membership_id x = mid' \<and> P x)" for P
    using assms unfolding only_membership_def by metis
  ultimately show ?thesis using assms(1) by (simp add: active_owner_def only_membership_def)
qed

text \<open>\<open>target\<close> is the row of the membership in the intermediate state.\<close>

lemma set_member_status_effect:
  assumes run: "set_member_status request target now d = Inr (target', d')"
    and row: "target \<in> set (memberships d)"
  shows "only_membership (mb_id target) d d' \<and> membership_roles d' = membership_roles d \<and>
     mb_id target' = mb_id target \<and> mb_tenant_id target' = mb_tenant_id target \<and>
     target' \<in> set (memberships d') \<and>
     mb_status target' = (case mu_status request of None \<Rightarrow> mb_status target | Some s \<Rightarrow> s)"
proof -
  have "only_membership (mb_id target) d (save_membership m d)" if "mb_id m = mb_id target" for m
    using only_membership_save[of m d] that by simp
  moreover have "m \<in> set (memberships (save_membership m d))" if "mb_id m = mb_id target" for m
    using row that by (auto simp: save_membership_def image_iff intro!: bexI[of _ target])
  moreover have "membership_roles (save_membership m d) = membership_roles d" for m
    by (simp add: save_membership_def)
  ultimately show ?thesis
    using run row
    by (auto simp: set_member_status_def Let_def result_simps only_membership_refl split: option.splits if_splits)
qed

lemma replace_membership_roles_effect:
  assumes "replace_membership_roles mid rs d = Inr (y, d')"
  shows "only_membership mid d d' \<and> memberships d' = memberships d \<and>
     (\<forall>r \<in> set rs. \<lparr>mr_membership_id = mid, mr_role_id = r\<rparr> \<in> set (membership_roles d'))"
  using assms by (auto simp: replace_membership_roles_def result_simps only_membership_def)

text \<open>
  An update changes the role assignments and the status of its target only, and where it takes the
  active owner role from the target there is another active owner.
\<close>

lemma apply_member_update_effect:
  assumes run: "apply_member_update t request now target d = Inr (v, d')"
    and row: "target \<in> set (memberships d)" "mb_tenant_id target = t" and ok: "memberships_ok d"
  shows "only_membership (mb_id target) d d' \<and>
     (active_owner d t (mb_id target) \<longrightarrow>
        active_owner d' t (mb_id target) \<or> (\<exists>other. other \<noteq> mb_id target \<and> active_owner d t other))"
proof -
  let ?mid = "mb_id target" and ?current = "list_membership_roles (mb_id target) d"
  from run obtain nxt d1 target' where chosen: "choose_roles t request ?current d = Inr nxt"
    and guard: "\<not> (removes_active_owner request target ?current nxt \<and> count_active_owners t d \<le> 1)"
    and replaced: "(mu_role_ids request = None \<and> d1 = d) \<or>
      (mu_role_ids request \<noteq> None \<and> replace_membership_roles ?mid (map ro_id nxt) d = Inr ((), d1))"
    and status: "set_member_status request target now d1 = Inr (target', d')"
    by (auto simp: apply_member_update_def result_simps split: if_splits)
  have d1: "only_membership ?mid d d1" "memberships d1 = memberships d"
    using replaced replace_membership_roles_effect[of ?mid "map ro_id nxt" d _ d1] by (auto simp: only_membership_refl)
  note e = set_member_status_effect[OF status, unfolded d1(2), OF row(1)]
  have all: "only_membership ?mid d d'" using only_membership_trans[OF d1(1)] e by blast
  then have same: "roles d' = roles d" by (simp add: only_membership_def)
  have keeps: "active_owner d' t ?mid"
    if o: "contains_owner nxt" and s: "mb_status target' = Active"
  proof -
    from o obtain r where r: "r \<in> set nxt" "global_owner r" by (auto simp: contains_owner_def list_ex_iff)
    have "r \<in> set (roles d) \<and> (\<exists>x \<in> set (membership_roles d'). mr_role_id x = ro_id r \<and> mr_membership_id x = ?mid)"
    proof (cases "mu_role_ids request")
      case None
      with chosen replaced r(1) e show ?thesis by (auto simp: choose_roles_def set_list_membership_roles)
    next
      case (Some ids)
      with chosen r(1) have "r \<in> set (roles d)"
        by (auto simp: choose_roles_def Let_def find_assignable_roles_def split: if_splits)
      moreover have "\<lparr>mr_membership_id = ?mid, mr_role_id = ro_id r\<rparr> \<in> set (membership_roles d')"
        using Some replaced replace_membership_roles_effect[of ?mid "map ro_id nxt" d _ d1] r(1) e by auto
      ultimately show ?thesis by force
    qed
    with e s row(2) r(2) same show ?thesis unfolding active_owner_def by metis
  qed
  have "active_owner d' t ?mid \<or> (\<exists>other. other \<noteq> ?mid \<and> active_owner d t other)" if own: "active_owner d t ?mid"
  proof (cases "removes_active_owner request target ?current nxt")
    case True
    with guard another_active_owner show ?thesis by blast
  next
    case False
    from own ok row(1) have "mb_status target = Active"
      by (auto simp: active_owner_def memberships_ok_def distinct_map dest!: inj_onD)
    moreover have "contains_owner ?current" using own by (auto simp: contains_owner_roles active_owner_def)
    ultimately have "contains_owner nxt \<and> mb_status target' = Active"
      using False e by (auto simp: removes_active_owner_def Let_def)
    with keeps show ?thesis by blast
  qed
  with all show ?thesis by blast
qed

lemma update_member_body_effect:
  assumes run: "update_member_body u t mid request now d = Inr (v, d')" and ok: "memberships_ok d"
  shows "only_membership mid d d' \<and>
     (\<exists>m \<in> set (memberships d). mb_id m = mid \<and> mb_tenant_id m = t) \<and>
     (active_owner d t mid \<longrightarrow> active_owner d' t mid \<or> (\<exists>other. other \<noteq> mid \<and> active_owner d t other))"
proof -
  obtain found where q: "find_tenant_membership t mid d = Inr found"
    using run by (auto simp: update_member_body_def result_simps)
  with run obtain target where f: "find_tenant_membership t mid d = Inr (Some target)"
    by (cases found) (auto simp: update_member_body_def result_simps)
  with run have "apply_member_update t request now target d = Inr (v, d')"
    by (auto simp: update_member_body_def result_simps)
  with one_or_none_filter[OF f[unfolded find_tenant_membership_def]] apply_member_update_effect[OF _ _ _ ok]
  show ?thesis by blast
qed

lemma update_member_body_frames:
  assumes run: "update_member_body u t mid request now d = Inr (v, d')"
  shows "invitations d' = invitations d \<and> users d' = users d"
proof -
  obtain found where q: "find_tenant_membership t mid d = Inr found"
    using run by (auto simp: update_member_body_def result_simps)
  with run obtain target where "apply_member_update t request now target d = Inr (v, d')"
    by (cases found) (auto simp: update_member_body_def result_simps)
  then show ?thesis
    by (auto simp: apply_member_update_def set_member_status_def replace_membership_roles_def save_membership_def
        result_simps Let_def split: if_splits option.splits)
qed

text \<open>The other tenants' owners are memberships with other identifiers.\<close>

lemma update_member_body_owners:
  assumes run: "update_member_body u t mid request now d = Inr (v, d')" and ok: "memberships_ok d"
    and own: "\<exists>i. active_owner d s i"
  shows "\<exists>i. active_owner d' s i"
proof -
  note e = update_member_body_effect[OF run ok]
  from own obtain i where i: "active_owner d s i" ..
  show ?thesis
  proof (cases "i = mid")
    case False
    with e i only_membership_owner show ?thesis by blast
  next
    case True
    have "s = t" using i True e ok by (auto simp: active_owner_def memberships_ok_def distinct_map dest!: inj_onD)
    with i True e only_membership_owner show ?thesis by blast
  qed
qed

end
