(* ===== verification/Invitations.thy ===== *)
theory Invitations
  imports Workforce Members
begin

text \<open>
  \<open>services/api/app/modules/invitations\<close>: the normalisation of the invited address, the creation,
  acceptance, listing and revocation of an invitation (\<open>security.py\<close>, \<open>schemas.py\<close>, \<open>repository.py\<close>,
  \<open>service.py\<close>).  The bearer token is an argument of the creation, and \<open>digest\<close> stands for the
  hexadecimal SHA-256 digest of a token's UTF-8 bytes.
\<close>

section \<open>Security\<close>

text \<open>
  \<open>str.casefold\<close> on the code points 0 to 255.  The micro sign, whose folding is a Greek letter, lies
  outside the range of the model and is left as it is.
\<close>

definition casefold_char :: "char \<Rightarrow> string" where
  "casefold_char c = (if ord c = 223 then ''ss'' else [lower_char c])"

definition casefold :: "string \<Rightarrow> string" where
  "casefold s = concat (map casefold_char s)"

fun double_dot :: "string \<Rightarrow> bool" where
  "double_dot (a # b # s) = (a = CHR ''.'' \<and> b = CHR ''.'' \<or> double_dot (b # s))"
| "double_dot s = False"

definition normalize_invitation_email :: "string \<Rightarrow> string result" where
  "normalize_invitation_email email =
     (let normalized = casefold (strip email);
          local_part = takeWhile (\<lambda>c. c \<noteq> CHR ''@'') normalized;
          domain = drop (length local_part + 1) normalized
      in bind_result (guard (3 \<le> length normalized \<and> length normalized \<le> 320) InvitationEmailError) (\<lambda>_.
         bind_result (guard (\<not> list_ex is_space normalized) InvitationEmailError) (\<lambda>_.
         bind_result (guard (length (filter (\<lambda>c. c = CHR ''@'') normalized) = 1) InvitationEmailError) (\<lambda>_.
         bind_result (guard (local_part \<noteq> [] \<and> domain \<noteq> []) InvitationEmailError) (\<lambda>_.
         bind_result (guard (\<not> (hd domain = CHR ''.'' \<or> last domain = CHR ''.'' \<or> double_dot domain))
                        InvitationEmailError) (\<lambda>_.
           Inr normalized))))))"

text \<open>\<open>urllib.parse.quote_plus\<close>, which \<open>urlencode\<close> applies to the value, on the UTF-8 bytes of a character.\<close>

definition unreserved :: "char \<Rightarrow> bool" where
  "unreserved c \<longleftrightarrow> (48 \<le> ord c \<and> ord c \<le> 57) \<or> (65 \<le> ord c \<and> ord c \<le> 90) \<or> (97 \<le> ord c \<and> ord c \<le> 122) \<or>
     c \<in> set ''_.-~''"

definition percent :: "nat \<Rightarrow> string" where
  "percent b = (let digit = (\<lambda>n. char_of (if n < 10 then 48 + n else 55 + n)) in [CHR ''%'', digit (b div 16), digit (b mod 16)])"

definition quote_plus_char :: "char \<Rightarrow> string" where
  "quote_plus_char c =
     (if unreserved c then [c] else if c = CHR '' '' then ''+''
      else if ord c < 128 then percent (ord c)
      else percent (192 + ord c div 64) @ percent (128 + ord c mod 64))"

definition build_invitation_url :: "string \<Rightarrow> string \<Rightarrow> string" where
  "build_invitation_url base token =
     rev (dropWhile (\<lambda>c. c = CHR ''/'') (rev base)) @ ''/invite?token='' @ concat (map quote_plus_char token)"

section \<open>Schemas\<close>

record InvitationCreateRequest =
  ic_email :: string
  ic_role_ids :: "uuid list"

definition validate_invitation_create :: "string \<Rightarrow> uuid list \<Rightarrow> InvitationCreateRequest result" where
  "validate_invitation_create email role_ids =
     bind_result (case normalize_invitation_email email of
                    Inl e \<Rightarrow> Inl (if e = InvitationEmailError then ValueError else e) | Inr n \<Rightarrow> Inr n) (\<lambda>normalized.
     bind_result (guard (1 \<le> length role_ids \<and> length role_ids \<le> 20) ValidationError) (\<lambda>_.
     bind_result (guard (length (remdups role_ids) = length role_ids) ValueError) (\<lambda>_.
       Inr \<lparr>ic_email = normalized, ic_role_ids = role_ids\<rparr>)))"

record InvitationView =
  nv_id :: uuid
  nv_email :: string
  nv_status :: invitation_status
  nv_expires_at :: timestamp
  nv_roles :: "MemberRoleView list"
  nv_invited_by_user_id :: uuid
  nv_accepted_by_user_id :: "uuid option"
  nv_accepted_at :: "timestamp option"
  nv_revoked_at :: "timestamp option"
  nv_created_at :: timestamp
  nv_updated_at :: timestamp

record InvitationCreateView = InvitationView +
  nv_invite_url :: string

section \<open>Repository\<close>

definition invitation_find_assignable_roles :: "uuid \<Rightarrow> uuid list \<Rightarrow> db \<Rightarrow> Role list" where
  "invitation_find_assignable_roles t role_ids d =
     filter (\<lambda>r. ro_id r \<in> set role_ids \<and>
       (ro_tenant_id r = Some t \<or>
        (ro_tenant_id r = None \<and> ro_is_system r \<and> ro_key r \<in> {''owner'', ''admin''}))) (roles d)"

definition add_invitation ::
  "uuid \<Rightarrow> timestamp \<Rightarrow> uuid \<Rightarrow> string \<Rightarrow> string \<Rightarrow> uuid \<Rightarrow> timestamp \<Rightarrow> OrganizationInvitation" where
  "add_invitation iid db_now t email token_hash invited_by expires_at =
     \<lparr>iv_id = iid, iv_tenant_id = t, iv_email_normalized = email, iv_token_hash = token_hash,
      iv_status = InvitationPending, iv_invited_by_user_id = invited_by, iv_accepted_by_user_id = None,
      iv_expires_at = expires_at, iv_accepted_at = None, iv_revoked_at = None,
      iv_created_at = db_now, iv_updated_at = db_now\<rparr>"

definition add_invitation_role :: "uuid \<Rightarrow> uuid \<Rightarrow> db \<Rightarrow> db" where
  "add_invitation_role iid rid d =
     d\<lparr>invitation_roles := invitation_roles d @ [\<lparr>ir_invitation_id = iid, ir_role_id = rid\<rparr>]\<rparr>"

definition list_tenant_invitations :: "uuid \<Rightarrow> db \<Rightarrow> OrganizationInvitation list" where
  "list_tenant_invitations t d =
     rev (sort_key (\<lambda>i. (iv_created_at i, iv_id i)) (filter (\<lambda>i. iv_tenant_id i = t) (invitations d)))"

definition list_invitation_roles :: "uuid \<Rightarrow> db \<Rightarrow> Role list" where
  "list_invitation_roles iid d =
     sort_key (\<lambda>r. (ro_key r, ro_id r))
       [r. r \<leftarrow> roles d, x \<leftarrow> invitation_roles d, ir_role_id x = ro_id r \<and> ir_invitation_id x = iid]"

definition find_tenant_invitation :: "uuid \<Rightarrow> uuid \<Rightarrow> db \<Rightarrow> OrganizationInvitation option result" where
  "find_tenant_invitation t iid d =
     one_or_none (filter (\<lambda>i. iv_id i = iid \<and> iv_tenant_id i = t) (invitations d))"

definition find_invitation_by_token_hash_for_update :: "string \<Rightarrow> db \<Rightarrow> OrganizationInvitation option result" where
  "find_invitation_by_token_hash_for_update token_hash d =
     one_or_none (filter (\<lambda>i. iv_token_hash i = token_hash) (invitations d))"

section \<open>Service\<close>

definition INVITATION_MANAGE_PERMISSION :: string where
  "INVITATION_MANAGE_PERMISSION = ''organization.members.manage''"

definition INVITATION_LIFETIME :: int where
  "INVITATION_LIFETIME = seconds (7 * 24 * 60 * 60)"

definition invitation_require_manage_permission :: "uuid \<Rightarrow> uuid \<Rightarrow> db \<Rightarrow> unit result" where
  "invitation_require_manage_permission u t d =
     (case resolve_tenant_membership u t d of
        Inl e \<Rightarrow> Inl (if e = TenantMembershipAccessError then InvitationAccessNotFoundError else e)
      | Inr m \<Rightarrow> guard (INVITATION_MANAGE_PERMISSION \<in> set (rm_permissions m)) InvitationForbiddenError)"

definition is_acceptable_invitation :: "OrganizationInvitation option \<Rightarrow> string \<Rightarrow> timestamp \<Rightarrow> bool" where
  "is_acceptable_invitation invitation verified_email now =
     (case invitation of
        None \<Rightarrow> False
      | Some i \<Rightarrow> iv_status i = InvitationPending \<and> iv_revoked_at i = None \<and> iv_accepted_at i = None \<and>
          iv_accepted_by_user_id i = None \<and> iv_expires_at i > now \<and> iv_email_normalized i = verified_email)"

definition invitation_view :: "OrganizationInvitation \<Rightarrow> Role list \<Rightarrow> InvitationView" where
  "invitation_view i rs =
     \<lparr>nv_id = iv_id i, nv_email = iv_email_normalized i, nv_status = iv_status i, nv_expires_at = iv_expires_at i,
      nv_roles = map (\<lambda>r. \<lparr>rv_id = ro_id r, rv_key = ro_key r, rv_display_name = ro_display_name r\<rparr>) rs,
      nv_invited_by_user_id = iv_invited_by_user_id i, nv_accepted_by_user_id = iv_accepted_by_user_id i,
      nv_accepted_at = iv_accepted_at i, nv_revoked_at = iv_revoked_at i,
      nv_created_at = iv_created_at i, nv_updated_at = iv_updated_at i\<rparr>"

definition create_invitation_body ::
  "(string \<Rightarrow> string) \<Rightarrow> string \<Rightarrow> uuid \<Rightarrow> timestamp \<Rightarrow> uuid \<Rightarrow> uuid \<Rightarrow> InvitationCreateRequest \<Rightarrow> timestamp
     \<Rightarrow> InvitationView tx" where
  "create_invitation_body digest token iid db_now u t request now =
     tx_bind (tx_query (invitation_require_manage_permission u t)) (\<lambda>_.
     tx_bind (tx_read (invitation_find_assignable_roles t (ic_role_ids request))) (\<lambda>rs.
     tx_bind (tx_guard (ro_id ` set rs = set (ic_role_ids request)) InvitationRoleInvalidError) (\<lambda>_.
     let invitation = add_invitation iid db_now t (ic_email request) (digest token) u (now + INVITATION_LIFETIME)
     in tx_bind (tx_write (\<lambda>d. d\<lparr>invitations := invitations d @ [invitation]\<rparr>)) (\<lambda>_.
        tx_bind (tx_rethrow IntegrityError InvitationConflictError flush) (\<lambda>_.
        tx_bind (tx_write (fold (\<lambda>r. add_invitation_role (iv_id invitation) (ro_id r)) rs)) (\<lambda>_.
        tx_bind flush (\<lambda>_. tx_return (invitation_view invitation rs))))))))"

definition create_invitation ::
  "commit_outcome \<Rightarrow> (string \<Rightarrow> string) \<Rightarrow> string \<Rightarrow> uuid \<Rightarrow> timestamp \<Rightarrow> uuid \<Rightarrow> uuid \<Rightarrow> InvitationCreateRequest
     \<Rightarrow> string \<Rightarrow> timestamp \<Rightarrow> db \<Rightarrow> InvitationCreateView result \<times> db" where
  "create_invitation co digest token iid db_now u t request base now d =
     (case in_txn co (create_invitation_body digest token iid db_now u t request now) d of
        (Inl e, d') \<Rightarrow> (Inl e, d')
      | (Inr v, d') \<Rightarrow> (Inr (InvitationView.extend v \<lparr>nv_invite_url = build_invitation_url base token\<rparr>), d'))"

definition save_invitation :: "OrganizationInvitation \<Rightarrow> db \<Rightarrow> db" where
  "save_invitation i d = d\<lparr>invitations := map (\<lambda>x. if iv_id x = iv_id i then i else x) (invitations d)\<rparr>"

text \<open>\<open>mid\<close> and \<open>db_now\<close> are the identifier and the time of a membership row the acceptance creates.\<close>

definition accept_found ::
  "uuid \<Rightarrow> timestamp \<Rightarrow> uuid \<Rightarrow> timestamp \<Rightarrow> OrganizationInvitation \<Rightarrow> InvitationView tx" where
  "accept_found mid db_now u now invitation =
     tx_bind (tx_read (list_invitation_roles (iv_id invitation))) (\<lambda>rs.
     let role_ids = map ro_id rs in
     tx_bind (tx_guard (role_ids \<noteq> []) InvitationAcceptanceRejectedError) (\<lambda>_.
     tx_bind (tx_read (invitation_find_assignable_roles (iv_tenant_id invitation) role_ids)) (\<lambda>assignable.
     tx_bind (tx_guard (ro_id ` set assignable = set role_ids) InvitationAcceptanceRejectedError) (\<lambda>_.
     tx_bind (activate_membership_from_invitation mid db_now (iv_tenant_id invitation) u (iv_id invitation) role_ids now) (\<lambda>_.
     let accepted = invitation\<lparr>iv_accepted_by_user_id := Some u, iv_accepted_at := Some now,
                               iv_status := Accepted, iv_updated_at := now\<rparr>
     in tx_bind (tx_write (save_invitation accepted)) (\<lambda>_.
        tx_bind flush (\<lambda>_. tx_return (invitation_view accepted rs))))))))"

definition accept_invitation_body ::
  "string \<Rightarrow> uuid \<Rightarrow> timestamp \<Rightarrow> uuid \<Rightarrow> string \<Rightarrow> timestamp \<Rightarrow> InvitationView tx" where
  "accept_invitation_body token_hash mid db_now u verified_email now =
     tx_bind (tx_query (find_invitation_by_token_hash_for_update token_hash)) (\<lambda>found.
       if \<not> is_acceptable_invitation found verified_email now then tx_raise InvitationAcceptanceRejectedError
       else (case found of
               None \<Rightarrow> tx_raise AssertionError
             | Some invitation \<Rightarrow> accept_found mid db_now u now invitation))"

definition accept_invitation ::
  "commit_outcome \<Rightarrow> (string \<Rightarrow> string) \<Rightarrow> uuid \<Rightarrow> timestamp \<Rightarrow> uuid \<Rightarrow> VerifiedWorkforceIdentity \<Rightarrow> string
     \<Rightarrow> timestamp \<Rightarrow> db \<Rightarrow> InvitationView result \<times> db" where
  "accept_invitation co digest mid db_now u identity token now d =
     (case (if wi_email_verified identity then wi_email identity else None) of
        None \<Rightarrow> (Inl InvitationVerifiedEmailRequiredError, d)
      | Some email \<Rightarrow>
          (case normalize_invitation_email email of
             Inl e \<Rightarrow> (Inl (if e = InvitationEmailError then InvitationVerifiedEmailRequiredError else e), d)
           | Inr verified_email \<Rightarrow> in_txn co (accept_invitation_body (digest token) mid db_now u verified_email now) d))"

definition list_invitations :: "uuid \<Rightarrow> uuid \<Rightarrow> db \<Rightarrow> InvitationView list result" where
  "list_invitations u t d =
     bind_result (invitation_require_manage_permission u t d) (\<lambda>_.
       Inr (map (\<lambda>i. invitation_view i (list_invitation_roles (iv_id i) d)) (list_tenant_invitations t d)))"

definition revoke_invitation_body :: "uuid \<Rightarrow> uuid \<Rightarrow> uuid \<Rightarrow> timestamp \<Rightarrow> InvitationView tx" where
  "revoke_invitation_body u t iid now =
     tx_bind (tx_query (invitation_require_manage_permission u t)) (\<lambda>_.
     tx_bind (tx_query (find_tenant_invitation t iid)) (\<lambda>found.
       case found of
         None \<Rightarrow> tx_raise InvitationAccessNotFoundError
       | Some invitation \<Rightarrow>
           if iv_status invitation \<noteq> InvitationPending \<or> iv_expires_at invitation \<le> now
           then tx_raise InvitationLifecycleConflictError
           else
             let revoked = invitation\<lparr>iv_status := Revoked, iv_revoked_at := Some now, iv_updated_at := now\<rparr>
             in tx_bind (tx_write (save_invitation revoked)) (\<lambda>_.
                tx_bind flush (\<lambda>_.
                tx_bind (tx_read (list_invitation_roles (iv_id revoked))) (\<lambda>rs.
                  tx_return (invitation_view revoked rs))))))"

definition revoke_invitation ::
  "commit_outcome \<Rightarrow> uuid \<Rightarrow> uuid \<Rightarrow> uuid \<Rightarrow> timestamp \<Rightarrow> db \<Rightarrow> InvitationView result \<times> db" where
  "revoke_invitation co u t iid now d = in_txn co (revoke_invitation_body u t iid now) d"

section \<open>Normal form of an address\<close>

lemma ord_lower_char:
  "ord (lower_char c) =
     (if (65 \<le> ord c \<and> ord c \<le> 90) \<or> (192 \<le> ord c \<and> ord c \<le> 222 \<and> ord c \<noteq> 215) then ord c + 32 else ord c)"
  by (auto simp: lower_char_def ord_def)

lemma lower_char_fixed: "ord c \<noteq> 223 \<Longrightarrow> casefold_char (lower_char c) = [lower_char c]"
  using ord_lower_char[of c] by (auto simp: casefold_char_def lower_char_def[of "lower_char c"] split: if_splits)

lemma casefold_fixed: "c \<in> set (casefold_char x) \<Longrightarrow> casefold_char c = [c]"
  using lower_char_fixed[of x]
  by (auto simp: casefold_char_def[of x] casefold_char_def[of "CHR ''s''"] lower_char_def[of "CHR ''s''"] ord_def
      split: if_splits)

lemma casefold_casefold: "casefold (casefold s) = casefold s"
proof -
  have t: "concat (map casefold_char t) = t" if "\<forall>c \<in> set t. casefold_char c = [c]" for t
    using that by (induction t) auto
  show ?thesis unfolding casefold_def by (rule t) (auto intro: casefold_fixed)
qed

lemma normalize_invitation_email_idem:
  assumes "normalize_invitation_email e = Inr n"
  shows "normalize_invitation_email n = Inr n"
proof -
  from assms have n: "n = casefold (strip e)" and "\<not> list_ex is_space n"
    by (auto simp: normalize_invitation_email_def Let_def result_simps)
  then have "strip n = n" by (intro strip_no_space) (auto simp: list_ex_iff)
  then have "casefold (strip n) = casefold (strip e)" using n casefold_casefold by simp
  then show ?thesis using assms by (simp add: normalize_invitation_email_def)
qed

section \<open>Effects\<close>

lemma fold_add_invitation_role:
  "fold (\<lambda>r. add_invitation_role iid (ro_id r)) rs d =
     d\<lparr>invitation_roles := invitation_roles d @ map (\<lambda>r. \<lparr>ir_invitation_id = iid, ir_role_id = ro_id r\<rparr>) rs\<rparr>"
  by (induction rs arbitrary: d) (simp_all add: add_invitation_role_def)

lemma create_invitation_body_effect:
  assumes "create_invitation_body digest token iid db_now u t request now d = Inr (v, d')"
  shows "\<exists>rs :: Role list. d' = d\<lparr>
     invitations := invitations d @
       [add_invitation iid db_now t (ic_email request) (digest token) u (now + INVITATION_LIFETIME)],
     invitation_roles := invitation_roles d @ map (\<lambda>r. \<lparr>ir_invitation_id = iid, ir_role_id = ro_id r\<rparr>) rs\<rparr> \<and>
     schema_ok (d\<lparr>invitations := invitations d @
       [add_invitation iid db_now t (ic_email request) (digest token) u (now + INVITATION_LIFETIME)]\<rparr>)"
  by (rule exI[of _ "invitation_find_assignable_roles t (ic_role_ids request) d"])
    (use assms in \<open>auto simp: create_invitation_body_def result_simps Let_def fold_add_invitation_role
        add_invitation_def\<close>)

text \<open>A second pending invitation of the tenant for the address violates the partial unique index.\<close>

lemma pending_invitation_blocks:
  assumes "i \<in> set (invitations d)" "iv_tenant_id i = t" "iv_email_normalized i = email" "iv_status i = InvitationPending"
  shows "\<not> schema_ok (d\<lparr>invitations := invitations d @ [add_invitation iid db_now t email h u e]\<rparr>)"
  using assms
  by (auto simp: schema_ok_def workforce_ok_def invitations_ok_def add_invitation_def image_iff)

lemma create_invitation_invariant:
  assumes "create_invitation co digest token iid db_now u t request base now d = (r, d')" and "I d"
    and "\<And>x e. create_invitation_body digest token iid db_now u t request now d = Inr (x, e) \<Longrightarrow> schema_ok e \<Longrightarrow> I e"
  shows "I d'"
proof -
  obtain r' where "in_txn co (create_invitation_body digest token iid db_now u t request now) d = (r', d')"
    using assms(1) by (auto simp: create_invitation_def split: prod.splits sum.splits)
  then show ?thesis using assms(2,3) by (rule in_txn_invariant)
qed

text \<open>The row an acceptance or a revocation may close is pending and has not expired.\<close>

definition open_at :: "timestamp \<Rightarrow> OrganizationInvitation \<Rightarrow> bool" where
  "open_at now i \<longleftrightarrow> iv_status i = InvitationPending \<and> now < iv_expires_at i"

definition only_invitation :: "uuid \<Rightarrow> db \<Rightarrow> db \<Rightarrow> bool" where
  "only_invitation iid d d' \<longleftrightarrow>
     (\<forall>x. iv_id x \<noteq> iid \<longrightarrow> (x \<in> set (invitations d') \<longleftrightarrow> x \<in> set (invitations d)))"

lemma only_invitation_save: "only_invitation (iv_id i) d (save_invitation i d)"
  by (auto simp: only_invitation_def save_invitation_def image_iff)

lemma revoke_invitation_body_effect:
  assumes run: "revoke_invitation_body u t iid now d = Inr (v, d')"
  shows "\<exists>i \<in> set (invitations d). iv_id i = iid \<and> open_at now i \<and> only_invitation iid d d' \<and>
     d' = d\<lparr>invitations := invitations d'\<rparr>"
proof -
  obtain found where q: "find_tenant_invitation t iid d = Inr found"
    using run by (auto simp: revoke_invitation_body_def result_simps)
  with run obtain i where f: "find_tenant_invitation t iid d = Inr (Some i)"
    by (cases found) (auto simp: revoke_invitation_body_def result_simps)
  note i = one_or_none_filter[OF f[unfolded find_tenant_invitation_def]]
  let ?r = "i\<lparr>iv_status := Revoked, iv_revoked_at := Some now, iv_updated_at := now\<rparr>"
  from run f have "open_at now i \<and> d' = save_invitation ?r d"
    by (auto simp: revoke_invitation_body_def result_simps Let_def open_at_def split: if_splits)
  with only_invitation_save[of ?r d] i show ?thesis by (auto simp: save_invitation_def intro!: bexI[of _ i])
qed

text \<open>Acceptance: the invitation found by its digest, and what becomes of it and of the user.\<close>

definition accepted_row :: "uuid \<Rightarrow> timestamp \<Rightarrow> OrganizationInvitation \<Rightarrow> OrganizationInvitation" where
  "accepted_row u now i =
     i\<lparr>iv_accepted_by_user_id := Some u, iv_accepted_at := Some now, iv_status := Accepted, iv_updated_at := now\<rparr>"

lemma accept_found_effect:
  assumes "accept_found mid db_now u now i d = Inr (v, d')"
  shows "\<exists>m d1 rs. rs = list_invitation_roles (iv_id i) d \<and> rs \<noteq> [] \<and>
     ro_id ` set (invitation_find_assignable_roles (iv_tenant_id i) (map ro_id rs) d) = ro_id ` set rs \<and>
     activate_membership_from_invitation mid db_now (iv_tenant_id i) u (iv_id i) (map ro_id rs) now d = Inr (m, d1) \<and>
     d' = save_invitation (accepted_row u now i) d1"
  using assms by (auto simp: accept_found_def result_simps Let_def accepted_row_def)

lemma accept_invitation_body_found:
  assumes run: "accept_invitation_body h mid db_now u email now d = Inr (v, d')"
  shows "\<exists>i \<in> set (invitations d). iv_token_hash i = h \<and> open_at now i \<and> iv_email_normalized i = email \<and>
     accept_found mid db_now u now i d = Inr (v, d')"
proof -
  obtain found where q: "find_invitation_by_token_hash_for_update h d = Inr found"
    using run by (auto simp: accept_invitation_body_def result_simps)
  with run have acc: "is_acceptable_invitation found email now"
    by (auto simp: accept_invitation_body_def result_simps split: if_splits)
  then obtain i where i: "found = Some i" by (cases found) (auto simp: is_acceptable_invitation_def)
  note row = one_or_none_filter[OF q[unfolded i find_invitation_by_token_hash_for_update_def]]
  with acc run q i show ?thesis
    by (auto simp: is_acceptable_invitation_def accept_invitation_body_def result_simps open_at_def split: if_splits
        intro!: bexI[of _ i])
qed

lemma activate_membership_frames:
  assumes "activate_membership_from_invitation mid db_now t u i rs now d = Inr (m, d')"
  shows "d' = d\<lparr>memberships := memberships d', membership_roles := membership_roles d'\<rparr>"
proof -
  obtain d1 where row: "activate_row mid db_now t u i now d = Inr (m, d1)"
    and d': "d' = fold (add_membership_role (mb_id m))
       (filter (\<lambda>r. r \<notin> set (list_membership_role_ids (mb_id m) d1)) rs) d1"
    using assms by (auto simp: activate_membership_from_invitation_def result_simps)
  obtain found where q: "find_membership_for_update t u d = Inr found"
    using row by (auto simp: activate_row_def result_simps)
  have "\<exists>ms. d1 = d\<lparr>memberships := ms\<rparr>"
    using row q
    by (cases found) (auto simp: activate_row_def result_simps Let_def save_membership_def split: if_splits
        intro: exI[of _ "memberships d"])
  then obtain ms where "d1 = d\<lparr>memberships := ms\<rparr>" ..
  then show ?thesis unfolding d' fold_add_membership_role by simp
qed

lemma accept_invitation_cases:
  assumes "accept_invitation co digest mid db_now u identity token now d = (r, d')"
  shows "(d' = d \<and> (\<forall>v. r \<noteq> Inr v)) \<or>
     (\<exists>e n v. wi_email_verified identity \<and> wi_email identity = Some e \<and> normalize_invitation_email e = Inr n \<and>
        accept_invitation_body (digest token) mid db_now u n now d = Inr (v, d') \<and> schema_ok d' \<and> (r = Inr v \<or> (\<exists>x. r = Inl x)))"
proof (cases "if wi_email_verified identity then wi_email identity else None")
  case None
  with assms show ?thesis by (auto simp: accept_invitation_def)
next
  case (Some e)
  then have e: "wi_email_verified identity" "wi_email identity = Some e" by (auto split: if_splits)
  show ?thesis
  proof (cases "normalize_invitation_email e")
    case (Inl x)
    with assms e show ?thesis by (auto simp: accept_invitation_def)
  next
    case (Inr n)
    with assms e have "in_txn co (accept_invitation_body (digest token) mid db_now u n now) d = (r, d')"
      by (simp add: accept_invitation_def)
    then show ?thesis using e Inr by (cases rule: in_txn_cases) auto
  qed
qed

end
