(* ===== verification/Workforce_System.thy ===== *)
theory Workforce_System
  imports Workforce Organizations Members Invitations
begin

text \<open>
  The workforce operations together: every interleaving of logins, organization, member and
  invitation requests, each transaction with any outcome.  \<open>workforce_step digest t0\<close> is one
  operation performed at a time not before \<open>t0\<close>.  A login may lose the race against one other
  operation that commits between its lookup and its insert.
\<close>

inductive workforce_step :: "(string \<Rightarrow> string) \<Rightarrow> timestamp \<Rightarrow> db \<Rightarrow> db \<Rightarrow> bool" for digest t0 where
  login: "upsert_verified_workforce_user co (\<lambda>x. x) uid db_now now identity d = (r, d') \<Longrightarrow>
    workforce_step digest t0 d d'"
| raced_login: "workforce_step digest t0 d d1 \<Longrightarrow>
    find_user_by_oidc_identity (wi_issuer identity) (wi_subject identity) d = Inr None \<Longrightarrow>
    wi_email identity = Some email \<Longrightarrow>
    upsert_verified_workforce_user co (\<lambda>_. d1) uid db_now now identity d = (r, d') \<Longrightarrow>
    workforce_step digest t0 d d'"
| create: "create_organization co oid mid db_now u create_request d = (r, d') \<Longrightarrow> workforce_step digest t0 d d'"
| settings: "update_organization co u t settings_request now d = (r, d') \<Longrightarrow> workforce_step digest t0 d d'"
| member: "update_member co u t mid member_request now d = (r, d') \<Longrightarrow> workforce_step digest t0 d d'"
| invite: "create_invitation co digest token iid db_now u t invite_request base now d = (r, d') \<Longrightarrow>
    workforce_step digest t0 d d'"
| accept: "t0 \<le> now \<Longrightarrow> accept_invitation co digest mid db_now u identity token now d = (r, d') \<Longrightarrow>
    workforce_step digest t0 d d'"
| revoke: "t0 \<le> now \<Longrightarrow> revoke_invitation co u t iid now d = (r, d') \<Longrightarrow> workforce_step digest t0 d d'"

abbreviation workforce_run :: "(string \<Rightarrow> string) \<Rightarrow> timestamp \<Rightarrow> db \<Rightarrow> db \<Rightarrow> bool" where
  "workforce_run digest t0 \<equiv> (workforce_step digest t0)\<^sup>*\<^sup>*"

text \<open>Every organization has an active owner.\<close>

definition organizations_owned :: "db \<Rightarrow> bool" where
  "organizations_owned d \<longleftrightarrow> list_all (\<lambda>g. 1 \<le> count_active_owners (og_id g) d) (tenants d)"

lemma organizations_owned_iff: "organizations_owned d \<longleftrightarrow> (\<forall>t \<in> tenant_ids d. \<exists>i. active_owner d t i)"
  unfolding organizations_owned_def list_all_iff count_pos_iff by blast

lemma organizations_owned_mono:
  assumes "organizations_owned d" "tenant_ids d' \<subseteq> tenant_ids d" "\<And>t i. active_owner d t i \<Longrightarrow> \<exists>j. active_owner d' t j"
  shows "organizations_owned d'"
  unfolding organizations_owned_iff
proof
  fix t assume "t \<in> tenant_ids d'"
  with assms(1,2) obtain i where "active_owner d t i" unfolding organizations_owned_iff by blast
  then show "\<exists>j. active_owner d' t j" by (rule assms(3))
qed

lemma active_owner_frame:
  assumes "memberships d' = memberships d" "membership_roles d' = membership_roles d" "roles d' = roles d"
  shows "active_owner d' = active_owner d"
  using assms by (intro ext) (simp add: active_owner_def)

lemma active_owner_roles:
  "active_owner d t j \<longleftrightarrow>
     (\<exists>m \<in> set (memberships d). mb_id m = j \<and> mb_tenant_id m = t \<and> mb_status m = Active) \<and>
     (\<exists>r \<in> set (roles d). global_owner r \<and> ro_id r \<in> set (list_membership_role_ids j d))"
  unfolding active_owner_def list_membership_role_ids_def by (auto simp: image_iff)

section \<open>One operation\<close>

lemma only_identity_frames:
  assumes "only_identity i s d d'"
  shows "tenants d' = tenants d" "memberships d' = memberships d" "membership_roles d' = membership_roles d"
    "roles d' = roles d" "invitations d' = invitations d"
proof -
  from assms have "d' = d\<lparr>users := users d'\<rparr>" by (simp add: only_identity_def)
  from arg_cong[OF this, of tenants] arg_cong[OF this, of memberships] arg_cong[OF this, of membership_roles]
    arg_cong[OF this, of roles] arg_cong[OF this, of invitations]
  show "tenants d' = tenants d" "memberships d' = memberships d" "membership_roles d' = membership_roles d"
    "roles d' = roles d" "invitations d' = invitations d" by simp_all
qed

lemma save_organization_ids: "tenant_ids (save_organization g d) = tenant_ids d"
  unfolding save_organization_def by (auto simp: image_image) (metis image_eqI)+

lemma upsert_schema:
  assumes "upsert_verified_workforce_user co others uid db_now now identity d = (r, d')" "schema_ok d" "schema_ok (others d)"
  shows "schema_ok d'"
  using assms by (auto simp: upsert_verified_workforce_user_def split: option.splits sum.splits dest: in_txn_schema)

lemma workforce_step_schema:
  assumes "workforce_step digest t0 d d'" "schema_ok d"
  shows "schema_ok d'"
  using assms
proof induction
  case (invite co token iid db_now u t invite_request base now d r d')
  from invite(1,2) show ?case by (rule create_invitation_invariant)
next
  case (accept now co mid db_now u identity token d r d')
  from accept_invitation_cases[OF accept(2)] accept(3) show ?case by auto
qed (auto simp: create_organization_def update_organization_def update_member_def revoke_invitation_def
    intro: upsert_schema in_txn_schema)

lemma create_organization_owned:
  assumes run: "create_organization_body oid mid db_now u request d = Inr (v, d')" and own: "organizations_owned d"
  shows "organizations_owned d'"
proof -
  from create_organization_body_effect[OF run] obtain owner where o: "owner \<in> set (roles d)" "global_owner owner"
    and d': "d' = d\<lparr>tenants := tenants d @ [add_organization oid db_now (oc_slug request) (oc_display_name request)],
            memberships := memberships d @ [add_active_membership mid db_now oid u],
            membership_roles := membership_roles d @ [\<lparr>mr_membership_id = mid, mr_role_id = ro_id owner\<rparr>]\<rparr>"
    by (auto simp: global_owner_def OWNER_ROLE_KEY_def)
  have "active_owner d' oid mid" using o by (auto simp: active_owner_def d' add_active_membership_def)
  moreover have "active_owner d' t i" if "active_owner d t i" for t i
    using that by (auto simp: active_owner_def d')
  moreover have "tenant_ids d' = insert oid (tenant_ids d)" by (auto simp: d' add_organization_def)
  ultimately show ?thesis using own unfolding organizations_owned_iff by (metis insertE)
qed

lemma accept_invitation_owned:
  assumes run: "accept_invitation_body h mid db_now u email now d = Inr (v, d')"
    and ok: "schema_ok d" and own: "organizations_owned d"
  shows "organizations_owned d'"
proof -
  from accept_invitation_body_found[OF run] obtain i where f: "accept_found mid db_now u now i d = Inr (v, d')" by blast
  from accept_found_effect[OF f] obtain m d1 and rs :: "Role list" where
    act: "activate_membership_from_invitation mid db_now (iv_tenant_id i) u (iv_id i) (map ro_id rs) now d = Inr (m, d1)"
    and d': "d' = save_invitation (accepted_row u now i) d1" by blast
  note e = activate_membership_effect[OF act]
  have fr: "tenants d1 = tenants d" "roles d1 = roles d"
    using arg_cong[OF activate_membership_frames[OF act], of tenants]
      arg_cong[OF activate_membership_frames[OF act], of roles] by simp_all
  have "active_owner d1 t j" if o: "active_owner d t j" for t j
  proof (cases "j = mb_id m")
    case False
    from o obtain x where x: "x \<in> set (memberships d)" "mb_id x = j" "mb_tenant_id x = t" "mb_status x = Active"
      by (auto simp: active_owner_def)
    with e False have "x \<in> set (memberships d1)" "list_membership_role_ids j d1 = list_membership_role_ids j d" by auto
    with o x show ?thesis unfolding active_owner_roles fr by auto
  next
    case True
    from act obtain d0 where row: "activate_row mid db_now (iv_tenant_id i) u (iv_id i) now d = Inr (m, d0)"
      by (auto simp: activate_membership_from_invitation_def result_simps)
    from o True activate_row_tenant[OF row schema_ok_memberships[OF ok]] have "t = iv_tenant_id i"
      by (auto simp: active_owner_def)
    moreover have "mb_status m = Active" "mb_tenant_id m = iv_tenant_id i" "m \<in> set (memberships d1)"
      "set (list_membership_role_ids (mb_id m) d) \<subseteq> set (list_membership_role_ids (mb_id m) d1)"
      using e by blast+
    ultimately show ?thesis using o True unfolding active_owner_roles fr by (metis subsetD)
  qed
  moreover have "active_owner d' = active_owner d1"
    by (rule active_owner_frame) (simp_all add: d' save_invitation_def)
  moreover have "tenants d' = tenants d" using fr by (simp add: d' save_invitation_def)
  ultimately show ?thesis using organizations_owned_mono[OF own, of d'] by auto
qed

lemma upsert_owned:
  assumes "upsert_verified_workforce_user co others uid db_now now identity d = (r, d')"
    and ok: "schema_ok d" "schema_ok (others d)" and own: "organizations_owned d" "organizations_owned (others d)"
  shows "organizations_owned d'"
proof -
  from upsert_cases[OF assms(1) ok] obtain d0 where d0: "d0 = d \<or> d0 = others d"
    and i: "only_identity (wi_issuer identity) (wi_subject identity) d0 d'" by blast
  note fr = only_identity_frames[OF i]
  show ?thesis
    by (rule organizations_owned_mono[of d0]) (use d0 own fr active_owner_frame[of d' d0] in auto)
qed

lemma workforce_step_owned:
  assumes "workforce_step digest t0 d d'" "schema_ok d" "organizations_owned d"
  shows "organizations_owned d'"
  using assms
proof induction
  case (login co uid db_now now identity d r d')
  show ?case by (rule upsert_owned[OF login(1)]) (use login in auto)
next
  case (raced_login d d1 identity email co uid db_now now r d')
  show ?case
    by (rule upsert_owned[OF raced_login.hyps(4)])
      (use raced_login workforce_step_schema in auto)
next
  case (create co oid mid db_now u create_request d r d')
  from create(1)[unfolded create_organization_def] create(3) show ?case
    by (rule in_txn_invariant) (rule create_organization_owned[OF _ create(3)])
next
  case (settings co u t settings_request now d r d')
  have "organizations_owned e" if "update_organization_body u t settings_request now d = Inr (x, e)" for x e
  proof -
    from update_organization_body_effect[OF that] obtain g where e: "e = save_organization g d" by blast
    show ?thesis
      by (rule organizations_owned_mono[OF settings(3)])
        (use e save_organization_ids[of g d] active_owner_frame[of e d] in \<open>auto simp: save_organization_def\<close>)
  qed
  with settings show ?case unfolding update_organization_def by (blast intro: in_txn_invariant)
next
  case (member co u t mid member_request now d r d')
  have "organizations_owned e" if "update_member_body u t mid member_request now d = Inr (x, e)" for x e
  proof (rule organizations_owned_mono[OF member(3)])
    show "tenant_ids e \<subseteq> tenant_ids d"
      using update_member_body_effect[OF that schema_ok_memberships[OF member(2)]] by (simp add: only_membership_def)
  qed (use update_member_body_owners[OF that schema_ok_memberships[OF member(2)]] in blast)
  with member show ?case unfolding update_member_def by (blast intro: in_txn_invariant)
next
  case (invite co token iid db_now u t invite_request base now d r d')
  have "organizations_owned e" if "create_invitation_body digest token iid db_now u t invite_request now d = Inr (x, e)" for x e
    by (rule organizations_owned_mono[OF invite(3)])
      (use create_invitation_body_effect[OF that] active_owner_frame[of e d] in auto)
  with invite(1,3) show ?case by (rule create_invitation_invariant)
next
  case (accept now co mid db_now u identity token d r d')
  from accept_invitation_cases[OF accept(2)] accept_invitation_owned accept(3,4) show ?case by blast
next
  case (revoke now co u t iid d r d')
  have "organizations_owned e" if "revoke_invitation_body u t iid now d = Inr (x, e)" for x e
  proof -
    from revoke_invitation_body_effect[OF that] obtain js where e: "e = d\<lparr>invitations := js\<rparr>" by blast
    show ?thesis
      by (rule organizations_owned_mono[OF revoke(4)]) (use e active_owner_frame[of e d] in auto)
  qed
  with revoke show ?case unfolding revoke_invitation_def by (blast intro: in_txn_invariant)
qed

lemma workforce_run_owned:
  assumes "workforce_run digest t0 d d'" "schema_ok d" "organizations_owned d"
  shows "schema_ok d' \<and> organizations_owned d'"
  using assms by induction (auto intro: workforce_step_schema workforce_step_owned)

section \<open>What no operation undoes\<close>

text \<open>
  An invitation that is closed, or has expired, by the time the run starts keeps its row as it is.
\<close>

lemma open_at_mono: "open_at now i \<Longrightarrow> t0 \<le> now \<Longrightarrow> open_at t0 i"
  by (simp add: open_at_def)

lemma only_invitation_keeps:
  assumes "only_invitation iid d d'" "i0 \<in> set (invitations d)" "iv_id i0 = iid" "open_at t0 i0"
    and "schema_ok d" "i \<in> set (invitations d)" "\<not> open_at t0 i"
  shows "i \<in> set (invitations d')"
proof -
  have "inj_on iv_id (set (invitations d))"
    using assms(5) by (simp add: schema_ok_def workforce_ok_def invitations_ok_def distinct_map)
  with assms have "iv_id i \<noteq> iid" by (metis inj_onD)
  with assms show ?thesis by (simp add: only_invitation_def)
qed

lemma accept_invitation_body_invitations:
  assumes run: "accept_invitation_body h mid db_now u email now d = Inr (v, d')"
  shows "\<exists>i \<in> set (invitations d). open_at now i \<and> only_invitation (iv_id i) d d'"
proof -
  from accept_invitation_body_found[OF run] obtain i where i: "i \<in> set (invitations d)" "open_at now i"
    "accept_found mid db_now u now i d = Inr (v, d')" by blast
  from accept_found_effect[OF i(3)] obtain m d1 and rs :: "Role list" where
    act: "activate_membership_from_invitation mid db_now (iv_tenant_id i) u (iv_id i) (map ro_id rs) now d = Inr (m, d1)"
    and d': "d' = save_invitation (accepted_row u now i) d1" by blast
  have "invitations d1 = invitations d"
    using arg_cong[OF activate_membership_frames[OF act], of invitations] by simp
  then have "only_invitation (iv_id i) d d'"
    using only_invitation_save[of "accepted_row u now i" d1] by (simp add: d' only_invitation_def accepted_row_def)
  with i show ?thesis by blast
qed

lemma accept_invitation_body_users:
  assumes run: "accept_invitation_body h mid db_now u email now d = Inr (v, d')"
  shows "users d' = users d"
proof -
  from accept_invitation_body_found[OF run] obtain i where "accept_found mid db_now u now i d = Inr (v, d')" by blast
  from accept_found_effect[OF this] obtain m d1 and rs :: "Role list" where
    act: "activate_membership_from_invitation mid db_now (iv_tenant_id i) u (iv_id i) (map ro_id rs) now d = Inr (m, d1)"
    and d': "d' = save_invitation (accepted_row u now i) d1" by blast
  from arg_cong[OF activate_membership_frames[OF act], of users] show ?thesis by (simp add: d' save_invitation_def)
qed

lemma workforce_step_closed:
  assumes "workforce_step digest t0 d d'" "schema_ok d" "i \<in> set (invitations d)" "\<not> open_at t0 i"
  shows "i \<in> set (invitations d')"
  using assms
proof induction
  case (login co uid db_now now identity d r d')
  from upsert_cases[OF login(1)] login(2,3) only_identity_frames(5) show ?case by metis
next
  case (raced_login d d1 identity email co uid db_now now r d')
  have "schema_ok d1" using raced_login workforce_step_schema by blast
  with upsert_cases[OF raced_login.hyps(4)] raced_login only_identity_frames(5) show ?case by metis
next
  case (create co oid mid db_now u create_request d r d')
  from create(1)[unfolded create_organization_def] create(3) show ?case
    by (rule in_txn_invariant) (use create create_organization_body_effect in fastforce)
next
  case (settings co u t settings_request now d r d')
  from settings(1)[unfolded update_organization_def] settings(3) show ?case
    by (rule in_txn_invariant) (use settings update_organization_body_effect in \<open>fastforce simp: save_organization_def\<close>)
next
  case (member co u t mid member_request now d r d')
  from member(1)[unfolded update_member_def] member(3) show ?case
    by (rule in_txn_invariant) (use member update_member_body_frames in metis)
next
  case (invite co token iid db_now u t invite_request base now d r d')
  have "i \<in> set (invitations e)"
    if "create_invitation_body digest token iid db_now u t invite_request now d = Inr (x, e)" for x e
    using create_invitation_body_effect[OF that] invite(3) by auto
  with invite(1,3) show ?case by (rule create_invitation_invariant)
next
  case (accept now co mid db_now u identity token d r d')
  consider "d' = d" | n v where "accept_invitation_body (digest token) mid db_now u n now d = Inr (v, d')"
    using accept_invitation_cases[OF accept(2)] by blast
  then show ?case
  proof cases
    case 2
    from accept_invitation_body_invitations[OF this] obtain i0 where "i0 \<in> set (invitations d)" "open_at now i0"
      "only_invitation (iv_id i0) d d'" by blast
    then show ?thesis using only_invitation_keeps[OF _ _ refl open_at_mono] accept by blast
  qed (use accept in simp)
next
  case (revoke now co u t iid d r d')
  from revoke(2)[unfolded revoke_invitation_def] revoke(4) show ?case
  proof (rule in_txn_invariant)
    fix x e assume "revoke_invitation_body u t iid now d = Inr (x, e)"
    from revoke_invitation_body_effect[OF this] obtain i0 where "i0 \<in> set (invitations d)" "iv_id i0 = iid"
      "open_at now i0" "only_invitation iid d e" by blast
    then show "i \<in> set (invitations e)" using only_invitation_keeps[OF _ _ _ open_at_mono] revoke by blast
  qed
qed

lemma workforce_run_closed:
  assumes "workforce_run digest t0 d d'" "schema_ok d" "i \<in> set (invitations d)" "\<not> open_at t0 i"
  shows "schema_ok d' \<and> i \<in> set (invitations d')"
  using assms by induction (auto intro: workforce_step_schema workforce_step_closed)

text \<open>The identifier of an identity never changes.\<close>

lemma upsert_identities:
  assumes "upsert_verified_workforce_user co others uid db_now now identity d = (r, d')"
    and "schema_ok d" "schema_ok (others d)" "identities d \<subseteq> identities (others d)"
  shows "identities d \<subseteq> identities d'"
proof -
  from upsert_cases[OF assms(1-3)] obtain d0 where "d0 = d \<or> d0 = others d" "identities d0 \<subseteq> identities d'"
    unfolding only_identity_def by (elim conjE exE) simp
  with assms(4) show ?thesis by (elim disjE) simp_all
qed

lemma workforce_step_identities:
  assumes "workforce_step digest t0 d d'" "schema_ok d"
  shows "identities d \<subseteq> identities d'"
  using assms
proof induction
  case (raced_login d d1 identity email co uid db_now now r d')
  then show ?case using workforce_step_schema by (intro upsert_identities[OF raced_login.hyps(4)]) auto
next
  case (create co oid mid db_now u create_request d r d')
  from create(1)[unfolded create_organization_def] subset_refl show ?case
    by (rule in_txn_invariant) (use create_organization_body_effect in fastforce)
next
  case (settings co u t settings_request now d r d')
  from settings(1)[unfolded update_organization_def] subset_refl show ?case
    by (rule in_txn_invariant) (use update_organization_body_effect in \<open>fastforce simp: save_organization_def\<close>)
next
  case (member co u t mid member_request now d r d')
  from member(1)[unfolded update_member_def] subset_refl show ?case
    by (rule in_txn_invariant) (use update_member_body_frames in auto)
next
  case (invite co token iid db_now u t invite_request base now d r d')
  from invite(1) subset_refl show ?case
    by (rule create_invitation_invariant) (use create_invitation_body_effect in fastforce)
next
  case (accept now co mid db_now u identity token d r d')
  from accept_invitation_cases[OF accept(2)] show ?case
    using accept_invitation_body_users by fastforce
next
  case (revoke now co u t iid d r d')
  from revoke(2)[unfolded revoke_invitation_def] subset_refl show ?case
  proof (rule in_txn_invariant)
    fix x e assume "revoke_invitation_body u t iid now d = Inr (x, e)"
    from revoke_invitation_body_effect[OF this] obtain js where "e = d\<lparr>invitations := js\<rparr>" by blast
    then show "identities d \<subseteq> identities e" by simp
  qed
qed (auto dest: upsert_identities)

lemma workforce_run_identities:
  assumes "workforce_run digest t0 d d'" "schema_ok d"
  shows "schema_ok d' \<and> identities d \<subseteq> identities d'"
  using assms
proof induction
  case (step e e')
  then show ?case using workforce_step_schema[of digest t0 e e'] workforce_step_identities[of digest t0 e e']
    by (meson order_trans)
qed simp

section \<open>Properties\<close>

definition workforce_db :: db where
  "workforce_db = sample_db\<lparr>
     users := [sample_user, sample_user\<lparr>us_id := 3, us_oidc_subject := ''bob'', us_email := ''bob@x.io''\<rparr>],
     memberships := [\<lparr>mb_id = 10, mb_tenant_id = 1, mb_user_id = 2, mb_status = Active,
       mb_created_by_invitation_id = None, mb_created_at = 0, mb_updated_at = 0\<rparr>],
     roles := [\<lparr>ro_id = 20, ro_tenant_id = None, ro_key = ''owner'', ro_display_name = ''Owner'', ro_is_system = True\<rparr>],
     role_permissions := [\<lparr>rp_role_id = 20, rp_permission_key = ''organization.members.manage''\<rparr>],
     membership_roles := [\<lparr>mr_membership_id = 10, mr_role_id = 20\<rparr>],
     invitations := [add_invitation 30 0 1 ''bob@x.io'' ''token'' 2 1000],
     invitation_roles := [\<lparr>ir_invitation_id = 30, ir_role_id = 20\<rparr>]\<rparr>"

lemma workforce_db_ok: "schema_ok workforce_db" "organizations_owned workforce_db"
  by code_simp+

text \<open>
  C4: Start from a database in which every organization has an active owner.  However logins,
  organization, member and invitation requests follow each other, with committed, aborted and
  unacknowledged transactions, every organization, old or new, still has an active owner.
\<close>

theorem organizations_keep_an_owner:
  assumes "schema_ok d" and "organizations_owned d" and "workforce_run digest t0 d d'"
  shows "organizations_owned d'"
  using workforce_run_owned[OF assms(3,1,2)] by simp

text \<open>The last owner cannot suspend itself; with a second owner it can.\<close>

definition suspend_request :: MemberUpdateRequest where
  "suspend_request = \<lparr>mu_role_ids = None, mu_status = Some Suspended\<rparr>"

definition two_owners_db :: db where
  "two_owners_db = workforce_db\<lparr>
     memberships := memberships workforce_db @ [\<lparr>mb_id = 11, mb_tenant_id = 1, mb_user_id = 3, mb_status = Active,
       mb_created_by_invitation_id = None, mb_created_at = 0, mb_updated_at = 0\<rparr>],
     membership_roles := membership_roles workforce_db @ [\<lparr>mr_membership_id = 11, mr_role_id = 20\<rparr>]\<rparr>"

theorem organizations_keep_an_owner_witness:
  "\<exists>v d'. update_member Committed 2 1 10 suspend_request 5 two_owners_db = (Inr v, d') \<and> mv_status v = Suspended \<and>
     organizations_owned d' \<and>
     fst (update_member Committed 2 1 10 suspend_request 5 workforce_db) = Inl LastActiveOwnerConflictError"
proof -
  let ?run = "update_member Committed 2 1 10 suspend_request 5 two_owners_db"
  have ok: "schema_ok two_owners_db" "organizations_owned two_owners_db" by code_simp+
  have v: "(case fst ?run of Inl _ \<Rightarrow> False | Inr v \<Rightarrow> mv_status v = Suspended)" by code_simp
  then obtain v where run: "?run = (Inr v, snd ?run)" "mv_status v = Suspended"
    by (cases ?run) (auto split: sum.splits)
  from workforce_step.member[OF run(1)] have "workforce_run (\<lambda>x. x) 0 two_owners_db (snd ?run)" by blast
  from organizations_keep_an_owner[OF ok this] run
    have "?run = (Inr v, snd ?run) \<and> mv_status v = Suspended \<and> organizations_owned (snd ?run)" by simp
  moreover have "fst (update_member Committed 2 1 10 suspend_request 5 workforce_db) = Inl LastActiveOwnerConflictError"
    by code_simp
  ultimately show ?thesis by blast
qed

lemma accept_closed_invitation:
  assumes ok: "schema_ok d" and i: "i \<in> set (invitations d)" "iv_token_hash i = digest token" "iv_status i \<noteq> InvitationPending"
  shows "\<exists>x. accept_invitation co digest mid db_now u identity token now d = (Inl x, d)"
proof -
  obtain r d' where run: "accept_invitation co digest mid db_now u identity token now d = (r, d')" by fastforce
  have "inj_on iv_token_hash (set (invitations d))"
    using ok by (simp add: schema_ok_def workforce_ok_def invitations_ok_def distinct_map)
  then have "accept_invitation_body (digest token) mid db_now u n now d \<noteq> Inr (v, d')" for n v
    using accept_invitation_body_found[of "digest token" mid db_now u n now d v d'] i
    unfolding open_at_def by (metis inj_onD)
  with accept_invitation_cases[OF run] have "d' = d" "\<forall>v. r \<noteq> Inr v" by blast+
  with run show ?thesis by (cases r) auto
qed

text \<open>
  C6: An accepted invitation was pending, had not expired and was addressed to the caller's verified
  email.  The caller then has an active membership of the inviting organization whose roles are those
  it had and the invited ones.  Whatever happens afterwards, the same token is never accepted again,
  by anyone, and the attempt changes nothing.
\<close>

theorem invitation_accepted_once:
  assumes "schema_ok d"
    and "accept_invitation co digest mid db_now u identity token now d = (Inr v, d')"
  shows "\<exists>i \<in> set (invitations d). iv_token_hash i = digest token \<and> iv_status i = InvitationPending \<and> now < iv_expires_at i \<and>
    (\<exists>e. wi_email_verified identity \<and> wi_email identity = Some e \<and>
       normalize_invitation_email e = Inr (iv_email_normalized i)) \<and>
    (\<exists>m \<in> set (memberships d'). mb_tenant_id m = iv_tenant_id i \<and> mb_user_id m = u \<and> mb_status m = Active \<and>
       set (list_membership_role_ids (mb_id m) d') =
         set (list_membership_role_ids (mb_id m) d) \<union> ro_id ` set (list_invitation_roles (iv_id i) d)) \<and>
    (\<forall>t1 d'' co2 mid2 db_now2 u2 identity2 now2. workforce_run digest t1 d' d'' \<longrightarrow>
       (\<exists>x. accept_invitation co2 digest mid2 db_now2 u2 identity2 token now2 d'' = (Inl x, d'')))"
proof -
  from accept_invitation_cases[OF assms(2)] obtain e n where e: "wi_email_verified identity" "wi_email identity = Some e"
    "normalize_invitation_email e = Inr n" and body: "accept_invitation_body (digest token) mid db_now u n now d = Inr (v, d')"
    and ok': "schema_ok d'" by auto
  from accept_invitation_body_found[OF body] obtain i where i: "i \<in> set (invitations d)" "iv_token_hash i = digest token"
    "open_at now i" "iv_email_normalized i = n" "accept_found mid db_now u now i d = Inr (v, d')" by blast
  from accept_found_effect[OF i(5)] obtain m d1 where
    act: "activate_membership_from_invitation mid db_now (iv_tenant_id i) u (iv_id i)
      (map ro_id (list_invitation_roles (iv_id i) d)) now d = Inr (m, d1)"
    and d': "d' = save_invitation (accepted_row u now i) d1" by blast
  have same: "memberships d' = memberships d1" "list_membership_role_ids j d' = list_membership_role_ids j d1" for j
    by (simp_all add: d' save_invitation_def list_membership_role_ids_def)
  have rows: "invitations d1 = invitations d"
    using arg_cong[OF activate_membership_frames[OF act], of invitations] by simp
  let ?a = "accepted_row u now i"
  have a: "?a \<in> set (invitations d')" "iv_token_hash ?a = digest token" "iv_status ?a \<noteq> InvitationPending"
    using i(1,2) by (auto simp: d' save_invitation_def rows image_iff accepted_row_def intro!: bexI[of _ i])
  have "\<exists>x. accept_invitation co2 digest mid2 db_now2 u2 identity2 token now2 d'' = (Inl x, d'')"
    if "workforce_run digest t1 d' d''" for t1 d'' co2 mid2 db_now2 u2 identity2 now2
  proof -
    have "schema_ok d'' \<and> ?a \<in> set (invitations d'')"
      using workforce_run_closed[OF that ok' a(1)] a(3) by (simp add: open_at_def)
    with a(2,3) accept_closed_invitation show ?thesis by blast
  qed
  moreover have "mb_tenant_id m = iv_tenant_id i \<and> mb_user_id m = u \<and> mb_status m = Active \<and> m \<in> set (memberships d') \<and>
      set (list_membership_role_ids (mb_id m) d') =
         set (list_membership_role_ids (mb_id m) d) \<union> ro_id ` set (list_invitation_roles (iv_id i) d)"
    using activate_membership_effect[OF act] unfolding same by simp
  ultimately show ?thesis using i e unfolding open_at_def by (intro bexI[of _ i]) blast+
qed

definition bob :: VerifiedWorkforceIdentity where
  "bob = \<lparr>wi_issuer = ''iss'', wi_subject = ''bob'', wi_email = Some ''Bob@X.io '', wi_email_verified = True,
     wi_display_name = None\<rparr>"

theorem invitation_accepted_once_witness:
  "\<exists>v d'. accept_invitation Committed (\<lambda>x. x) 11 5 3 bob ''token'' 6 workforce_db = (Inr v, d') \<and>
     (\<exists>x. accept_invitation Committed (\<lambda>x. x) 12 7 3 bob ''token'' 8 d' = (Inl x, d'))"
proof -
  let ?run = "accept_invitation Committed (\<lambda>x. x) 11 5 3 bob ''token'' 6 workforce_db"
  have "(case fst ?run of Inl _ \<Rightarrow> False | Inr v \<Rightarrow> True)" by code_simp
  then obtain v d' where run: "?run = (Inr v, d')" by (cases ?run) (auto split: sum.splits)
  from invitation_accepted_once[OF workforce_db_ok(1) run] have
    "\<forall>t1 d'' co2 mid2 db_now2 u2 identity2 now2. workforce_run (\<lambda>x. x) t1 d' d'' \<longrightarrow>
       (\<exists>x. accept_invitation co2 (\<lambda>x. x) mid2 db_now2 u2 identity2 ''token'' now2 d'' = (Inl x, d''))"
    by (elim bexE conjE)
  then have "\<exists>x. accept_invitation Committed (\<lambda>x. x) 12 7 3 bob ''token'' 8 d' = (Inl x, d')"
    using rtranclp.rtrancl_refl[of "workforce_step (\<lambda>x. x) 0" d'] by blast
  then show ?thesis by (intro exI[of _ v] exI[of _ d'] conjI run)
qed

text \<open>
  C29: A pending invitation whose time has run out stays pending: no operation changes its row, and
  from then on the organization can neither revoke it nor invite the address again.
\<close>

theorem expired_invitation_blocks_address:
  assumes "schema_ok d" and "i \<in> set (invitations d)" and "iv_status i = InvitationPending" and "iv_expires_at i \<le> t0"
    and "workforce_run digest t0 d d'" and "t0 \<le> now"
  shows "i \<in> set (invitations d') \<and>
    (\<exists>x. create_invitation co digest token iid db_now u (iv_tenant_id i)
       \<lparr>ic_email = iv_email_normalized i, ic_role_ids = rs\<rparr> base now d' = (Inl x, d')) \<and>
    (\<exists>x. revoke_invitation co u t (iv_id i) now d' = (Inl x, d'))"
proof -
  from workforce_run_closed[OF assms(5,1,2)] assms(4) have ok: "schema_ok d'" and i: "i \<in> set (invitations d')"
    by (simp_all add: open_at_def)
  let ?q = "\<lparr>ic_email = iv_email_normalized i, ic_role_ids = rs\<rparr>"
  have fail: "\<exists>x. in_txn co m d' = (Inl x, d')" if "\<And>x e. m d' \<noteq> Inr (x, e)" for m :: "InvitationView tx"
    using that by (cases "m d'") (auto simp: in_txn_def)
  have "create_invitation_body digest token iid db_now u (iv_tenant_id i) ?q now d' \<noteq> Inr (x, e)" for x e
    using create_invitation_body_effect[of digest token iid db_now u "iv_tenant_id i" ?q now d' x e]
      pending_invitation_blocks[OF i refl refl assms(3)] by auto
  from fail[of "create_invitation_body digest token iid db_now u (iv_tenant_id i) ?q now", OF this]
  have "\<exists>x. create_invitation co digest token iid db_now u (iv_tenant_id i) ?q base now d' = (Inl x, d')"
    by (auto simp: create_invitation_def)
  moreover have "revoke_invitation_body u t (iv_id i) now d' \<noteq> Inr (x, e)" for x e
  proof
    assume "revoke_invitation_body u t (iv_id i) now d' = Inr (x, e)"
    from revoke_invitation_body_effect[OF this] obtain j where j: "j \<in> set (invitations d')" "iv_id j = iv_id i" "open_at now j"
      by blast
    have "inj_on iv_id (set (invitations d'))"
      using ok by (simp add: schema_ok_def workforce_ok_def invitations_ok_def distinct_map)
    with i j have "j = i" by (auto dest: inj_onD)
    with j(3) assms(4,6) show False by (simp add: open_at_def)
  qed
  from fail[of "revoke_invitation_body u t (iv_id i) now", OF this] have "\<exists>x. revoke_invitation co u t (iv_id i) now d' = (Inl x, d')"
    by (simp add: revoke_invitation_def)
  ultimately show ?thesis using i by blast
qed

theorem expired_invitation_blocks_address_witness:
  "iv_expires_at (add_invitation 30 0 1 ''bob@x.io'' ''token'' 2 1000) \<le> 2000 \<and>
   (\<exists>x. create_invitation Committed (\<lambda>x. x) ''fresh'' 31 2000 2 1 \<lparr>ic_email = ''bob@x.io'', ic_role_ids = [20]\<rparr>
      ''https://app'' 2000 workforce_db = (Inl x, workforce_db)) \<and>
   fst (create_invitation Committed (\<lambda>x. x) ''fresh'' 31 2000 2 1 \<lparr>ic_email = ''bob@x.io'', ic_role_ids = [20]\<rparr>
      ''https://app'' 2000 workforce_db) = Inl InvitationConflictError \<and>
   fst (revoke_invitation Committed 2 1 30 2000 workforce_db) = Inl InvitationLifecycleConflictError"
proof -
  let ?i = "add_invitation 30 0 1 ''bob@x.io'' ''token'' 2 1000"
  have i: "?i \<in> set (invitations workforce_db)" by (simp add: workforce_db_def)
  have p: "iv_status ?i = InvitationPending" "iv_expires_at ?i \<le> 2000" "iv_tenant_id ?i = 1"
    "iv_email_normalized ?i = ''bob@x.io''" by (simp_all add: add_invitation_def)
  have "fst (create_invitation Committed (\<lambda>x. x) ''fresh'' 31 2000 2 1 \<lparr>ic_email = ''bob@x.io'', ic_role_ids = [20]\<rparr>
      ''https://app'' 2000 workforce_db) = Inl InvitationConflictError" by code_simp
  moreover have "fst (revoke_invitation Committed 2 1 30 2000 workforce_db) = Inl InvitationLifecycleConflictError"
    by code_simp
  ultimately show ?thesis
    using expired_invitation_blocks_address[OF workforce_db_ok(1) i p(1,2) rtranclp.rtrancl_refl order_refl,
        where co = Committed and digest = "\<lambda>x. x" and token = "''fresh''" and iid = 31 and db_now = 2000 and u = 2
          and rs = "[20]" and base = "''https://app''"] p by simp
qed

text \<open>
  C30: A verified identity with an email whose user, if any, is active is always logged in by a
  committed transaction, also when another login of the same identity wins the insert.  The user
  returned is active and has the verified email, and every later login of the identity that succeeds
  returns the same internal identifier.
\<close>

theorem login_resolves_one_user:
  assumes "schema_ok d" and "schema_ok (others d)" and "uid \<notin> user_ids (others d)" and "wi_email identity = Some e"
    and "list_all (\<lambda>u. us_oidc_issuer u = wi_issuer identity \<and> us_oidc_subject u = wi_subject identity \<longrightarrow>
       us_status u = UserActive) (users d @ users (others d))"
  shows "\<exists>v d'. upsert_verified_workforce_user Committed others uid db_now now identity d = (Inr v, d') \<and>
     iu_status v = UserActive \<and> iu_email v = e \<and>
     (\<forall>digest t0 d'' co2 uid2 db_now2 now2 identity2 v2 d3.
        workforce_run digest t0 d' d'' \<and> wi_issuer identity2 = wi_issuer identity \<and> wi_subject identity2 = wi_subject identity \<and>
        upsert_verified_workforce_user co2 (\<lambda>x. x) uid2 db_now2 now2 identity2 d'' = (Inr v2, d3) \<longrightarrow>
        iu_id v2 = iu_id v)"
proof -
  from assms(5) obtain v d' where run: "upsert_verified_workforce_user Committed others uid db_now now identity d = (Inr v, d')"
    using upsert_runs[of d others uid identity e db_now now] assms(1-4) by (auto simp: list_all_iff)
  from upsert_cases[OF run assms(1,2)] obtain u where
    u: "find_user_by_oidc_identity (wi_issuer identity) (wi_subject identity) d' = Inr (Some u)" "v = to_internal_user u"
    and v: "iu_status v = UserActive" "iu_email v = e" using assms(4) by auto
  have ok': "schema_ok d'" using upsert_schema[OF run assms(1,2)] .
  have "iu_id v2 = iu_id v"
    if "workforce_run digest t0 d' d''" "wi_issuer identity2 = wi_issuer identity" "wi_subject identity2 = wi_subject identity"
      "upsert_verified_workforce_user co2 (\<lambda>x. x) uid2 db_now2 now2 identity2 d'' = (Inr v2, d3)"
    for digest t0 d'' co2 uid2 db_now2 now2 identity2 v2 d3
  proof -
    from workforce_run_identities[OF that(1) ok'] have ok2: "schema_ok d''" and s: "identities d' \<subseteq> identities d''" by auto
    from upsert_cases[OF that(4) ok2 ok2] that(2,3) obtain u2 where
      u2: "find_user_by_oidc_identity (wi_issuer identity) (wi_subject identity) d3 = Inr (Some u2)" "v2 = to_internal_user u2"
      by auto
    have "users_ok d3" using upsert_schema[OF that(4) ok2 ok2] by (simp add: schema_ok_def workforce_ok_def)
    moreover have "(us_id u, wi_issuer identity, wi_subject identity) \<in> identities d3"
      using s upsert_identities[OF that(4) ok2 ok2 subset_refl] find_user_Some[OF u(1)] by force
    then obtain w where "w \<in> set (users d3)" "us_id w = us_id u" "us_oidc_issuer w = wi_issuer identity"
      "us_oidc_subject w = wi_subject identity" by auto
    ultimately have "find_user_by_oidc_identity (wi_issuer identity) (wi_subject identity) d3 = Inr (Some w)"
      by (simp add: find_user_iff)
    with u2 u \<open>us_id w = us_id u\<close> show ?thesis by (simp add: to_internal_user_def)
  qed
  with run v show ?thesis by blast
qed

definition carol :: VerifiedWorkforceIdentity where
  "carol = \<lparr>wi_issuer = ''iss'', wi_subject = ''carol'', wi_email = Some ''carol@x.io'', wi_email_verified = True,
     wi_display_name = Some ''Carol''\<rparr>"

theorem login_resolves_one_user_witness:
  "\<exists>v d'. upsert_verified_workforce_user Committed
      (\<lambda>d. d\<lparr>users := users d @ [add_user 4 0 ''iss'' ''carol'' ''old@x.io'' ''Carol'']\<rparr>) 5 0 1 carol workforce_db = (Inr v, d') \<and>
     iu_status v = UserActive \<and> iu_email v = ''carol@x.io''"
proof -
  let ?o = "\<lambda>d. d\<lparr>users := users d @ [add_user 4 0 ''iss'' ''carol'' ''old@x.io'' ''Carol'']\<rparr>"
  have ok: "schema_ok (?o workforce_db)" by code_simp
  have fresh: "5 \<notin> user_ids (?o workforce_db)" by code_simp
  have act: "list_all (\<lambda>u. us_oidc_issuer u = wi_issuer carol \<and> us_oidc_subject u = wi_subject carol \<longrightarrow>
       us_status u = UserActive) (users workforce_db @ users (?o workforce_db))" by code_simp
  have "wi_email carol = Some ''carol@x.io''" by (simp add: carol_def)
  from login_resolves_one_user[of workforce_db ?o 5 carol _ 0 1, OF workforce_db_ok(1) ok fresh this act]
  show ?thesis by blast
qed

end
