(* ===== verification/Secret_Store.thy ===== *)
theory Secret_Store
  imports Json Identifiers
begin

text \<open>
  \<open>services/api/app/core/secret_store.py\<close>: the tenant-scoped secret store and its local adapter, a JSON
  document of encrypted records that is replaced atomically.

  The file is its bytes, absent or present, and two flags that say whether the disk answers reads and
  writes; a write that fails leaves the file as it was, because the document is written to a temporary
  file first (a failure of the last \<open>chmod\<close>, after the replacement, is not modelled).  Fernet is an argument: \<open>encrypt\<close> takes the randomness of a token and the plaintext,
  \<open>decrypt\<close> answers None for \<open>InvalidToken\<close>.  The drawn reference is an argument of \<open>put_secret\<close>.
\<close>

record secret_file =
  sf_bytes :: "int list option"
  sf_readable :: bool
  sf_writable :: bool

record fernet =
  encrypt :: "nat \<Rightarrow> string \<Rightarrow> string"
  decrypt :: "string \<Rightarrow> string option"

section \<open>The document\<close>

definition w_get :: "(utext \<times> wjson) list \<Rightarrow> string \<Rightarrow> wjson option" where
  "w_get kvs k = map_of kvs (cps k)"

text \<open>\<open>payload.get("version") != 1\<close>: \<open>True\<close> and \<open>1.0\<close> are equal to 1 in Python.\<close>

definition equals_one :: "wjson option \<Rightarrow> bool" where
  "equals_one v =
     (case v of
        Some (WInt n) \<Rightarrow> n = 1
      | Some (WBool b) \<Rightarrow> b
      | Some (WFloat t) \<Rightarrow> t = cps ''1.0''
      | _ \<Rightarrow> False)"

definition read_document :: "secret_file \<Rightarrow> (utext \<times> wjson) list result" where
  "read_document f =
     (case sf_bytes f of
        None \<Rightarrow> Inr [(cps ''version'', WInt 1), (cps ''records'', WObj [])]
      | Some bs \<Rightarrow>
          if \<not> sf_readable f then Inl SecretDecryptionError
          else (case utf8_decode bs of
                  None \<Rightarrow> Inl SecretDecryptionError
                | Some s \<Rightarrow>
                    (case loads s of
                       Inl e \<Rightarrow> Inl (if e = JSONDecodeError then SecretDecryptionError else e)
                     | Inr (WObj kvs) \<Rightarrow>
                         if equals_one (w_get kvs ''version'') then Inr kvs else Inl SecretDecryptionError
                     | Inr _ \<Rightarrow> Inl SecretDecryptionError)))"

text \<open>\<open>ensure_ascii=True\<close>: characters beyond the printable ASCII range, which occur in strings only, are escaped.\<close>

definition u_escape :: "int \<Rightarrow> utext" where
  "u_escape n = [92, 117, hex_char (n div 4096), hex_char (n div 256 mod 16), hex_char (n div 16 mod 16), hex_char (n mod 16)]"

definition ascii_char :: "int \<Rightarrow> utext" where
  "ascii_char c =
     (if c < 127 then [c]
      else if c < 65536 then u_escape c
      else u_escape (55296 + (c - 65536) div 1024) @ u_escape (56320 + (c - 65536) mod 1024))"

definition write_document :: "(utext \<times> wjson) list \<Rightarrow> secret_file \<Rightarrow> unit result \<times> secret_file" where
  "write_document document f =
     (case utf8_encode (concat (map ascii_char (dumps (WObj document)))) of
        Inl e \<Rightarrow> (Inl e, f)
      | Inr bs \<Rightarrow> if sf_writable f then (Inr (), f\<lparr>sf_bytes := Some bs\<rparr>) else (Inl OSError, f))"

definition record_for :: "(utext \<times> wjson) list \<Rightarrow> string \<Rightarrow> (utext \<times> wjson) list result" where
  "record_for document secret_ref =
     (case w_get document ''records'' of
        Some (WObj records) \<Rightarrow>
          (case w_get records secret_ref of Some (WObj r) \<Rightarrow> Inr r | _ \<Rightarrow> Inl SecretNotFoundError)
      | _ \<Rightarrow> Inl SecretNotFoundError)"

definition secret_record :: "uuid \<Rightarrow> string \<Rightarrow> wjson" where
  "secret_record t ciphertext =
     WObj [(cps ''tenant_id'', WStr (cps (uuid_str t))), (cps ''ciphertext'', WStr (cps ciphertext))]"

section \<open>Operations\<close>

definition put_secret :: "fernet \<Rightarrow> nat \<Rightarrow> string \<Rightarrow> uuid \<Rightarrow> string \<Rightarrow> secret_file \<Rightarrow> string result \<times> secret_file" where
  "put_secret fn nonce token t plaintext f =
     (if plaintext = [] then (Inl ValueError, f)
      else
        let secret_ref = ''sr_'' @ token; ciphertext = encrypt fn nonce plaintext
        in case read_document f of
             Inl e \<Rightarrow> (Inl e, f)
           | Inr document \<Rightarrow>
               (let document' = (if w_get document ''records'' = None
                                 then dict_put (cps ''records'', WObj []) document else document)
                in case w_get document' ''records'' of
                     Some (WObj records) \<Rightarrow>
                       (case write_document
                          (dict_put (cps ''records'', WObj (dict_put (cps secret_ref, secret_record t ciphertext) records))
                            document') f of
                          (Inl e, f') \<Rightarrow> (Inl e, f')
                        | (Inr _, f') \<Rightarrow> (Inr secret_ref, f'))
                   | _ \<Rightarrow> (Inl AssertionError, f)))"

definition owned_by :: "uuid \<Rightarrow> (utext \<times> wjson) list \<Rightarrow> bool" where
  "owned_by t r \<longleftrightarrow> w_get r ''tenant_id'' = Some (WStr (cps (uuid_str t)))"

text \<open>A stored token is read back as characters of the range 0 to 255; any other is not a Fernet token.\<close>

definition latin :: "utext \<Rightarrow> string option" where
  "latin s = (if list_all (\<lambda>c. 0 \<le> c \<and> c < 128) s then Some (map (\<lambda>c. char_of (nat c)) s) else None)"

definition get_secret :: "fernet \<Rightarrow> uuid \<Rightarrow> string \<Rightarrow> secret_file \<Rightarrow> string result" where
  "get_secret fn t secret_ref f =
     bind_result (read_document f) (\<lambda>document.
     bind_result (record_for document secret_ref) (\<lambda>r.
       if \<not> owned_by t r then Inl SecretNotFoundError
       else (case w_get r ''ciphertext'' of
               Some (WStr c) \<Rightarrow>
                 (case latin c of
                    None \<Rightarrow> Inl SecretDecryptionError
                  | Some ciphertext \<Rightarrow>
                      (case decrypt fn ciphertext of None \<Rightarrow> Inl SecretDecryptionError | Some p \<Rightarrow> Inr p))
             | _ \<Rightarrow> Inl SecretDecryptionError)))"

definition dict_del :: "utext \<Rightarrow> (utext \<times> wjson) list \<Rightarrow> (utext \<times> wjson) list" where
  "dict_del k kvs = filter (\<lambda>kv. fst kv \<noteq> k) kvs"

definition delete_secret :: "uuid \<Rightarrow> string \<Rightarrow> secret_file \<Rightarrow> unit result \<times> secret_file" where
  "delete_secret t secret_ref f =
     (case bind_result (read_document f) (\<lambda>document.
             bind_result (record_for document secret_ref) (\<lambda>r. Inr (document, r))) of
        Inl e \<Rightarrow> (Inl e, f)
      | Inr (document, r) \<Rightarrow>
          if \<not> owned_by t r then (Inl SecretNotFoundError, f)
          else (case w_get document ''records'' of
                  Some (WObj records) \<Rightarrow>
                    write_document (dict_put (cps ''records'', WObj (dict_del (cps secret_ref) records)) document) f
                | _ \<Rightarrow> (Inl AssertionError, f)))"

section \<open>Documents in normal form\<close>

text \<open>The order of the items of a \<open>dict\<close> does not matter for a lookup; printing and reading sorts them.\<close>

lemma sort_keys_idem: "sort_keys (sort_keys w) = sort_keys w"
proof (induction w)
  case (WObj kvs)
  let ?f = "\<lambda>(k, v). (k, sort_keys v)"
  have "map ?f (map ?f kvs) = map ?f kvs"
    using WObj by (auto simp: snds.simps)
  have "sort_key fst (map ?f (sort_key fst (map ?f kvs))) = map ?f (sort_key fst (sort_key fst (map ?f kvs)))"
    by (rule sort_items_map)
  also have "\<dots> = map ?f (sort_key fst (map ?f kvs))" by (simp add: sort_key_id_if_sorted)
  also have "\<dots> = sort_key fst (map ?f (map ?f kvs))" by (rule sort_items_map[symmetric])
  finally have "sort_key fst (map ?f (sort_key fst (map ?f kvs))) = sort_key fst (map ?f kvs)"
    using \<open>map ?f (map ?f kvs) = map ?f kvs\<close> by (simp only:)
  then show ?case by simp
qed (simp_all cong: map_cong)

abbreviation sorted_items :: "(utext \<times> wjson) list \<Rightarrow> (utext \<times> wjson) list" where
  "sorted_items kvs \<equiv> sort_key fst (map (\<lambda>(k, v). (k, sort_keys v)) kvs)"

lemma w_get_sorted_items:
  assumes "distinct (map fst kvs)"
  shows "w_get (sorted_items kvs) k = map_option sort_keys (w_get kvs k)"
proof -
  let ?m = "map (\<lambda>(k, v). (k, sort_keys v)) kvs"
  have keys: "map fst ?m = map fst kvs" by auto
  have d: "distinct (map fst ?m)" unfolding keys by (rule assms)
  moreover have "distinct (map fst (sort_key fst ?m))" using d sort_key_map[of "\<lambda>x. x" fst ?m] by (metis distinct_sort)
  ultimately have "map_of (sort_key fst ?m) = map_of ?m" by (simp add: map_of_inject_set)
  then show ?thesis by (simp add: w_get_def map_of_map)
qed

lemma w_get_dict_put: "w_get (dict_put (cps k, v) kvs) k' = (if k' = k then Some v else w_get kvs k')"
  by (induction kvs) (auto simp: w_get_def cps_inject)

lemma w_get_dict_del: "w_get (dict_del (cps k) kvs) k' = (if k' = k then None else w_get kvs k')"
  by (induction kvs) (auto simp: w_get_def dict_del_def cps_inject)

abbreviation ascii :: "int \<Rightarrow> bool" where
  "ascii c \<equiv> 0 \<le> c \<and> c < 127"

abbreviation ascii_doc :: "wjson \<Rightarrow> bool" where
  "ascii_doc w \<equiv> plain_json w \<and> text_json ascii w"

lemma set_dict_put: "set (dict_put (k, v) kvs) \<subseteq> insert (k, v) (set kvs)"
  by (induction kvs) (auto split: if_splits)

lemma distinct_dict_put: "distinct (map fst kvs) \<Longrightarrow> distinct (map fst (dict_put (k, v) kvs))"
proof (induction kvs)
  case (Cons a kvs)
  have "fst ` set (dict_put (k, v) kvs) \<subseteq> insert k (fst ` set kvs)" using set_dict_put[of k v kvs] by force
  with Cons show ?case by (cases a) (auto split: if_splits)
qed simp

lemma ascii_doc_obj:
  "ascii_doc (WObj kvs) \<longleftrightarrow> distinct (map fst kvs) \<and> (\<forall>kv \<in> set kvs. list_all ascii (fst kv) \<and> ascii_doc (snd kv))"
  by (auto simp: list_all_iff)

lemma ascii_doc_put:
  assumes "ascii_doc (WObj kvs)" "ascii_doc v" "list_all ascii k"
  shows "ascii_doc (WObj (dict_put (k, v) kvs))"
proof -
  from assms(1) have kvs: "distinct (map fst kvs)" "\<forall>kv \<in> set kvs. list_all ascii (fst kv) \<and> ascii_doc (snd kv)"
    unfolding ascii_doc_obj by blast+
  have "\<forall>kv \<in> insert (k, v) (set kvs). list_all ascii (fst kv) \<and> ascii_doc (snd kv)" using kvs(2) assms(2,3) by simp
  with set_dict_put[of k v kvs] distinct_dict_put[OF kvs(1)] show ?thesis unfolding ascii_doc_obj by blast
qed

lemma ascii_doc_del: "ascii_doc (WObj kvs) \<Longrightarrow> ascii_doc (WObj (dict_del k kvs))"
  unfolding ascii_doc_obj by (auto simp: dict_del_def distinct_map_filterI)

lemma ascii_doc_get: "ascii_doc (WObj kvs) \<Longrightarrow> w_get kvs k = Some v \<Longrightarrow> ascii_doc v"
  unfolding ascii_doc_obj w_get_def by (drule map_of_SomeD) auto

lemma ascii_doc_sorted: "ascii_doc w \<Longrightarrow> ascii_doc (sort_keys w)"
proof (induction w)
  case (WObj kvs)
  let ?m = "map (\<lambda>(k, v). (k, sort_keys v)) kvs"
  have keys: "map fst ?m = map fst kvs" by auto
  from WObj.prems have kvs: "distinct (map fst kvs)" "\<forall>kv \<in> set kvs. list_all ascii (fst kv) \<and> ascii_doc (snd kv)"
    unfolding ascii_doc_obj by blast+
  have "distinct (map fst (sort_key fst ?m))"
    using kvs(1) sort_key_map[of "\<lambda>x. x" fst ?m] keys by (metis distinct_sort)
  moreover have "list_all ascii (fst kv) \<and> ascii_doc (sort_keys (snd kv))" if "kv \<in> set kvs" for kv
    using WObj.IH[OF that, of "snd kv"] kvs(2) that by (auto simp: snds.simps)
  ultimately have "ascii_doc (WObj (sort_key fst ?m))" unfolding ascii_doc_obj by auto
  then show ?case by simp
qed (auto simp: list_all_iff)

lemma utf8_encode_ascii: "list_all ascii s \<Longrightarrow> utf8_encode s = Inr s"
proof -
  have "list_all ascii s \<Longrightarrow> concat (map utf8_char s) = s" by (induction s) (auto simp: utf8_char_def)
  then show "list_all ascii s \<Longrightarrow> utf8_encode s = Inr s" by (auto simp: utf8_encode_def list_all_iff scalar_def)
qed

lemma dumps_ascii: "text_json ascii w \<Longrightarrow> list_all ascii (dumps w)"
  by (rule dumps_text) auto

lemma write_ascii:
  assumes "ascii_doc (WObj document)"
  shows "write_document document f =
     (if sf_writable f then (Inr (), f\<lparr>sf_bytes := Some (dumps (WObj document))\<rparr>) else (Inl OSError, f))"
proof -
  have a: "list_all ascii (dumps (WObj document))" using assms by (intro dumps_ascii) blast
  have "list_all ascii t \<Longrightarrow> concat (map ascii_char t) = t" for t by (induction t) (auto simp: ascii_char_def)
  from this[OF a] have "concat (map ascii_char (dumps (WObj document))) = dumps (WObj document)" .
  then show ?thesis using utf8_encode_ascii[OF a] by (simp add: write_document_def del: dumps.simps)
qed

section \<open>The file as a tenant-scoped map\<close>

text \<open>
  The file is absent or holds a printed document with version 1 and an object of records.  The
  adapter itself writes no other file.
\<close>

definition document_ok :: "(utext \<times> wjson) list \<Rightarrow> bool" where
  "document_ok doc \<longleftrightarrow> ascii_doc (WObj doc) \<and> w_get doc ''version'' = Some (WInt 1) \<and>
     (\<exists>recs. w_get doc ''records'' = Some (WObj recs) \<and> sort_keys (WObj recs) = WObj recs)"

definition secret_file_ok :: "secret_file \<Rightarrow> bool" where
  "secret_file_ok f \<longleftrightarrow>
     sf_bytes f = None \<or> (\<exists>doc. sf_bytes f = Some (dumps (WObj doc)) \<and> ascii_doc (WObj doc) \<and>
        w_get doc ''version'' = Some (WInt 1) \<and> (\<exists>recs. w_get doc ''records'' = Some (WObj recs)))"

lemma document_ok_sorted:
  assumes "ascii_doc (WObj doc)" "w_get doc ''version'' = Some (WInt 1)" "w_get doc ''records'' = Some (WObj recs)"
  shows "document_ok (sorted_items doc) \<and> w_get (sorted_items doc) ''records'' = Some (WObj (sorted_items recs))"
proof -
  have d: "distinct (map fst doc)" using assms(1) unfolding ascii_doc_obj by blast
  have "ascii_doc (WObj (sorted_items doc))" using ascii_doc_sorted[OF assms(1)] by simp
  moreover have "sort_keys (WObj (sorted_items recs)) = WObj (sorted_items recs)"
    using sort_keys_idem[of "WObj recs"] by simp
  ultimately show ?thesis using assms(2,3) w_get_sorted_items[OF d] by (simp add: document_ok_def)
qed

lemma read_printed:
  assumes "sf_bytes f = Some (dumps (WObj doc))" "sf_readable f"
    and "ascii_doc (WObj doc)" "w_get doc ''version'' = Some (WInt 1)"
  shows "read_document f = Inr (sorted_items doc)"
proof -
  have d: "distinct (map fst doc)" using assms(3) unfolding ascii_doc_obj by blast
  have "utf8_encode (dumps (WObj doc)) = Inr (dumps (WObj doc))"
    using assms(3) by (intro utf8_encode_ascii dumps_ascii) blast
  from utf8_round_trip[OF this] have "utf8_decode (dumps (WObj doc)) = Some (dumps (WObj doc))" .
  moreover have "loads (dumps (WObj doc)) = Inr (WObj (sorted_items doc))"
    using loads_dumps[of "WObj doc"] assms(3) by simp
  ultimately show ?thesis
    using assms(1,2,4) w_get_sorted_items[OF d, of "''version''"]
    by (simp add: read_document_def equals_one_def del: dumps.simps)
qed

lemma read_ok:
  assumes "secret_file_ok f" "sf_bytes f = None \<or> sf_readable f"
  shows "\<exists>doc. read_document f = Inr doc \<and> document_ok doc"
proof (cases "sf_bytes f")
  case None
  then show ?thesis
    by (simp add: read_document_def document_ok_def w_get_def cps_inject) (simp add: cps_def digits.simps[of 1])
next
  case (Some bs)
  with assms obtain doc recs where doc: "sf_bytes f = Some (dumps (WObj doc))" "ascii_doc (WObj doc)"
    "w_get doc ''version'' = Some (WInt 1)" "w_get doc ''records'' = Some (WObj recs)" by (auto simp: secret_file_ok_def)
  with read_printed[OF doc(1) _ doc(2,3)] document_ok_sorted[OF doc(2-4)] assms Some show ?thesis by auto
qed

text \<open>Replacing the records of a document: what a later read finds under a reference.\<close>

lemma write_records:
  assumes doc: "document_ok doc" and recs: "ascii_doc (WObj recs)"
    and run: "write_document (dict_put (cps ''records'', WObj recs) doc) f = (r, f')"
  shows "(if sf_writable f then r = Inr () \<and> secret_file_ok f' \<and> sf_readable f' = sf_readable f \<and> sf_writable f' \<and> sf_bytes f' \<noteq> None \<and>
      (sf_readable f' \<longrightarrow> (\<exists>doc'. read_document f' = Inr doc' \<and> document_ok doc' \<and>
         w_get doc' ''records'' = Some (WObj (sorted_items recs))))
    else r = Inl OSError \<and> f' = f)"
proof -
  let ?doc = "dict_put (cps ''records'', WObj recs) doc"
  have a: "ascii_doc (WObj ?doc)"
    using doc recs by (intro ascii_doc_put) (auto simp: document_ok_def cps_def)
  have v: "w_get ?doc ''version'' = Some (WInt 1)" "w_get ?doc ''records'' = Some (WObj recs)"
    using doc by (simp_all add: w_get_dict_put document_ok_def)
  show ?thesis
  proof (cases "sf_writable f")
    case True
    with run write_ascii[OF a] have f': "r = Inr ()" "f' = f\<lparr>sf_bytes := Some (dumps (WObj ?doc))\<rparr>" by auto
    have b: "sf_bytes f' = Some (dumps (WObj ?doc))" by (simp add: f' del: dumps.simps)
    have "secret_file_ok f'" using a v b by (auto simp: secret_file_ok_def simp del: dumps.simps)
    moreover have "sf_readable f' \<Longrightarrow> read_document f' = Inr (sorted_items ?doc)" using read_printed[OF b _ a v(1)] .
    ultimately show ?thesis using True f' document_ok_sorted[OF a v] by auto
  next
    case False
    with run write_ascii[OF a] show ?thesis by auto
  qed
qed

definition stored :: "secret_file \<Rightarrow> string \<Rightarrow> (utext \<times> wjson) list option" where
  "stored f r =
     (case read_document (f\<lparr>sf_readable := True\<rparr>) of
        Inl _ \<Rightarrow> None
      | Inr doc \<Rightarrow> (case record_for doc r of Inl _ \<Rightarrow> None | Inr x \<Rightarrow> Some x))"

definition open_record :: "fernet \<Rightarrow> uuid \<Rightarrow> (utext \<times> wjson) list \<Rightarrow> string result" where
  "open_record fn t r =
     (if \<not> owned_by t r then Inl SecretNotFoundError
      else (case w_get r ''ciphertext'' of
              Some (WStr c) \<Rightarrow>
                (case latin c of
                   None \<Rightarrow> Inl SecretDecryptionError
                 | Some ciphertext \<Rightarrow>
                     (case decrypt fn ciphertext of None \<Rightarrow> Inl SecretDecryptionError | Some p \<Rightarrow> Inr p))
            | _ \<Rightarrow> Inl SecretDecryptionError))"

lemma read_again: "read_document f = Inr doc \<Longrightarrow> read_document (f\<lparr>sf_readable := True\<rparr>) = Inr doc"
  by (auto simp: read_document_def split: option.splits if_splits)

lemma document_fields:
  "cps ''records'' \<noteq> cps ''version''"
  by (simp add: cps_inject)

lemma record_for_eq:
  assumes "w_get doc ''records'' = Some (WObj recs)"
  shows "record_for doc r = (case w_get recs r of Some (WObj x) \<Rightarrow> Inr x | _ \<Rightarrow> Inl SecretNotFoundError)"
  using assms by (simp add: record_for_def)

lemma stored_read:
  assumes "read_document f = Inr doc" "w_get doc ''records'' = Some (WObj recs)"
  shows "stored f r = (case w_get recs r of Some (WObj x) \<Rightarrow> Some x | _ \<Rightarrow> None)"
  using assms(2)
  by (simp add: stored_def read_again[OF assms(1)] record_for_eq split: option.splits wjson.splits)

lemma get_secret_stored:
  assumes "read_document f = Inr doc" "document_ok doc"
  shows "get_secret fn t r f = (case stored f r of None \<Rightarrow> Inl SecretNotFoundError | Some x \<Rightarrow> open_record fn t x)"
proof -
  from assms(2) obtain recs where recs: "w_get doc ''records'' = Some (WObj recs)" by (auto simp: document_ok_def)
  show ?thesis
    unfolding get_secret_def assms(1) stored_read[OF assms(1) recs] record_for_eq[OF recs] bind_result_simps
    by (simp add: open_record_def split: option.split wjson.split)
qed

text \<open>A document whose records were sorted when it was read keeps its other records when one changes.\<close>

lemma stored_after:
  assumes doc: "document_ok doc" "w_get doc ''records'' = Some (WObj recs)" "read_document f = Inr doc"
    and new: "ascii_doc (WObj recs')" "\<And>r'. r' \<noteq> r \<Longrightarrow> w_get recs' r' = w_get recs r'"
    and run: "write_document (dict_put (cps ''records'', WObj recs') doc) f = (Inr (), f')"
  shows "secret_file_ok f' \<and>
     stored f' = (stored f)(r := (case w_get recs' r of Some (WObj x) \<Rightarrow> Some (sorted_items x) | _ \<Rightarrow> None))"
proof -
  have w: "sf_writable f" using write_records[OF doc(1) new(1) run] by (auto split: if_splits)
  have b: "secret_file_ok f'" "sf_bytes f' \<noteq> None" using write_records[OF doc(1) new(1) run] w by auto
  let ?g = "f\<lparr>sf_readable := True\<rparr>" and ?g' = "f'\<lparr>sf_readable := True\<rparr>"
  have run': "write_document (dict_put (cps ''records'', WObj recs') doc) ?g = (Inr (), ?g')"
    using run by (auto simp: write_document_def split: sum.splits if_splits)
  from write_records[OF doc(1) new(1) run'] w obtain doc' where
    read': "read_document ?g' = Inr doc'" "w_get doc' ''records'' = Some (WObj (sorted_items recs'))" by auto
  have d: "distinct (map fst recs')" "distinct (map fst recs)"
    using new(1) ascii_doc_get[OF _ doc(2)] doc(1) unfolding document_ok_def ascii_doc_obj by blast+
  have "sorted_items recs = recs" using doc(1,2) by (auto simp: document_ok_def)
  then have self: "w_get recs r' = map_option sort_keys (w_get recs r')" for r' using w_get_sorted_items[OF d(2)] by metis
  have new': "stored f' r' = (case map_option sort_keys (w_get recs' r') of Some (WObj x) \<Rightarrow> Some x | _ \<Rightarrow> None)" for r'
    using stored_read[OF read', of r'] w_get_sorted_items[OF d(1), of r'] by (simp add: stored_def)
  have "stored f' r' = stored f r'" if "r' \<noteq> r" for r'
    using new'[of r'] new(2)[OF that] self[of r'] stored_read[OF doc(3,2)] by simp
  moreover have "stored f' r = (case w_get recs' r of Some (WObj x) \<Rightarrow> Some (sorted_items x) | _ \<Rightarrow> None)"
    unfolding new' by (simp split: option.split wjson.split)
  ultimately show ?thesis using b by auto
qed

lemma ascii_hex_digit: "d < 16 \<Longrightarrow> ascii (of_char (hex_digit d))"
proof -
  have "list_all ascii (cps ''0123456789abcdef'')" by (simp add: cps_def)
  then have "ascii (of_char c)" if "c \<in> set ''0123456789abcdef''" for c using that unfolding cps_def list_all_iff by auto
  then show "d < 16 \<Longrightarrow> ascii (of_char (hex_digit d))"
    using nth_mem[of d "''0123456789abcdef''"] unfolding hex_digit_def by simp
qed

lemma ascii_uuid: "list_all ascii (cps (uuid_str t))"
proof -
  have "ascii (of_char c)" if "c \<in> set (uuid_str t)" for c
    using uuid_str_set[OF that] ascii_hex_digit by auto
  then show ?thesis by (auto simp: list_all_iff cps_def)
qed

lemma put_secret_stored:
  assumes ok: "secret_file_ok f" and a: "list_all ascii (cps token)" "list_all ascii (cps (encrypt fn nonce p))"
    and run: "put_secret fn nonce token t p f = (Inr r, f')"
  shows "r = ''sr_'' @ token \<and> secret_file_ok f' \<and>
     stored f' = (stored f)(r \<mapsto> sorted_items
       [(cps ''tenant_id'', WStr (cps (uuid_str t))), (cps ''ciphertext'', WStr (cps (encrypt fn nonce p)))])"
proof -
  from run obtain doc where doc: "read_document f = Inr doc"
    by (auto simp: put_secret_def Let_def split: if_splits sum.splits)
  then have "sf_bytes f = None \<or> sf_readable f" by (auto simp: read_document_def split: option.splits if_splits)
  with read_ok[OF ok] doc have dok: "document_ok doc" by auto
  then obtain recs where recs: "w_get doc ''records'' = Some (WObj recs)" by (auto simp: document_ok_def)
  let ?ref = "''sr_'' @ token" and ?rec = "secret_record t (encrypt fn nonce p)"
  let ?recs = "dict_put (cps ?ref, ?rec) recs"
  have w: "write_document (dict_put (cps ''records'', WObj ?recs) doc) f = (Inr (), f')" and r: "r = ?ref"
    using run doc recs by (auto simp: put_secret_def Let_def split: if_splits sum.splits prod.splits)
  have "list_all ascii (cps (uuid_str t))" by (rule ascii_uuid)
  then have "ascii_doc ?rec" using a(2) by (auto simp: secret_record_def list_all_iff cps_inject) (auto simp: cps_def)
  moreover have "ascii_doc (WObj recs)" using ascii_doc_get[OF _ recs] dok unfolding document_ok_def by blast
  moreover have "list_all ascii (cps ?ref)" using a(1) by (simp add: cps_def)
  ultimately have "ascii_doc (WObj ?recs)" by (intro ascii_doc_put)
  from stored_after[OF dok recs doc this _ w, of ?ref] r show ?thesis
    by (simp add: w_get_dict_put secret_record_def)
qed

lemma delete_secret_stored:
  assumes ok: "secret_file_ok f" and run: "delete_secret t r f = (Inr u, f')"
  shows "secret_file_ok f' \<and> stored f' = (stored f)(r := None) \<and> (\<exists>x. stored f r = Some x \<and> owned_by t x)"
proof -
  from run obtain doc x where doc: "read_document f = Inr doc" and x: "record_for doc r = Inr x" "owned_by t x"
    by (auto simp: delete_secret_def result_simps split: if_splits sum.splits)
  then have "sf_bytes f = None \<or> sf_readable f" by (auto simp: read_document_def split: option.splits if_splits)
  with read_ok[OF ok] doc have dok: "document_ok doc" by auto
  then obtain recs where recs: "w_get doc ''records'' = Some (WObj recs)" by (auto simp: document_ok_def)
  have w: "write_document (dict_put (cps ''records'', WObj (dict_del (cps r) recs)) doc) f = (Inr (), f')"
    using run doc recs x by (simp add: delete_secret_def)
  have "ascii_doc (WObj recs)" using ascii_doc_get[OF _ recs] dok unfolding document_ok_def by blast
  then have "ascii_doc (WObj (dict_del (cps r) recs))" by (rule ascii_doc_del)
  from stored_after[OF dok recs doc this _ w, of r]
  have "secret_file_ok f' \<and> stored f' = (stored f)(r := None)" by (simp add: w_get_dict_del)
  moreover have "stored f r = Some x" by (simp add: stored_def read_again[OF doc] x)
  ultimately show ?thesis using x(2) by blast
qed

section \<open>The contract of a tenant secret store\<close>

text \<open>
  What the provider service relies on (\<open>TenantSecretStore\<close>), with \<open>held s t r\<close> for the plaintext the
  store keeps for a tenant under a reference: a reference serves one tenant, a failed call changes
  nothing, and only an absent secret is reported as not found.
\<close>

locale tenant_secret_store =
  fixes put :: "nat \<times> string \<Rightarrow> uuid \<Rightarrow> string \<Rightarrow> 's \<Rightarrow> string result \<times> 's"
    and fetch :: "uuid \<Rightarrow> string \<Rightarrow> 's \<Rightarrow> string result"
    and delete :: "uuid \<Rightarrow> string \<Rightarrow> 's \<Rightarrow> unit result \<times> 's"
    and invar :: "'s \<Rightarrow> bool"
    and held :: "'s \<Rightarrow> uuid \<Rightarrow> string \<Rightarrow> string option"
  assumes put_held: "invar s \<Longrightarrow> list_all ascii (cps (snd rnd)) \<Longrightarrow> put rnd t p s = (Inr r, s') \<Longrightarrow>
      r = ''sr_'' @ snd rnd \<and> invar s' \<and>
      (\<forall>t' r'. held s' t' r' = (if r' = r then (if t' = t then Some p else None) else held s t' r'))"
    and put_fails: "put rnd t p s = (Inl e, s') \<Longrightarrow> s' = s"
    and delete_held: "invar s \<Longrightarrow> delete t r s = (Inr u, s') \<Longrightarrow>
      invar s' \<and> (\<forall>t' r'. held s' t' r' = (if r' = r then None else held s t' r'))"
    and delete_fails: "delete t r s = (Inl e, s') \<Longrightarrow> s' = s"
    and delete_missing: "invar s \<Longrightarrow> delete t r s = (Inl SecretNotFoundError, s') \<Longrightarrow> held s t r = None"
    and fetch_held: "invar s \<Longrightarrow> fetch t r s = Inr p \<Longrightarrow> held s t r = Some p"

text \<open>Fernet: a token decrypts to what was encrypted and is printable ASCII.\<close>

definition fernet_ok :: "fernet \<Rightarrow> bool" where
  "fernet_ok fn \<longleftrightarrow> (\<forall>n p. decrypt fn (encrypt fn n p) = Some p \<and> list_all ascii (cps (encrypt fn n p)))"

definition file_held :: "fernet \<Rightarrow> secret_file \<Rightarrow> uuid \<Rightarrow> string \<Rightarrow> string option" where
  "file_held fn f t r =
     (case stored f r of None \<Rightarrow> None | Some x \<Rightarrow> (case open_record fn t x of Inl _ \<Rightarrow> None | Inr p \<Rightarrow> Some p))"

lemma latin_cps: "list_all ascii (cps s) \<Longrightarrow> latin (cps s) = Some s"
proof -
  assume a: "list_all ascii (cps s)"
  have "nat (of_char c) = of_char c" for c :: char by (metis nat_int of_nat_of_char)
  then have "char_of (nat (of_char c)) = c" for c :: char by simp
  then have "map (\<lambda>c. char_of (nat c)) (cps s) = s" by (simp add: cps_def map_idI)
  moreover have "list_all (\<lambda>c. 0 \<le> c \<and> c < 128) (cps s)" using a by (auto elim!: list.pred_mono_strong)
  ultimately show ?thesis by (simp add: latin_def)
qed

lemma open_new_record:
  assumes "fernet_ok fn"
  shows "open_record fn t' (sorted_items
       [(cps ''tenant_id'', WStr (cps (uuid_str t))), (cps ''ciphertext'', WStr (cps (encrypt fn n p)))]) =
     (if t' = t then Inr p else Inl SecretNotFoundError)"
proof -
  let ?x = "[(cps ''tenant_id'', WStr (cps (uuid_str t))), (cps ''ciphertext'', WStr (cps (encrypt fn n p)))]"
  have d: "distinct (map fst ?x)" by (simp add: cps_inject)
  have g: "w_get (sorted_items ?x) ''tenant_id'' = Some (WStr (cps (uuid_str t)))"
    "w_get (sorted_items ?x) ''ciphertext'' = Some (WStr (cps (encrypt fn n p)))"
    unfolding w_get_sorted_items[OF d] by (simp_all add: w_get_def cps_inject)
  have "owned_by t' (sorted_items ?x) \<longleftrightarrow> t' = t"
    unfolding owned_by_def g using uuid_str_inject[of t t'] by (auto simp: cps_inject)
  moreover have "latin (cps (encrypt fn n p)) = Some (encrypt fn n p)" "decrypt fn (encrypt fn n p) = Some p"
    using assms latin_cps by (simp_all add: fernet_ok_def)
  ultimately show ?thesis unfolding open_record_def g by simp
qed

lemma local_secret_store:
  assumes fn: "fernet_ok fn"
  shows "tenant_secret_store (\<lambda>rnd. put_secret fn (fst rnd) (snd rnd)) (get_secret fn) delete_secret
     secret_file_ok (file_held fn)"
proof
  fix f rnd t p r f'
  assume ok: "secret_file_ok f" and a: "list_all ascii (cps (snd rnd))"
    and run: "put_secret fn (fst rnd) (snd rnd) t p f = (Inr r, f')"
  have c: "list_all ascii (cps (encrypt fn (fst rnd) p))" using fn by (simp add: fernet_ok_def)
  from put_secret_stored[OF ok a c run] open_new_record[OF fn]
  show "r = ''sr_'' @ snd rnd \<and> secret_file_ok f' \<and>
    (\<forall>t' r'. file_held fn f' t' r' = (if r' = r then (if t' = t then Some p else None) else file_held fn f t' r'))"
    by (auto simp: file_held_def simp del: sort_key_simps)
next
  fix f rnd t p e f'
  assume "put_secret fn (fst rnd) (snd rnd) t p f = (Inl e, f')"
  then show "f' = f"
    by (auto simp: put_secret_def Let_def write_document_def split: if_splits sum.splits option.splits wjson.splits prod.splits)
next
  fix f t r u f'
  assume "secret_file_ok f" "delete_secret t r f = (Inr u, f')"
  from delete_secret_stored[OF this]
  show "secret_file_ok f' \<and> (\<forall>t' r'. file_held fn f' t' r' = (if r' = r then None else file_held fn f t' r'))"
    by (auto simp: file_held_def)
next
  fix f t r e f'
  assume "delete_secret t r f = (Inl e, f')"
  then show "f' = f"
    by (auto simp: delete_secret_def write_document_def split: if_splits sum.splits option.splits wjson.splits prod.splits)
next
  fix f t r f'
  assume ok: "secret_file_ok f" and run: "delete_secret t r f = (Inl SecretNotFoundError, f')"
  show "file_held fn f t r = None"
  proof (cases "sf_bytes f = None \<or> sf_readable f")
    case False
    with run show ?thesis by (auto simp: delete_secret_def read_document_def)
  next
    case True
    with read_ok[OF ok] obtain doc where doc: "read_document f = Inr doc" "document_ok doc" by blast
    then obtain recs where recs: "w_get doc ''records'' = Some (WObj recs)" by (auto simp: document_ok_def)
    show ?thesis
    proof (cases "record_for doc r")
      case (Inl e)
      then show ?thesis by (simp add: file_held_def stored_def read_again[OF doc(1)])
    next
      case (Inr x)
      have "ascii_doc (WObj recs)" using ascii_doc_get[OF _ recs] doc(2) unfolding document_ok_def by blast
      then have "ascii_doc (WObj (dict_del (cps r) recs))" by (rule ascii_doc_del)
      note w = write_records[OF doc(2) this]
      have "\<not> owned_by t x"
      proof
        assume "owned_by t x"
        with run doc recs Inr
        have "write_document (dict_put (cps ''records'', WObj (dict_del (cps r) recs)) doc) f = (Inl SecretNotFoundError, f')"
          by (simp add: delete_secret_def)
        from w[OF this] show False by (auto split: if_splits)
      qed
      with Inr show ?thesis by (simp add: file_held_def stored_def read_again[OF doc(1)] open_record_def)
    qed
  qed
next
  fix f t r p
  assume ok: "secret_file_ok f" and run: "get_secret fn t r f = Inr p"
  then obtain doc where doc: "read_document f = Inr doc" by (auto simp: get_secret_def result_simps)
  then have "sf_bytes f = None \<or> sf_readable f" by (auto simp: read_document_def split: option.splits if_splits)
  with read_ok[OF ok] doc have "document_ok doc" by auto
  from get_secret_stored[OF doc this] run show "file_held fn f t r = Some p"
    by (auto simp: file_held_def split: option.splits)
qed

text \<open>A transparent Fernet, two hexadecimal digits for a character, for concrete runs.\<close>

fun unhex :: "string \<Rightarrow> string option" where
  "unhex [] = Some []"
| "unhex [a] = None"
| "unhex (a # b # s) =
     (case (hex_value a, hex_value b, unhex s) of
        (Some x, Some y, Some r) \<Rightarrow> Some (char_of (16 * x + y) # r)
      | _ \<Rightarrow> None)"

definition hex_fernet :: fernet where
  "hex_fernet = \<lparr>encrypt = (\<lambda>n p. concat (map (\<lambda>c. to_hex 2 (ord c)) p)), decrypt = unhex\<rparr>"

lemma hex_fernet_ok: "fernet_ok hex_fernet"
proof -
  have two: "to_hex 2 n = [hex_digit (n div 16 mod 16), hex_digit (n mod 16)]" for n by (simp add: numeral_2_eq_2)
  have code: "16 * (ord c div 16 mod 16) + ord c mod 16 = ord c" for c
  proof -
    have "ord c < 256" by (simp add: ord_def nat_of_char_less_256)
    then show ?thesis by (simp add: mod_less)
  qed
  have "char_of (ord c) = c" for c by (simp add: ord_def)
  then have "unhex (concat (map (\<lambda>c. to_hex 2 (ord c)) p)) = Some p" for p
    by (induction p) (simp_all add: two hex_digit_props code)
  moreover have "list_all ascii (cps (concat (map (\<lambda>c. to_hex 2 (ord c)) p)))" for p
    by (induction p) (auto simp: two cps_def ascii_hex_digit)
  ultimately show ?thesis by (simp add: fernet_ok_def hex_fernet_def)
qed

interpretation local_store: tenant_secret_store "\<lambda>rnd. put_secret hex_fernet (fst rnd) (snd rnd)"
  "get_secret hex_fernet" delete_secret secret_file_ok "file_held hex_fernet"
  by (rule local_secret_store[OF hex_fernet_ok])

lemma get_secret_held:
  assumes "secret_file_ok f" "sf_readable f"
  shows "get_secret fn t r f = Inr p \<longleftrightarrow> file_held fn f t r = Some p"
proof -
  from read_ok[OF assms(1)] assms(2) obtain doc where "read_document f = Inr doc" "document_ok doc" by blast
  from get_secret_stored[OF this, of fn t r] show ?thesis by (auto simp: file_held_def split: option.splits sum.splits)
qed

text \<open>
  C33: A stored secret comes back from the encrypted file exactly as it went in, for its own tenant
  only.  Storing it keeps every other secret of every tenant readable, and deleting it removes it and
  nothing else; the file stays well-formed throughout.
\<close>

theorem secret_survives_file:
  assumes "fernet_ok fn" and "secret_file_ok f" and "sf_readable f" and "list_all ascii (cps token)"
    and "put_secret fn nonce token t p f = (Inr r, f1)"
  shows "secret_file_ok f1 \<and> get_secret fn t r f1 = Inr p \<and>
    (\<forall>t' q. t' \<noteq> t \<longrightarrow> get_secret fn t' r f1 \<noteq> Inr q) \<and>
    (\<forall>t' r' q. r' \<noteq> r \<longrightarrow> (get_secret fn t' r' f1 = Inr q \<longleftrightarrow> get_secret fn t' r' f = Inr q)) \<and>
    (\<forall>u f2. delete_secret t r f1 = (Inr u, f2) \<longrightarrow> secret_file_ok f2 \<and>
       (\<forall>t' r' q. get_secret fn t' r' f2 = Inr q \<longleftrightarrow> r' \<noteq> r \<and> get_secret fn t' r' f = Inr q))"
proof -
  note laws = local_secret_store[OF assms(1)]
  have readable: "sf_readable f' = sf_readable g" if "write_document doc g = (x, f')" for doc g x f'
    using that by (auto simp: write_document_def split: sum.splits if_splits)
  have f1: "sf_readable f1"
    using assms(3,5) readable
    by (auto simp: put_secret_def Let_def split: if_splits sum.splits option.splits wjson.splits prod.splits)
  have p: "secret_file_ok f1 \<and> (\<forall>t' r'. file_held fn f1 t' r' = (if r' = r then (if t' = t then Some p else None) else file_held fn f t' r'))"
    using tenant_secret_store.put_held[OF laws assms(2), of "(nonce, token)" t p r f1] assms(4,5) by auto
  note get1 = get_secret_held[OF conjunct1[OF p] f1] and get0 = get_secret_held[OF assms(2,3)]
  have del: "secret_file_ok f2 \<and> (\<forall>t' r' q. get_secret fn t' r' f2 = Inr q \<longleftrightarrow> r' \<noteq> r \<and> get_secret fn t' r' f = Inr q)"
    if "delete_secret t r f1 = (Inr u, f2)" for u f2
  proof -
    have "sf_readable f2"
      using f1 that readable by (auto simp: delete_secret_def split: if_splits sum.splits option.splits wjson.splits prod.splits)
    moreover have "secret_file_ok f2 \<and> (\<forall>t' r'. file_held fn f2 t' r' = (if r' = r then None else file_held fn f1 t' r'))"
      using tenant_secret_store.delete_held[OF laws conjunct1[OF p] that] .
    ultimately show ?thesis using p get_secret_held[of f2 fn] get0 by simp
  qed
  show ?thesis using p get1 get0 del by simp
qed

definition empty_file :: secret_file where
  "empty_file = \<lparr>sf_bytes = None, sf_readable = True, sf_writable = True\<rparr>"

theorem secret_survives_file_witness:
  "\<exists>f1. put_secret hex_fernet 0 ''abc'' 7 ''key'' empty_file = (Inr ''sr_abc'', f1) \<and>
     get_secret hex_fernet 7 ''sr_abc'' f1 = Inr ''key'' \<and> get_secret hex_fernet 8 ''sr_abc'' f1 \<noteq> Inr ''key''"
proof -
  let ?run = "put_secret hex_fernet 0 ''abc'' 7 ''key'' empty_file"
  have "fst ?run = Inr ''sr_abc''" by code_simp
  then have run: "?run = (Inr ''sr_abc'', snd ?run)" by (metis prod.collapse)
  have "secret_file_ok empty_file" "sf_readable empty_file" by (simp_all add: secret_file_ok_def empty_file_def)
  moreover have "list_all ascii (cps ''abc'')" by (simp add: cps_def)
  ultimately show ?thesis
    using secret_survives_file[OF hex_fernet_ok _ _ _ run] run by (intro exI[of _ "snd ?run"]) simp
qed

end
