(* ===== verification/Rate_Limits.thy ===== *)
theory Rate_Limits
  imports Identifiers Urls
begin

text \<open>
  \<open>services/api/app/core/rate_limits.py\<close>: the two Lua scripts Valkey runs atomically, the limiters that
  call them and the reading of a reply.  Valkey is an argument, a record of the commands the scripts
  use over an arbitrary state; \<open>valkey_counters\<close> states their documented behaviour.  A call may be
  refused, or be executed and its reply be lost; the limiter sees a \<open>ValkeyError\<close> in both cases.
\<close>

record 'v valkey =
  vk_get :: "string \<Rightarrow> 'v \<Rightarrow> int option"
  vk_ttl :: "string \<Rightarrow> 'v \<Rightarrow> int"
  vk_incr :: "string \<Rightarrow> 'v \<Rightarrow> int \<times> 'v"
  vk_expire :: "string \<Rightarrow> int \<Rightarrow> 'v \<Rightarrow> 'v"

datatype call_outcome = Answered | Refused | ReplyLost

datatype raw_item = RawInt int | RawText string | RawOther

record RateLimitDecision =
  rd_allowed :: bool
  rd_retry_after_seconds :: "int option"

section \<open>Limits and scripts\<close>

definition PROVIDER_TEST_USER_LIMIT :: int where
  "PROVIDER_TEST_USER_LIMIT = 10"

definition PROVIDER_TEST_USER_WINDOW_SECONDS :: int where
  "PROVIDER_TEST_USER_WINDOW_SECONDS = 60"

definition PROVIDER_TEST_CONNECTION_LIMIT :: int where
  "PROVIDER_TEST_CONNECTION_LIMIT = 30"

definition PROVIDER_TEST_CONNECTION_WINDOW_SECONDS :: int where
  "PROVIDER_TEST_CONNECTION_WINDOW_SECONDS = 3600"

definition KNOWLEDGE_UPLOAD_USER_LIMIT :: int where
  "KNOWLEDGE_UPLOAD_USER_LIMIT = 6"

definition KNOWLEDGE_UPLOAD_USER_WINDOW_SECONDS :: int where
  "KNOWLEDGE_UPLOAD_USER_WINDOW_SECONDS = 60"

text \<open>\<open>tonumber(redis.call('GET', key) or '0')\<close>\<close>

definition get_count :: "'v valkey \<Rightarrow> string \<Rightarrow> 'v \<Rightarrow> int" where
  "get_count V k v = (case vk_get V k v of None \<Rightarrow> 0 | Some n \<Rightarrow> n)"

text \<open>\<open>INCR\<close>, and \<open>EXPIRE\<close> for the first request of a window\<close>

definition consume :: "'v valkey \<Rightarrow> string \<Rightarrow> int \<Rightarrow> 'v \<Rightarrow> 'v" where
  "consume V k window v =
     (case vk_incr V k v of (n, v') \<Rightarrow> if n = 1 then vk_expire V k window v' else v')"

definition PROVIDER_TEST_SCRIPT ::
  "'v valkey \<Rightarrow> string \<Rightarrow> string \<Rightarrow> int \<Rightarrow> int \<Rightarrow> int \<Rightarrow> int \<Rightarrow> 'v \<Rightarrow> raw_item list \<times> 'v" where
  "PROVIDER_TEST_SCRIPT V user_key connection_key user_limit connection_limit user_window connection_window v =
     (if get_count V user_key v \<ge> user_limit \<or> get_count V connection_key v \<ge> connection_limit
      then
        let user_ttl = vk_ttl V user_key v; connection_ttl = vk_ttl V connection_key v;
            user_ttl' = (if user_ttl < 1 then 1 else user_ttl);
            connection_ttl' = (if connection_ttl < 1 then 1 else connection_ttl);
            retry_after = (if connection_ttl' > user_ttl' then connection_ttl' else user_ttl')
        in ([RawInt 0, RawInt retry_after], v)
      else ([RawInt 1, RawInt 0], consume V connection_key connection_window (consume V user_key user_window v)))"

definition KNOWLEDGE_UPLOAD_SCRIPT :: "'v valkey \<Rightarrow> string \<Rightarrow> int \<Rightarrow> int \<Rightarrow> 'v \<Rightarrow> raw_item list \<times> 'v" where
  "KNOWLEDGE_UPLOAD_SCRIPT V key request_limit request_window v =
     (if get_count V key v \<ge> request_limit
      then let retry_after = vk_ttl V key v; retry_after' = (if retry_after < 1 then 1 else retry_after)
           in ([RawInt 0, RawInt retry_after'], v)
      else ([RawInt 1, RawInt 0], consume V key request_window v))"

text \<open>\<open>client.eval\<close>\<close>

definition eval_script :: "call_outcome \<Rightarrow> ('v \<Rightarrow> raw_item list \<times> 'v) \<Rightarrow> 'v \<Rightarrow> raw_item list option \<times> 'v" where
  "eval_script net script v =
     (case net of
        Refused \<Rightarrow> (None, v)
      | Answered \<Rightarrow> (case script v of (r, v') \<Rightarrow> (Some r, v'))
      | ReplyLost \<Rightarrow> (None, snd (script v)))"

section \<open>Limiters\<close>

definition raw_int :: "raw_item \<Rightarrow> int option" where
  "raw_int r = (case r of RawInt n \<Rightarrow> Some n | RawText s \<Rightarrow> py_int10 s | RawOther \<Rightarrow> None)"

definition parse_decision :: "exn \<Rightarrow> raw_item list \<Rightarrow> RateLimitDecision result" where
  "parse_decision unavailable raw =
     (case raw of
        [a, b] \<Rightarrow>
          (case (raw_int a, raw_int b) of
             (Some x, Some retry_after) \<Rightarrow>
               Inr \<lparr>rd_allowed = (x = 1), rd_retry_after_seconds = (if x = 1 then None else Some (max retry_after 1))\<rparr>
           | _ \<Rightarrow> Inl unavailable)
      | _ \<Rightarrow> Inl unavailable)"

definition provider_user_key :: "uuid \<Rightarrow> uuid \<Rightarrow> string" where
  "provider_user_key t u = ''serviq:rate:provider-test:user:'' @ uuid_str t @ '':'' @ uuid_str u"

definition provider_connection_key :: "uuid \<Rightarrow> uuid \<Rightarrow> string" where
  "provider_connection_key t c = ''serviq:rate:provider-test:connection:'' @ uuid_str t @ '':'' @ uuid_str c"

definition upload_user_key :: "uuid \<Rightarrow> uuid \<Rightarrow> string" where
  "upload_user_key t u = ''serviq:rate:knowledge-upload:user:'' @ uuid_str t @ '':'' @ uuid_str u"

definition provider_check_and_consume ::
  "'v valkey \<Rightarrow> call_outcome \<Rightarrow> uuid \<Rightarrow> uuid \<Rightarrow> uuid \<Rightarrow> 'v \<Rightarrow> RateLimitDecision result \<times> 'v" where
  "provider_check_and_consume V net t u c v =
     (case eval_script net (PROVIDER_TEST_SCRIPT V (provider_user_key t u) (provider_connection_key t c)
              PROVIDER_TEST_USER_LIMIT PROVIDER_TEST_CONNECTION_LIMIT
              PROVIDER_TEST_USER_WINDOW_SECONDS PROVIDER_TEST_CONNECTION_WINDOW_SECONDS) v of
        (None, v') \<Rightarrow> (Inl RateLimitUnavailableError, v')
      | (Some raw, v') \<Rightarrow> (parse_decision RateLimitUnavailableError raw, v'))"

definition upload_check_and_consume ::
  "'v valkey \<Rightarrow> call_outcome \<Rightarrow> uuid \<Rightarrow> uuid \<Rightarrow> 'v \<Rightarrow> RateLimitDecision result \<times> 'v" where
  "upload_check_and_consume V net t u v =
     (case eval_script net (KNOWLEDGE_UPLOAD_SCRIPT V (upload_user_key t u)
              KNOWLEDGE_UPLOAD_USER_LIMIT KNOWLEDGE_UPLOAD_USER_WINDOW_SECONDS) v of
        (None, v') \<Rightarrow> (Inl KnowledgeUploadRateLimitUnavailableError, v')
      | (Some raw, v') \<Rightarrow> (parse_decision KnowledgeUploadRateLimitUnavailableError raw, v'))"

definition normalize_valkey_url :: "string \<Rightarrow> string result" where
  "normalize_valkey_url raw =
     (if startswith raw ''valkey://'' then Inr (''redis://'' @ drop (length ''valkey://'') raw)
      else if startswith raw ''redis://'' \<or> startswith raw ''rediss://'' then Inr raw
      else Inl RateLimitUnavailableError)"

section \<open>Valkey\<close>

text \<open>
  The documented behaviour of the commands: \<open>entry v k\<close> is the counter under a key and whether it has
  an expiry.
\<close>

locale valkey_counters =
  fixes V :: "'v valkey" and entry :: "'v \<Rightarrow> string \<Rightarrow> (int \<times> bool) option"
  assumes get: "vk_get V k v = map_option fst (entry v k)"
    and incr: "vk_incr V k v = (n, v') \<Longrightarrow>
      n = (case entry v k of None \<Rightarrow> 1 | Some (m, _) \<Rightarrow> m + 1) \<and>
      entry v' = (entry v)(k \<mapsto> (n, (case entry v k of None \<Rightarrow> False | Some (_, e) \<Rightarrow> e)))"
    and expire: "0 < s \<Longrightarrow> entry v k = Some (n, e) \<Longrightarrow> entry (vk_expire V k s v) = (entry v)(k \<mapsto> (n, True))"
begin

definition count :: "'v \<Rightarrow> string \<Rightarrow> int" where
  "count v k = (case entry v k of None \<Rightarrow> 0 | Some (n, _) \<Rightarrow> n)"

lemma get_count: "get_count V k v = count v k"
  by (simp add: get_count_def get count_def split: option.splits)

text \<open>A consumed request is counted once, under its own key, and the counter expires.\<close>

lemma consume_entry:
  assumes "0 < w" and "\<And>n e. entry v k = Some (n, e) \<Longrightarrow> 1 \<le> n \<and> e"
  shows "entry (consume V k w v) = (entry v)(k \<mapsto> (count v k + 1, True))"
proof -
  obtain n v' where i: "vk_incr V k v = (n, v')" by fastforce
  note e = incr[OF i]
  show ?thesis
  proof (cases "entry v k")
    case None
    then have "entry (vk_expire V k w v') = (entry v')(k \<mapsto> (n, True))" using e by (intro expire[OF assms(1)]) auto
    then show ?thesis using None e i by (simp add: consume_def count_def)
  next
    case (Some p)
    then show ?thesis using e i assms(2)[of "fst p" "snd p"] by (cases p) (auto simp: consume_def count_def)
  qed
qed

text \<open>Counters the limiters keep: positive, within the limit of their key, and never without an expiry.\<close>

definition counter_ok :: "int \<Rightarrow> 'v \<Rightarrow> string \<Rightarrow> bool" where
  "counter_ok limit v k \<longleftrightarrow> (case entry v k of None \<Rightarrow> True | Some (n, e) \<Rightarrow> 1 \<le> n \<and> n \<le> limit \<and> e)"

lemma counter_ok_count: "counter_ok limit v k \<Longrightarrow> 0 \<le> limit \<Longrightarrow> 0 \<le> count v k \<and> count v k \<le> limit"
  by (auto simp: counter_ok_def count_def split: option.splits)

lemma consume_ok:
  assumes "counter_ok limit v k" "count v k < limit" "0 < w"
  shows "counter_ok limit (consume V k w v) k \<and> count (consume V k w v) k = count v k + 1 \<and>
    (\<forall>k'. k' \<noteq> k \<longrightarrow> entry (consume V k w v) k' = entry v k')"
proof -
  have "entry (consume V k w v) = (entry v)(k \<mapsto> (count v k + 1, True))"
    using assms(1) by (intro consume_entry[OF assms(3)]) (auto simp: counter_ok_def)
  then show ?thesis using assms(1,2) counter_ok_count[of limit v k] by (auto simp: counter_ok_def count_def split: option.splits)
qed

text \<open>The two counters of a provider test, and the one of an upload, within their limits.\<close>

definition provider_ok :: "'v \<Rightarrow> bool" where
  "provider_ok v \<longleftrightarrow> (\<forall>t u c. counter_ok PROVIDER_TEST_USER_LIMIT v (provider_user_key t u) \<and>
     counter_ok PROVIDER_TEST_CONNECTION_LIMIT v (provider_connection_key t c))"

lemma provider_script_effect:
  fixes t u c :: uuid
  defines "uk \<equiv> provider_user_key t u" and "ck \<equiv> provider_connection_key t c"
  assumes ok: "provider_ok v"
    and run: "PROVIDER_TEST_SCRIPT V uk ck PROVIDER_TEST_USER_LIMIT PROVIDER_TEST_CONNECTION_LIMIT
      PROVIDER_TEST_USER_WINDOW_SECONDS PROVIDER_TEST_CONNECTION_WINDOW_SECONDS v = (raw, v')"
  shows "provider_ok v' \<and>
    (if count v uk < PROVIDER_TEST_USER_LIMIT \<and> count v ck < PROVIDER_TEST_CONNECTION_LIMIT
     then raw = [RawInt 1, RawInt 0] \<and> (\<forall>k. count v' k = count v k + (if k \<in> {uk, ck} then 1 else 0))
     else (\<exists>retry \<ge> 1. raw = [RawInt 0, RawInt retry]) \<and> v' = v)"
proof (cases "count v uk < PROVIDER_TEST_USER_LIMIT \<and> count v ck < PROVIDER_TEST_CONNECTION_LIMIT")
  case True
  have diff: "uk \<noteq> ck" by (simp add: uk_def ck_def provider_user_key_def provider_connection_key_def)
  define v1 where "v1 = consume V uk PROVIDER_TEST_USER_WINDOW_SECONDS v"
  have v': "raw = [RawInt 1, RawInt 0]" "v' = consume V ck PROVIDER_TEST_CONNECTION_WINDOW_SECONDS v1"
    using True run by (auto simp: PROVIDER_TEST_SCRIPT_def get_count v1_def)
  have ok0: "counter_ok PROVIDER_TEST_USER_LIMIT v uk" "counter_ok PROVIDER_TEST_CONNECTION_LIMIT v ck"
    using ok by (auto simp: provider_ok_def uk_def ck_def)
  have one: "counter_ok PROVIDER_TEST_USER_LIMIT v1 uk" "count v1 uk = count v uk + 1" "\<And>k. k \<noteq> uk \<Longrightarrow> entry v1 k = entry v k"
    using consume_ok[OF ok0(1), of PROVIDER_TEST_USER_WINDOW_SECONDS] True
    by (auto simp: v1_def PROVIDER_TEST_USER_WINDOW_SECONDS_def)
  have ck: "counter_ok PROVIDER_TEST_CONNECTION_LIMIT v1 ck" "count v1 ck = count v ck"
    using ok0(2) one(3)[of ck] diff by (simp_all add: counter_ok_def count_def)
  have two: "counter_ok PROVIDER_TEST_CONNECTION_LIMIT v' ck" "count v' ck = count v ck + 1" "\<And>k. k \<noteq> ck \<Longrightarrow> entry v' k = entry v1 k"
    using consume_ok[OF ck(1), of PROVIDER_TEST_CONNECTION_WINDOW_SECONDS] True ck(2)
    by (auto simp: v'(2) PROVIDER_TEST_CONNECTION_WINDOW_SECONDS_def)
  have counts: "count v' k = count v k + (if k \<in> {uk, ck} then 1 else 0)" for k
    using one two diff by (cases "k = ck"; cases "k = uk") (auto simp: count_def)
  have keep: "counter_ok l v' k" if "counter_ok l v k" "k \<noteq> uk" "k \<noteq> ck" for l k
    using that one(3) two(3) by (simp add: counter_ok_def)
  have uk': "counter_ok PROVIDER_TEST_USER_LIMIT v' uk" using one(1) two(3)[OF diff] by (simp add: counter_ok_def)
  have "counter_ok PROVIDER_TEST_USER_LIMIT v' (provider_user_key a b)" for a b
    using ok uk' keep[of PROVIDER_TEST_USER_LIMIT "provider_user_key a b"]
    by (cases "provider_user_key a b = uk")
      (auto simp: provider_ok_def ck_def provider_user_key_def provider_connection_key_def)
  moreover have "counter_ok PROVIDER_TEST_CONNECTION_LIMIT v' (provider_connection_key a b)" for a b
    using ok two(1) keep[of PROVIDER_TEST_CONNECTION_LIMIT "provider_connection_key a b"]
    by (cases "provider_connection_key a b = ck")
      (auto simp: provider_ok_def uk_def provider_user_key_def provider_connection_key_def)
  ultimately show ?thesis using True v'(1) counts by (simp add: provider_ok_def)
next
  case False
  then have "get_count V uk v \<ge> PROVIDER_TEST_USER_LIMIT \<or> get_count V ck v \<ge> PROVIDER_TEST_CONNECTION_LIMIT"
    by (auto simp: get_count)
  with run have "v' = v \<and> (\<exists>retry \<ge> 1. raw = [RawInt 0, RawInt retry])"
    by (auto simp: PROVIDER_TEST_SCRIPT_def Let_def split: if_splits)
  then show ?thesis using False ok by auto
qed

end

section \<open>Runs of requests\<close>

definition admitted :: "RateLimitDecision result \<Rightarrow> bool" where
  "admitted r = (case r of Inl _ \<Rightarrow> False | Inr d \<Rightarrow> rd_allowed d)"

text \<open>Provider tests one after the other within the lifetime of the counters.\<close>

fun provider_test_run ::
  "'v valkey \<Rightarrow> (call_outcome \<times> uuid \<times> uuid \<times> uuid) list \<Rightarrow> 'v \<Rightarrow> RateLimitDecision result list \<times> 'v" where
  "provider_test_run V [] v = ([], v)"
| "provider_test_run V ((net, t, u, c) # reqs) v =
     (let (r, v1) = provider_check_and_consume V net t u c v; (rs, v2) = provider_test_run V reqs v1
      in (r # rs, v2))"

fun admissions :: "((call_outcome \<times> uuid \<times> uuid \<times> uuid) \<Rightarrow> bool) \<Rightarrow>
    (call_outcome \<times> uuid \<times> uuid \<times> uuid) list \<Rightarrow> RateLimitDecision result list \<Rightarrow> int" where
  "admissions P (q # qs) (r # rs) = (if P q \<and> admitted r then 1 else 0) + admissions P qs rs"
| "admissions P qs rs = 0"

context valkey_counters
begin

lemma provider_check_effect:
  assumes ok: "provider_ok v" and run: "provider_check_and_consume V net t u c v = (r, v')"
  shows "provider_ok v' \<and> (\<forall>k. count v k \<le> count v' k) \<and>
    (admitted r \<longrightarrow> count v' (provider_user_key t u) = count v (provider_user_key t u) + 1 \<and>
       count v' (provider_connection_key t c) = count v (provider_connection_key t c) + 1)"
proof -
  obtain raw w where s: "PROVIDER_TEST_SCRIPT V (provider_user_key t u) (provider_connection_key t c)
      PROVIDER_TEST_USER_LIMIT PROVIDER_TEST_CONNECTION_LIMIT
      PROVIDER_TEST_USER_WINDOW_SECONDS PROVIDER_TEST_CONNECTION_WINDOW_SECONDS v = (raw, w)" by fastforce
  note e = provider_script_effect[OF ok s]
  show ?thesis
    using run s e ok
    by (cases net) (auto simp: provider_check_and_consume_def eval_script_def parse_decision_def raw_int_def admitted_def
        split: if_splits)
qed

lemma provider_run_effect:
  assumes "provider_ok v" "provider_test_run V reqs v = (rs, v')"
  shows "provider_ok v' \<and>
    admissions (\<lambda>(_, t', u', _). t' = t \<and> u' = u) reqs rs \<le> count v' (provider_user_key t u) - count v (provider_user_key t u) \<and>
    admissions (\<lambda>(_, t', _, c'). t' = t \<and> c' = c) reqs rs \<le> count v' (provider_connection_key t c) - count v (provider_connection_key t c)"
  using assms
proof (induction reqs arbitrary: v rs)
  case (Cons q reqs)
  obtain net t1 u1 c1 where q: "q = (net, t1, u1, c1)" by (cases q)
  obtain r v1 where step: "provider_check_and_consume V net t1 u1 c1 v = (r, v1)" by fastforce
  obtain rs1 v2 where rest: "provider_test_run V reqs v1 = (rs1, v2)" by fastforce
  have res: "rs = r # rs1" "v' = v2" using Cons.prems(2) step rest q by (auto simp: Let_def)
  note e = provider_check_effect[OF Cons.prems(1) step]
  from Cons.IH[OF _ rest[folded res(2)]] e have IH: "provider_ok v'"
    "admissions (\<lambda>(_, t', u', _). t' = t \<and> u' = u) reqs rs1 \<le> count v' (provider_user_key t u) - count v1 (provider_user_key t u)"
    "admissions (\<lambda>(_, t', _, c'). t' = t \<and> c' = c) reqs rs1 \<le> count v' (provider_connection_key t c) - count v1 (provider_connection_key t c)"
    by blast+
  have grow: "count v k \<le> count v1 k" for k using e by blast
  have "t1 = t \<and> u1 = u \<and> admitted r \<Longrightarrow> count v1 (provider_user_key t u) = count v (provider_user_key t u) + 1" using e by blast
  moreover have "t1 = t \<and> c1 = c \<and> admitted r \<Longrightarrow>
      count v1 (provider_connection_key t c) = count v (provider_connection_key t c) + 1" using e by blast
  ultimately show ?case
    using IH grow[of "provider_user_key t u"] grow[of "provider_connection_key t c"] by (auto simp: res q)
qed simp

lemma provider_run_bound:
  assumes "provider_ok v" "provider_test_run V reqs v = (rs, v')"
  shows "admissions (\<lambda>(_, t', u', _). t' = t \<and> u' = u) reqs rs \<le> PROVIDER_TEST_USER_LIMIT - count v (provider_user_key t u) \<and>
    admissions (\<lambda>(_, t', _, c'). t' = t \<and> c' = c) reqs rs \<le> PROVIDER_TEST_CONNECTION_LIMIT - count v (provider_connection_key t c)"
proof -
  note e = provider_run_effect[OF assms, of t u c]
  then have "counter_ok PROVIDER_TEST_USER_LIMIT v' (provider_user_key t u)"
    "counter_ok PROVIDER_TEST_CONNECTION_LIMIT v' (provider_connection_key t c)" by (auto simp: provider_ok_def)
  from counter_ok_count[OF this(1)] counter_ok_count[OF this(2)] e show ?thesis
    by (simp add: PROVIDER_TEST_USER_LIMIT_def PROVIDER_TEST_CONNECTION_LIMIT_def)
qed

text \<open>An upload is admitted below the limit of its user only, and is then counted.\<close>

lemma upload_check_effect:
  assumes ok: "counter_ok KNOWLEDGE_UPLOAD_USER_LIMIT v (upload_user_key t u)"
    and run: "upload_check_and_consume V net t u v = (r, v')"
  shows "counter_ok KNOWLEDGE_UPLOAD_USER_LIMIT v' (upload_user_key t u) \<and>
    (admitted r \<longrightarrow> count v (upload_user_key t u) < KNOWLEDGE_UPLOAD_USER_LIMIT \<and>
       count v' (upload_user_key t u) = count v (upload_user_key t u) + 1)"
proof (cases "count v (upload_user_key t u) < KNOWLEDGE_UPLOAD_USER_LIMIT")
  case True
  have "0 < KNOWLEDGE_UPLOAD_USER_WINDOW_SECONDS" by (simp add: KNOWLEDGE_UPLOAD_USER_WINDOW_SECONDS_def)
  from consume_ok[OF ok True this] run True ok show ?thesis
    by (cases net) (auto simp: upload_check_and_consume_def eval_script_def KNOWLEDGE_UPLOAD_SCRIPT_def get_count
        parse_decision_def raw_int_def admitted_def)
next
  case False
  with run ok show ?thesis
    by (cases net) (auto simp: upload_check_and_consume_def eval_script_def KNOWLEDGE_UPLOAD_SCRIPT_def get_count
        parse_decision_def raw_int_def admitted_def Let_def)
qed

end

section \<open>A table of counters\<close>

definition table_valkey :: "(string \<times> int \<times> int option) list valkey" where
  "table_valkey =
     \<lparr>vk_get = (\<lambda>k v. map_option fst (map_of v k)),
      vk_ttl = (\<lambda>k v. case map_of v k of None \<Rightarrow> -2 | Some (_, None) \<Rightarrow> -1 | Some (_, Some s) \<Rightarrow> s),
      vk_incr = (\<lambda>k v. case map_of v k of None \<Rightarrow> (1, (k, 1, None) # v) | Some (n, e) \<Rightarrow> (n + 1, (k, n + 1, e) # v)),
      vk_expire = (\<lambda>k s v. case map_of v k of None \<Rightarrow> v | Some (n, _) \<Rightarrow> (k, n, Some s) # v)\<rparr>"

definition table_entry :: "(string \<times> int \<times> int option) list \<Rightarrow> string \<Rightarrow> (int \<times> bool) option" where
  "table_entry v k = map_option (\<lambda>(n, e). (n, e \<noteq> None)) (map_of v k)"

interpretation table: valkey_counters table_valkey table_entry
proof
  fix k v
  show "vk_get table_valkey k v = map_option fst (table_entry v k)"
    by (cases "map_of v k") (auto simp: table_valkey_def table_entry_def)
next
  fix k v n v'
  assume "vk_incr table_valkey k v = (n, v')"
  then show "n = (case table_entry v k of None \<Rightarrow> 1 | Some (m, _) \<Rightarrow> m + 1) \<and>
      table_entry v' = (table_entry v)(k \<mapsto> (n, (case table_entry v k of None \<Rightarrow> False | Some (_, e) \<Rightarrow> e)))"
    by (auto simp: table_valkey_def table_entry_def fun_eq_iff split: option.splits)
qed (auto simp: table_valkey_def table_entry_def fun_eq_iff split: option.splits)

text \<open>
  C34: Whatever mixture of provider tests is requested within one window, and however calls to
  Valkey are refused or their replies lost, one user of a tenant is admitted at most ten times and one
  connection at most thirty times, less what their counters already hold.
\<close>

theorem provider_tests_bounded:
  assumes "valkey_counters V entry" and "valkey_counters.provider_ok entry v" and "provider_test_run V reqs v = (rs, v')"
  shows "admissions (\<lambda>(_, t', u', _). t' = t \<and> u' = u) reqs rs
      \<le> 10 - (case entry v (provider_user_key t u) of None \<Rightarrow> 0 | Some (n, _) \<Rightarrow> n) \<and>
    admissions (\<lambda>(_, t', _, c'). t' = t \<and> c' = c) reqs rs
      \<le> 30 - (case entry v (provider_connection_key t c) of None \<Rightarrow> 0 | Some (n, _) \<Rightarrow> n)"
  using valkey_counters.provider_run_bound[OF assms, of t u c]
  unfolding valkey_counters.count_def[OF assms(1)] PROVIDER_TEST_USER_LIMIT_def PROVIDER_TEST_CONNECTION_LIMIT_def .

theorem provider_tests_bounded_witness:
  "map admitted (fst (provider_test_run table_valkey [(Answered, 1, 2, 3), (ReplyLost, 1, 2, 3), (Answered, 1, 2, 3)]
     [(provider_user_key 1 2, 8, Some 60)])) = [True, False, False] \<and>
   admissions (\<lambda>(_, t', u', _). t' = 1 \<and> u' = 2) [(Answered, 1, 2, 3), (ReplyLost, 1, 2, 3), (Answered, 1, 2, 3)]
     (fst (provider_test_run table_valkey [(Answered, 1, 2, 3), (ReplyLost, 1, 2, 3), (Answered, 1, 2, 3)]
       [(provider_user_key 1 2, 8, Some 60)])) \<le> 2"
proof -
  let ?v = "[(provider_user_key 1 2, 8, Some 60)]" and ?q = "[(Answered, 1, 2, 3), (ReplyLost, 1, 2, 3), (Answered, 1, 2, 3)]"
  have ok: "valkey_counters.provider_ok table_entry ?v"
    by (simp add: table.provider_ok_def table.counter_ok_def table_entry_def PROVIDER_TEST_USER_LIMIT_def
        PROVIDER_TEST_CONNECTION_LIMIT_def)
  obtain rs v' where run: "provider_test_run table_valkey ?q ?v = (rs, v')" by fastforce
  have "admissions (\<lambda>(_, t', u', _). t' = 1 \<and> u' = 2) ?q rs \<le> 2"
    using conjunct1[OF provider_tests_bounded[OF table.valkey_counters_axioms ok run, where t = 1 and u = 2]]
    by (simp add: table_entry_def)
  moreover have "map admitted (fst (provider_test_run table_valkey ?q ?v)) = [True, False, False]" by code_simp
  ultimately show ?thesis using run by simp
qed

end
