(* ===== verification/Providers.thy ===== *)
theory Providers
  imports Tenancy Secret_Store Rate_Limits
begin

text \<open>
  \<open>services/api/app/modules/providers\<close>: provider connections and model configurations of a tenant,
  the compensation between the database and the secret store, and the two-phase connectivity test
  (\<open>schemas.py\<close>, \<open>repository.py\<close>, \<open>service.py\<close>, \<open>gateway.py\<close>).

  A world is the database and the state of the secret store.  An operation that leaves the database
  between two transactions takes what the other requests do in the gap as a function of the world.
\<close>

record 's secret_ops =
  so_put :: "nat \<times> string \<Rightarrow> uuid \<Rightarrow> string \<Rightarrow> 's \<Rightarrow> string result \<times> 's"
  so_get :: "uuid \<Rightarrow> string \<Rightarrow> 's \<Rightarrow> string result"
  so_delete :: "uuid \<Rightarrow> string \<Rightarrow> 's \<Rightarrow> unit result \<times> 's"

type_synonym 's world = "db \<times> 's"

section \<open>Schemas\<close>

datatype connectivity_error =
    PROVIDER_AUTH_FAILED | PROVIDER_RATE_LIMITED | PROVIDER_TIMEOUT | PROVIDER_UNAVAILABLE | PROVIDER_INVALID_REQUEST

definition error_text :: "connectivity_error \<Rightarrow> string" where
  "error_text e =
     (case e of
        PROVIDER_AUTH_FAILED \<Rightarrow> ''PROVIDER_AUTH_FAILED''
      | PROVIDER_RATE_LIMITED \<Rightarrow> ''PROVIDER_RATE_LIMITED''
      | PROVIDER_TIMEOUT \<Rightarrow> ''PROVIDER_TIMEOUT''
      | PROVIDER_UNAVAILABLE \<Rightarrow> ''PROVIDER_UNAVAILABLE''
      | PROVIDER_INVALID_REQUEST \<Rightarrow> ''PROVIDER_INVALID_REQUEST'')"

record ProviderCreateRequest =
  pq_provider :: provider
  pq_display_name :: string
  pq_api_key :: string

definition display_name_field :: "string \<Rightarrow> string result" where
  "display_name_field name =
     (if \<not> (1 \<le> length name \<and> length name \<le> 80) then Inl ValidationError
      else (let normalized = strip name in if normalized = [] then Inl ValueError else Inr normalized))"

definition api_key_field :: "string \<Rightarrow> string result" where
  "api_key_field key = (if 1 \<le> length key \<and> length key \<le> 4096 then Inr key else Inl ValidationError)"

definition validate_provider_create :: "provider \<Rightarrow> string \<Rightarrow> string \<Rightarrow> ProviderCreateRequest result" where
  "validate_provider_create p name key =
     bind_result (display_name_field name) (\<lambda>n.
     bind_result (api_key_field key) (\<lambda>k. Inr \<lparr>pq_provider = p, pq_display_name = n, pq_api_key = k\<rparr>))"

record ProviderUpdateRequest =
  pu_display_name :: "string option"
  pu_api_key :: "string option"

definition optional_field :: "('a \<Rightarrow> 'b result) \<Rightarrow> 'a option \<Rightarrow> 'b option result" where
  "optional_field f x = (case x of None \<Rightarrow> Inr None | Some a \<Rightarrow> bind_result (f a) (\<lambda>b. Inr (Some b)))"

definition validate_provider_update :: "string option \<Rightarrow> string option \<Rightarrow> ProviderUpdateRequest result" where
  "validate_provider_update name key =
     bind_result (optional_field display_name_field name) (\<lambda>n.
     bind_result (optional_field api_key_field key) (\<lambda>k.
     bind_result (guard (\<not> (n = None \<and> k = None)) ValueError) (\<lambda>_.
       Inr \<lparr>pu_display_name = n, pu_api_key = k\<rparr>)))"

record ProviderView =
  pv_id :: uuid
  pv_provider :: provider
  pv_display_name :: string
  pv_status :: connection_status
  pv_last_tested_at :: "timestamp option"
  pv_last_error_code :: "string option"
  pv_created_at :: timestamp
  pv_updated_at :: timestamp

record ProviderConnectivityView =
  cv_status :: connection_status
  cv_error_code :: "connectivity_error option"

record ModelConfigurationCreateRequest =
  mq_provider_connection_id :: uuid
  mq_alias :: string
  mq_upstream_model :: string
  mq_purpose :: model_purpose
  mq_enabled :: bool

definition model_text :: "nat \<Rightarrow> string \<Rightarrow> string result" where
  "model_text limit s =
     (let normalized = strip s
      in if 1 \<le> length normalized \<and> length normalized \<le> limit then Inr normalized else Inl ValidationError)"

definition validate_model_create ::
  "uuid \<Rightarrow> string \<Rightarrow> string \<Rightarrow> model_purpose \<Rightarrow> bool \<Rightarrow> ModelConfigurationCreateRequest result" where
  "validate_model_create pid alias upstream purpose enabled =
     bind_result (model_text 80 alias) (\<lambda>a.
     bind_result (model_text 160 upstream) (\<lambda>m.
       Inr \<lparr>mq_provider_connection_id = pid, mq_alias = a, mq_upstream_model = m, mq_purpose = purpose,
            mq_enabled = enabled\<rparr>))"

record ModelConfigurationUpdateRequest =
  mp_provider_connection_id :: "uuid option"
  mp_upstream_model :: "string option"
  mp_enabled :: "bool option"

definition validate_model_update ::
  "uuid option \<Rightarrow> string option \<Rightarrow> bool option \<Rightarrow> ModelConfigurationUpdateRequest result" where
  "validate_model_update pid upstream enabled =
     bind_result (optional_field (model_text 160) upstream) (\<lambda>m.
     bind_result (guard (\<not> (pid = None \<and> m = None \<and> enabled = None)) ValueError) (\<lambda>_.
       Inr \<lparr>mp_provider_connection_id = pid, mp_upstream_model = m, mp_enabled = enabled\<rparr>))"

record ModelConfigurationView =
  mw_id :: uuid
  mw_provider_connection_id :: uuid
  mw_alias :: string
  mw_upstream_model :: string
  mw_purpose :: model_purpose
  mw_enabled :: bool
  mw_created_at :: timestamp
  mw_updated_at :: timestamp

section \<open>Repository\<close>

definition list_provider_connections :: "uuid \<Rightarrow> db \<Rightarrow> ProviderConnection list" where
  "list_provider_connections t d =
     sort_key (\<lambda>c. (pc_created_at c, pc_id c)) (filter (\<lambda>c. pc_tenant_id c = t) (connections d))"

definition find_provider_connection :: "uuid \<Rightarrow> uuid \<Rightarrow> db \<Rightarrow> ProviderConnection option result" where
  "find_provider_connection t cid d =
     one_or_none (filter (\<lambda>c. pc_id c = cid \<and> pc_tenant_id c = t) (connections d))"

definition find_provider_connection_for_update :: "uuid \<Rightarrow> uuid \<Rightarrow> db \<Rightarrow> ProviderConnection option result" where
  "find_provider_connection_for_update t cid d =
     one_or_none (filter (\<lambda>c. pc_id c = cid \<and> pc_tenant_id c = t) (connections d))"

definition add_provider_connection ::
  "uuid \<Rightarrow> uuid \<Rightarrow> provider \<Rightarrow> string \<Rightarrow> string \<Rightarrow> uuid \<Rightarrow> timestamp \<Rightarrow> ProviderConnection" where
  "add_provider_connection cid t p name ref u now =
     \<lparr>pc_id = cid, pc_tenant_id = t, pc_provider = p, pc_display_name = name, pc_secret_ref = ref,
      pc_status = Untested, pc_last_tested_at = None, pc_last_error_code = None, pc_created_by = u,
      pc_created_at = now, pc_updated_at = now\<rparr>"

definition count_model_references :: "uuid \<Rightarrow> uuid \<Rightarrow> db \<Rightarrow> nat" where
  "count_model_references t cid d =
     length (filter (\<lambda>m. mc_tenant_id m = t \<and> mc_provider_connection_id m = cid) (model_configs d))"

definition delete_provider_connection :: "ProviderConnection \<Rightarrow> unit tx" where
  "delete_provider_connection c =
     tx_bind (tx_write (\<lambda>d. d\<lparr>connections := filter (\<lambda>x. pc_id x \<noteq> pc_id c) (connections d)\<rparr>)) (\<lambda>_. flush)"

definition list_model_configurations :: "uuid \<Rightarrow> db \<Rightarrow> ModelConfiguration list" where
  "list_model_configurations t d =
     sort_key (\<lambda>m. (mc_created_at m, mc_id m)) (filter (\<lambda>m. mc_tenant_id m = t) (model_configs d))"

definition find_model_configuration_for_update :: "uuid \<Rightarrow> uuid \<Rightarrow> db \<Rightarrow> ModelConfiguration option result" where
  "find_model_configuration_for_update t mid d =
     one_or_none (filter (\<lambda>m. mc_id m = mid \<and> mc_tenant_id m = t) (model_configs d))"

definition add_model_configuration ::
  "uuid \<Rightarrow> uuid \<Rightarrow> uuid \<Rightarrow> string \<Rightarrow> string \<Rightarrow> model_purpose \<Rightarrow> bool \<Rightarrow> timestamp \<Rightarrow> ModelConfiguration" where
  "add_model_configuration mid t cid alias upstream purpose enabled now =
     \<lparr>mc_id = mid, mc_tenant_id = t, mc_provider_connection_id = cid, mc_alias = alias, mc_upstream_model = upstream,
      mc_purpose = purpose, mc_enabled = enabled, mc_created_at = now, mc_updated_at = now\<rparr>"

definition count_model_configuration_references :: "uuid \<Rightarrow> uuid \<Rightarrow> db \<Rightarrow> nat" where
  "count_model_configuration_references t mid d =
     length (filter (\<lambda>r. cr_tenant_id r = t \<and> cr_model_configuration_id r = mid) (model_references d))"

definition delete_model_configuration :: "ModelConfiguration \<Rightarrow> unit tx" where
  "delete_model_configuration m =
     tx_bind (tx_write (\<lambda>d. d\<lparr>model_configs := filter (\<lambda>x. mc_id x \<noteq> mc_id m) (model_configs d)\<rparr>)) (\<lambda>_. flush)"

section \<open>Service: views, permission, compensation\<close>

definition PROVIDER_MANAGE_PERMISSION :: string where
  "PROVIDER_MANAGE_PERMISSION = ''ai.providers.manage''"

definition provider_require_permission :: "uuid \<Rightarrow> uuid \<Rightarrow> db \<Rightarrow> unit result" where
  "provider_require_permission u t d =
     (case resolve_tenant_membership u t d of
        Inl e \<Rightarrow> Inl (if e = TenantMembershipAccessError then ProviderNotFoundError else e)
      | Inr m \<Rightarrow> guard (PROVIDER_MANAGE_PERMISSION \<in> set (rm_permissions m)) ProviderForbiddenError)"

definition provider_view :: "ProviderConnection \<Rightarrow> ProviderView" where
  "provider_view c =
     \<lparr>pv_id = pc_id c, pv_provider = pc_provider c, pv_display_name = pc_display_name c, pv_status = pc_status c,
      pv_last_tested_at = pc_last_tested_at c, pv_last_error_code = pc_last_error_code c,
      pv_created_at = pc_created_at c, pv_updated_at = pc_updated_at c\<rparr>"

definition model_view :: "ModelConfiguration \<Rightarrow> ModelConfigurationView" where
  "model_view m =
     \<lparr>mw_id = mc_id m, mw_provider_connection_id = mc_provider_connection_id m, mw_alias = mc_alias m,
      mw_upstream_model = mc_upstream_model m, mw_purpose = mc_purpose m, mw_enabled = mc_enabled m,
      mw_created_at = mc_created_at m, mw_updated_at = mc_updated_at m\<rparr>"

definition list_providers :: "uuid \<Rightarrow> uuid \<Rightarrow> db \<Rightarrow> ProviderView list result" where
  "list_providers u t d =
     bind_result (provider_require_permission u t d) (\<lambda>_. Inr (map provider_view (list_provider_connections t d)))"

definition get_provider :: "uuid \<Rightarrow> uuid \<Rightarrow> uuid \<Rightarrow> db \<Rightarrow> ProviderView result" where
  "get_provider u t cid d =
     bind_result (provider_require_permission u t d) (\<lambda>_.
     bind_result (find_provider_connection t cid d) (\<lambda>found.
       case found of None \<Rightarrow> Inl ProviderNotFoundError | Some c \<Rightarrow> Inr (provider_view c)))"

text \<open>A missing secret is no failure; any other one needs attention.\<close>

definition cleanup_new_secret :: "'s secret_ops \<Rightarrow> uuid \<Rightarrow> string \<Rightarrow> 's \<Rightarrow> unit result \<times> 's" where
  "cleanup_new_secret S t ref s =
     (case so_delete S t ref s of
        (Inr _, s') \<Rightarrow> (Inr (), s')
      | (Inl e, s') \<Rightarrow> (if e = SecretNotFoundError then Inr () else Inl ProviderSecretCleanupError, s'))"

definition compensated :: "'s secret_ops \<Rightarrow> uuid \<Rightarrow> string option \<Rightarrow> exn \<Rightarrow> db \<Rightarrow> 's \<Rightarrow> 'a result \<times> 's world" where
  "compensated S t new_ref e d s =
     (case (case new_ref of None \<Rightarrow> (Inr (), s) | Some ref \<Rightarrow> cleanup_new_secret S t ref s) of
        (Inl e', s') \<Rightarrow> (Inl e', d, s')
      | (Inr _, s') \<Rightarrow> (Inl (if e = IntegrityError then ProviderConflictError else e), d, s'))"

section \<open>Service: provider connections\<close>

definition insert_connection ::
  "uuid \<Rightarrow> uuid \<Rightarrow> ProviderCreateRequest \<Rightarrow> string \<Rightarrow> uuid \<Rightarrow> timestamp \<Rightarrow> ProviderView tx" where
  "insert_connection cid t request ref u now =
     (let connection = add_provider_connection cid t (pq_provider request) (pq_display_name request) ref u now
      in tx_bind (tx_write (\<lambda>d. d\<lparr>connections := connections d @ [connection]\<rparr>)) (\<lambda>_.
         tx_bind flush (\<lambda>_. tx_return (provider_view connection))))"

definition create_provider ::
  "'s secret_ops \<Rightarrow> commit_outcome \<Rightarrow> ('s world \<Rightarrow> 's world) \<Rightarrow> nat \<times> string \<Rightarrow> ('s world \<Rightarrow> 's world) \<Rightarrow> commit_outcome
     \<Rightarrow> uuid \<Rightarrow> uuid \<Rightarrow> uuid \<Rightarrow> ProviderCreateRequest \<Rightarrow> timestamp \<Rightarrow> 's world \<Rightarrow> ProviderView result \<times> 's world" where
  "create_provider S co1 gap1 rnd gap2 co2 cid u t request now w =
     (case in_txn co1 (tx_query (provider_require_permission u t)) (fst w) of
        (Inl e, d1) \<Rightarrow> (Inl e, d1, snd w)
      | (Inr _, d1) \<Rightarrow>
          (let (d2, s2) = gap1 (d1, snd w)
           in case so_put S rnd t (pq_api_key request) s2 of
                (Inl e, s3) \<Rightarrow> (Inl e, d2, s3)
              | (Inr ref, s3) \<Rightarrow>
                  (let (d4, s4) = gap2 (d2, s3)
                   in case in_txn co2 (insert_connection cid t request ref u now) d4 of
                        (Inr v, d5) \<Rightarrow> (Inr v, d5, s4)
                      | (Inl e, d5) \<Rightarrow> compensated S t (Some ref) e d5 s4)))"

definition save_connection :: "ProviderConnection \<Rightarrow> db \<Rightarrow> db" where
  "save_connection c d = d\<lparr>connections := map (\<lambda>x. if pc_id x = pc_id c then c else x) (connections d)\<rparr>"

definition preflight :: "uuid \<Rightarrow> uuid \<Rightarrow> uuid \<Rightarrow> unit tx" where
  "preflight u t cid =
     tx_bind (tx_query (provider_require_permission u t)) (\<lambda>_.
     tx_bind (tx_query (find_provider_connection t cid)) (\<lambda>current.
       tx_guard (current \<noteq> None) ProviderNotFoundError))"

text \<open>The transaction answers the view and the reference it replaced, read under the row lock.\<close>

definition rotate_connection ::
  "uuid \<Rightarrow> uuid \<Rightarrow> ProviderUpdateRequest \<Rightarrow> string option \<Rightarrow> timestamp \<Rightarrow> (ProviderView \<times> string option) tx" where
  "rotate_connection t cid request new_ref now =
     tx_bind (tx_query (find_provider_connection_for_update t cid)) (\<lambda>found.
       case found of
         None \<Rightarrow> tx_raise ProviderNotFoundError
       | Some c \<Rightarrow>
           let c1 = (case pu_display_name request of None \<Rightarrow> c | Some n \<Rightarrow> c\<lparr>pc_display_name := n\<rparr>);
               c2 = (case new_ref of
                       None \<Rightarrow> c1
                     | Some ref \<Rightarrow> c1\<lparr>pc_secret_ref := ref, pc_status := Untested, pc_last_tested_at := None,
                                      pc_last_error_code := None\<rparr>);
               c3 = c2\<lparr>pc_updated_at := now\<rparr>;
               old_ref = (case new_ref of None \<Rightarrow> None | Some _ \<Rightarrow> Some (pc_secret_ref c))
           in tx_bind (tx_write (save_connection c3)) (\<lambda>_.
              tx_bind flush (\<lambda>_. tx_return (provider_view c3, old_ref))))"

definition drop_old_secret ::
  "'s secret_ops \<Rightarrow> uuid \<Rightarrow> string option \<Rightarrow> string option \<Rightarrow> 's \<Rightarrow> unit result \<times> 's" where
  "drop_old_secret S t old_ref new_ref s =
     (case old_ref of
        None \<Rightarrow> (Inr (), s)
      | Some old \<Rightarrow> if new_ref \<noteq> Some old then cleanup_new_secret S t old s else (Inr (), s))"

definition put_replacement ::
  "'s secret_ops \<Rightarrow> nat \<times> string \<Rightarrow> uuid \<Rightarrow> string option \<Rightarrow> 's \<Rightarrow> string option result \<times> 's" where
  "put_replacement S rnd t key s =
     (case key of
        None \<Rightarrow> (Inr None, s)
      | Some k \<Rightarrow> (case so_put S rnd t k s of (Inl e, s') \<Rightarrow> (Inl e, s') | (Inr ref, s') \<Rightarrow> (Inr (Some ref), s')))"

definition update_provider ::
  "'s secret_ops \<Rightarrow> commit_outcome \<Rightarrow> ('s world \<Rightarrow> 's world) \<Rightarrow> nat \<times> string \<Rightarrow> ('s world \<Rightarrow> 's world) \<Rightarrow> commit_outcome
     \<Rightarrow> uuid \<Rightarrow> uuid \<Rightarrow> uuid \<Rightarrow> ProviderUpdateRequest \<Rightarrow> timestamp \<Rightarrow> 's world \<Rightarrow> ProviderView result \<times> 's world" where
  "update_provider S co1 gap1 rnd gap2 co2 u t cid request now w =
     (case in_txn co1 (preflight u t cid) (fst w) of
        (Inl e, d1) \<Rightarrow> (Inl e, d1, snd w)
      | (Inr _, d1) \<Rightarrow>
          (let (d2, s2) = gap1 (d1, snd w)
           in case put_replacement S rnd t (pu_api_key request) s2 of
                (Inl e, s3) \<Rightarrow> (Inl e, d2, s3)
              | (Inr new_ref, s3) \<Rightarrow>
                  (let (d4, s4) = gap2 (d2, s3)
                   in case in_txn co2 (rotate_connection t cid request new_ref now) d4 of
                        (Inl e, d5) \<Rightarrow> compensated S t new_ref e d5 s4
                      | (Inr (v, old_ref), d5) \<Rightarrow>
                          (case drop_old_secret S t old_ref new_ref s4 of
                             (Inl e, s5) \<Rightarrow> (Inl e, d5, s5)
                           | (Inr _, s5) \<Rightarrow> (Inr v, d5, s5)))))"

definition delete_connection :: "uuid \<Rightarrow> uuid \<Rightarrow> uuid \<Rightarrow> string tx" where
  "delete_connection u t cid =
     tx_bind (tx_query (provider_require_permission u t)) (\<lambda>_.
     tx_bind (tx_query (find_provider_connection_for_update t cid)) (\<lambda>found.
       case found of
         None \<Rightarrow> tx_raise ProviderNotFoundError
       | Some c \<Rightarrow>
           tx_bind (tx_read (count_model_references t cid)) (\<lambda>n.
           tx_bind (tx_guard (n = 0) ProviderReferencedError) (\<lambda>_.
           tx_bind (delete_provider_connection c) (\<lambda>_. tx_return (pc_secret_ref c))))))"

definition delete_provider ::
  "'s secret_ops \<Rightarrow> commit_outcome \<Rightarrow> ('s world \<Rightarrow> 's world) \<Rightarrow> uuid \<Rightarrow> uuid \<Rightarrow> uuid \<Rightarrow> 's world \<Rightarrow> unit result \<times> 's world" where
  "delete_provider S co gap u t cid w =
     (case in_txn co (delete_connection u t cid) (fst w) of
        (Inl e, d1) \<Rightarrow> (Inl e, d1, snd w)
      | (Inr ref, d1) \<Rightarrow>
          (let (d2, s2) = gap (d1, snd w)
           in case cleanup_new_secret S t ref s2 of (r, s3) \<Rightarrow> (r, d2, s3)))"

section \<open>Service: model configurations\<close>

definition list_models :: "uuid \<Rightarrow> uuid \<Rightarrow> db \<Rightarrow> ModelConfigurationView list result" where
  "list_models u t d =
     bind_result (provider_require_permission u t d) (\<lambda>_. Inr (map model_view (list_model_configurations t d)))"

definition require_active_provider :: "uuid \<Rightarrow> uuid \<Rightarrow> ProviderConnection tx" where
  "require_active_provider t cid =
     tx_bind (tx_query (find_provider_connection_for_update t cid)) (\<lambda>found.
       case found of
         None \<Rightarrow> tx_raise ProviderNotFoundError
       | Some c \<Rightarrow>
           tx_bind (tx_guard (pc_status c = ConnectionActive) ModelConfigurationProviderIneligibleError) (\<lambda>_.
             tx_return c))"

definition create_model_body ::
  "uuid \<Rightarrow> uuid \<Rightarrow> uuid \<Rightarrow> ModelConfigurationCreateRequest \<Rightarrow> timestamp \<Rightarrow> ModelConfigurationView tx" where
  "create_model_body mid u t request now =
     tx_bind (tx_query (provider_require_permission u t)) (\<lambda>_.
     tx_bind (require_active_provider t (mq_provider_connection_id request)) (\<lambda>c.
       let configuration = add_model_configuration mid t (pc_id c) (mq_alias request) (mq_upstream_model request)
             (mq_purpose request) (mq_enabled request) now
       in tx_bind (tx_write (\<lambda>d. d\<lparr>model_configs := model_configs d @ [configuration]\<rparr>)) (\<lambda>_.
          tx_bind flush (\<lambda>_. tx_return (model_view configuration)))))"

definition create_model ::
  "commit_outcome \<Rightarrow> uuid \<Rightarrow> uuid \<Rightarrow> uuid \<Rightarrow> ModelConfigurationCreateRequest \<Rightarrow> timestamp \<Rightarrow> db
     \<Rightarrow> ModelConfigurationView result \<times> db" where
  "create_model co mid u t request now d =
     (case in_txn co (create_model_body mid u t request now) d of
        (Inl e, d') \<Rightarrow> (Inl (if e = IntegrityError then ModelConfigurationAliasConflictError else e), d')
      | (Inr v, d') \<Rightarrow> (Inr v, d'))"

definition save_model :: "ModelConfiguration \<Rightarrow> db \<Rightarrow> db" where
  "save_model m d = d\<lparr>model_configs := map (\<lambda>x. if mc_id x = mc_id m then m else x) (model_configs d)\<rparr>"

definition apply_model_update :: "ModelConfigurationUpdateRequest \<Rightarrow> timestamp \<Rightarrow> ModelConfiguration \<Rightarrow> ModelConfiguration" where
  "apply_model_update request now m =
     (let m1 = (case mp_provider_connection_id request of None \<Rightarrow> m | Some p \<Rightarrow> m\<lparr>mc_provider_connection_id := p\<rparr>);
          m2 = (case mp_upstream_model request of None \<Rightarrow> m1 | Some n \<Rightarrow> m1\<lparr>mc_upstream_model := n\<rparr>);
          m3 = (case mp_enabled request of None \<Rightarrow> m2 | Some b \<Rightarrow> m2\<lparr>mc_enabled := b\<rparr>)
      in m3\<lparr>mc_updated_at := now\<rparr>)"

definition update_model_body ::
  "uuid \<Rightarrow> uuid \<Rightarrow> uuid \<Rightarrow> ModelConfigurationUpdateRequest \<Rightarrow> timestamp \<Rightarrow> ModelConfigurationView tx" where
  "update_model_body u t mid request now =
     tx_bind (tx_query (provider_require_permission u t)) (\<lambda>_.
     tx_bind (tx_query (find_model_configuration_for_update t mid)) (\<lambda>found.
       case found of
         None \<Rightarrow> tx_raise ModelConfigurationNotFoundError
       | Some m \<Rightarrow>
           let requires_active_provider =
                 (mp_provider_connection_id request \<noteq> None \<or> mp_upstream_model request \<noteq> None \<or>
                  mp_enabled request = Some True);
               target_provider_id = (case mp_provider_connection_id request of
                                       None \<Rightarrow> mc_provider_connection_id m | Some p \<Rightarrow> p);
               m' = apply_model_update request now m
           in tx_bind (if requires_active_provider
                       then tx_bind (require_active_provider t target_provider_id) (\<lambda>_. tx_return ()) else tx_return ()) (\<lambda>_.
              tx_bind (tx_write (save_model m')) (\<lambda>_.
              tx_bind flush (\<lambda>_. tx_return (model_view m'))))))"

definition update_model ::
  "commit_outcome \<Rightarrow> uuid \<Rightarrow> uuid \<Rightarrow> uuid \<Rightarrow> ModelConfigurationUpdateRequest \<Rightarrow> timestamp \<Rightarrow> db
     \<Rightarrow> ModelConfigurationView result \<times> db" where
  "update_model co u t mid request now = in_txn co (update_model_body u t mid request now)"

definition delete_model_body :: "uuid \<Rightarrow> uuid \<Rightarrow> uuid \<Rightarrow> unit tx" where
  "delete_model_body u t mid =
     tx_bind (tx_query (provider_require_permission u t)) (\<lambda>_.
     tx_bind (tx_query (find_model_configuration_for_update t mid)) (\<lambda>found.
       case found of
         None \<Rightarrow> tx_raise ModelConfigurationNotFoundError
       | Some m \<Rightarrow>
           tx_bind (tx_read (count_model_configuration_references t mid)) (\<lambda>n.
           tx_bind (tx_guard (n = 0) ModelConfigurationReferencedError) (\<lambda>_.
             delete_model_configuration m))))"

definition delete_model :: "commit_outcome \<Rightarrow> uuid \<Rightarrow> uuid \<Rightarrow> uuid \<Rightarrow> db \<Rightarrow> unit result \<times> db" where
  "delete_model co u t mid = in_txn co (delete_model_body u t mid)"

section \<open>The gateway client\<close>

text \<open>
  What the HTTP client answers to a POST: a timeout, another \<open>HTTPError\<close>, or a status code and the
  \<open>_GatewayResponse\<close> read from the body, None for a body that is no such document.
\<close>

datatype gateway_reply =
    GatewayTimeout
  | GatewayHTTPError
  | GatewayReply int "(bool \<times> connectivity_error option) option"

record ProviderConnectivityOutcome =
  po_ok :: bool
  po_error_code :: "connectivity_error option"

type_synonym gateway_post =
  "string \<Rightarrow> (string \<times> string) list \<Rightarrow> (string \<times> string) list \<Rightarrow> gateway_reply"

record gateway_client =
  gc_url :: string
  gc_internal_token :: string
  gc_post :: gateway_post

definition PRIVATE_TEST_PATH :: string where
  "PRIVATE_TEST_PATH = ''/internal/v1/provider-connectivity-test''"

definition HttpProviderConnectivityGateway :: "string \<Rightarrow> string \<Rightarrow> gateway_post \<Rightarrow> gateway_client" where
  "HttpProviderConnectivityGateway llm_gateway_url token post =
     \<lparr>gc_url = rev (dropWhile (\<lambda>c. c = CHR ''/'') (rev llm_gateway_url)) @ PRIVATE_TEST_PATH, gc_internal_token = token,
      gc_post = post\<rparr>"

definition provider_key :: "provider \<Rightarrow> string" where
  "provider_key p =
     (case p of Openai \<Rightarrow> ''openai'' | Anthropic \<Rightarrow> ''anthropic'' | Gemini \<Rightarrow> ''gemini'' | Openrouter \<Rightarrow> ''openrouter'')"

definition failed_test :: "connectivity_error \<Rightarrow> ProviderConnectivityOutcome" where
  "failed_test e = \<lparr>po_ok = False, po_error_code = Some e\<rparr>"

definition gateway_test :: "gateway_client \<Rightarrow> uuid \<Rightarrow> provider \<Rightarrow> string \<Rightarrow> string \<Rightarrow> ProviderConnectivityOutcome" where
  "gateway_test g t p api_key correlation_id =
     (case gc_post g (gc_url g)
         [(''Authorization'', ''Bearer '' @ gc_internal_token g), (''Content-Type'', ''application/json'')]
         [(''tenantId'', uuid_str t), (''provider'', provider_key p), (''apiKey'', api_key), (''correlationId'', correlation_id)] of
        GatewayTimeout \<Rightarrow> failed_test PROVIDER_TIMEOUT
      | GatewayHTTPError \<Rightarrow> failed_test PROVIDER_UNAVAILABLE
      | GatewayReply code parsed \<Rightarrow>
          if code \<noteq> 200 then failed_test PROVIDER_UNAVAILABLE
          else (case parsed of
                  None \<Rightarrow> failed_test PROVIDER_UNAVAILABLE
                | Some (True, None) \<Rightarrow> \<lparr>po_ok = True, po_error_code = None\<rparr>
                | Some (False, Some e) \<Rightarrow> failed_test e
                | Some _ \<Rightarrow> failed_test PROVIDER_UNAVAILABLE))"

section \<open>Service: connectivity test\<close>

text \<open>Phase 1: the tested reference and provider, or None for a disabled connection.\<close>

definition start_test :: "uuid \<Rightarrow> uuid \<Rightarrow> uuid \<Rightarrow> (string \<times> provider) option tx" where
  "start_test u t cid =
     tx_bind (tx_query (provider_require_permission u t)) (\<lambda>_.
     tx_bind (tx_query (find_provider_connection t cid)) (\<lambda>current.
       case current of
         None \<Rightarrow> tx_raise ProviderNotFoundError
       | Some c \<Rightarrow> if pc_status c = ConnectionDisabled then tx_return None
                   else tx_return (Some (pc_secret_ref c, pc_provider c))))"

definition disabled_view :: ProviderConnectivityView where
  "disabled_view = \<lparr>cv_status = ConnectionDisabled, cv_error_code = None\<rparr>"

text \<open>\<open>retry_after_seconds or 1\<close>, then \<open>max(..., 1)\<close> in the exception\<close>

definition admit_test :: "'v valkey \<Rightarrow> call_outcome \<Rightarrow> uuid \<Rightarrow> uuid \<Rightarrow> uuid \<Rightarrow> 'v \<Rightarrow> unit result \<times> 'v" where
  "admit_test V net t u cid v =
     (case provider_check_and_consume V net t u cid v of
        (Inl e, v') \<Rightarrow> (Inl (if e = RateLimitUnavailableError then ProviderTestUnavailableError else e), v')
      | (Inr decision, v') \<Rightarrow>
          if rd_allowed decision then (Inr (), v')
          else (let seconds = (case rd_retry_after_seconds decision of None \<Rightarrow> 1 | Some n \<Rightarrow> if n = 0 then 1 else n)
                in (Inl (ProviderTestRateLimitedError (max seconds 1)), v')))"

definition fetch_key :: "'s secret_ops \<Rightarrow> uuid \<Rightarrow> string \<Rightarrow> 's \<Rightarrow> string result" where
  "fetch_key S t ref s = (case so_get S t ref s of Inl _ \<Rightarrow> Inl ProviderTestUnavailableError | Inr k \<Rightarrow> Inr k)"

definition test_correlation :: "uuid \<Rightarrow> uuid \<Rightarrow> string" where
  "test_correlation cid x = ''provider-test:'' @ uuid_str cid @ '':'' @ uuid_str x"

text \<open>Phase 2: the outcome is recorded if the credential is still the tested one.\<close>

definition tested_row :: "ProviderConnectivityOutcome \<Rightarrow> timestamp \<Rightarrow> ProviderConnection \<Rightarrow> ProviderConnection" where
  "tested_row outcome now c =
     (let c1 = c\<lparr>pc_last_tested_at := Some now, pc_updated_at := now\<rparr>
      in if po_ok outcome then c1\<lparr>pc_status := ConnectionActive, pc_last_error_code := None\<rparr>
         else (let c2 = c1\<lparr>pc_last_error_code := map_option error_text (po_error_code outcome)\<rparr>
               in if po_error_code outcome = Some PROVIDER_AUTH_FAILED then c2\<lparr>pc_status := Invalid\<rparr> else c2))"

definition record_test ::
  "uuid \<Rightarrow> uuid \<Rightarrow> string \<Rightarrow> provider \<Rightarrow> ProviderConnectivityOutcome \<Rightarrow> timestamp \<Rightarrow> ProviderConnectivityView tx" where
  "record_test t cid tested_secret_ref tested_provider outcome now =
     tx_bind (tx_query (find_provider_connection_for_update t cid)) (\<lambda>found.
       case found of
         None \<Rightarrow> tx_raise ProviderNotFoundError
       | Some c \<Rightarrow>
           tx_bind (tx_guard (\<not> (pc_secret_ref c \<noteq> tested_secret_ref \<or> pc_provider c \<noteq> tested_provider)) ProviderTestStaleError) (\<lambda>_.
           if pc_status c = ConnectionDisabled then tx_return disabled_view
           else let c' = tested_row outcome now c; error_code = (if po_ok outcome then None else po_error_code outcome)
                in tx_bind (tx_write (save_connection c')) (\<lambda>_.
                   tx_bind flush (\<lambda>_. tx_return \<lparr>cv_status = pc_status c', cv_error_code = error_code\<rparr>))))"

definition test_provider_connectivity ::
  "'s secret_ops \<Rightarrow> 'v valkey \<Rightarrow> gateway_client \<Rightarrow> commit_outcome \<Rightarrow> call_outcome \<Rightarrow> ('s world \<Rightarrow> 's world) \<Rightarrow> uuid
     \<Rightarrow> ('s world \<Rightarrow> 's world) \<Rightarrow> commit_outcome \<Rightarrow> uuid \<Rightarrow> uuid \<Rightarrow> uuid \<Rightarrow> timestamp \<Rightarrow> 'v \<Rightarrow> 's world
     \<Rightarrow> ProviderConnectivityView result \<times> 'v \<times> 's world" where
  "test_provider_connectivity S V g co1 net gap1 x gap2 co2 u t cid now v w =
     (case in_txn co1 (start_test u t cid) (fst w) of
        (Inl e, d1) \<Rightarrow> (Inl e, v, d1, snd w)
      | (Inr None, d1) \<Rightarrow> (Inr disabled_view, v, d1, snd w)
      | (Inr (Some (ref, p)), d1) \<Rightarrow>
          (case admit_test V net t u cid v of
             (Inl e, v') \<Rightarrow> (Inl e, v', d1, snd w)
           | (Inr _, v') \<Rightarrow>
               (let (d2, s2) = gap1 (d1, snd w)
                in case fetch_key S t ref s2 of
                     Inl e \<Rightarrow> (Inl e, v', d2, s2)
                   | Inr api_key \<Rightarrow>
                       (let outcome = gateway_test g t p api_key (test_correlation cid x);
                            (d3, s3) = gap2 (d2, s2)
                        in case in_txn co2 (record_test t cid ref p outcome now) d3 of (r, d4) \<Rightarrow> (r, v', d4, s3)))))"

end
