(* ===== verification/Provider_System.thy ===== *)
theory Provider_System
  imports Providers "HOL-Library.Multiset"
begin

text \<open>
  The provider requests of any number of callers, interleaved.  A request is cut at the points where
  the code leaves the database or the secret store, and what is left of it is a task; \<open>perform\<close> runs
  the next piece of a task with the same definitions the whole requests are composed of.  A process
  may stop between two pieces, in which case its task is dropped.
\<close>

datatype provider_task =
    CreateCall uuid uuid ProviderCreateRequest
  | CreatePut uuid uuid ProviderCreateRequest
  | CreateInsert uuid uuid ProviderCreateRequest string
  | UpdateCall uuid uuid uuid ProviderUpdateRequest
  | UpdatePut uuid uuid ProviderUpdateRequest
  | UpdateRotate uuid uuid ProviderUpdateRequest "string option"
  | DeleteCall uuid uuid uuid
  | DropSecret uuid string
  | TestCall uuid uuid uuid
  | TestAdmit uuid uuid uuid string provider
  | TestProbe uuid uuid string provider
  | TestRecord uuid uuid string provider ProviderConnectivityOutcome

text \<open>What the environment decides for one piece of work.\<close>

record choices =
  ch_commit :: commit_outcome
  ch_random :: "nat \<times> string"
  ch_network :: call_outcome
  ch_uuid :: uuid
  ch_now :: timestamp

record ('s, 'v) provider_system =
  sy_db :: db
  sy_secrets :: 's
  sy_valkey :: 'v
  sy_tasks :: "provider_task list"
  sy_drawn :: "string set"

fun perform :: "'s secret_ops \<Rightarrow> 'v valkey \<Rightarrow> gateway_client \<Rightarrow> choices \<Rightarrow> provider_task \<Rightarrow> db \<times> 's \<times> 'v
     \<Rightarrow> provider_task list \<times> db \<times> 's \<times> 'v" where
  "perform S V g ch (CreateCall u t request) (d, s, v) =
     (case in_txn (ch_commit ch) (tx_query (provider_require_permission u t)) d of
        (Inl _, d') \<Rightarrow> ([], d', s, v)
      | (Inr _, d') \<Rightarrow> ([CreatePut u t request], d', s, v))"
| "perform S V g ch (CreatePut u t request) (d, s, v) =
     (case so_put S (ch_random ch) t (pq_api_key request) s of
        (Inl _, s') \<Rightarrow> ([], d, s', v)
      | (Inr ref, s') \<Rightarrow> ([CreateInsert u t request ref], d, s', v))"
| "perform S V g ch (CreateInsert u t request ref) (d, s, v) =
     (case in_txn (ch_commit ch) (insert_connection (ch_uuid ch) t request ref u (ch_now ch)) d of
        (Inl _, d') \<Rightarrow> ([DropSecret t ref], d', s, v)
      | (Inr _, d') \<Rightarrow> ([], d', s, v))"
| "perform S V g ch (UpdateCall u t cid request) (d, s, v) =
     (case in_txn (ch_commit ch) (preflight u t cid) d of
        (Inl _, d') \<Rightarrow> ([], d', s, v)
      | (Inr _, d') \<Rightarrow> ([UpdatePut t cid request], d', s, v))"
| "perform S V g ch (UpdatePut t cid request) (d, s, v) =
     (case put_replacement S (ch_random ch) t (pu_api_key request) s of
        (Inl _, s') \<Rightarrow> ([], d, s', v)
      | (Inr new_ref, s') \<Rightarrow> ([UpdateRotate t cid request new_ref], d, s', v))"
| "perform S V g ch (UpdateRotate t cid request new_ref) (d, s, v) =
     (case in_txn (ch_commit ch) (rotate_connection t cid request new_ref (ch_now ch)) d of
        (Inl _, d') \<Rightarrow> (case new_ref of None \<Rightarrow> [] | Some ref \<Rightarrow> [DropSecret t ref], d', s, v)
      | (Inr (_, old_ref), d') \<Rightarrow>
          (case old_ref of None \<Rightarrow> [] | Some old \<Rightarrow> if new_ref \<noteq> Some old then [DropSecret t old] else [], d', s, v))"
| "perform S V g ch (DeleteCall u t cid) (d, s, v) =
     (case in_txn (ch_commit ch) (delete_connection u t cid) d of
        (Inl _, d') \<Rightarrow> ([], d', s, v)
      | (Inr ref, d') \<Rightarrow> ([DropSecret t ref], d', s, v))"
| "perform S V g ch (DropSecret t ref) (d, s, v) = ([], d, snd (cleanup_new_secret S t ref s), v)"
| "perform S V g ch (TestCall u t cid) (d, s, v) =
     (case in_txn (ch_commit ch) (start_test u t cid) d of
        (Inl _, d') \<Rightarrow> ([], d', s, v)
      | (Inr None, d') \<Rightarrow> ([], d', s, v)
      | (Inr (Some (ref, p)), d') \<Rightarrow> ([TestAdmit u t cid ref p], d', s, v))"
| "perform S V g ch (TestAdmit u t cid ref p) (d, s, v) =
     (case admit_test V (ch_network ch) t u cid v of
        (Inl _, v') \<Rightarrow> ([], d, s, v')
      | (Inr _, v') \<Rightarrow> ([TestProbe t cid ref p], d, s, v'))"
| "perform S V g ch (TestProbe t cid ref p) (d, s, v) =
     (case fetch_key S t ref s of
        Inl _ \<Rightarrow> ([], d, s, v)
      | Inr api_key \<Rightarrow>
          ([TestRecord t cid ref p (gateway_test g t p api_key (test_correlation cid (ch_uuid ch)))], d, s, v))"
| "perform S V g ch (TestRecord t cid ref p outcome) (d, s, v) =
     (case in_txn (ch_commit ch) (record_test t cid ref p outcome (ch_now ch)) d of (_, d') \<Rightarrow> ([], d', s, v))"

fun is_call :: "provider_task \<Rightarrow> bool" where
  "is_call (CreateCall _ _ _) = True"
| "is_call (UpdateCall _ _ _ _) = True"
| "is_call (DeleteCall _ _ _) = True"
| "is_call (TestCall _ _ _) = True"
| "is_call _ = False"

text \<open>A task that stores a secret draws a reference no other one has drawn.\<close>

fun draws :: "provider_task \<Rightarrow> bool" where
  "draws (CreatePut _ _ _) = True"
| "draws (UpdatePut _ _ request) = (pu_api_key request \<noteq> None)"
| "draws _ = False"

text \<open>A task whose failure is compensated.\<close>

fun compensates :: "provider_task \<Rightarrow> bool" where
  "compensates (CreateInsert _ _ _ _) = True"
| "compensates (UpdateRotate _ _ _ new_ref) = (new_ref \<noteq> None)"
| "compensates _ = False"

abbreviation drawn_ref :: "choices \<Rightarrow> string" where
  "drawn_ref ch \<equiv> ''sr_'' @ snd (ch_random ch)"

text \<open>
  One step: a caller arrives, the next piece of a task runs, a task is dropped, a model request is
  served, or another module commits.  A commit without an acknowledgement is left out where a failure
  is compensated; \<open>unacknowledged_commit_drops_key\<close> below shows why.
\<close>

inductive provider_step ::
  "'s secret_ops \<Rightarrow> 'v valkey \<Rightarrow> gateway_client \<Rightarrow> ('s, 'v) provider_system \<Rightarrow> ('s, 'v) provider_system \<Rightarrow> bool"
  for S V g where
  arrive: "is_call task \<Longrightarrow> provider_step S V g x (x\<lparr>sy_tasks := sy_tasks x @ [task]\<rparr>)"
| work: "sy_tasks x = xs @ task # ys \<Longrightarrow>
    perform S V g ch task (sy_db x, sy_secrets x, sy_valkey x) = (new, d', s', v') \<Longrightarrow>
    (draws task \<Longrightarrow> drawn_ref ch \<notin> sy_drawn x \<and> list_all ascii (cps (snd (ch_random ch)))) \<Longrightarrow>
    (compensates task \<Longrightarrow> ch_commit ch \<noteq> CommittedUnacknowledged) \<Longrightarrow>
    provider_step S V g x \<lparr>sy_db = d', sy_secrets = s', sy_valkey = v', sy_tasks = xs @ new @ ys,
      sy_drawn = (if draws task then insert (drawn_ref ch) (sy_drawn x) else sy_drawn x)\<rparr>"
| stop: "sy_tasks x = xs @ task # ys \<Longrightarrow> provider_step S V g x (x\<lparr>sy_tasks := xs @ ys\<rparr>)"
| new_model: "create_model co mid u t create_request now (sy_db x) = (r1, d') \<Longrightarrow> provider_step S V g x (x\<lparr>sy_db := d'\<rparr>)"
| change_model: "update_model co u t mid update_request now (sy_db x) = (r2, d') \<Longrightarrow> provider_step S V g x (x\<lparr>sy_db := d'\<rparr>)"
| drop_model: "delete_model co u t mid (sy_db x) = (r3, d') \<Longrightarrow> provider_step S V g x (x\<lparr>sy_db := d'\<rparr>)"
| other: "schema_ok d' \<Longrightarrow> connections d' = connections (sy_db x) \<Longrightarrow> model_configs d' = model_configs (sy_db x) \<Longrightarrow>
    provider_step S V g x (x\<lparr>sy_db := d'\<rparr>)"

abbreviation provider_run where
  "provider_run S V g \<equiv> (provider_step S V g)\<^sup>*\<^sup>*"

section \<open>Good states\<close>

text \<open>The gateway has accepted a key.\<close>

definition accepted :: "gateway_client \<Rightarrow> uuid \<Rightarrow> provider \<Rightarrow> string \<Rightarrow> bool" where
  "accepted g t p key \<longleftrightarrow> (\<exists>c. po_ok (gateway_test g t p key c))"

definition connection_backed :: "('s \<Rightarrow> uuid \<Rightarrow> string \<Rightarrow> string option) \<Rightarrow> gateway_client \<Rightarrow> 's \<Rightarrow> ProviderConnection \<Rightarrow> bool" where
  "connection_backed held g s c \<longleftrightarrow>
     (\<exists>key. held s (pc_tenant_id c) (pc_secret_ref c) = Some key \<and>
        (pc_status c = ConnectionActive \<longrightarrow> accepted g (pc_tenant_id c) (pc_provider c) key))"

fun task_ok :: "('s \<Rightarrow> uuid \<Rightarrow> string \<Rightarrow> string option) \<Rightarrow> gateway_client \<Rightarrow> 's \<Rightarrow> provider_task \<Rightarrow> bool" where
  "task_ok held g s (CreateInsert u t request ref) = (held s t ref \<noteq> None)"
| "task_ok held g s (UpdateRotate t cid request (Some ref)) = (held s t ref \<noteq> None)"
| "task_ok held g s (TestRecord t cid ref p outcome) =
     (po_ok outcome \<longrightarrow> (\<exists>key. accepted g t p key \<and> held s t ref \<in> {None, Some key}))"
| "task_ok held g s _ = True"

text \<open>The references a task may still hand to a connection or delete, and those it only remembers.\<close>

fun owned_refs :: "provider_task \<Rightarrow> string list" where
  "owned_refs (CreateInsert _ _ _ ref) = [ref]"
| "owned_refs (UpdateRotate _ _ _ (Some ref)) = [ref]"
| "owned_refs (DropSecret _ ref) = [ref]"
| "owned_refs _ = []"

fun tested_refs :: "provider_task \<Rightarrow> string list" where
  "tested_refs (TestAdmit _ _ _ ref _) = [ref]"
| "tested_refs (TestProbe _ _ ref _) = [ref]"
| "tested_refs (TestRecord _ _ ref _ _) = [ref]"
| "tested_refs _ = []"

definition refs_of :: "db \<Rightarrow> provider_task list \<Rightarrow> string list" where
  "refs_of d T = map pc_secret_ref (connections d) @ concat (map owned_refs T)"

definition models_in_tenant :: "db \<Rightarrow> bool" where
  "models_in_tenant d \<longleftrightarrow> list_all (\<lambda>m. list_ex (\<lambda>c. pc_id c = mc_provider_connection_id m \<and> pc_tenant_id c = mc_tenant_id m)
     (connections d)) (model_configs d)"

definition good ::
  "('s \<Rightarrow> bool) \<Rightarrow> ('s \<Rightarrow> uuid \<Rightarrow> string \<Rightarrow> string option) \<Rightarrow> gateway_client \<Rightarrow> db \<Rightarrow> 's \<Rightarrow> provider_task list \<Rightarrow> string set \<Rightarrow> bool" where
  "good invar held g d s T U \<longleftrightarrow>
     schema_ok d \<and> invar s \<and> distinct (refs_of d T) \<and> set (refs_of d T) \<subseteq> U \<and> set (concat (map tested_refs T)) \<subseteq> U \<and>
     (\<forall>t r. held s t r \<noteq> None \<longrightarrow> r \<in> U) \<and> (\<forall>c \<in> set (connections d). connection_backed held g s c) \<and>
     (\<forall>task \<in> set T. task_ok held g s task) \<and> models_in_tenant d"

definition system_ok :: "('s \<Rightarrow> bool) \<Rightarrow> ('s \<Rightarrow> uuid \<Rightarrow> string \<Rightarrow> string option) \<Rightarrow> gateway_client \<Rightarrow> ('s, 'v) provider_system \<Rightarrow> bool" where
  "system_ok invar held g x \<longleftrightarrow> good invar held g (sy_db x) (sy_secrets x) (sy_tasks x) (sy_drawn x)"

section \<open>What the transactions do\<close>

lemma find_connection_Some:
  "find_provider_connection t cid d = Inr (Some c) \<Longrightarrow> c \<in> set (connections d) \<and> pc_id c = cid \<and> pc_tenant_id c = t"
  unfolding find_provider_connection_def by (drule one_or_none_filter) simp

lemma find_connection_for_update_Some:
  "find_provider_connection_for_update t cid d = Inr (Some c) \<Longrightarrow> c \<in> set (connections d) \<and> pc_id c = cid \<and> pc_tenant_id c = t"
  unfolding find_provider_connection_for_update_def by (drule one_or_none_filter) simp

text \<open>A query that must find a row.\<close>

lemma tx_found_Inr_iff:
  "tx_bind (tx_query q) (\<lambda>found. case found of None \<Rightarrow> tx_raise e | Some c \<Rightarrow> f c) d = Inr p \<longleftrightarrow>
     (\<exists>c. q d = Inr (Some c) \<and> f c d = Inr p)"
  by (auto simp: tx_bind_def tx_query_def tx_raise_def split: sum.splits option.splits)

lemma insert_connection_effect:
  "insert_connection cid t request ref u now d = Inr (v, d') \<Longrightarrow>
     d' = d\<lparr>connections := connections d @ [add_provider_connection cid t (pq_provider request) (pq_display_name request) ref u now]\<rparr>"
  by (auto simp: insert_connection_def Let_def result_simps)

text \<open>A row is replaced by one of the same tenant and provider.\<close>

definition same_connection :: "ProviderConnection \<Rightarrow> ProviderConnection \<Rightarrow> bool" where
  "same_connection c c' \<longleftrightarrow> pc_id c' = pc_id c \<and> pc_tenant_id c' = pc_tenant_id c \<and> pc_provider c' = pc_provider c"

lemma rotate_connection_effect:
  assumes "rotate_connection t cid request new_ref now d = Inr ((v, old_ref), d')"
  shows "\<exists>c \<in> set (connections d). \<exists>c'. pc_id c = cid \<and> pc_tenant_id c = t \<and> same_connection c c' \<and> d' = save_connection c' d \<and>
    (case new_ref of
       None \<Rightarrow> old_ref = None \<and> pc_secret_ref c' = pc_secret_ref c \<and> pc_status c' = pc_status c
     | Some ref \<Rightarrow> old_ref = Some (pc_secret_ref c) \<and> pc_secret_ref c' = ref \<and> pc_status c' = Untested)"
proof -
  from assms obtain c where f: "find_provider_connection_for_update t cid d = Inr (Some c)"
    unfolding rotate_connection_def tx_found_Inr_iff by blast
  define c3 where "c3 = (case new_ref of
      None \<Rightarrow> (case pu_display_name request of None \<Rightarrow> c | Some n \<Rightarrow> c\<lparr>pc_display_name := n\<rparr>)
    | Some ref \<Rightarrow> (case pu_display_name request of None \<Rightarrow> c | Some n \<Rightarrow> c\<lparr>pc_display_name := n\<rparr>)
        \<lparr>pc_secret_ref := ref, pc_status := Untested, pc_last_tested_at := None, pc_last_error_code := None\<rparr>)\<lparr>pc_updated_at := now\<rparr>"
  have "d' = save_connection c3 d" "old_ref = (case new_ref of None \<Rightarrow> None | Some _ \<Rightarrow> Some (pc_secret_ref c))"
    using assms f by (auto simp: rotate_connection_def Let_def result_simps c3_def)
  moreover have "same_connection c c3" "case new_ref of
       None \<Rightarrow> pc_secret_ref c3 = pc_secret_ref c \<and> pc_status c3 = pc_status c
     | Some ref \<Rightarrow> pc_secret_ref c3 = ref \<and> pc_status c3 = Untested"
    by (auto simp: c3_def same_connection_def split: option.split)
  ultimately show ?thesis using find_connection_for_update_Some[OF f]
    by (intro bexI[of _ c] exI[of _ c3]) (auto split: option.splits)
qed

lemma delete_connection_effect:
  assumes "delete_connection u t cid d = Inr (ref, d')"
  shows "\<exists>c \<in> set (connections d). pc_id c = cid \<and> pc_tenant_id c = t \<and> pc_secret_ref c = ref \<and>
    d' = d\<lparr>connections := filter (\<lambda>x. pc_id x \<noteq> pc_id c) (connections d)\<rparr> \<and> schema_ok d'"
proof -
  from assms obtain c where f: "find_provider_connection_for_update t cid d = Inr (Some c)"
    and body: "tx_bind (tx_read (count_model_references t cid)) (\<lambda>n.
       tx_bind (tx_guard (n = 0) ProviderReferencedError) (\<lambda>_.
       tx_bind (delete_provider_connection c) (\<lambda>_. tx_return (pc_secret_ref c)))) d = Inr (ref, d')"
    unfolding delete_connection_def tx_bind_Inr_iff[of "tx_query (provider_require_permission u t)"] tx_query_Inr_iff tx_found_Inr_iff
    by blast
  from body find_connection_for_update_Some[OF f] show ?thesis
    by (auto simp: delete_provider_connection_def result_simps)
qed

lemma start_test_effect:
  assumes "start_test u t cid d = Inr (r, d')"
  shows "d' = d \<and> (\<forall>ref p. r = Some (ref, p) \<longrightarrow>
    (\<exists>c \<in> set (connections d). pc_id c = cid \<and> pc_tenant_id c = t \<and> pc_secret_ref c = ref \<and> pc_provider c = p))"
proof -
  from assms obtain c where f: "find_provider_connection t cid d = Inr (Some c)"
    unfolding start_test_def tx_bind_Inr_iff[of "tx_query (provider_require_permission u t)"] tx_query_Inr_iff tx_found_Inr_iff
    by blast
  with assms have "d' = d" "r = None \<or> r = Some (pc_secret_ref c, pc_provider c)"
    by (auto simp: start_test_def result_simps split: if_splits)
  with find_connection_Some[OF f] show ?thesis by auto
qed

lemma tested_row_same: "same_connection c (tested_row outcome now c)" "pc_secret_ref (tested_row outcome now c) = pc_secret_ref c"
  "pc_status (tested_row outcome now c) = ConnectionActive \<Longrightarrow> po_ok outcome \<or> pc_status c = ConnectionActive"
  by (cases "po_ok outcome"; cases "po_error_code outcome = Some PROVIDER_AUTH_FAILED";
      simp add: tested_row_def same_connection_def)+

lemma record_test_effect:
  assumes "record_test t cid ref p outcome now d = Inr (v, d')"
  shows "d' = d \<or> (\<exists>c \<in> set (connections d). pc_id c = cid \<and> pc_tenant_id c = t \<and> pc_secret_ref c = ref \<and> pc_provider c = p \<and>
    d' = save_connection (tested_row outcome now c) d)"
proof -
  from assms obtain c where f: "find_provider_connection_for_update t cid d = Inr (Some c)"
    unfolding record_test_def tx_found_Inr_iff by blast
  with assms have "pc_secret_ref c = ref" "pc_provider c = p" "d' = d \<or> d' = save_connection (tested_row outcome now c) d"
    by (auto simp: record_test_def Let_def result_simps split: if_splits)
  with find_connection_for_update_Some[OF f] show ?thesis by blast
qed

lemma require_active_effect:
  assumes "require_active_provider t cid d = Inr (c, d')"
  shows "d' = d \<and> c \<in> set (connections d) \<and> pc_id c = cid \<and> pc_tenant_id c = t \<and> pc_status c = ConnectionActive"
proof -
  from assms obtain c0 where f: "find_provider_connection_for_update t cid d = Inr (Some c0)"
    unfolding require_active_provider_def tx_found_Inr_iff by blast
  with assms find_connection_for_update_Some[OF f] show ?thesis by (auto simp: require_active_provider_def result_simps)
qed

lemma preflight_same: "preflight u t cid d = Inr (x, d') \<Longrightarrow> d' = d"
  by (auto simp: preflight_def result_simps)

text \<open>Replacing a row keeps all others.\<close>

lemma save_connection_rows:
  assumes "distinct (map pc_id (connections d))" "c \<in> set (connections d)" "pc_id c' = pc_id c"
  shows "mset (connections (save_connection c' d)) = mset (connections d) - {#c#} + {#c'#}"
proof -
  from assms(2) obtain xs ys where L: "connections d = xs @ c # ys" by (meson split_list)
  have "pc_id c \<notin> pc_id ` (set xs \<union> set ys)" using assms(1) by (simp add: L image_Un)
  then have "pc_id x \<noteq> pc_id c'" if "x \<in> set xs \<union> set ys" for x using assms(3) that by (metis imageI)
  then have "map (\<lambda>x. if pc_id x = pc_id c' then c' else x) xs = xs" "map (\<lambda>x. if pc_id x = pc_id c' then c' else x) ys = ys"
    by (auto intro!: map_idI)
  then show ?thesis using assms(3) by (simp add: save_connection_def L)
qed

section \<open>Changes of a good state\<close>

lemma distinct_sub:
  assumes "mset xs \<subseteq># mset ys" "distinct ys"
  shows "distinct xs"
proof -
  from assms(1) obtain M where "mset ys = mset xs + M" unfolding subset_mset.le_iff_add by blast
  moreover obtain zs where "mset zs = M" using ex_mset by blast
  ultimately have "mset (xs @ zs) = mset ys" by simp
  from mset_eq_imp_distinct_iff[OF this] assms(2) show ?thesis by simp
qed

lemma refs_of_split: "mset (refs_of d (xs @ T @ ys)) = mset (map pc_secret_ref (connections d)) +
    (mset (concat (map owned_refs T)) + mset (concat (map owned_refs (xs @ ys))))"
  by (simp add: refs_of_def)

lemma models_in_tenant_iff: "models_in_tenant d \<longleftrightarrow>
    (\<forall>m \<in> set (model_configs d). (mc_provider_connection_id m, mc_tenant_id m) \<in> (\<lambda>c. (pc_id c, pc_tenant_id c)) ` set (connections d))"
  unfolding models_in_tenant_def list_all_iff list_ex_iff image_iff prod.inject by (metis (no_types))

lemma good_drawn_mono: "good invar held g d s T U \<Longrightarrow> U \<subseteq> U' \<Longrightarrow> good invar held g d s T U'"
  unfolding good_def by blast

text \<open>A transaction: the references of the rows and of the task at work are kept or dropped.\<close>

lemma good_transaction:
  assumes ok: "good invar held g d s (xs @ [task] @ ys) U" and schema: "schema_ok d'"
    and refs: "mset (map pc_secret_ref (connections d')) + mset (concat (map owned_refs new)) \<subseteq>#
      mset (map pc_secret_ref (connections d)) + mset (owned_refs task)"
    and rows: "\<And>c. c \<in> set (connections d') \<Longrightarrow> c \<notin> set (connections d) \<Longrightarrow> connection_backed held g s c"
    and tasks: "\<And>n. n \<in> set new \<Longrightarrow> task_ok held g s n \<and> set (tested_refs n) \<subseteq> U"
    and models: "models_in_tenant d'"
  shows "good invar held g d' s (xs @ new @ ys) U"
proof -
  have sub: "mset (refs_of d' (xs @ new @ ys)) \<subseteq># mset (refs_of d (xs @ [task] @ ys))"
    unfolding refs_of_split using refs by (simp add: add.assoc[symmetric])
  have "distinct (refs_of d' (xs @ new @ ys))" using distinct_sub[OF sub] ok by (simp add: good_def)
  moreover have "set (refs_of d' (xs @ new @ ys)) \<subseteq> U"
    using set_mset_mono[OF sub] ok unfolding good_def set_mset_mset by blast
  moreover have "set (concat (map tested_refs (xs @ new @ ys))) \<subseteq> U" using ok tasks by (auto simp: good_def)
  moreover have "\<forall>c \<in> set (connections d'). connection_backed held g s c" using ok rows unfolding good_def by blast
  moreover have "\<forall>n \<in> set (xs @ new @ ys). task_ok held g s n" using ok tasks by (auto simp: good_def)
  ultimately show ?thesis using ok schema models unfolding good_def by blast
qed

lemma task_ok_store:
  assumes "task_ok held g s task" "r \<notin> set (owned_refs task)" "\<And>t r'. r' \<noteq> r \<Longrightarrow> held s' t r' = held s t r'"
    and "r \<notin> set (tested_refs task) \<or> (\<forall>t. held s' t r = None)"
  shows "task_ok held g s' task"
  using assms
proof (cases task)
  case (UpdateRotate t cid request new_ref)
  with assms show ?thesis by (cases new_ref) auto
next
  case (TestRecord t cid ref p outcome)
  show ?thesis
  proof (cases "ref = r")
    case True
    with assms TestRecord show ?thesis by auto
  next
    case False
    with assms(1) assms(3)[of ref t] TestRecord show ?thesis by simp
  qed
qed auto

text \<open>Storing a secret under a new reference.\<close>

lemma good_put:
  assumes ok: "good invar held g d s (xs @ [task] @ ys) U" and inv: "invar s'" and fresh: "r \<notin> U"
    and held: "\<And>t' r'. held s' t' r' = (if r' = r then (if t' = t then Some p else None) else held s t' r')"
    and new: "owned_refs task = []" "owned_refs n = [r]" "tested_refs n = []" "task_ok held g s' n"
  shows "good invar held g d s' (xs @ [n] @ ys) (insert r U)"
proof -
  have refs: "mset (refs_of d (xs @ [n] @ ys)) = mset (r # refs_of d (xs @ [task] @ ys))"
    unfolding refs_of_split mset.simps using new by simp
  have notin: "r \<notin> set (refs_of d (xs @ [task] @ ys))" using ok fresh unfolding good_def by blast
  have keep: "held s' t' r' = held s t' r'" if "r' \<noteq> r" for t' r' using held that by simp
  have "distinct (r # refs_of d (xs @ [task] @ ys))" using ok notin by (simp add: good_def)
  with mset_eq_imp_distinct_iff[OF refs] have "distinct (refs_of d (xs @ [n] @ ys))" by blast
  moreover have "set (refs_of d (xs @ [n] @ ys)) \<subseteq> insert r U"
    using mset_eq_setD[OF refs] ok unfolding good_def by auto
  moreover have "set (concat (map tested_refs (xs @ [n] @ ys))) \<subseteq> insert r U" using ok new by (auto simp: good_def)
  moreover have "\<forall>t' r'. held s' t' r' \<noteq> None \<longrightarrow> r' \<in> insert r U" using ok held by (auto simp: good_def)
  moreover have "connection_backed held g s' c" if "c \<in> set (connections d)" for c
  proof -
    have "pc_secret_ref c \<noteq> r" using notin that by (auto simp: refs_of_def)
    moreover have "connection_backed held g s c" using ok that by (simp add: good_def)
    ultimately show ?thesis unfolding connection_backed_def by (simp add: keep)
  qed
  moreover have "task_ok held g s' m" if "m \<in> set xs \<union> set ys" for m
  proof (rule task_ok_store[where r = r])
    show "task_ok held g s m" using ok that by (auto simp: good_def)
    show "r \<notin> set (owned_refs m)" using notin that by (auto simp: refs_of_def)
    show "r \<notin> set (tested_refs m) \<or> (\<forall>t. held s' t r = None)" using ok fresh that by (auto simp: good_def)
  qed (rule keep)
  ultimately show ?thesis using ok inv new unfolding good_def by simp
qed

text \<open>Deleting a secret no row and no other task refers to.\<close>

lemma good_drop:
  assumes ok: "good invar held g d s (xs @ [task] @ ys) U" and inv: "invar s'"
    and held: "\<And>t' r'. held s' t' r' = (if r' = r then None else held s t' r')" and own: "owned_refs task = [r]"
  shows "good invar held g d s' (xs @ [] @ ys) U"
proof -
  have sub: "mset (r # refs_of d (xs @ [] @ ys)) \<subseteq># mset (refs_of d (xs @ [task] @ ys))"
    unfolding refs_of_split mset.simps using own by simp
  have d: "distinct (r # refs_of d (xs @ [] @ ys))" using distinct_sub[OF sub] ok by (simp add: good_def)
  then have notin: "r \<notin> set (refs_of d (xs @ [] @ ys))" by simp
  have keep: "held s' t' r' = held s t' r'" if "r' \<noteq> r" for t' r' using held that by simp
  have "set (refs_of d (xs @ [] @ ys)) \<subseteq> U" using set_mset_mono[OF sub] ok unfolding good_def set_mset_mset by auto
  moreover have "set (concat (map tested_refs (xs @ [] @ ys))) \<subseteq> U" using ok by (auto simp: good_def)
  moreover have "\<forall>t' r'. held s' t' r' \<noteq> None \<longrightarrow> r' \<in> U" using ok held by (auto simp: good_def)
  moreover have "connection_backed held g s' c" if "c \<in> set (connections d)" for c
  proof -
    have "pc_secret_ref c \<noteq> r" using notin that by (auto simp: refs_of_def)
    moreover have "connection_backed held g s c" using ok that by (simp add: good_def)
    ultimately show ?thesis unfolding connection_backed_def by (simp add: keep)
  qed
  moreover have "task_ok held g s' m" if "m \<in> set xs \<union> set ys" for m
  proof (rule task_ok_store[where r = r])
    show "task_ok held g s m" using ok that by (auto simp: good_def)
    show "r \<notin> set (owned_refs m)" using notin that by (auto simp: refs_of_def)
    show "r \<notin> set (tested_refs m) \<or> (\<forall>t. held s' t r = None)" using held by simp
  qed (rule keep)
  ultimately show ?thesis using ok inv d unfolding good_def by simp
qed

lemma save_connection_models:
  assumes "same_connection c c'" "c \<in> set (connections d)" "distinct (map pc_id (connections d))" "models_in_tenant d"
  shows "models_in_tenant (save_connection c' d)"
proof -
  have "x = c" if "x \<in> set (connections d)" "pc_id x = pc_id c'" for x
    using assms(1-3) that by (metis distinct_map inj_onD same_connection_def)
  then have "pc_tenant_id x = pc_tenant_id c'" if "x \<in> set (connections d)" "pc_id x = pc_id c'" for x
    using that assms(1) by (simp add: same_connection_def)
  then have "map (\<lambda>x. (pc_id x, pc_tenant_id x)) (connections (save_connection c' d)) = map (\<lambda>x. (pc_id x, pc_tenant_id x)) (connections d)"
    by (simp add: save_connection_def)
  from arg_cong[OF this, of set] have "(\<lambda>x. (pc_id x, pc_tenant_id x)) ` set (connections (save_connection c' d)) =
      (\<lambda>x. (pc_id x, pc_tenant_id x)) ` set (connections d)" by (simp only: set_map)
  moreover have "model_configs (save_connection c' d) = model_configs d" by (simp add: save_connection_def)
  ultimately show ?thesis using assms(4) by (simp only: models_in_tenant_iff)
qed

lemma good_ids: "good invar held g d s T U \<Longrightarrow> distinct (map pc_id (connections d))"
  by (simp add: good_def schema_ok_def providers_ok_def connections_ok_def)

text \<open>One row is replaced; its old and new references are exchanged with the task's.\<close>

lemma good_save:
  assumes ok: "good invar held g d s (xs @ [task] @ ys) U" and c: "c \<in> set (connections d)" "same_connection c c'"
    and schema: "schema_ok (save_connection c' d)" and backed: "connection_backed held g s c'"
    and refs: "{#pc_secret_ref c'#} + mset (concat (map owned_refs new)) \<subseteq># {#pc_secret_ref c#} + mset (owned_refs task)"
    and tasks: "\<And>n. n \<in> set new \<Longrightarrow> task_ok held g s n \<and> set (tested_refs n) \<subseteq> U"
  shows "good invar held g (save_connection c' d) s (xs @ new @ ys) U"
proof (rule good_transaction[OF ok schema _ _ tasks])
  have rows: "mset (connections (save_connection c' d)) = mset (connections d) - {#c#} + {#c'#}"
    using c good_ids[OF ok] by (intro save_connection_rows) (simp_all add: same_connection_def)
  obtain M where M: "mset (connections d) = add_mset c M" using c(1) by (metis mset_add set_mset_mset)
  have "mset (map pc_secret_ref (connections (save_connection c' d))) = image_mset pc_secret_ref M + {#pc_secret_ref c'#}"
    unfolding mset_map rows M by simp
  moreover have "mset (map pc_secret_ref (connections d)) = image_mset pc_secret_ref M + {#pc_secret_ref c#}"
    unfolding mset_map M by simp
  ultimately show "mset (map pc_secret_ref (connections (save_connection c' d))) + mset (concat (map owned_refs new)) \<subseteq>#
      mset (map pc_secret_ref (connections d)) + mset (owned_refs task)"
    using refs by (simp only: add.assoc subset_mset.add_le_cancel_left)
  show "connection_backed held g s x" if "x \<in> set (connections (save_connection c' d))" "x \<notin> set (connections d)" for x
    using that backed by (auto simp: save_connection_def split: if_splits)
  show "models_in_tenant (save_connection c' d)"
    using ok by (intro save_connection_models[OF c(2,1) good_ids[OF ok]]) (simp add: good_def)
qed

section \<open>Model configurations\<close>

text \<open>A configuration is created for, or moved to, an active connection of its own tenant only.\<close>

lemma create_model_body_effect:
  assumes "create_model_body mid u t request now d = Inr (v, d')"
  shows "\<exists>c \<in> set (connections d). pc_tenant_id c = t \<and> pc_status c = ConnectionActive \<and>
    d' = d\<lparr>model_configs := model_configs d @ [add_model_configuration mid t (pc_id c) (mq_alias request) (mq_upstream_model request)
             (mq_purpose request) (mq_enabled request) now]\<rparr>"
  using assms by (auto simp: create_model_body_def Let_def result_simps dest!: require_active_effect)

lemma update_model_body_effect:
  assumes "update_model_body u t mid request now d = Inr (v, d')"
  shows "\<exists>m \<in> set (model_configs d). \<exists>m'. mc_tenant_id m = t \<and> mc_id m' = mc_id m \<and> mc_tenant_id m' = t \<and> d' = save_model m' d \<and>
    (mc_provider_connection_id m' = mc_provider_connection_id m \<or>
     (\<exists>c \<in> set (connections d). pc_tenant_id c = t \<and> pc_status c = ConnectionActive \<and> pc_id c = mc_provider_connection_id m'))"
proof -
  from assms obtain m where f: "find_model_configuration_for_update t mid d = Inr (Some m)"
    unfolding update_model_body_def tx_bind_Inr_iff[of "tx_query (provider_require_permission u t)"] tx_query_Inr_iff tx_found_Inr_iff
    by blast
  have m: "m \<in> set (model_configs d)" "mc_tenant_id m = t"
    using one_or_none_filter[OF f[unfolded find_model_configuration_for_update_def]] by auto
  let ?m = "apply_model_update request now m"
  have keys: "mc_id ?m = mc_id m" "mc_tenant_id ?m = mc_tenant_id m"
    "mc_provider_connection_id ?m = (case mp_provider_connection_id request of None \<Rightarrow> mc_provider_connection_id m | Some p \<Rightarrow> p)"
    by (simp_all add: apply_model_update_def Let_def split: option.splits)
  have d': "d' = save_model ?m d"
    using assms f by (auto simp: update_model_body_def Let_def result_simps dest!: require_active_effect split: if_splits)
  have "\<exists>c \<in> set (connections d). pc_tenant_id c = t \<and> pc_status c = ConnectionActive \<and> pc_id c = p"
    if "mp_provider_connection_id request = Some p" for p
    using assms f that by (auto simp: update_model_body_def Let_def result_simps dest!: require_active_effect)
  with m keys d' show ?thesis by (cases "mp_provider_connection_id request") auto
qed

lemma delete_model_body_effect:
  assumes "delete_model_body u t mid d = Inr (v, d')"
  shows "\<exists>m :: ModelConfiguration. d' = d\<lparr>model_configs := filter (\<lambda>x. mc_id x \<noteq> mc_id m) (model_configs d)\<rparr>"
proof -
  from assms obtain m where f: "find_model_configuration_for_update t mid d = Inr (Some m)"
    unfolding delete_model_body_def tx_bind_Inr_iff[of "tx_query (provider_require_permission u t)"] tx_query_Inr_iff tx_found_Inr_iff
    by blast
  with assms have "d' = d\<lparr>model_configs := filter (\<lambda>x. mc_id x \<noteq> mc_id m) (model_configs d)\<rparr>"
    by (auto simp: delete_model_body_def delete_model_configuration_def result_simps)
  then show ?thesis by blast
qed

text \<open>What a model request keeps.\<close>

definition models_kept :: "db \<Rightarrow> db \<Rightarrow> bool" where
  "models_kept d d' \<longleftrightarrow> connections d' = connections d \<and> (schema_ok d \<longrightarrow> schema_ok d') \<and>
     (models_in_tenant d \<longrightarrow> models_in_tenant d')"

lemma models_kept_txn:
  assumes "in_txn co m d = (r, d')"
    and "\<And>x e. m d = Inr (x, e) \<Longrightarrow> connections e = connections d \<and> (models_in_tenant d \<longrightarrow> models_in_tenant e)"
  shows "models_kept d d'"
  using assms(1) by (rule in_txn_invariant) (use assms(2) in \<open>auto simp: models_kept_def\<close>)

lemma create_model_kept:
  assumes "create_model co mid u t request now d = (r, d')"
  shows "models_kept d d'"
proof -
  obtain r1 where "in_txn co (create_model_body mid u t request now) d = (r1, d')"
    using assms by (auto simp: create_model_def split: prod.splits sum.splits)
  then show ?thesis
  proof (rule models_kept_txn)
    fix x e assume "create_model_body mid u t request now d = Inr (x, e)"
    from create_model_body_effect[OF this] obtain c where c: "c \<in> set (connections d)" "pc_tenant_id c = t"
      and e: "e = d\<lparr>model_configs := model_configs d @ [add_model_configuration mid t (pc_id c) (mq_alias request)
        (mq_upstream_model request) (mq_purpose request) (mq_enabled request) now]\<rparr>" by blast
    have "(pc_id c, t) \<in> (\<lambda>c. (pc_id c, pc_tenant_id c)) ` set (connections d)" 
      using imageI[OF c(1), of "\<lambda>c. (pc_id c, pc_tenant_id c)"] c(2) by (simp only:)
    then show "connections e = connections d \<and> (models_in_tenant d \<longrightarrow> models_in_tenant e)"
      by (simp add: e models_in_tenant_iff add_model_configuration_def)
  qed
qed

lemma update_model_kept:
  assumes "update_model co u t mid request now d = (r, d')"
  shows "models_kept d d'"
  using assms unfolding update_model_def
proof (rule models_kept_txn)
  fix x e assume "update_model_body u t mid request now d = Inr (x, e)"
  from update_model_body_effect[OF this] obtain m m' where m: "m \<in> set (model_configs d)" "mc_tenant_id m = t" "mc_tenant_id m' = t"
    and e: "e = save_model m' d" and p: "mc_provider_connection_id m' = mc_provider_connection_id m \<or>
     (\<exists>c \<in> set (connections d). pc_tenant_id c = t \<and> pc_status c = ConnectionActive \<and> pc_id c = mc_provider_connection_id m')" by blast
  let ?keys = "(\<lambda>c. (pc_id c, pc_tenant_id c)) ` set (connections d)"
  have "(mc_provider_connection_id m', mc_tenant_id m') \<in> ?keys" if "models_in_tenant d"
  proof -
    have "(mc_provider_connection_id m, t) \<in> ?keys" using that m by (auto simp: models_in_tenant_iff)
    with p m(3) show ?thesis by (metis (no_types, lifting) imageI)
  qed
  then show "connections e = connections d \<and> (models_in_tenant d \<longrightarrow> models_in_tenant e)"
    by (auto simp: e models_in_tenant_iff save_model_def)
qed

lemma delete_model_kept:
  assumes "delete_model co u t mid d = (r, d')"
  shows "models_kept d d'"
  using assms unfolding delete_model_def
proof (rule models_kept_txn)
  fix x e assume "delete_model_body u t mid d = Inr (x, e)"
  from delete_model_body_effect[OF this] show "connections e = connections d \<and> (models_in_tenant d \<longrightarrow> models_in_tenant e)"
    by (auto simp: models_in_tenant_iff)
qed

section \<open>Pieces of requests\<close>

locale provider_store = tenant_secret_store "so_put S" "so_get S" "so_delete S" invar held
  for S :: "'s secret_ops" and invar held
begin

lemma task_in: "good invar held g d s (xs @ [task] @ ys) U \<Longrightarrow> task_ok held g s task \<and> set (tested_refs task) \<subseteq> U"
  by (auto simp: good_def)

lemma good_unchanged:
  assumes "good invar held g d s (xs @ [task] @ ys) U" "mset (concat (map owned_refs new)) \<subseteq># mset (owned_refs task)"
    and "\<And>n. n \<in> set new \<Longrightarrow> task_ok held g s n \<and> set (tested_refs n) \<subseteq> U"
  shows "good invar held g d s (xs @ new @ ys) U"
  using assms by (intro good_transaction[OF assms(1)]) (auto simp: good_def)

lemma insert_good:
  assumes ok: "good invar held g d s (xs @ [CreateInsert u t request ref] @ ys) U"
    and run: "insert_connection cid t request ref u now d = Inr (v, d')" "schema_ok d'"
  shows "good invar held g d' s (xs @ [] @ ys) U"
proof (rule good_transaction[OF ok run(2)])
  let ?c = "add_provider_connection cid t (pq_provider request) (pq_display_name request) ref u now"
  have d': "d' = d\<lparr>connections := connections d @ [?c]\<rparr>" by (rule insert_connection_effect[OF run(1)])
  show "mset (map pc_secret_ref (connections d')) + mset (concat (map owned_refs [])) \<subseteq>#
      mset (map pc_secret_ref (connections d)) + mset (owned_refs (CreateInsert u t request ref))"
    by (simp add: d' add_provider_connection_def)
  have "held s t ref \<noteq> None" using task_in[OF ok] by simp
  then show "connection_backed held g s c" if "c \<in> set (connections d')" "c \<notin> set (connections d)" for c
    using that by (auto simp: d' connection_backed_def add_provider_connection_def)
  show "models_in_tenant d'" using ok by (auto simp: good_def d' models_in_tenant_iff)
qed simp

lemma rotate_good:
  assumes ok: "good invar held g d s (xs @ [UpdateRotate t cid request new_ref] @ ys) U"
    and run: "rotate_connection t cid request new_ref now d = Inr ((v, old_ref), d')" "schema_ok d'"
  shows "good invar held g d' s
    (xs @ (case old_ref of None \<Rightarrow> [] | Some old \<Rightarrow> if new_ref \<noteq> Some old then [DropSecret t old] else []) @ ys) U"
proof -
  from rotate_connection_effect[OF run(1)] obtain c c' where
    c: "c \<in> set (connections d)" "pc_tenant_id c = t" "same_connection c c'" "d' = save_connection c' d" and
    r: "case new_ref of
       None \<Rightarrow> old_ref = None \<and> pc_secret_ref c' = pc_secret_ref c \<and> pc_status c' = pc_status c
     | Some ref \<Rightarrow> old_ref = Some (pc_secret_ref c) \<and> pc_secret_ref c' = ref \<and> pc_status c' = Untested" by blast
  have c_ok: "connection_backed held g s c" using ok c(1) by (simp add: good_def)
  show ?thesis
    unfolding c(4)
  proof (rule good_save[OF ok c(1,3)])
    show "schema_ok (save_connection c' d)" using run(2) c(4) by simp
    show "connection_backed held g s c'"
      using c_ok task_in[OF ok] r c(2,3) by (cases new_ref) (auto simp: connection_backed_def same_connection_def)
  qed (use r in \<open>auto split: option.splits if_splits\<close>)
qed

lemma delete_good:
  assumes ok: "good invar held g d s (xs @ [task] @ ys) U"
    and run: "delete_connection u t cid d = Inr (ref, d')" "schema_ok d'"
  shows "good invar held g d' s (xs @ [DropSecret t ref] @ ys) U \<and> good invar held g d' s (xs @ [] @ ys) U"
proof -
  from delete_connection_effect[OF run(1)] obtain c where c: "c \<in> set (connections d)" "pc_secret_ref c = ref"
    and d': "d' = d\<lparr>connections := filter (\<lambda>x. pc_id x \<noteq> pc_id c) (connections d)\<rparr>" by blast
  have uniq: "x = c" if "x \<in> set (connections d)" "pc_id x = pc_id c" for x
    using good_ids[OF ok] c(1) that by (metis distinct_map inj_onD)
  have "c \<notin># mset (connections d')" by (simp add: d')
  then have "add_mset c (mset (connections d')) \<subseteq># mset (connections d)"
    using c(1) by (intro insert_subset_eq_iff[THEN iffD2] conjI)
      (auto simp: d' mset_filter multiset_eq_iff intro!: subset_mset.le_diff_conv2[THEN iffD2] mset_subset_eqI)
  then have "image_mset pc_secret_ref (add_mset c (mset (connections d'))) \<subseteq># image_mset pc_secret_ref (mset (connections d))"
    by (rule image_mset_subseteq_mono)
  then have refs: "mset (map pc_secret_ref (connections d')) + {#ref#} \<subseteq># mset (map pc_secret_ref (connections d))"
    using c(2) by simp
  have models: "models_in_tenant d'"
    unfolding models_in_tenant_iff
  proof
    fix m assume m: "m \<in> set (model_configs d')"
    then have "mc_provider_connection_id m \<in> pc_id ` set (connections d')"
      using run(2) by (auto simp: schema_ok_def providers_ok_def model_configs_ok_def list_all_iff)
    moreover have "(mc_provider_connection_id m, mc_tenant_id m) \<in> (\<lambda>c. (pc_id c, pc_tenant_id c)) ` set (connections d)"
      using ok m by (simp add: good_def models_in_tenant_iff d')
    ultimately show "(mc_provider_connection_id m, mc_tenant_id m) \<in> (\<lambda>c. (pc_id c, pc_tenant_id c)) ` set (connections d')"
      by (auto simp: d')
  qed
  have rows: "x \<in> set (connections d') \<Longrightarrow> x \<in> set (connections d)" for x by (simp add: d')
  have "good invar held g d' s (xs @ [DropSecret t ref] @ ys) U"
    by (rule good_transaction[OF ok run(2) _ _ _ models])
      (use refs rows in \<open>auto intro: subset_mset.add_increasing2\<close>)
  moreover have "mset (map pc_secret_ref (connections d')) \<subseteq># mset (map pc_secret_ref (connections d))"
    using refs by (rule subset_mset.order_trans[rotated]) simp
  then have "good invar held g d' s (xs @ [] @ ys) U"
    by (intro good_transaction[OF ok run(2) _ _ _ models]) (use rows in \<open>auto intro: subset_mset.add_increasing2\<close>)
  ultimately show ?thesis by blast
qed

lemma record_good:
  assumes ok: "good invar held g d s (xs @ [TestRecord t cid ref p outcome] @ ys) U"
    and run: "record_test t cid ref p outcome now d = Inr (v, d')" "schema_ok d'"
  shows "good invar held g d' s (xs @ [] @ ys) U"
  using record_test_effect[OF run(1)]
proof
  assume "d' = d"
  then show ?thesis using good_unchanged[OF ok, of "[]"] by simp
next
  assume "\<exists>c \<in> set (connections d). pc_id c = cid \<and> pc_tenant_id c = t \<and> pc_secret_ref c = ref \<and> pc_provider c = p \<and>
    d' = save_connection (tested_row outcome now c) d"
  then obtain c where c: "c \<in> set (connections d)" "pc_tenant_id c = t" "pc_secret_ref c = ref" "pc_provider c = p"
    "d' = save_connection (tested_row outcome now c) d" by blast
  let ?c = "tested_row outcome now c"
  have old: "connection_backed held g s c" using ok c(1) by (simp add: good_def)
  have "connection_backed held g s ?c"
  proof (cases "po_ok outcome")
    case True
    with task_in[OF ok] obtain key where "accepted g t p key" "held s t ref \<in> {None, Some key}" by auto
    with old show ?thesis using tested_row_same(1)[of c outcome now] c
      by (auto simp: connection_backed_def same_connection_def tested_row_same(2))
  next
    case False
    with old tested_row_same(1)[of c outcome now] tested_row_same(3)[of outcome now c] show ?thesis
      by (auto simp: connection_backed_def same_connection_def tested_row_same(2))
  qed
  then show ?thesis
    unfolding c(5)
    by (intro good_save[OF ok c(1) tested_row_same(1)]) (use run(2) c(5) tested_row_same(2) in auto)
qed

text \<open>A transaction whose failure leaves the database as it was.\<close>

lemma in_txn_failed: "in_txn co m d = (Inl e, d') \<Longrightarrow> co \<noteq> CommittedUnacknowledged \<Longrightarrow> d' = d"
  by (cases co) (auto simp: in_txn_def split: if_splits sum.splits prod.splits)

lemma in_txn_read:
  assumes "in_txn co m d = (r, d')" "\<And>x e. m d = Inr (x, e) \<Longrightarrow> e = d"
  shows "d' = d"
  using assms(1) by (cases rule: in_txn_cases) (use assms(2) in auto)

lemma put_good:
  assumes ok: "good invar held g d s (xs @ [task] @ ys) U" and put: "so_put S rnd t p s = (Inr ref, s')"
    and drawn: "''sr_'' @ snd rnd \<notin> U" "list_all ascii (cps (snd rnd))"
    and new: "owned_refs task = []" "owned_refs n = [ref]" "tested_refs n = []"
      "held s' t ref \<noteq> None \<Longrightarrow> task_ok held g s' n"
  shows "good invar held g d s' (xs @ [n] @ ys) (insert (''sr_'' @ snd rnd) U)"
proof -
  have "invar s" using ok by (simp add: good_def)
  from put_held[OF this drawn(2) put] have e: "ref = ''sr_'' @ snd rnd" "invar s'"
    "\<And>t' r'. held s' t' r' = (if r' = ref then (if t' = t then Some p else None) else held s t' r')" by blast+
  show ?thesis unfolding e(1)[symmetric]
    by (rule good_put[OF ok e(2) _ e(3) new(1-3)]) (use drawn e(1) new(4) e(3) in auto)
qed

lemma drop_good:
  assumes ok: "good invar held g d s (xs @ [DropSecret t ref] @ ys) U"
  shows "good invar held g d (snd (cleanup_new_secret S t ref s)) (xs @ [] @ ys) U"
proof -
  obtain r s' where run: "so_delete S t ref s = (r, s')" by fastforce
  then have s': "snd (cleanup_new_secret S t ref s) = s'" by (cases r) (simp_all add: cleanup_new_secret_def)
  have inv: "invar s" using ok by (simp add: good_def)
  show ?thesis unfolding s'
  proof (cases r)
    case (Inl e)
    with delete_fails run have "s' = s" by blast
    then show "good invar held g d s' (xs @ [] @ ys) U" using good_unchanged[OF ok, of "[]"] by simp
  next
    case (Inr u)
    with delete_held[OF inv] run have "invar s'" "\<And>t' r'. held s' t' r' = (if r' = ref then None else held s t' r')"
      by blast+
    then show "good invar held g d s' (xs @ [] @ ys) U" by (rule good_drop[OF ok]) simp
  qed
qed

lemma probe_good:
  assumes ok: "good invar held g d s (xs @ [TestProbe t cid ref p] @ ys) U" and key: "fetch_key S t ref s = Inr key"
  shows "good invar held g d s (xs @ [TestRecord t cid ref p (gateway_test g t p key x)] @ ys) U"
proof (rule good_unchanged[OF ok])
  have "so_get S t ref s = Inr key" using key by (simp add: fetch_key_def split: sum.splits)
  moreover have "invar s" using ok by (simp add: good_def)
  ultimately have "held s t ref = Some key" by (rule fetch_held[rotated])
  then show "task_ok held g s n \<and> set (tested_refs n) \<subseteq> U" if "n \<in> set [TestRecord t cid ref p (gateway_test g t p key x)]" for n
    using that task_in[OF ok] by (auto simp: accepted_def)
qed simp

lemma start_good:
  assumes ok: "good invar held g d s (xs @ [TestCall u t cid] @ ys) U" and run: "start_test u t cid d = Inr (Some (ref, p), d')"
  shows "good invar held g d s (xs @ [TestAdmit u t cid ref p] @ ys) U"
proof (rule good_unchanged[OF ok])
  from start_test_effect[OF run] have "ref \<in> set (refs_of d (xs @ [TestCall u t cid] @ ys))" by (auto simp: refs_of_def)
  then have "ref \<in> U" using ok unfolding good_def by blast
  then show "task_ok held g s n \<and> set (tested_refs n) \<subseteq> U" if "n \<in> set [TestAdmit u t cid ref p]" for n using that by simp
qed simp

lemma good_gone: "good invar held g d s (xs @ [task] @ ys) U \<Longrightarrow> good invar held g d s (xs @ [] @ ys) U"
  by (rule good_unchanged) simp_all

lemma good_next:
  assumes "good invar held g d s (xs @ [task] @ ys) U" "mset (owned_refs n) \<subseteq># mset (owned_refs task)"
    and "task_ok held g s n" "set (tested_refs n) \<subseteq> U"
  shows "good invar held g d s (xs @ [n] @ ys) U"
  using assms by (intro good_unchanged[OF assms(1)]) auto

text \<open>What a piece of work must establish.\<close>

definition piece_good :: "gateway_client \<Rightarrow> 'v valkey \<Rightarrow> provider_task \<Rightarrow> bool" where
  "piece_good g V task \<longleftrightarrow> (\<forall>d s xs ys U ch v new d' s' v'.
     good invar held g d s (xs @ [task] @ ys) U \<and> perform S V g ch task (d, s, v) = (new, d', s', v') \<and>
     (draws task \<longrightarrow> drawn_ref ch \<notin> U \<and> list_all ascii (cps (snd (ch_random ch)))) \<and>
     (compensates task \<longrightarrow> ch_commit ch \<noteq> CommittedUnacknowledged) \<longrightarrow>
     good invar held g d' s' (xs @ new @ ys) (if draws task then insert (drawn_ref ch) U else U))"

lemma create_call_good: "piece_good g V (CreateCall u t request)"
  unfolding piece_good_def
proof (intro allI impI, elim conjE)
  fix d s xs ys U ch v new d' s' v'
  assume ok: "good invar held g d s (xs @ [CreateCall u t request] @ ys) U"
    and run: "perform S V g ch (CreateCall u t request) (d, s, v) = (new, d', s', v')"
  obtain r e where txn: "in_txn (ch_commit ch) (tx_query (provider_require_permission u t)) d = (r, e)" by fastforce
  then have "e = d" by (rule in_txn_read) (auto simp: result_simps)
  with run txn have "d' = d" "s' = s" "new = [] \<or> new = [CreatePut u t request]" by (cases r; simp)+
  with good_gone[OF ok] good_next[OF ok, of "CreatePut u t request"]
  show "good invar held g d' s' (xs @ new @ ys) (if draws (CreateCall u t request) then insert (drawn_ref ch) U else U)"
    by (elim disjE) simp_all
qed

lemma update_call_good: "piece_good g V (UpdateCall u t cid request)"
  unfolding piece_good_def
proof (intro allI impI, elim conjE)
  fix d s xs ys U ch v new d' s' v'
  assume ok: "good invar held g d s (xs @ [UpdateCall u t cid request] @ ys) U"
    and run: "perform S V g ch (UpdateCall u t cid request) (d, s, v) = (new, d', s', v')"
  obtain r e where txn: "in_txn (ch_commit ch) (preflight u t cid) d = (r, e)" by fastforce
  then have "e = d" by (rule in_txn_read) (rule preflight_same)
  with run txn have "d' = d" "s' = s" "new = [] \<or> new = [UpdatePut t cid request]" by (cases r; simp)+
  with good_gone[OF ok] good_next[OF ok, of "UpdatePut t cid request"]
  show "good invar held g d' s' (xs @ new @ ys) (if draws (UpdateCall u t cid request) then insert (drawn_ref ch) U else U)"
    by (elim disjE) simp_all
qed

lemma create_put_good: "piece_good g V (CreatePut u t request)"
  unfolding piece_good_def
proof (intro allI impI, elim conjE)
  fix d s xs ys U ch v new d' s' v'
  assume ok: "good invar held g d s (xs @ [CreatePut u t request] @ ys) U"
    and run: "perform S V g ch (CreatePut u t request) (d, s, v) = (new, d', s', v')"
    and drawn: "draws (CreatePut u t request) \<longrightarrow> drawn_ref ch \<notin> U \<and> list_all ascii (cps (snd (ch_random ch)))"
  obtain r s1 where put: "so_put S (ch_random ch) t (pq_api_key request) s = (r, s1)" by fastforce
  show "good invar held g d' s' (xs @ new @ ys) (if draws (CreatePut u t request) then insert (drawn_ref ch) U else U)"
  proof (cases r)
    case (Inl e)
    with put_fails put have "s1 = s" by blast
    with run put Inl good_drawn_mono[OF good_gone[OF ok] subset_insertI] show ?thesis by simp
  next
    case (Inr ref)
    with run put put_good[OF ok put[unfolded Inr], of "CreateInsert u t request ref"] drawn show ?thesis by simp
  qed
qed

lemma update_put_good: "piece_good g V (UpdatePut t cid request)"
  unfolding piece_good_def
proof (intro allI impI, elim conjE)
  fix d s xs ys U ch v new d' s' v'
  assume ok: "good invar held g d s (xs @ [UpdatePut t cid request] @ ys) U"
    and run: "perform S V g ch (UpdatePut t cid request) (d, s, v) = (new, d', s', v')"
    and drawn: "draws (UpdatePut t cid request) \<longrightarrow> drawn_ref ch \<notin> U \<and> list_all ascii (cps (snd (ch_random ch)))"
  show "good invar held g d' s' (xs @ new @ ys) (if draws (UpdatePut t cid request) then insert (drawn_ref ch) U else U)"
  proof (cases "pu_api_key request")
    case None
    with run good_next[OF ok, of "UpdateRotate t cid request None"] show ?thesis by (simp add: put_replacement_def)
  next
    case (Some k)
    obtain r s1 where put: "so_put S (ch_random ch) t k s = (r, s1)" by fastforce
    show ?thesis
    proof (cases r)
      case (Inl e)
      with put_fails put have "s1 = s" by blast
      with run put Inl Some good_drawn_mono[OF good_gone[OF ok] subset_insertI] show ?thesis by (simp add: put_replacement_def)
    next
      case (Inr ref)
      with run put Some put_good[OF ok put[unfolded Inr], of "UpdateRotate t cid request (Some ref)"] drawn show ?thesis
        by (simp add: put_replacement_def)
    qed
  qed
qed

lemma create_insert_good: "piece_good g V (CreateInsert u t request ref)"
  unfolding piece_good_def
proof (intro allI impI, elim conjE)
  fix d s xs ys U ch v new d' s' v'
  assume ok: "good invar held g d s (xs @ [CreateInsert u t request ref] @ ys) U"
    and run: "perform S V g ch (CreateInsert u t request ref) (d, s, v) = (new, d', s', v')"
    and sure: "compensates (CreateInsert u t request ref) \<longrightarrow> ch_commit ch \<noteq> CommittedUnacknowledged"
  obtain r e where txn: "in_txn (ch_commit ch) (insert_connection (ch_uuid ch) t request ref u (ch_now ch)) d = (r, e)" by fastforce
  show "good invar held g d' s' (xs @ new @ ys) (if draws (CreateInsert u t request ref) then insert (drawn_ref ch) U else U)"
  proof (cases r)
    case (Inl x)
    have "e = d" using in_txn_failed[OF txn[unfolded Inl]] sure by simp
    with run txn Inl good_next[OF ok, of "DropSecret t ref"] show ?thesis by auto
  next
    case (Inr view)
    from in_txn_Inr[OF txn[unfolded Inr]] have "insert_connection (ch_uuid ch) t request ref u (ch_now ch) d = Inr (view, e)"
      "schema_ok e" by blast+
    from insert_good[OF ok this] have "good invar held g e s (xs @ [] @ ys) U" .
    with run txn Inr show ?thesis by simp
  qed
qed

lemma update_rotate_good: "piece_good g V (UpdateRotate t cid request new_ref)"
  unfolding piece_good_def
proof (intro allI impI, elim conjE)
  fix d s xs ys U ch v new d' s' v'
  assume ok: "good invar held g d s (xs @ [UpdateRotate t cid request new_ref] @ ys) U"
    and run: "perform S V g ch (UpdateRotate t cid request new_ref) (d, s, v) = (new, d', s', v')"
    and sure: "compensates (UpdateRotate t cid request new_ref) \<longrightarrow> ch_commit ch \<noteq> CommittedUnacknowledged"
  let ?m = "rotate_connection t cid request new_ref (ch_now ch)"
  obtain r e where txn: "in_txn (ch_commit ch) ?m d = (r, e)" by fastforce
  show "good invar held g d' s' (xs @ new @ ys) (if draws (UpdateRotate t cid request new_ref) then insert (drawn_ref ch) U else U)"
  proof (cases r)
    case (Inr p)
    obtain view old where p: "p = (view, old)" by fastforce
    from in_txn_Inr[OF txn[unfolded Inr p]] have "?m d = Inr ((view, old), e)" "schema_ok e" by blast+
    from rotate_good[OF ok this] run txn Inr p show ?thesis by simp
  next
    case (Inl x)
    show ?thesis
    proof (cases new_ref)
      case (Some ref)
      then have "e = d" using in_txn_failed[OF txn[unfolded Inl]] sure by simp
      with run txn Inl Some good_next[OF ok, of "DropSecret t ref"] show ?thesis by auto
    next
      case None
      have "good invar held g e s (xs @ [] @ ys) U"
        using txn good_gone[OF ok]
      proof (rule in_txn_invariant)
        fix y e' assume y: "?m d = Inr (y, e')" "schema_ok e'"
        obtain view old where p: "y = (view, old)" by fastforce
        with y(1) have "?m d = Inr ((view, old), e')" by simp
        with rotate_connection_effect[OF this] rotate_good[OF ok this y(2)] None
        show "good invar held g e' s (xs @ [] @ ys) U" by auto
      qed
      with run txn Inl None show ?thesis by simp
    qed
  qed
qed

lemma delete_call_good: "piece_good g V (DeleteCall u t cid)"
  unfolding piece_good_def
proof (intro allI impI, elim conjE)
  fix d s xs ys U ch v new d' s' v'
  assume ok: "good invar held g d s (xs @ [DeleteCall u t cid] @ ys) U"
    and run: "perform S V g ch (DeleteCall u t cid) (d, s, v) = (new, d', s', v')"
  obtain r e where txn: "in_txn (ch_commit ch) (delete_connection u t cid) d = (r, e)" by fastforce
  have "good invar held g e s (xs @ [] @ ys) U"
    using txn good_gone[OF ok] by (rule in_txn_invariant) (use delete_good[OF ok] in blast)
  moreover have "good invar held g e s (xs @ [DropSecret t ref] @ ys) U" if "r = Inr ref" for ref
    using in_txn_Inr[OF txn[unfolded that]] delete_good[OF ok] by blast
  ultimately show "good invar held g d' s' (xs @ new @ ys) (if draws (DeleteCall u t cid) then insert (drawn_ref ch) U else U)"
    using run txn by (cases r) auto
qed

lemma drop_secret_good: "piece_good g V (DropSecret t ref)"
  unfolding piece_good_def using drop_good by simp

lemma test_call_good: "piece_good g V (TestCall u t cid)"
  unfolding piece_good_def
proof (intro allI impI, elim conjE)
  fix d s xs ys U ch v new d' s' v'
  assume ok: "good invar held g d s (xs @ [TestCall u t cid] @ ys) U"
    and run: "perform S V g ch (TestCall u t cid) (d, s, v) = (new, d', s', v')"
  obtain r e where txn: "in_txn (ch_commit ch) (start_test u t cid) d = (r, e)" by fastforce
  then have e: "e = d" by (rule in_txn_read) (use start_test_effect in blast)
  show "good invar held g d' s' (xs @ new @ ys) (if draws (TestCall u t cid) then insert (drawn_ref ch) U else U)"
  proof (cases "\<exists>ref p. r = Inr (Some (ref, p))")
    case True
    then obtain ref p where r: "r = Inr (Some (ref, p))" by blast
    from start_good[OF ok] in_txn_Inr[OF txn[unfolded r]] have "good invar held g d s (xs @ [TestAdmit u t cid ref p] @ ys) U" by blast
    with run txn e r show ?thesis by simp
  next
    case False
    with run txn e good_gone[OF ok] show ?thesis by (auto split: sum.splits option.splits)
  qed
qed

lemma test_admit_good: "piece_good g V (TestAdmit u t cid ref p)"
  unfolding piece_good_def
proof (intro allI impI, elim conjE)
  fix d s xs ys U ch v new d' s' v'
  assume ok: "good invar held g d s (xs @ [TestAdmit u t cid ref p] @ ys) U"
    and run: "perform S V g ch (TestAdmit u t cid ref p) (d, s, v) = (new, d', s', v')"
  obtain r v1 where "admit_test V (ch_network ch) t u cid v = (r, v1)" by fastforce
  with run have "d' = d" "s' = s" "new = [] \<or> new = [TestProbe t cid ref p]" by (cases r; simp)+
  with good_gone[OF ok] good_next[OF ok, of "TestProbe t cid ref p"] task_in[OF ok]
  show "good invar held g d' s' (xs @ new @ ys) (if draws (TestAdmit u t cid ref p) then insert (drawn_ref ch) U else U)"
    by (elim disjE) simp_all
qed

lemma test_probe_good: "piece_good g V (TestProbe t cid ref p)"
  unfolding piece_good_def
proof (intro allI impI, elim conjE)
  fix d s xs ys U ch v new d' s' v'
  assume ok: "good invar held g d s (xs @ [TestProbe t cid ref p] @ ys) U"
    and run: "perform S V g ch (TestProbe t cid ref p) (d, s, v) = (new, d', s', v')"
  show "good invar held g d' s' (xs @ new @ ys) (if draws (TestProbe t cid ref p) then insert (drawn_ref ch) U else U)"
    using run probe_good[OF ok] good_gone[OF ok] by (cases "fetch_key S t ref s") auto
qed

lemma test_record_good: "piece_good g V (TestRecord t cid ref p outcome)"
  unfolding piece_good_def
proof (intro allI impI, elim conjE)
  fix d s xs ys U ch v new d' s' v'
  assume ok: "good invar held g d s (xs @ [TestRecord t cid ref p outcome] @ ys) U"
    and run: "perform S V g ch (TestRecord t cid ref p outcome) (d, s, v) = (new, d', s', v')"
  obtain r e where txn: "in_txn (ch_commit ch) (record_test t cid ref p outcome (ch_now ch)) d = (r, e)" by fastforce
  have "good invar held g e s (xs @ [] @ ys) U"
    using txn good_gone[OF ok] by (rule in_txn_invariant) (rule record_good[OF ok])
  with run txn
  show "good invar held g d' s' (xs @ new @ ys) (if draws (TestRecord t cid ref p outcome) then insert (drawn_ref ch) U else U)"
    by simp
qed

lemmas pieces_good = create_call_good create_put_good create_insert_good update_call_good update_put_good update_rotate_good
  delete_call_good drop_secret_good test_call_good test_admit_good test_probe_good test_record_good

lemma piece_good: "piece_good g V task"
  by (cases task) (simp_all only: pieces_good)

text \<open>A model request changes the model configurations only.\<close>

text \<open>A commit that took effect but was not acknowledged: the handler deletes the key the connection now uses.\<close>

lemma compensated_drops_key:
  assumes "invar s"
  shows "\<exists>e s'. compensated S t (Some ref) SQLAlchemyError d s = (Inl e, d, s') \<and>
    (e = ProviderSecretCleanupError \<or> e = SQLAlchemyError \<and> (\<forall>p. so_get S t ref s' \<noteq> Inr p))"
proof -
  obtain r s' where del: "so_delete S t ref s = (r, s')" by fastforce
  have gone: "held s' t ref = None \<and> invar s'" if "r = Inr () \<or> r = Inl SecretNotFoundError"
    using that
  proof
    assume r: "r = Inr ()"
    with delete_held[OF assms] del show ?thesis by auto
  next
    assume r: "r = Inl SecretNotFoundError"
    with delete_fails del delete_missing[OF assms] assms show ?thesis by metis
  qed
  then have lost: "so_get S t ref s' \<noteq> Inr p" if "r = Inr () \<or> r = Inl SecretNotFoundError" for p
    using that fetch_held by fastforce
  show ?thesis
  proof (cases "r = Inr () \<or> r = Inl SecretNotFoundError")
    case True
    with del have "compensated S t (Some ref) SQLAlchemyError d s = (Inl SQLAlchemyError, d, s')"
      by (auto simp: compensated_def cleanup_new_secret_def)
    with lost True show ?thesis by blast
  next
    case False
    then obtain e where "r = Inl e" "e \<noteq> SecretNotFoundError" by (cases r) auto
    with del show ?thesis by (simp add: compensated_def cleanup_new_secret_def)
  qed
qed

lemma create_unacknowledged:
  assumes "invar (snd w)" "\<And>w. invar (snd w) \<Longrightarrow> invar (snd (gap1 w))" "\<And>w. invar (snd w) \<Longrightarrow> invar (snd (gap2 w))"
    and "list_all ascii (cps (snd rnd))"
    and "create_provider S co1 gap1 rnd gap2 Committed cid u t request now w = (Inr v, d, s)"
  shows "\<exists>e s' c. create_provider S co1 gap1 rnd gap2 CommittedUnacknowledged cid u t request now w = (Inl e, d, s') \<and>
    c \<in> set (connections d) \<and> pc_id c = cid \<and> pc_tenant_id c = t \<and>
    (e = ProviderSecretCleanupError \<or> e = SQLAlchemyError \<and> (\<forall>p. so_get S t (pc_secret_ref c) s' \<noteq> Inr p))"
proof -
  from assms(5) obtain x d1 where perm: "in_txn co1 (tx_query (provider_require_permission u t)) (fst w) = (Inr x, d1)"
    unfolding create_provider_def by (auto split: prod.splits sum.splits)
  obtain d2 s2 where g1: "gap1 (d1, snd w) = (d2, s2)" by fastforce
  from assms(5) perm g1 obtain ref s3 where put: "so_put S rnd t (pq_api_key request) s2 = (Inr ref, s3)"
    unfolding create_provider_def by (auto split: prod.splits sum.splits)
  obtain d4 s4 where g2: "gap2 (d2, s3) = (d4, s4)" by fastforce
  obtain r d5 where txn: "in_txn Committed (insert_connection cid t request ref u now) d4 = (r, d5)" by fastforce
  have ins: "in_txn Committed (insert_connection cid t request ref u now) d4 = (Inr v, d)"
    using assms(5) perm g1 put g2 txn unfolding create_provider_def
    by (auto simp: compensated_def split: sum.splits prod.splits)
  then have lost: "in_txn CommittedUnacknowledged (insert_connection cid t request ref u now) d4 = (Inl SQLAlchemyError, d)"
    by (auto simp: in_txn_def split: sum.splits prod.splits if_splits)
  have run: "create_provider S co1 gap1 rnd gap2 CommittedUnacknowledged cid u t request now w =
      compensated S t (Some ref) SQLAlchemyError d s4"
    using perm g1 put g2 lost by (simp add: create_provider_def)
  have "invar s4"
    using assms(2)[of "(d1, snd w)"] assms(3)[of "(d2, s3)"] g1 g2 put_held[OF _ assms(4) put] assms(1) by simp
  note drops = compensated_drops_key[OF this]
  let ?c = "add_provider_connection cid t (pq_provider request) (pq_display_name request) ref u now"
  have "?c \<in> set (connections d)"
    using insert_connection_effect[OF conjunct1[OF in_txn_Inr[OF ins]]] by simp
  moreover have "pc_id ?c = cid" "pc_tenant_id ?c = t" "pc_secret_ref ?c = ref" by (simp_all add: add_provider_connection_def)
  ultimately show ?thesis using drops run by metis
qed

lemma rotation_unacknowledged:
  assumes "invar (snd w)" "\<And>w. invar (snd w) \<Longrightarrow> invar (snd (gap1 w))" "\<And>w. invar (snd w) \<Longrightarrow> invar (snd (gap2 w))"
    and "list_all ascii (cps (snd rnd))" "pu_api_key request = Some key"
    and "update_provider S co1 gap1 rnd gap2 Committed u t cid request now w = (Inr v, d, s)"
  shows "\<exists>e s' c. update_provider S co1 gap1 rnd gap2 CommittedUnacknowledged u t cid request now w = (Inl e, d, s') \<and>
    c \<in> set (connections d) \<and> pc_id c = cid \<and> pc_tenant_id c = t \<and>
    (e = ProviderSecretCleanupError \<or> e = SQLAlchemyError \<and> (\<forall>p. so_get S t (pc_secret_ref c) s' \<noteq> Inr p))"
proof -
  from assms(6) obtain x d1 where pre: "in_txn co1 (preflight u t cid) (fst w) = (Inr x, d1)"
    unfolding update_provider_def by (auto split: prod.splits sum.splits)
  obtain d2 s2 where g1: "gap1 (d1, snd w) = (d2, s2)" by fastforce
  from assms(6) pre g1 obtain ref s3 where put: "so_put S rnd t key s2 = (Inr ref, s3)"
    unfolding update_provider_def put_replacement_def assms(5) by (auto split: prod.splits sum.splits)
  then have rep: "put_replacement S rnd t (pu_api_key request) s2 = (Inr (Some ref), s3)"
    by (simp add: put_replacement_def assms(5))
  obtain d4 s4 where g2: "gap2 (d2, s3) = (d4, s4)" by fastforce
  obtain r d5 where txn: "in_txn Committed (rotate_connection t cid request (Some ref) now) d4 = (r, d5)" by fastforce
  have "\<exists>old. in_txn Committed (rotate_connection t cid request (Some ref) now) d4 = (Inr (v, old), d)"
    using assms(6) pre g1 rep g2 txn unfolding update_provider_def
    by (auto simp: compensated_def split: sum.splits prod.splits)
  then obtain old where rot: "in_txn Committed (rotate_connection t cid request (Some ref) now) d4 = (Inr (v, old), d)" by blast
  then have lost: "in_txn CommittedUnacknowledged (rotate_connection t cid request (Some ref) now) d4 = (Inl SQLAlchemyError, d)"
    by (auto simp: in_txn_def split: sum.splits prod.splits if_splits)
  have run: "update_provider S co1 gap1 rnd gap2 CommittedUnacknowledged u t cid request now w =
      compensated S t (Some ref) SQLAlchemyError d s4"
    using pre g1 rep g2 lost by (simp add: update_provider_def)
  have inv: "invar s4"
    using assms(2)[of "(d1, snd w)"] assms(3)[of "(d2, s3)"] g1 g2 put_held[OF _ assms(4) put] assms(1) by simp
  from rotate_connection_effect[OF conjunct1[OF in_txn_Inr[OF rot]]] obtain c c' where
    c: "c \<in> set (connections d4)" "pc_id c = cid" "pc_tenant_id c = t" "same_connection c c'" "d = save_connection c' d4"
      "pc_secret_ref c' = ref" by auto
  then have "c' \<in> set (connections d)" by (force simp: save_connection_def same_connection_def)
  with compensated_drops_key[OF inv] run c show ?thesis unfolding same_connection_def by metis
qed

lemma good_models: "good invar held g d s T U \<Longrightarrow> models_kept d d' \<Longrightarrow> good invar held g d' s T U"
  by (simp add: good_def refs_of_def models_kept_def)

lemma step_good:
  assumes "provider_step S V g x y" "system_ok invar held g x"
  shows "system_ok invar held g y"
  using assms
proof cases
  case (arrive task)
  have "owned_refs task = []" "tested_refs task = []" "task_ok held g (sy_secrets x) task" using arrive(2) by (cases task; simp)+
  with arrive assms(2) show ?thesis by (auto simp: system_ok_def good_def refs_of_def)
next
  case (work xs task ys ch new d' s' v')
  have "good invar held g (sy_db x) (sy_secrets x) (xs @ [task] @ ys) (sy_drawn x)"
    using assms(2) work(2) by (simp add: system_ok_def)
  with piece_good[of g V task] work(3-5)
  have "good invar held g d' s' (xs @ new @ ys) (if draws task then insert (drawn_ref ch) (sy_drawn x) else sy_drawn x)"
    unfolding piece_good_def by blast
  then show ?thesis using work(1) by (simp add: system_ok_def)
next
  case (stop xs task ys)
  with assms(2) good_gone[of g "sy_db x" "sy_secrets x" xs task ys "sy_drawn x"] show ?thesis by (simp add: system_ok_def)
next
  case (other d')
  then have "models_kept (sy_db x) d'" by (simp add: models_kept_def models_in_tenant_iff)
  with other assms(2) good_models show ?thesis by (simp add: system_ok_def)
qed (use assms(2) good_models create_model_kept update_model_kept delete_model_kept in \<open>simp_all add: system_ok_def\<close>)

lemma run_good: "provider_run S V g x y \<Longrightarrow> system_ok invar held g x \<Longrightarrow> system_ok invar held g y"
  by (induction rule: rtranclp_induct) (auto intro: step_good)

end

section \<open>Requests and their pieces\<close>

text \<open>One request: its pieces in order, with what the others do after each piece.\<close>

fun drive :: "'s secret_ops \<Rightarrow> 'v valkey \<Rightarrow> gateway_client \<Rightarrow> (choices \<times> (db \<times> 's \<times> 'v \<Rightarrow> db \<times> 's \<times> 'v)) list
     \<Rightarrow> provider_task list \<Rightarrow> db \<times> 's \<times> 'v \<Rightarrow> db \<times> 's \<times> 'v" where
  "drive S V g ((ch, gap) # rest) [task] w =
     (case perform S V g ch task w of ([], w') \<Rightarrow> w' | (new, w') \<Rightarrow> drive S V g rest new (gap w'))"
| "drive S V g rest tasks w = w"

definition beside :: "('s world \<Rightarrow> 's world) \<Rightarrow> db \<times> 's \<times> 'v \<Rightarrow> db \<times> 's \<times> 'v" where
  "beside gap = (\<lambda>(d, s, v). case gap (d, s) of (d', s') \<Rightarrow> (d', s', v))"

lemma compensated_world:
  "snd (compensated S t new_ref e d s :: 'a result \<times> 's world) =
     (case new_ref of None \<Rightarrow> (d, s) | Some ref \<Rightarrow> (d, snd (cleanup_new_secret S t ref s)))"
  by (auto simp: compensated_def split: option.splits sum.splits prod.splits)

lemma create_provider_drive:
  "(case snd (create_provider S co1 gap1 rnd gap2 co2 cid u t request now (d, s)) of (d', s') \<Rightarrow> (d', s', v)) =
     drive S V g [(ch\<lparr>ch_commit := co1\<rparr>, beside gap1), (ch\<lparr>ch_random := rnd\<rparr>, beside gap2),
       (ch\<lparr>ch_commit := co2, ch_uuid := cid, ch_now := now\<rparr>, id), (ch, id)] [CreateCall u t request] (d, s, v)"
  by (auto simp: create_provider_def beside_def compensated_world Let_def split: sum.splits prod.splits)

lemma update_provider_drive:
  "(case snd (update_provider S co1 gap1 rnd gap2 co2 u t cid request now (d, s)) of (d', s') \<Rightarrow> (d', s', v)) =
     drive S V g [(ch\<lparr>ch_commit := co1\<rparr>, beside gap1), (ch\<lparr>ch_random := rnd\<rparr>, beside gap2),
       (ch\<lparr>ch_commit := co2, ch_now := now\<rparr>, id), (ch, id)] [UpdateCall u t cid request] (d, s, v)"
  by (auto simp: update_provider_def beside_def compensated_world drop_old_secret_def Let_def split: sum.splits prod.splits option.splits if_splits)

lemma delete_provider_drive:
  "(case snd (delete_provider S co gap u t cid (d, s)) of (d', s') \<Rightarrow> (d', s', v)) =
     drive S V g [(ch\<lparr>ch_commit := co\<rparr>, beside gap), (ch, id)] [DeleteCall u t cid] (d, s, v)"
  by (auto simp: delete_provider_def beside_def Let_def split: sum.splits prod.splits)

lemma test_provider_drive:
  "(case snd (test_provider_connectivity S V g co1 net gap1 x gap2 co2 u t cid now v (d, s)) of (v', d', s') \<Rightarrow> (d', s', v')) =
     drive S V g [(ch\<lparr>ch_commit := co1\<rparr>, id), (ch\<lparr>ch_network := net\<rparr>, beside gap1), (ch\<lparr>ch_uuid := x\<rparr>, beside gap2),
       (ch\<lparr>ch_commit := co2, ch_now := now\<rparr>, id)] [TestCall u t cid] (d, s, v)"
  by (auto simp: test_provider_connectivity_def beside_def Let_def split: sum.splits prod.splits option.splits)

section \<open>The local store\<close>

definition local_ops :: "fernet \<Rightarrow> secret_file secret_ops" where
  "local_ops fn = \<lparr>so_put = (\<lambda>rnd. put_secret fn (fst rnd) (snd rnd)), so_get = get_secret fn, so_delete = delete_secret\<rparr>"

interpretation local_providers: provider_store "local_ops hex_fernet" secret_file_ok "file_held hex_fernet"
  using local_secret_store[OF hex_fernet_ok] by (simp add: provider_store_def local_ops_def)

text \<open>A run of the tasks in the order they are queued, for concrete states.\<close>

fun solo :: "'s secret_ops \<Rightarrow> 'v valkey \<Rightarrow> gateway_client \<Rightarrow> choices list \<Rightarrow> ('s, 'v) provider_system \<Rightarrow> ('s, 'v) provider_system option" where
  "solo S V g [] x = Some x"
| "solo S V g (ch # rest) x =
     (case sy_tasks x of
        [] \<Rightarrow> None
      | task # ys \<Rightarrow>
          if (draws task \<longrightarrow> drawn_ref ch \<notin> sy_drawn x \<and> list_all ascii (cps (snd (ch_random ch)))) \<and>
             (compensates task \<longrightarrow> ch_commit ch \<noteq> CommittedUnacknowledged)
          then (case perform S V g ch task (sy_db x, sy_secrets x, sy_valkey x) of
                  (new, d', s', v') \<Rightarrow>
                    solo S V g rest \<lparr>sy_db = d', sy_secrets = s', sy_valkey = v', sy_tasks = new @ ys,
                      sy_drawn = (if draws task then insert (drawn_ref ch) (sy_drawn x) else sy_drawn x)\<rparr>)
          else None)"

lemma solo_run: "solo S V g chs x = Some y \<Longrightarrow> provider_run S V g x y"
proof (induction chs arbitrary: x)
  case (Cons ch chs)
  then obtain task ys where t: "sy_tasks x = [] @ task # ys" by (auto split: list.splits)
  obtain new d' s' v' where p: "perform S V g ch task (sy_db x, sy_secrets x, sy_valkey x) = (new, d', s', v')"
    by (metis prod.collapse)
  let ?x = "\<lparr>sy_db = d', sy_secrets = s', sy_valkey = v', sy_tasks = [] @ new @ ys,
    sy_drawn = (if draws task then insert (drawn_ref ch) (sy_drawn x) else sy_drawn x)\<rparr>"
  have c: "draws task \<Longrightarrow> drawn_ref ch \<notin> sy_drawn x \<and> list_all ascii (cps (snd (ch_random ch)))"
    "compensates task \<Longrightarrow> ch_commit ch \<noteq> CommittedUnacknowledged" and rest: "solo S V g chs ?x = Some y"
    using Cons.prems t p by (auto split: if_splits)
  from provider_step.work[OF t p c] have "provider_step S V g x ?x" .
  with Cons.IH[OF rest] show ?case by (rule converse_rtranclp_into_rtranclp[rotated])
qed simp

definition provider_db :: db where
  "provider_db = sample_db\<lparr>
     roles := [\<lparr>ro_id = 20, ro_tenant_id = None, ro_key = ''owner'', ro_display_name = ''Owner'', ro_is_system = True\<rparr>],
     role_permissions := [\<lparr>rp_role_id = 20, rp_permission_key = ''ai.providers.manage''\<rparr>],
     memberships := [\<lparr>mb_id = 10, mb_tenant_id = 1, mb_user_id = 2, mb_status = Active, mb_created_by_invitation_id = None,
       mb_created_at = 0, mb_updated_at = 0\<rparr>],
     membership_roles := [\<lparr>mr_membership_id = 10, mr_role_id = 20\<rparr>]\<rparr>"

text \<open>A gateway that accepts the keys that start with \<open>sk\<close>.\<close>

definition sample_gateway :: gateway_client where
  "sample_gateway = HttpProviderConnectivityGateway ''http://gw/'' ''tok''
     (\<lambda>url headers payload. case map_of payload ''apiKey'' of
        None \<Rightarrow> GatewayReply 422 None
      | Some key \<Rightarrow> GatewayReply 200 (Some (if startswith key ''sk'' then (True, None) else (False, Some PROVIDER_AUTH_FAILED))))"

definition sample_request :: ProviderCreateRequest where
  "sample_request = \<lparr>pq_provider = Openai, pq_display_name = ''Main'', pq_api_key = ''sk1''\<rparr>"

definition choice :: "commit_outcome \<Rightarrow> string \<Rightarrow> uuid \<Rightarrow> choices" where
  "choice co token i = \<lparr>ch_commit = co, ch_random = (0, token), ch_network = Answered, ch_uuid = i, ch_now = 5\<rparr>"

definition sample_system :: "provider_task list \<Rightarrow> (secret_file, (string \<times> int \<times> int option) list) provider_system" where
  "sample_system T = \<lparr>sy_db = provider_db, sy_secrets = empty_file, sy_valkey = [], sy_tasks = T, sy_drawn = {}\<rparr>"

lemma provider_store_of: "tenant_secret_store (so_put S) (so_get S) (so_delete S) invar held \<Longrightarrow> provider_store S invar held"
  by (simp add: provider_store_def)

lemma local_laws: "tenant_secret_store (so_put (local_ops hex_fernet)) (so_get (local_ops hex_fernet)) (so_delete (local_ops hex_fernet))
    secret_file_ok (file_held hex_fernet)"
  using local_providers.tenant_secret_store_axioms .

lemma sample_system_ok:
  assumes "list_all is_call T"
  shows "system_ok secret_file_ok (file_held hex_fernet) g (sample_system T)"
proof -
  have db: "schema_ok provider_db" "connections provider_db = []" "model_configs provider_db = []" by code_simp+
  have "owned_refs task = [] \<and> tested_refs task = [] \<and> task_ok (file_held hex_fernet) g empty_file task" if "is_call task" for task
    using that by (cases task) simp_all
  with assms have tasks: "concat (map owned_refs T) = []" "concat (map tested_refs T) = []"
    "\<forall>task \<in> set T. task_ok (file_held hex_fernet) g empty_file task" by (auto simp: list_all_iff)
  then have "refs_of provider_db T = []" by (simp only: refs_of_def db list.map append_Nil)
  moreover have "file_held hex_fernet empty_file t r = None" for t r
    by (simp add: file_held_def stored_def read_document_def empty_file_def record_for_def w_get_def cps_inject)
  moreover have "secret_file_ok empty_file" by (simp add: secret_file_ok_def empty_file_def)
  ultimately show ?thesis
    using db tasks unfolding system_ok_def good_def sample_system_def by (simp add: models_in_tenant_def)
qed

definition key_run :: "(secret_file, (string \<times> int \<times> int option) list) provider_system option" where
  "key_run = solo (local_ops hex_fernet) table_valkey sample_gateway (replicate 7 (choice Committed ''a'' 30))
     (sample_system [CreateCall 2 1 sample_request, TestCall 2 1 30])"

lemma key_run_result:
  "(case key_run of None \<Rightarrow> False
    | Some y \<Rightarrow> map (\<lambda>c. (pc_id c, pc_tenant_id c, pc_provider c, pc_secret_ref c, pc_status c)) (connections (sy_db y)) =
        [(30, 1, Openai, ''sr_a'', ConnectionActive)])"
  by code_simp

lemma sample_run_state:
  obtains y c where "provider_run (local_ops hex_fernet) table_valkey sample_gateway
      (sample_system [CreateCall 2 1 sample_request, TestCall 2 1 30]) y"
    "key_run = Some y" "connections (sy_db y) = [c]" "pc_id c = 30" "pc_tenant_id c = 1" "pc_provider c = Openai" "pc_secret_ref c = ''sr_a''"
    "pc_status c = ConnectionActive"
proof -
  from key_run_result obtain y where y: "key_run = Some y"
    "map (\<lambda>c. (pc_id c, pc_tenant_id c, pc_provider c, pc_secret_ref c, pc_status c)) (connections (sy_db y)) =
        [(30, 1, Openai, ''sr_a'', ConnectionActive)]" by (auto split: option.splits)
  then obtain c where c: "connections (sy_db y) = [c]" by (auto simp: map_eq_Cons_conv)
  show thesis by (rule that[of y c]) (use y c solo_run in \<open>auto simp: key_run_def\<close>)
qed

section \<open>Properties\<close>



text \<open>
  C31: A model configuration always belongs to a connection of its own tenant, whatever provider and
  model requests run at the same time.
\<close>

theorem models_stay_in_tenant:
  assumes "tenant_secret_store (so_put S) (so_get S) (so_delete S) invar held" and "system_ok invar held g x"
    and "provider_run S V g x y" and "m \<in> set (model_configs (sy_db y))"
  shows "\<exists>c \<in> set (connections (sy_db y)). pc_id c = mc_provider_connection_id m \<and> pc_tenant_id c = mc_tenant_id m"
  using provider_store.run_good[OF provider_store_of[OF assms(1)] assms(3,2)] assms(4)
  by (auto simp: system_ok_def good_def models_in_tenant_def list_all_iff list_ex_iff)

definition model_request :: "string \<Rightarrow> ModelConfigurationCreateRequest" where
  "model_request alias = \<lparr>mq_provider_connection_id = 30, mq_alias = alias, mq_upstream_model = ''gpt'', mq_purpose = Generation,
     mq_enabled = True\<rparr>"

definition add_model :: "(secret_file, (string \<times> int \<times> int option) list) provider_system \<Rightarrow> ModelConfigurationView result \<times> db" where
  "add_model y = create_model Committed 40 2 1 (model_request ''chat'') 6 (sy_db y)"

theorem models_stay_in_tenant_witness:
  "\<exists>y r d m c. key_run = Some y \<and> add_model y = (r, d) \<and> model_configs d = [m] \<and> mc_tenant_id m = 1 \<and>
     c \<in> set (connections d) \<and> pc_id c = mc_provider_connection_id m \<and> pc_tenant_id c = 1"
proof -
  obtain y where y: "provider_run (local_ops hex_fernet) table_valkey sample_gateway
      (sample_system [CreateCall 2 1 sample_request, TestCall 2 1 30]) y" "key_run = Some y"
    by (rule sample_run_state) blast
  have "(case key_run of None \<Rightarrow> False | Some y \<Rightarrow> map mc_tenant_id (model_configs (snd (add_model y))) = [1])" by code_simp
  then have "map mc_tenant_id (model_configs (snd (add_model y))) = [1]" unfolding y(2) option.case .
  then obtain m where m: "model_configs (snd (add_model y)) = [m]" "mc_tenant_id m = 1" by (auto simp: map_eq_Cons_conv)
  obtain r d where run: "add_model y = (r, d)" by fastforce
  from provider_step.new_model[OF run[unfolded add_model_def]]
  have steps: "provider_run (local_ops hex_fernet) table_valkey sample_gateway
      (sample_system [CreateCall 2 1 sample_request, TestCall 2 1 30]) (y\<lparr>sy_db := d\<rparr>)"
    using y(1) by (rule rtranclp.rtrancl_into_rtrancl[rotated])
  have "list_all is_call [CreateCall 2 1 sample_request, TestCall 2 1 30]" by simp
  from models_stay_in_tenant[OF local_laws sample_system_ok[OF this] steps, of m] m run obtain c where
    "c \<in> set (connections d)" "pc_id c = mc_provider_connection_id m" "pc_tenant_id c = 1" by auto
  with y(2) m run show ?thesis by (metis snd_conv)
qed

text \<open>
  Each provider request is exactly the sequence of its pieces, with whatever the other requests do
  between them; no outcome of a transaction, of the store or of Valkey makes a difference.
\<close>

theorem requests_are_their_pieces:
  "(case snd (create_provider S co1 gap1 rnd gap2 co2 cid u t create_request now (d, s)) of (d', s') \<Rightarrow> (d', s', v)) =
     drive S V g [(ch\<lparr>ch_commit := co1\<rparr>, beside gap1), (ch\<lparr>ch_random := rnd\<rparr>, beside gap2),
       (ch\<lparr>ch_commit := co2, ch_uuid := cid, ch_now := now\<rparr>, id), (ch, id)] [CreateCall u t create_request] (d, s, v) \<and>
   (case snd (update_provider S co1 gap1 rnd gap2 co2 u t cid update_request now (d, s)) of (d', s') \<Rightarrow> (d', s', v)) =
     drive S V g [(ch\<lparr>ch_commit := co1\<rparr>, beside gap1), (ch\<lparr>ch_random := rnd\<rparr>, beside gap2),
       (ch\<lparr>ch_commit := co2, ch_now := now\<rparr>, id), (ch, id)] [UpdateCall u t cid update_request] (d, s, v) \<and>
   (case snd (delete_provider S co1 gap1 u t cid (d, s)) of (d', s') \<Rightarrow> (d', s', v)) =
     drive S V g [(ch\<lparr>ch_commit := co1\<rparr>, beside gap1), (ch, id)] [DeleteCall u t cid] (d, s, v) \<and>
   (case snd (test_provider_connectivity S V g co1 net gap1 i gap2 co2 u t cid now v (d, s)) of (v', d', s') \<Rightarrow> (d', s', v')) =
     drive S V g [(ch\<lparr>ch_commit := co1\<rparr>, id), (ch\<lparr>ch_network := net\<rparr>, beside gap1), (ch\<lparr>ch_uuid := i\<rparr>, beside gap2),
       (ch\<lparr>ch_commit := co2, ch_now := now\<rparr>, id)] [TestCall u t cid] (d, s, v)"
  by (intro conjI create_provider_drive update_provider_drive delete_provider_drive test_provider_drive)

text \<open>
  C32: Take any create or any key rotation that would succeed, over any store that keeps the laws of
  tenant secrets and with other requests at work in the gaps.  If in the same run the metadata
  transaction commits but its acknowledgement is lost, the request fails and the committed database
  is the same; unless deleting the new key fails as well (\<open>ProviderSecretCleanupError\<close>), the
  connection now refers to a key that can no longer be fetched.
\<close>

theorem unacknowledged_commit_drops_key:
  assumes "tenant_secret_store (so_put S) (so_get S) (so_delete S) invar held" "invar (snd w)" "list_all ascii (cps (snd rnd))"
    and "\<And>w. invar (snd w) \<Longrightarrow> invar (snd (gap1 w))" "\<And>w. invar (snd w) \<Longrightarrow> invar (snd (gap2 w))"
  shows "(create_provider S co1 gap1 rnd gap2 Committed cid u t request now w = (Inr v, d, s) \<longrightarrow>
      (\<exists>e s' c. create_provider S co1 gap1 rnd gap2 CommittedUnacknowledged cid u t request now w = (Inl e, d, s') \<and>
         c \<in> set (connections d) \<and> pc_id c = cid \<and> pc_tenant_id c = t \<and>
         (e = ProviderSecretCleanupError \<or> e = SQLAlchemyError \<and> (\<forall>p. so_get S t (pc_secret_ref c) s' \<noteq> Inr p)))) \<and>
    (update_provider S co1 gap1 rnd gap2 Committed u t cid changes now w = (Inr v, d, s) \<and> pu_api_key changes = Some key \<longrightarrow>
      (\<exists>e s' c. update_provider S co1 gap1 rnd gap2 CommittedUnacknowledged u t cid changes now w = (Inl e, d, s') \<and>
         c \<in> set (connections d) \<and> pc_id c = cid \<and> pc_tenant_id c = t \<and>
         (e = ProviderSecretCleanupError \<or> e = SQLAlchemyError \<and> (\<forall>p. so_get S t (pc_secret_ref c) s' \<noteq> Inr p))))"
proof (intro conjI impI; (elim conjE)?)
  note store = provider_store_of[OF assms(1)]
  show "\<exists>e s' c. create_provider S co1 gap1 rnd gap2 CommittedUnacknowledged cid u t request now w = (Inl e, d, s') \<and>
         c \<in> set (connections d) \<and> pc_id c = cid \<and> pc_tenant_id c = t \<and>
         (e = ProviderSecretCleanupError \<or> e = SQLAlchemyError \<and> (\<forall>p. so_get S t (pc_secret_ref c) s' \<noteq> Inr p))"
    if "create_provider S co1 gap1 rnd gap2 Committed cid u t request now w = (Inr v, d, s)"
    by (rule provider_store.create_unacknowledged[OF store assms(2,4,5,3) that])
  show "\<exists>e s' c. update_provider S co1 gap1 rnd gap2 CommittedUnacknowledged u t cid changes now w = (Inl e, d, s') \<and>
         c \<in> set (connections d) \<and> pc_id c = cid \<and> pc_tenant_id c = t \<and>
         (e = ProviderSecretCleanupError \<or> e = SQLAlchemyError \<and> (\<forall>p. so_get S t (pc_secret_ref c) s' \<noteq> Inr p))"
    if "update_provider S co1 gap1 rnd gap2 Committed u t cid changes now w = (Inr v, d, s)" "pu_api_key changes = Some key"
    by (rule provider_store.rotation_unacknowledged[OF store assms(2,4,5,3) that(2,1)])
qed

definition created_world :: "secret_file world" where
  "created_world = snd (create_provider (local_ops hex_fernet) Committed id (0, ''a'') id Committed 30 2 1 sample_request 5
     (provider_db, empty_file))"

definition rotate_request :: ProviderUpdateRequest where
  "rotate_request = \<lparr>pu_display_name = None, pu_api_key = Some ''sk2''\<rparr>"

abbreviation lost_create :: "commit_outcome \<Rightarrow> ProviderView result \<times> secret_file world" where
  "lost_create co \<equiv> create_provider (local_ops hex_fernet) Committed id (0, ''a'') id co 30 2 1 sample_request 5 (provider_db, empty_file)"

abbreviation lost_rotation :: "commit_outcome \<Rightarrow> ProviderView result \<times> secret_file world" where
  "lost_rotation co \<equiv> update_provider (local_ops hex_fernet) Committed id (0, ''b'') id co 2 1 30 rotate_request 6 created_world"

theorem unacknowledged_commit_drops_key_witness:
  "(\<exists>d s c. lost_create CommittedUnacknowledged = (Inl SQLAlchemyError, d, s) \<and> c \<in> set (connections d) \<and> pc_id c = 30 \<and>
      (\<forall>p. get_secret hex_fernet 1 (pc_secret_ref c) s \<noteq> Inr p)) \<and>
   (\<exists>d s c. lost_rotation CommittedUnacknowledged = (Inl SQLAlchemyError, d, s) \<and> c \<in> set (connections d) \<and> pc_id c = 30 \<and>
      (\<forall>p. get_secret hex_fernet 1 (pc_secret_ref c) s \<noteq> Inr p))"
proof -
  have ok: "isl (fst (lost_create Committed)) = False" "isl (fst (lost_rotation Committed)) = False"
    "fst (lost_create CommittedUnacknowledged) = Inl SQLAlchemyError" "fst (lost_rotation CommittedUnacknowledged) = Inl SQLAlchemyError"
    by code_simp+
  then obtain v d s v' d' s' where runs: "lost_create Committed = (Inr v, d, s)" "lost_rotation Committed = (Inr v', d', s')"
    by (metis prod.collapse sum.collapse(2))
  have asc: "list_all ascii (cps (snd (0 :: nat, ''a'')))" "list_all ascii (cps (snd (0 :: nat, ''b'')))"
    "pu_api_key rotate_request = Some ''sk2''" by code_simp+
  have empty: "secret_file_ok (snd (provider_db, empty_file))" by (simp add: secret_file_ok_def empty_file_def)
  let ?put = "so_put (local_ops hex_fernet) (0, ''a'') 1 ''sk1'' empty_file"
  have put: "isl (fst ?put) = False" "snd created_world = snd ?put" by code_simp+
  then obtain ref where "?put = (Inr ref, snd created_world)" by (metis prod.collapse sum.collapse(2))
  from local_providers.put_held[OF _ asc(1) this] empty have created: "secret_file_ok (snd created_world)" by simp
  have get: "so_get (local_ops hex_fernet) = get_secret hex_fernet" by (simp add: local_ops_def)
  note thms = unacknowledged_commit_drops_key[OF local_laws empty asc(1), of id id]
    unacknowledged_commit_drops_key[OF local_laws created asc(2), of id id]
  show ?thesis
    using thms(1)[THEN conjunct1, rule_format, OF _ _ runs(1)] thms(2)[THEN conjunct2, rule_format, OF _ _ conjI[OF runs(2) asc(3)]]
      ok(3,4) unfolding get by auto
qed

end
