(* ===== verification/Gateway_Contract.thy ===== *)
theory Gateway_Contract
  imports Providers
begin

text \<open>
  \<open>services/llm-gateway/app/schemas/c4.py\<close> and \<open>adapters/base.py\<close>: the provider-neutral contract C-4 of
  the LLM gateway.  Text that providers produce or receive is a list of code points; keys, identifiers
  and fixed messages are strings.

  The SDKs of the providers are arguments of the adapters.  A call fails with an exception of the SDK,
  a stream is the chunks it delivers and the exception it may end with.
\<close>

section \<open>Contract models\<close>

definition MAX_OUTPUT_TOKENS :: int where
  "MAX_OUTPUT_TOKENS = 1500"

definition MAX_TIMEOUT_MS :: int where
  "MAX_TIMEOUT_MS = 20000"

definition EMBEDDING_DIMENSION :: nat where
  "EMBEDDING_DIMENSION = 1536"

definition MAX_EMBEDDING_BATCH_SIZE :: int where
  "MAX_EMBEDDING_BATCH_SIZE = 100"

definition MAX_EMBEDDING_INPUT_CHARS :: int where
  "MAX_EMBEDDING_INPUT_CHARS = 32000"

datatype gateway_purpose = CLASSIFICATION | GENERATION | EVALUATION | EMBEDDING

datatype message_role = SYSTEM | USER | ASSISTANT

text \<open>The five codes are the ones the API reads from the gateway's answer.\<close>

type_synonym gateway_code = connectivity_error

datatype gateway_exn =
    GatewayProviderError gateway_code string
  | GatewayValidationError

type_synonym 'a gateway_result = "gateway_exn + 'a"

definition gw_bind :: "'a gateway_result \<Rightarrow> ('a \<Rightarrow> 'b gateway_result) \<Rightarrow> 'b gateway_result" where
  "gw_bind r f = (case r of Inl e \<Rightarrow> Inl e | Inr x \<Rightarrow> f x)"

definition gw_guard :: "bool \<Rightarrow> gateway_exn \<Rightarrow> unit gateway_result" where
  "gw_guard c e = (if c then Inr () else Inl e)"

lemma gw_bind_simps [simp]: "gw_bind (Inl e) f = Inl e" "gw_bind (Inr x) f = f x"
  by (simp_all add: gw_bind_def)

lemma gw_bind_Inr_iff: "gw_bind r f = Inr y \<longleftrightarrow> (\<exists>x. r = Inr x \<and> f x = Inr y)"
  by (auto simp: gw_bind_def split: sum.splits)

lemma gw_bind_Inl_iff: "gw_bind r f = Inl e \<longleftrightarrow> r = Inl e \<or> (\<exists>x. r = Inr x \<and> f x = Inl e)"
  by (auto simp: gw_bind_def split: sum.splits)

lemma gw_guard_iff: "gw_guard c e = Inr u \<longleftrightarrow> c" "gw_guard c e = Inl e' \<longleftrightarrow> \<not> c \<and> e' = e"
  by (auto simp: gw_guard_def)

lemmas gw_iffs = gw_bind_Inr_iff gw_bind_Inl_iff gw_guard_iff

record GatewayMessage =
  gm_role :: message_role
  gm_content :: utext

type_synonym json_object = "(utext \<times> wjson) list"

record GatewayRequest =
  gr_tenant_id :: uuid
  gr_model_alias :: string
  gr_purpose :: gateway_purpose
  gr_messages :: "GatewayMessage list"
  gr_response_schema :: json_object
  gr_max_output_tokens :: int
  gr_timeout_ms :: int
  gr_stream :: bool
  gr_correlation_id :: string

text \<open>The constraints of the fields, on values whose surrounding whitespace has been stripped.\<close>

definition gateway_request_ok :: "GatewayRequest \<Rightarrow> bool" where
  "gateway_request_ok r \<longleftrightarrow> gr_model_alias r \<noteq> [] \<and> gr_messages r \<noteq> [] \<and> list_all (\<lambda>m. gm_content m \<noteq> []) (gr_messages r) \<and>
     1 \<le> gr_max_output_tokens r \<and> gr_max_output_tokens r \<le> MAX_OUTPUT_TOKENS \<and>
     1 \<le> gr_timeout_ms r \<and> gr_timeout_ms r \<le> MAX_TIMEOUT_MS \<and> gr_correlation_id r \<noteq> []"

definition mk_request :: "GatewayRequest \<Rightarrow> GatewayRequest gateway_result" where
  "mk_request r = (if gateway_request_ok r then Inr r else Inl GatewayValidationError)"

record GatewayUsage =
  gu_input_tokens :: "int option"
  gu_output_tokens :: "int option"

definition non_negative :: "int option \<Rightarrow> bool" where
  "non_negative n = (case n of None \<Rightarrow> True | Some k \<Rightarrow> 0 \<le> k)"

definition mk_usage :: "int option \<Rightarrow> int option \<Rightarrow> GatewayUsage gateway_result" where
  "mk_usage i out =
     (if non_negative i \<and> non_negative out then Inr \<lparr>gu_input_tokens = i, gu_output_tokens = out\<rparr> else Inl GatewayValidationError)"

record GatewayResponse =
  rs_content :: "utext option"
  rs_structured :: json_object
  rs_provider :: provider
  rs_upstream_model :: string
  rs_usage :: GatewayUsage
  rs_finish_reason :: string
  rs_request_id :: "string option"

definition mk_response ::
  "utext option \<Rightarrow> json_object \<Rightarrow> provider \<Rightarrow> string \<Rightarrow> GatewayUsage \<Rightarrow> string \<Rightarrow> string option \<Rightarrow> GatewayResponse gateway_result" where
  "mk_response content structured p upstream_model usage finish_reason request_id =
     (if upstream_model \<noteq> [] \<and> finish_reason \<noteq> []
      then Inr \<lparr>rs_content = content, rs_structured = structured, rs_provider = p, rs_upstream_model = upstream_model,
                rs_usage = usage, rs_finish_reason = finish_reason, rs_request_id = request_id\<rparr>
      else Inl GatewayValidationError)"

record GatewayStreamEvent =
  se_content_delta :: "utext option"
  se_structured_delta :: "json_object option"
  se_finish_reason :: "string option"
  se_usage :: "GatewayUsage option"
  se_request_id :: "string option"

definition content_event :: "utext \<Rightarrow> GatewayStreamEvent" where
  "content_event text_delta = \<lparr>se_content_delta = Some text_delta, se_structured_delta = None, se_finish_reason = None, se_usage = None,
     se_request_id = None\<rparr>"

definition terminal_event ::
  "json_object option \<Rightarrow> string option \<Rightarrow> GatewayUsage option \<Rightarrow> string option \<Rightarrow> GatewayStreamEvent gateway_result" where
  "terminal_event structured finish_reason usage request_id =
     (if structured = None \<and> finish_reason = None \<and> usage = None \<and> request_id = None then Inl GatewayValidationError
      else Inr \<lparr>se_content_delta = None, se_structured_delta = structured, se_finish_reason = finish_reason, se_usage = usage,
                se_request_id = request_id\<rparr>)"

record AdapterContext =
  ac_provider :: provider
  ac_upstream_model :: string
  ac_api_key :: "string option"

definition mk_context :: "provider \<Rightarrow> string \<Rightarrow> string option \<Rightarrow> AdapterContext result" where
  "mk_context p upstream_model key =
     (if strip upstream_model = [] then Inl ValueError
      else Inr \<lparr>ac_provider = p, ac_upstream_model = upstream_model, ac_api_key = key\<rparr>)"

text \<open>An asynchronous generator: the events it yields and the exception it ends with, if any.\<close>

type_synonym event_stream = "GatewayStreamEvent list \<times> gateway_exn option"

definition stream_of :: "GatewayStreamEvent list \<Rightarrow> GatewayStreamEvent list gateway_result \<Rightarrow> event_stream" where
  "stream_of emitted r = (case r of Inl e \<Rightarrow> (emitted, Some e) | Inr rest \<Rightarrow> (emitted @ rest, None))"

section \<open>Failures of the SDKs\<close>

text \<open>
  The exceptions of the OpenAI and Anthropic SDKs: a timeout is a connection error, and every status
  error carries its code; \<open>OtherSdkError\<close> stands for everything else a call may raise.
\<close>

datatype status_class =
    BadRequestError | AuthenticationError | PermissionDeniedError | NotFoundError | ConflictError
  | UnprocessableEntityError | RateLimitError | InternalServerError | PlainStatusError

datatype sdk_error = APITimeoutError | APIConnectionError | APIStatusError status_class int | OtherSdkError

text \<open>The parser of structured output: \<open>TypeAdapter(dict[str, JsonValue]).validate_json\<close>\<close>

type_synonym json_validator = "utext \<Rightarrow> json_object option"

text \<open>Provider failures are fixed texts with one of the five codes.\<close>

definition invalid_request :: "string \<Rightarrow> gateway_exn" where
  "invalid_request message = GatewayProviderError PROVIDER_INVALID_REQUEST message"

definition unavailable :: "string \<Rightarrow> gateway_exn" where
  "unavailable message = GatewayProviderError PROVIDER_UNAVAILABLE message"

text \<open>The credential check every adapter makes before it builds a client.\<close>

definition adapter_key :: "provider \<Rightarrow> string \<Rightarrow> string \<Rightarrow> AdapterContext \<Rightarrow> string gateway_result" where
  "adapter_key p mismatch missing context =
     (if ac_provider context \<noteq> p then Inl (invalid_request mismatch)
      else (case ac_api_key context of
              None \<Rightarrow> Inl (GatewayProviderError PROVIDER_AUTH_FAILED missing)
            | Some key \<Rightarrow> if strip key = [] then Inl (GatewayProviderError PROVIDER_AUTH_FAILED missing) else Inr key))"

end
