(* ===== verification/Gateway_Adapters.thy ===== *)
theory Gateway_Adapters
  imports Complex_Main Gateway_Contract
begin

text \<open>
  \<open>services/llm-gateway/app/adapters\<close>: the OpenAI, Anthropic, Gemini and OpenRouter adapters, their
  translation of a C-4 request into a call of the SDK and of the SDK's answer, stream or exception
  into the contract.
\<close>

section \<open>Shared shapes\<close>

definition role_value :: "message_role \<Rightarrow> string" where
  "role_value r = (case r of SYSTEM \<Rightarrow> ''system'' | USER \<Rightarrow> ''user'' | ASSISTANT \<Rightarrow> ''assistant'')"

definition seconds :: "int \<Rightarrow> rat" where
  "seconds ms = of_int ms / 1000"

text \<open>\<open>str(x)\<close> of an optional finish reason\<close>

definition reason_str :: "string option \<Rightarrow> string" where
  "reason_str r = (case r of None \<Rightarrow> ''None'' | Some s \<Rightarrow> s)"

record stream_state =
  ss_finish_reason :: "string option"
  ss_usage :: "GatewayUsage option"
  ss_request_id :: "string option"
  ss_buffer :: "utext list"
  ss_events :: "GatewayStreamEvent list"

definition fresh_stream :: stream_state where
  "fresh_stream = \<lparr>ss_finish_reason = None, ss_usage = None, ss_request_id = None, ss_buffer = [], ss_events = []\<rparr>"

definition emit :: "utext \<Rightarrow> stream_state \<Rightarrow> stream_state" where
  "emit t st = st\<lparr>ss_events := ss_events st @ [content_event t]\<rparr>"

text \<open>\<open>async for\<close>: the body runs for each item until it raises.\<close>

fun stream_loop :: "('c \<Rightarrow> 's \<Rightarrow> 's \<times> gateway_exn option) \<Rightarrow> 'c list \<Rightarrow> 's \<Rightarrow> 's \<times> gateway_exn option" where
  "stream_loop body [] st = (st, None)"
| "stream_loop body (c # cs) st =
     (case body c st of (st', Some e) \<Rightarrow> (st', Some e) | (st', None) \<Rightarrow> stream_loop body cs st')"

text \<open>A stream that is opened, consumed and closed with its last events.\<close>

definition consume_stream ::
  "('e \<Rightarrow> gateway_exn) \<Rightarrow> ('c \<Rightarrow> stream_state \<Rightarrow> stream_state \<times> gateway_exn option)
     \<Rightarrow> (stream_state \<Rightarrow> event_stream) \<Rightarrow> 'e + ('c list \<times> 'e option) \<Rightarrow> event_stream" where
  "consume_stream collapse body finish upstream =
     (case upstream of
        Inl e \<Rightarrow> ([], Some (collapse e))
      | Inr (chunks, failure) \<Rightarrow>
          (case stream_loop body chunks fresh_stream of
             (st, Some e) \<Rightarrow> (ss_events st, Some e)
           | (st, None) \<Rightarrow>
               (case failure of Some e \<Rightarrow> (ss_events st, Some (collapse e)) | None \<Rightarrow> finish st)))"

section \<open>Chat completions: OpenAI and OpenRouter\<close>

record chat_call =
  cl_model :: string
  cl_messages :: "(string \<times> utext) list"
  cl_max_completion_tokens :: int
  cl_response_format :: "wjson option"
  cl_stream :: bool
  cl_timeout :: rat

text \<open>What OpenRouter may embed into an answer instead of content.\<close>

datatype router_code = CodeInt int | CodeOther

datatype router_type = ErrorType string | ErrorTypeOther

record router_error =
  re_code :: "router_code option"
  re_metadata :: "router_type option option"

record chat_choice =
  cx_content :: "utext option"
  cx_finish_reason :: "string option"
  cx_error :: "router_error option"
  cx_extra_error :: "router_error option"

record chat_completion =
  cp_id :: "string option"
  cp_choices :: "chat_choice list"
  cp_usage :: "(int option \<times> int option) option"

record chat_chunk =
  ck_id :: string
  ck_choices :: "chat_choice list"
  ck_usage :: "(int option \<times> int option) option"
  ck_error :: "router_error option"
  ck_extra_error :: "router_error option"

record chat_client =
  cc_create :: "chat_call \<Rightarrow> sdk_error + chat_completion"
  cc_stream :: "chat_call \<Rightarrow> sdk_error + (chat_chunk list \<times> sdk_error option)"

text \<open>\<open>AsyncOpenAI(api_key, base_url, timeout, max_retries)\<close>\<close>

type_synonym chat_sdk = "string \<Rightarrow> string option \<Rightarrow> rat \<Rightarrow> nat \<Rightarrow> chat_client"

definition openai_messages :: "GatewayRequest \<Rightarrow> (string \<times> utext) list" where
  "openai_messages request = map (\<lambda>m. (role_value (gm_role m), gm_content m)) (gr_messages request)"

definition response_format :: "GatewayRequest \<Rightarrow> wjson" where
  "response_format request =
     WObj [(cps ''type'', WStr (cps ''json_schema'')),
           (cps ''json_schema'', WObj [(cps ''name'', WStr (cps ''serviq_response'')), (cps ''strict'', WBool True),
              (cps ''schema'', WObj (gr_response_schema request))])]"

definition chat_call_of :: "bool \<Rightarrow> GatewayRequest \<Rightarrow> AdapterContext \<Rightarrow> chat_call" where
  "chat_call_of streaming request context =
     \<lparr>cl_model = ac_upstream_model context, cl_messages = openai_messages request,
      cl_max_completion_tokens = gr_max_output_tokens request,
      cl_response_format = (if gr_response_schema request \<noteq> [] then Some (response_format request) else None),
      cl_stream = streaming, cl_timeout = seconds (gr_timeout_ms request)\<rparr>"

definition chat_usage :: "(int option \<times> int option) option \<Rightarrow> GatewayUsage gateway_result" where
  "chat_usage u = (case u of None \<Rightarrow> mk_usage None None | Some (i, out) \<Rightarrow> mk_usage i out)"

section \<open>OpenAI\<close>

definition openai_client :: "chat_sdk \<Rightarrow> GatewayRequest \<Rightarrow> AdapterContext \<Rightarrow> chat_client gateway_result" where
  "openai_client sdk request context =
     gw_bind (adapter_key Openai ''OpenAI adapter received a non-OpenAI provider context.'' ''OpenAI credentials are unavailable.'' context)
       (\<lambda>key. Inr (sdk key None (seconds (gr_timeout_ms request)) 0))"

definition normalize_openai_error :: "sdk_error \<Rightarrow> gateway_exn" where
  "normalize_openai_error e =
     (case e of
        APITimeoutError \<Rightarrow> GatewayProviderError PROVIDER_TIMEOUT ''OpenAI request timed out.''
      | APIConnectionError \<Rightarrow> unavailable ''OpenAI is unavailable.''
      | APIStatusError cls code \<Rightarrow>
          if cls = AuthenticationError \<or> cls = PermissionDeniedError
          then GatewayProviderError PROVIDER_AUTH_FAILED ''OpenAI authentication failed.''
          else if cls = RateLimitError then GatewayProviderError PROVIDER_RATE_LIMITED ''OpenAI rate limit was reached.''
          else if cls = BadRequestError \<or> cls = NotFoundError \<or> cls = UnprocessableEntityError
          then invalid_request ''OpenAI rejected the request.''
          else if code = 401 \<or> code = 403 then GatewayProviderError PROVIDER_AUTH_FAILED ''OpenAI authentication failed.''
          else if code = 429 then GatewayProviderError PROVIDER_RATE_LIMITED ''OpenAI rate limit was reached.''
          else if code \<ge> 500 then unavailable ''OpenAI is unavailable.''
          else invalid_request ''OpenAI rejected the request.''
      | OtherSdkError \<Rightarrow> unavailable ''OpenAI request failed.'')"

definition openai_normalize_completion ::
  "json_validator \<Rightarrow> chat_completion \<Rightarrow> GatewayRequest \<Rightarrow> AdapterContext \<Rightarrow> GatewayResponse gateway_result" where
  "openai_normalize_completion validate completion request context =
     (case cp_choices completion of
        [] \<Rightarrow> Inl (unavailable ''OpenAI returned no completion choice.'')
      | choice # _ \<Rightarrow>
          gw_bind
            (if gr_response_schema request \<noteq> []
             then (case cx_content choice of
                     None \<Rightarrow> Inl (unavailable ''OpenAI returned no structured response content.'')
                   | Some c \<Rightarrow>
                       (case validate c of
                          None \<Rightarrow> Inl (unavailable ''OpenAI returned malformed structured response content.'')
                        | Some obj \<Rightarrow> Inr (None, obj)))
             else (case cx_content choice of
                     None \<Rightarrow> Inl (unavailable ''OpenAI returned no response content.'')
                   | Some c \<Rightarrow> Inr (Some c, [])))
            (\<lambda>(content, structured).
               gw_bind (chat_usage (cp_usage completion)) (\<lambda>usage.
                 mk_response content structured Openai (ac_upstream_model context) usage
                   (reason_str (cx_finish_reason choice)) (cp_id completion))))"

definition openai_generate ::
  "chat_sdk \<Rightarrow> json_validator \<Rightarrow> GatewayRequest \<Rightarrow> AdapterContext \<Rightarrow> GatewayResponse gateway_result" where
  "openai_generate sdk validate request context =
     gw_bind (gw_guard (\<not> gr_stream request) (invalid_request ''Use the streaming adapter path when stream=true.'')) (\<lambda>_.
     gw_bind (openai_client sdk request context) (\<lambda>client.
       case cc_create client (chat_call_of False request context) of
         Inl e \<Rightarrow> Inl (normalize_openai_error e)
       | Inr completion \<Rightarrow> openai_normalize_completion validate completion request context))"

definition openai_choice :: "chat_choice \<Rightarrow> stream_state \<Rightarrow> stream_state \<times> gateway_exn option" where
  "openai_choice choice st =
     (let st1 = (case cx_content choice of None \<Rightarrow> st | Some c \<Rightarrow> emit c st);
          st2 = (case cx_finish_reason choice of None \<Rightarrow> st1 | Some r \<Rightarrow> st1\<lparr>ss_finish_reason := Some r\<rparr>)
      in (st2, None))"

definition openai_chunk :: "chat_chunk \<Rightarrow> stream_state \<Rightarrow> stream_state \<times> gateway_exn option" where
  "openai_chunk chunk st =
     (let st1 = (if ck_id chunk \<noteq> [] then st\<lparr>ss_request_id := Some (ck_id chunk)\<rparr> else st)
      in case (case ck_usage chunk of
                 None \<Rightarrow> Inr st1
               | Some (i, out) \<Rightarrow> gw_bind (mk_usage i out) (\<lambda>u. Inr (st1\<lparr>ss_usage := Some u\<rparr>))) of
           Inl _ \<Rightarrow> (st1, Some (unavailable ''OpenAI request failed.''))
         | Inr st2 \<Rightarrow> stream_loop openai_choice (ck_choices chunk) st2)"

definition openai_finish :: "stream_state \<Rightarrow> event_stream" where
  "openai_finish st =
     (if ss_finish_reason st = None \<and> ss_usage st = None \<and> ss_request_id st = None
      then (ss_events st, Some (unavailable ''OpenAI stream ended without terminal metadata.''))
      else stream_of (ss_events st)
             (gw_bind (terminal_event None (ss_finish_reason st) (ss_usage st) (ss_request_id st)) (\<lambda>e. Inr [e])))"

definition openai_stream :: "chat_sdk \<Rightarrow> GatewayRequest \<Rightarrow> AdapterContext \<Rightarrow> event_stream" where
  "openai_stream sdk request context =
     (case gw_bind (gw_guard (gr_stream request) (invalid_request ''Use the non-stream adapter path when stream=false.'')) (\<lambda>_.
             openai_client sdk request context) of
        Inl e \<Rightarrow> ([], Some e)
      | Inr client \<Rightarrow>
          consume_stream normalize_openai_error openai_chunk openai_finish (cc_stream client (chat_call_of True request context)))"

section \<open>OpenRouter\<close>

definition OPENROUTER_BASE_URL :: string where
  "OPENROUTER_BASE_URL = ''https://openrouter.ai/api/v1''"

definition openrouter_client :: "chat_sdk \<Rightarrow> GatewayRequest \<Rightarrow> AdapterContext \<Rightarrow> chat_client gateway_result" where
  "openrouter_client sdk request context =
     gw_bind (adapter_key Openrouter ''OpenRouter adapter received a non-OpenRouter provider context.''
       ''OpenRouter credentials are unavailable.'' context)
       (\<lambda>key. Inr (sdk key (Some OPENROUTER_BASE_URL) (seconds (gr_timeout_ms request)) 0))"

definition embedded_error :: "router_error option \<Rightarrow> router_error option \<Rightarrow> router_error option" where
  "embedded_error direct extra = (case direct of None \<Rightarrow> extra | Some e \<Rightarrow> Some e)"

definition normalize_embedded_openrouter_error :: "router_error \<Rightarrow> gateway_exn" where
  "normalize_embedded_openrouter_error err =
     (let code = (case re_code err of Some (CodeInt n) \<Rightarrow> Some n | _ \<Rightarrow> None);
          error_type = (case re_metadata err of Some (Some (ErrorType s)) \<Rightarrow> Some s | _ \<Rightarrow> None)
      in case error_type of
           Some ty \<Rightarrow>
             if ty \<in> {''authentication'', ''permission_denied''}
             then GatewayProviderError PROVIDER_AUTH_FAILED ''OpenRouter authentication failed.''
             else if ty = ''rate_limit_exceeded'' then GatewayProviderError PROVIDER_RATE_LIMITED ''OpenRouter rate limit was reached.''
             else if ty = ''timeout'' then GatewayProviderError PROVIDER_TIMEOUT ''OpenRouter request timed out.''
             else if ty \<in> {''provider_overloaded'', ''provider_unavailable'', ''server'', ''unmapped''}
             then unavailable ''OpenRouter is unavailable.''
             else invalid_request ''OpenRouter rejected the request.''
         | None \<Rightarrow>
             (case code of
                None \<Rightarrow> unavailable ''OpenRouter request failed.''
              | Some n \<Rightarrow>
                  if n \<in> {401, 403} then GatewayProviderError PROVIDER_AUTH_FAILED ''OpenRouter authentication failed.''
                  else if n = 429 then GatewayProviderError PROVIDER_RATE_LIMITED ''OpenRouter rate limit was reached.''
                  else if n = 408 then GatewayProviderError PROVIDER_TIMEOUT ''OpenRouter request timed out.''
                  else if n \<ge> 500 then unavailable ''OpenRouter is unavailable.''
                  else if 400 \<le> n \<and> n < 500 then invalid_request ''OpenRouter rejected the request.''
                  else unavailable ''OpenRouter request failed.''))"

definition normalize_openrouter_error :: "sdk_error \<Rightarrow> gateway_exn" where
  "normalize_openrouter_error e =
     (case e of
        APITimeoutError \<Rightarrow> GatewayProviderError PROVIDER_TIMEOUT ''OpenRouter request timed out.''
      | APIConnectionError \<Rightarrow> unavailable ''OpenRouter is unavailable.''
      | APIStatusError cls code \<Rightarrow>
          if cls = AuthenticationError \<or> cls = PermissionDeniedError
          then GatewayProviderError PROVIDER_AUTH_FAILED ''OpenRouter authentication failed.''
          else if cls = RateLimitError then GatewayProviderError PROVIDER_RATE_LIMITED ''OpenRouter rate limit was reached.''
          else if cls = BadRequestError \<or> cls = NotFoundError \<or> cls = UnprocessableEntityError
          then invalid_request ''OpenRouter rejected the request.''
          else if code = 401 \<or> code = 403 then GatewayProviderError PROVIDER_AUTH_FAILED ''OpenRouter authentication failed.''
          else if code = 429 then GatewayProviderError PROVIDER_RATE_LIMITED ''OpenRouter rate limit was reached.''
          else if code = 408 then GatewayProviderError PROVIDER_TIMEOUT ''OpenRouter request timed out.''
          else if code \<ge> 500 then unavailable ''OpenRouter is unavailable.''
          else invalid_request ''OpenRouter rejected the request.''
      | OtherSdkError \<Rightarrow> unavailable ''OpenRouter request failed.'')"

text \<open>\<open>except GatewayProviderError: raise; except Exception: raise _normalize_openrouter_error(exc)\<close>\<close>

definition openrouter_caught :: "gateway_exn \<Rightarrow> gateway_exn" where
  "openrouter_caught e = (case e of GatewayProviderError c m \<Rightarrow> e | GatewayValidationError \<Rightarrow> normalize_openrouter_error OtherSdkError)"

definition openrouter_parse_structured :: "json_validator \<Rightarrow> utext \<Rightarrow> json_object gateway_result" where
  "openrouter_parse_structured validate t =
     (if t = [] then Inl (unavailable ''OpenRouter returned no structured response content.'')
      else (case validate t of
              None \<Rightarrow> Inl (unavailable ''OpenRouter returned malformed structured response content.'')
            | Some obj \<Rightarrow> Inr obj))"

definition openrouter_normalize_completion ::
  "json_validator \<Rightarrow> chat_completion \<Rightarrow> GatewayRequest \<Rightarrow> AdapterContext \<Rightarrow> GatewayResponse gateway_result" where
  "openrouter_normalize_completion validate completion request context =
     (case cp_choices completion of
        [] \<Rightarrow> Inl (unavailable ''OpenRouter returned no completion choice.'')
      | choice # _ \<Rightarrow>
          (case embedded_error (cx_error choice) (cx_extra_error choice) of
             Some err \<Rightarrow> Inl (normalize_embedded_openrouter_error err)
           | None \<Rightarrow>
               if reason_str (cx_finish_reason choice) = ''error'' then Inl (unavailable ''OpenRouter generation failed.'')
               else
                 gw_bind
                   (if gr_response_schema request \<noteq> []
                    then (case cx_content choice of
                            None \<Rightarrow> Inl (unavailable ''OpenRouter returned no structured response content.'')
                          | Some c \<Rightarrow> gw_bind (openrouter_parse_structured validate c) (\<lambda>obj. Inr (None, obj)))
                    else (case cx_content choice of
                            None \<Rightarrow> Inl (unavailable ''OpenRouter returned no response content.'')
                          | Some c \<Rightarrow> Inr (Some c, [])))
                   (\<lambda>(content, structured).
                      gw_bind (chat_usage (cp_usage completion)) (\<lambda>usage.
                        mk_response content structured Openrouter (ac_upstream_model context) usage
                          (reason_str (cx_finish_reason choice)) (cp_id completion)))))"

definition openrouter_generate ::
  "chat_sdk \<Rightarrow> json_validator \<Rightarrow> GatewayRequest \<Rightarrow> AdapterContext \<Rightarrow> GatewayResponse gateway_result" where
  "openrouter_generate sdk validate request context =
     gw_bind (gw_guard (\<not> gr_stream request) (invalid_request ''Use the streaming adapter path when stream=true.'')) (\<lambda>_.
     gw_bind (openrouter_client sdk request context) (\<lambda>client.
       case cc_create client (chat_call_of False request context) of
         Inl e \<Rightarrow> Inl (normalize_openrouter_error e)
       | Inr completion \<Rightarrow>
           (case openrouter_normalize_completion validate completion request context of
              Inl e \<Rightarrow> Inl (openrouter_caught e)
            | Inr r \<Rightarrow> Inr r)))"

definition openrouter_choice :: "GatewayRequest \<Rightarrow> chat_choice \<Rightarrow> stream_state \<Rightarrow> stream_state \<times> gateway_exn option" where
  "openrouter_choice request choice st =
     (case embedded_error (cx_error choice) (cx_extra_error choice) of
        Some err \<Rightarrow> (st, Some (normalize_embedded_openrouter_error err))
      | None \<Rightarrow>
          if cx_finish_reason choice = Some ''error''
          then (st, Some (unavailable ''OpenRouter generation failed during streaming.''))
          else
            let st1 = (case cx_finish_reason choice of None \<Rightarrow> st | Some r \<Rightarrow> st\<lparr>ss_finish_reason := Some r\<rparr>)
            in case cx_content choice of
                 None \<Rightarrow> (st1, None)
               | Some c \<Rightarrow>
                   if gr_response_schema request \<noteq> [] then (st1\<lparr>ss_buffer := ss_buffer st1 @ [c]\<rparr>, None) else (emit c st1, None))"

definition openrouter_chunk :: "GatewayRequest \<Rightarrow> chat_chunk \<Rightarrow> stream_state \<Rightarrow> stream_state \<times> gateway_exn option" where
  "openrouter_chunk request chunk st =
     (case embedded_error (ck_error chunk) (ck_extra_error chunk) of
        Some err \<Rightarrow> (st, Some (normalize_embedded_openrouter_error err))
      | None \<Rightarrow>
          (let st1 = (if ck_id chunk \<noteq> [] then st\<lparr>ss_request_id := Some (ck_id chunk)\<rparr> else st)
           in case (case ck_usage chunk of
                      None \<Rightarrow> Inr st1
                    | Some (i, out) \<Rightarrow> gw_bind (mk_usage i out) (\<lambda>u. Inr (st1\<lparr>ss_usage := Some u\<rparr>))) of
                Inl e \<Rightarrow> (st1, Some (openrouter_caught e))
              | Inr st2 \<Rightarrow> stream_loop (openrouter_choice request) (ck_choices chunk) st2))"

definition openrouter_finish :: "json_validator \<Rightarrow> GatewayRequest \<Rightarrow> stream_state \<Rightarrow> event_stream" where
  "openrouter_finish validate request st =
     (if ss_finish_reason st = None \<and> ss_usage st = None \<and> ss_request_id st = None
      then (ss_events st, Some (unavailable ''OpenRouter stream ended without terminal metadata.''))
      else stream_of (ss_events st)
             (if gr_response_schema request \<noteq> []
              then gw_bind (openrouter_parse_structured validate (concat (ss_buffer st))) (\<lambda>obj.
                   gw_bind (terminal_event (Some obj) (ss_finish_reason st) (ss_usage st) (ss_request_id st)) (\<lambda>e. Inr [e]))
              else gw_bind (terminal_event None (ss_finish_reason st) (ss_usage st) (ss_request_id st)) (\<lambda>e. Inr [e])))"

definition openrouter_stream :: "chat_sdk \<Rightarrow> json_validator \<Rightarrow> GatewayRequest \<Rightarrow> AdapterContext \<Rightarrow> event_stream" where
  "openrouter_stream sdk validate request context =
     (case gw_bind (gw_guard (gr_stream request) (invalid_request ''Use the non-stream adapter path when stream=false.'')) (\<lambda>_.
             openrouter_client sdk request context) of
        Inl e \<Rightarrow> ([], Some e)
      | Inr client \<Rightarrow>
          consume_stream normalize_openrouter_error (openrouter_chunk request) (openrouter_finish validate request)
            (cc_stream client (chat_call_of True request context)))"

section \<open>Leading system messages: Anthropic and Gemini\<close>

text \<open>
  Both adapters move the leading system messages into a field of their own and refuse a system message
  after the conversation has started, or a conversation without messages.
\<close>

fun split_messages :: "gateway_exn \<Rightarrow> GatewayMessage list \<Rightarrow> utext list \<Rightarrow> (message_role \<times> utext) list
     \<Rightarrow> (utext list \<times> (message_role \<times> utext) list) gateway_result" where
  "split_messages late [] systems messages = Inr (systems, messages)"
| "split_messages late (m # ms) systems messages =
     (if gm_role m = SYSTEM
      then if messages \<noteq> [] then Inl late else split_messages late ms (systems @ [gm_content m]) messages
      else split_messages late ms systems (messages @ [(gm_role m, gm_content m)]))"

definition translate_messages :: "gateway_exn \<Rightarrow> gateway_exn \<Rightarrow> GatewayRequest
     \<Rightarrow> (utext option \<times> (message_role \<times> utext) list) gateway_result" where
  "translate_messages late none request =
     gw_bind (split_messages late (gr_messages request) [] []) (\<lambda>(systems, messages).
     gw_bind (gw_guard (messages \<noteq> []) none) (\<lambda>_.
       Inr (if systems \<noteq> [] then Some (u_join [10, 10] systems) else None, messages)))"

section \<open>Anthropic\<close>

record anthropic_call =
  al_model :: string
  al_max_tokens :: int
  al_messages :: "(string \<times> utext) list"
  al_system :: "utext option"
  al_output_config :: "wjson option"
  al_stream :: bool
  al_timeout :: rat

datatype content_block = TextBlock utext | OtherBlock

record anthropic_message =
  am_id :: string
  am_content :: "content_block list"
  am_stop_reason :: "string option"
  am_input_tokens :: int
  am_output_tokens :: int

datatype anthropic_event =
    MessageStart string int
  | TextDelta utext
  | MessageDelta "string option" "int option" int
  | OtherEvent

record anthropic_client =
  an_create :: "anthropic_call \<Rightarrow> sdk_error + anthropic_message"
  an_stream :: "anthropic_call \<Rightarrow> sdk_error + (anthropic_event list \<times> sdk_error option)"

text \<open>\<open>AsyncAnthropic(api_key, timeout, max_retries)\<close>\<close>

type_synonym anthropic_sdk = "string \<Rightarrow> rat \<Rightarrow> nat \<Rightarrow> anthropic_client"

definition anthropic_client_for :: "anthropic_sdk \<Rightarrow> GatewayRequest \<Rightarrow> AdapterContext \<Rightarrow> anthropic_client gateway_result" where
  "anthropic_client_for sdk request context =
     gw_bind (adapter_key Anthropic ''Anthropic adapter received a non-Anthropic provider context.''
       ''Anthropic credentials are unavailable.'' context)
       (\<lambda>key. Inr (sdk key (seconds (gr_timeout_ms request)) 0))"

definition anthropic_translate_messages ::
  "GatewayRequest \<Rightarrow> (utext option \<times> (string \<times> utext) list) gateway_result" where
  "anthropic_translate_messages request =
     gw_bind (translate_messages (invalid_request ''Anthropic requires system messages before conversational messages.'')
         (invalid_request ''Anthropic requires at least one user or assistant message.'') request)
       (\<lambda>(system, messages). Inr (system, map (\<lambda>(r, c). (role_value r, c)) messages))"

definition output_config :: "GatewayRequest \<Rightarrow> wjson" where
  "output_config request =
     WObj [(cps ''format'', WObj [(cps ''type'', WStr (cps ''json_schema'')), (cps ''schema'', WObj (gr_response_schema request))])]"

definition anthropic_call_of ::
  "bool \<Rightarrow> GatewayRequest \<Rightarrow> AdapterContext \<Rightarrow> utext option \<Rightarrow> (string \<times> utext) list \<Rightarrow> anthropic_call" where
  "anthropic_call_of streaming request context system messages =
     \<lparr>al_model = ac_upstream_model context, al_max_tokens = gr_max_output_tokens request, al_messages = messages, al_system = system,
      al_output_config = (if gr_response_schema request \<noteq> [] then Some (output_config request) else None),
      al_stream = streaming, al_timeout = seconds (gr_timeout_ms request)\<rparr>"

definition normalize_anthropic_error :: "sdk_error \<Rightarrow> gateway_exn" where
  "normalize_anthropic_error e =
     (case e of
        APITimeoutError \<Rightarrow> GatewayProviderError PROVIDER_TIMEOUT ''Anthropic request timed out.''
      | APIConnectionError \<Rightarrow> unavailable ''Anthropic is unavailable.''
      | APIStatusError cls code \<Rightarrow>
          if cls = AuthenticationError \<or> cls = PermissionDeniedError
          then GatewayProviderError PROVIDER_AUTH_FAILED ''Anthropic authentication failed.''
          else if cls = RateLimitError then GatewayProviderError PROVIDER_RATE_LIMITED ''Anthropic rate limit was reached.''
          else if cls = BadRequestError \<or> cls = NotFoundError \<or> cls = ConflictError \<or> cls = UnprocessableEntityError
          then invalid_request ''Anthropic rejected the request.''
          else if code = 401 \<or> code = 403 then GatewayProviderError PROVIDER_AUTH_FAILED ''Anthropic authentication failed.''
          else if code = 429 then GatewayProviderError PROVIDER_RATE_LIMITED ''Anthropic rate limit was reached.''
          else if 400 \<le> code \<and> code < 500 then invalid_request ''Anthropic rejected the request.''
          else unavailable ''Anthropic is unavailable.''
      | OtherSdkError \<Rightarrow> unavailable ''Anthropic request failed.'')"

fun text_parts :: "content_block list \<Rightarrow> utext list gateway_result" where
  "text_parts [] = Inr []"
| "text_parts (OtherBlock # bs) = Inl (unavailable ''Anthropic returned an unsupported response content block.'')"
| "text_parts (TextBlock t # bs) = gw_bind (text_parts bs) (\<lambda>ts. Inr (t # ts))"

definition message_text :: "anthropic_message \<Rightarrow> utext gateway_result" where
  "message_text message =
     gw_bind (text_parts (am_content message)) (\<lambda>parts.
       if parts = [] then Inl (unavailable ''Anthropic returned no response content.'') else Inr (concat parts))"

definition normalize_message ::
  "json_validator \<Rightarrow> anthropic_message \<Rightarrow> GatewayRequest \<Rightarrow> AdapterContext \<Rightarrow> GatewayResponse gateway_result" where
  "normalize_message validate message request context =
     gw_bind (message_text message) (\<lambda>t.
     gw_bind (if gr_response_schema request \<noteq> []
              then (case validate t of
                      None \<Rightarrow> Inl (unavailable ''Anthropic returned malformed structured response content.'')
                    | Some obj \<Rightarrow> Inr (None, obj))
              else Inr (Some t, [])) (\<lambda>(content, structured).
       case am_stop_reason message of
         None \<Rightarrow> Inl (unavailable ''Anthropic returned no finish reason.'')
       | Some r \<Rightarrow>
           gw_bind (mk_usage (Some (am_input_tokens message)) (Some (am_output_tokens message))) (\<lambda>usage.
             mk_response content structured Anthropic (ac_upstream_model context) usage r (Some (am_id message)))))"

definition anthropic_generate ::
  "anthropic_sdk \<Rightarrow> json_validator \<Rightarrow> GatewayRequest \<Rightarrow> AdapterContext \<Rightarrow> GatewayResponse gateway_result" where
  "anthropic_generate sdk validate request context =
     gw_bind (gw_guard (\<not> gr_stream request) (invalid_request ''Use the streaming adapter path when stream=true.'')) (\<lambda>_.
     gw_bind (anthropic_client_for sdk request context) (\<lambda>client.
     gw_bind (anthropic_translate_messages request) (\<lambda>(system, messages).
       case an_create client (anthropic_call_of False request context system messages) of
         Inl e \<Rightarrow> Inl (normalize_anthropic_error e)
       | Inr message \<Rightarrow> normalize_message validate message request context)))"

text \<open>The counts of tokens are kept apart until the end of the stream.\<close>

record anthropic_state =
  as_stream :: stream_state
  as_input_tokens :: "int option"
  as_output_tokens :: "int option"

definition anthropic_event_step :: "GatewayRequest \<Rightarrow> anthropic_event \<Rightarrow> anthropic_state \<Rightarrow> anthropic_state \<times> gateway_exn option" where
  "anthropic_event_step request event st =
     (case event of
        MessageStart i n \<Rightarrow> (st\<lparr>as_stream := (as_stream st)\<lparr>ss_request_id := Some i\<rparr>, as_input_tokens := Some n\<rparr>, None)
      | TextDelta t \<Rightarrow>
          if gr_response_schema request \<noteq> []
          then (st\<lparr>as_stream := (as_stream st)\<lparr>ss_buffer := ss_buffer (as_stream st) @ [t]\<rparr>\<rparr>, None)
          else (st\<lparr>as_stream := emit t (as_stream st)\<rparr>, None)
      | MessageDelta r i out \<Rightarrow>
          (let st1 = (case r of None \<Rightarrow> st | Some x \<Rightarrow> st\<lparr>as_stream := (as_stream st)\<lparr>ss_finish_reason := Some x\<rparr>\<rparr>);
               st2 = (case i of None \<Rightarrow> st1 | Some n \<Rightarrow> st1\<lparr>as_input_tokens := Some n\<rparr>)
           in (st2\<lparr>as_output_tokens := Some out\<rparr>, None))
      | OtherEvent \<Rightarrow> (st, None))"

definition anthropic_finish :: "json_validator \<Rightarrow> GatewayRequest \<Rightarrow> anthropic_state \<Rightarrow> event_stream" where
  "anthropic_finish validate request st =
     (let ss = as_stream st
      in case (if gr_response_schema request \<noteq> []
               then (case validate (concat (ss_buffer ss)) of
                       None \<Rightarrow> Inl (unavailable ''Anthropic returned malformed structured response content.'')
                     | Some obj \<Rightarrow> gw_bind (terminal_event (Some obj) None None None) (\<lambda>e. Inr [e]))
               else Inr []) of
           Inl e \<Rightarrow> (ss_events ss, Some e)
         | Inr structured \<Rightarrow>
             (if ss_finish_reason ss = None \<or> ss_request_id ss = None
              then (ss_events ss @ structured, Some (unavailable ''Anthropic stream ended without terminal metadata.''))
              else stream_of (ss_events ss @ structured)
                     (gw_bind (mk_usage (as_input_tokens st) (as_output_tokens st)) (\<lambda>usage.
                      gw_bind (terminal_event None (ss_finish_reason ss) (Some usage) (ss_request_id ss)) (\<lambda>e. Inr [e])))))"

definition anthropic_stream :: "anthropic_sdk \<Rightarrow> json_validator \<Rightarrow> GatewayRequest \<Rightarrow> AdapterContext \<Rightarrow> event_stream" where
  "anthropic_stream sdk validate request context =
     (case gw_bind (gw_guard (gr_stream request) (invalid_request ''Use the non-stream adapter path when stream=false.'')) (\<lambda>_.
           gw_bind (anthropic_client_for sdk request context) (\<lambda>client.
           gw_bind (anthropic_translate_messages request) (\<lambda>p. Inr (client, p)))) of
        Inl e \<Rightarrow> ([], Some e)
      | Inr (client, system, messages) \<Rightarrow>
          (case an_stream client (anthropic_call_of True request context system messages) of
             Inl e \<Rightarrow> ([], Some (normalize_anthropic_error e))
           | Inr (events, failure) \<Rightarrow>
               (case stream_loop (anthropic_event_step request) events
                       \<lparr>as_stream = fresh_stream, as_input_tokens = None, as_output_tokens = None\<rparr> of
                  (st, Some e) \<Rightarrow> (ss_events (as_stream st), Some e)
                | (st, None) \<Rightarrow>
                    (case failure of
                       Some e \<Rightarrow> (ss_events (as_stream st), Some (normalize_anthropic_error e))
                     | None \<Rightarrow> anthropic_finish validate request st))))"

section \<open>Gemini\<close>

record gemini_call =
  gl_model :: string
  gl_contents :: "(string \<times> utext) list"
  gl_system_instruction :: "utext option"
  gl_max_output_tokens :: int
  gl_response_mime_type :: "string option"
  gl_response_json_schema :: "json_object option"
  gl_timeout_ms :: int
  gl_attempts :: nat

datatype finish_value = FinishStr string | FinishEnum string | FinishOther string

record gemini_response =
  ge_response_id :: "string option"
  ge_usage_metadata :: "(int option \<times> int option) option"
  ge_candidates :: "finish_value option list"
  ge_text :: "utext option"

datatype gemini_error = GeminiTimeout | GeminiTransportError | GeminiAPIError int | GeminiValueError | GeminiOtherError

record gemini_client =
  ge_create :: "gemini_call \<Rightarrow> gemini_error + gemini_response"
  ge_stream :: "gemini_call \<Rightarrow> gemini_error + (gemini_response list \<times> gemini_error option)"

text \<open>\<open>genai.Client(api_key, enterprise)\<close>\<close>

type_synonym gemini_sdk = "string \<Rightarrow> bool \<Rightarrow> gemini_client"

definition gemini_client_for :: "gemini_sdk \<Rightarrow> AdapterContext \<Rightarrow> gemini_client gateway_result" where
  "gemini_client_for sdk context =
     gw_bind (adapter_key Gemini ''Gemini adapter received a non-Gemini provider context.'' ''Gemini credentials are unavailable.'' context)
       (\<lambda>key. Inr (sdk key False))"

definition gemini_translate_messages :: "GatewayRequest \<Rightarrow> (utext option \<times> (string \<times> utext) list) gateway_result" where
  "gemini_translate_messages request =
     gw_bind (translate_messages (invalid_request ''Gemini requires system messages before conversation messages.'')
         (invalid_request ''Gemini requires at least one conversation message.'') request)
       (\<lambda>(system, messages). Inr (system, map (\<lambda>(r, c). (if r = USER then ''user'' else ''model'', c)) messages))"

definition generation_config :: "GatewayRequest \<Rightarrow> AdapterContext \<Rightarrow> utext option \<Rightarrow> (string \<times> utext) list \<Rightarrow> gemini_call" where
  "generation_config request context system_instruction contents =
     \<lparr>gl_model = ac_upstream_model context, gl_contents = contents, gl_system_instruction = system_instruction,
      gl_max_output_tokens = gr_max_output_tokens request,
      gl_response_mime_type = (if gr_response_schema request \<noteq> [] then Some ''application/json'' else None),
      gl_response_json_schema = (if gr_response_schema request \<noteq> [] then Some (gr_response_schema request) else None),
      gl_timeout_ms = gr_timeout_ms request, gl_attempts = 1\<rparr>"

definition gemini_parse_structured :: "json_validator \<Rightarrow> utext \<Rightarrow> json_object gateway_result" where
  "gemini_parse_structured validate t =
     (if t = [] then Inl (unavailable ''Gemini returned no structured response content.'')
      else (case validate t of
              None \<Rightarrow> Inl (unavailable ''Gemini returned malformed structured response content.'')
            | Some obj \<Rightarrow> Inr obj))"

definition gemini_usage :: "gemini_response \<Rightarrow> GatewayUsage option gateway_result" where
  "gemini_usage response =
     (case ge_usage_metadata response of
        None \<Rightarrow> Inr None
      | Some (i, out) \<Rightarrow> gw_bind (mk_usage i out) (\<lambda>u. Inr (Some u)))"

definition finish_reason :: "finish_value option \<Rightarrow> string option" where
  "finish_reason v =
     (case v of None \<Rightarrow> None | Some (FinishStr s) \<Rightarrow> Some s | Some (FinishEnum s) \<Rightarrow> Some s | Some (FinishOther s) \<Rightarrow> Some s)"

definition response_finish_reason :: "gemini_response \<Rightarrow> string option" where
  "response_finish_reason response = (case ge_candidates response of [] \<Rightarrow> None | v # _ \<Rightarrow> finish_reason v)"

definition normalize_gemini_error :: "gemini_error \<Rightarrow> gateway_exn" where
  "normalize_gemini_error e =
     (case e of
        GeminiTimeout \<Rightarrow> GatewayProviderError PROVIDER_TIMEOUT ''Gemini request timed out.''
      | GeminiTransportError \<Rightarrow> unavailable ''Gemini is unavailable.''
      | GeminiAPIError code \<Rightarrow>
          if code \<in> {401, 403} then GatewayProviderError PROVIDER_AUTH_FAILED ''Gemini authentication failed.''
          else if code = 429 then GatewayProviderError PROVIDER_RATE_LIMITED ''Gemini rate limit was reached.''
          else if code = 408 then GatewayProviderError PROVIDER_TIMEOUT ''Gemini request timed out.''
          else if 400 \<le> code \<and> code < 500 then invalid_request ''Gemini rejected the request.''
          else if code \<ge> 500 then unavailable ''Gemini is unavailable.''
          else unavailable ''Gemini request failed.''
      | GeminiValueError \<Rightarrow> invalid_request ''Gemini rejected the request.''
      | GeminiOtherError \<Rightarrow> unavailable ''Gemini request failed.'')"

text \<open>\<open>ValidationError\<close> is a \<open>ValueError\<close>.\<close>

definition gemini_caught :: "gateway_exn \<Rightarrow> gateway_exn" where
  "gemini_caught e = (case e of GatewayProviderError c m \<Rightarrow> e | GatewayValidationError \<Rightarrow> normalize_gemini_error GeminiValueError)"

definition gemini_normalize_response ::
  "json_validator \<Rightarrow> gemini_response \<Rightarrow> GatewayRequest \<Rightarrow> AdapterContext \<Rightarrow> GatewayResponse gateway_result" where
  "gemini_normalize_response validate response request context =
     (case response_finish_reason response of
        None \<Rightarrow> Inl (unavailable ''Gemini returned no finish reason.'')
      | Some r \<Rightarrow>
          gw_bind
            (if gr_response_schema request \<noteq> []
             then (case ge_text response of
                     None \<Rightarrow> Inl (unavailable ''Gemini returned no structured response content.'')
                   | Some t \<Rightarrow> gw_bind (gemini_parse_structured validate t) (\<lambda>obj. Inr (None, obj)))
             else (case ge_text response of
                     None \<Rightarrow> Inl (unavailable ''Gemini returned no response content.'')
                   | Some t \<Rightarrow> Inr (Some t, [])))
            (\<lambda>(content, structured).
               gw_bind (gemini_usage response) (\<lambda>usage.
                 mk_response content structured Gemini (ac_upstream_model context)
                   (case usage of None \<Rightarrow> \<lparr>gu_input_tokens = None, gu_output_tokens = None\<rparr> | Some u \<Rightarrow> u) r
                   (ge_response_id response))))"

definition gemini_generate ::
  "gemini_sdk \<Rightarrow> json_validator \<Rightarrow> GatewayRequest \<Rightarrow> AdapterContext \<Rightarrow> GatewayResponse gateway_result" where
  "gemini_generate sdk validate request context =
     gw_bind (gw_guard (\<not> gr_stream request) (invalid_request ''Use the streaming adapter path when stream=true.'')) (\<lambda>_.
     gw_bind (gemini_translate_messages request) (\<lambda>(system, contents).
     gw_bind (gemini_client_for sdk context) (\<lambda>client.
       case ge_create client (generation_config request context system contents) of
         Inl e \<Rightarrow> Inl (normalize_gemini_error e)
       | Inr response \<Rightarrow>
           (case gemini_normalize_response validate response request context of
              Inl e \<Rightarrow> Inl (gemini_caught e)
            | Inr r \<Rightarrow> Inr r))))"

definition gemini_chunk :: "GatewayRequest \<Rightarrow> gemini_response \<Rightarrow> stream_state \<Rightarrow> stream_state \<times> gateway_exn option" where
  "gemini_chunk request chunk st =
     (let st1 = (case ge_response_id chunk of None \<Rightarrow> st | Some i \<Rightarrow> if i \<noteq> [] then st\<lparr>ss_request_id := Some i\<rparr> else st)
      in case gemini_usage chunk of
           Inl e \<Rightarrow> (st1, Some (gemini_caught e))
         | Inr usage \<Rightarrow>
             (let st2 = (case usage of None \<Rightarrow> st1 | Some u \<Rightarrow> st1\<lparr>ss_usage := Some u\<rparr>);
                  st3 = (case response_finish_reason chunk of None \<Rightarrow> st2 | Some r \<Rightarrow> st2\<lparr>ss_finish_reason := Some r\<rparr>)
              in case ge_text chunk of
                   None \<Rightarrow> (st3, None)
                 | Some t \<Rightarrow>
                     if gr_response_schema request \<noteq> [] then (st3\<lparr>ss_buffer := ss_buffer st3 @ [t]\<rparr>, None) else (emit t st3, None)))"

definition gemini_finish :: "json_validator \<Rightarrow> GatewayRequest \<Rightarrow> stream_state \<Rightarrow> event_stream" where
  "gemini_finish validate request st =
     (if ss_finish_reason st = None \<and> ss_usage st = None \<and> ss_request_id st = None
      then (ss_events st, Some (unavailable ''Gemini stream ended without terminal metadata.''))
      else stream_of (ss_events st)
             (if gr_response_schema request \<noteq> []
              then gw_bind (gemini_parse_structured validate (concat (ss_buffer st))) (\<lambda>obj.
                   gw_bind (terminal_event (Some obj) (ss_finish_reason st) (ss_usage st) (ss_request_id st)) (\<lambda>e. Inr [e]))
              else gw_bind (terminal_event None (ss_finish_reason st) (ss_usage st) (ss_request_id st)) (\<lambda>e. Inr [e])))"

definition gemini_stream :: "gemini_sdk \<Rightarrow> json_validator \<Rightarrow> GatewayRequest \<Rightarrow> AdapterContext \<Rightarrow> event_stream" where
  "gemini_stream sdk validate request context =
     (case gw_bind (gw_guard (gr_stream request) (invalid_request ''Use the non-stream adapter path when stream=false.'')) (\<lambda>_.
           gw_bind (gemini_translate_messages request) (\<lambda>p.
           gw_bind (gemini_client_for sdk context) (\<lambda>client. Inr (client, p)))) of
        Inl e \<Rightarrow> ([], Some e)
      | Inr (client, system, contents) \<Rightarrow>
          consume_stream normalize_gemini_error (gemini_chunk request) (gemini_finish validate request)
            (ge_stream client (generation_config request context system contents)))"

end
