(* ===== verification/Gateway_Laws.thy ===== *)
theory Gateway_Laws
  imports Gateway_Adapters "HOL-Library.Sublist"
begin

text \<open>
  What the adapters promise: the interface \<open>LLMAdapter\<close> as a locale, interpreted on the four adapters
  over arbitrary SDKs, and the text of their streams.
\<close>

section \<open>Streams deliver the provider's text\<close>

text \<open>
  A loop over the items of a stream adds the text of each item to what \<open>out\<close> observes; an item at
  which it stops may have been delivered in part.
\<close>

locale text_stream =
  fixes body :: "'c \<Rightarrow> 's \<Rightarrow> 's \<times> gateway_exn option" and piece :: "'c \<Rightarrow> utext" and out :: "'s \<Rightarrow> utext"
  assumes body_text: "body c st = (st', r) \<Longrightarrow>
    \<exists>t. out st' = out st @ t \<and> (if r = None then t = piece c else prefix t (piece c))"
begin

lemma loop_text:
  "stream_loop body cs st = (st', r) \<Longrightarrow>
    \<exists>t. out st' = out st @ t \<and> (if r = None then t = concat (map piece cs) else prefix t (concat (map piece cs)))"
proof (induction cs arbitrary: st)
  case (Cons c cs)
  obtain st1 r1 where b: "body c st = (st1, r1)" by fastforce
  from body_text[OF b] obtain t where t: "out st1 = out st @ t" "if r1 = None then t = piece c else prefix t (piece c)" by blast
  show ?case
  proof (cases r1)
    case None
    with Cons.prems b have "stream_loop body cs st1 = (st', r)" by simp
    from Cons.IH[OF this] obtain u where "out st' = out st1 @ u"
      "if r = None then u = concat (map piece cs) else prefix u (concat (map piece cs))" by blast
    with t None show ?thesis by (auto split: if_splits)
  next
    case (Some e)
    with Cons.prems b t show ?thesis by (auto intro: prefix_prefix)
  qed
qed simp

end

definition delta_text :: "GatewayStreamEvent list \<Rightarrow> utext" where
  "delta_text es = concat (map (\<lambda>e. case se_content_delta e of None \<Rightarrow> [] | Some t \<Rightarrow> t) es)"

definition emitted_text :: "stream_state \<Rightarrow> utext" where
  "emitted_text st = delta_text (ss_events st)"

definition buffered_text :: "stream_state \<Rightarrow> utext" where
  "buffered_text st = concat (ss_buffer st)"

definition text_or_empty :: "utext option \<Rightarrow> utext" where
  "text_or_empty t = (case t of None \<Rightarrow> [] | Some s \<Rightarrow> s)"

definition choice_text :: "chat_choice \<Rightarrow> utext" where
  "choice_text c = text_or_empty (cx_content c)"

definition chunk_text :: "chat_chunk \<Rightarrow> utext" where
  "chunk_text k = concat (map choice_text (ck_choices k))"

definition delta_of_event :: "anthropic_event \<Rightarrow> utext" where
  "delta_of_event e = (case e of TextDelta t \<Rightarrow> t | _ \<Rightarrow> [])"

definition gemini_text :: "gemini_response \<Rightarrow> utext" where
  "gemini_text r = text_or_empty (ge_text r)"

lemma delta_text_simps [simp]: "delta_text [] = []" "delta_text (es @ fs) = delta_text es @ delta_text fs"
  "delta_text [content_event t] = t"
  by (simp_all add: delta_text_def content_event_def)

lemma emit_text [simp]: "emitted_text (emit t st) = emitted_text st @ t" "buffered_text (emit t st) = buffered_text st"
  by (simp_all add: emitted_text_def buffered_text_def emit_def)

lemma state_text [simp]:
  "emitted_text (st\<lparr>ss_finish_reason := x\<rparr>) = emitted_text st" "emitted_text (st\<lparr>ss_usage := y\<rparr>) = emitted_text st"
  "emitted_text (st\<lparr>ss_request_id := x\<rparr>) = emitted_text st" "emitted_text (st\<lparr>ss_buffer := b\<rparr>) = emitted_text st"
  "buffered_text (st\<lparr>ss_finish_reason := x\<rparr>) = buffered_text st" "buffered_text (st\<lparr>ss_usage := y\<rparr>) = buffered_text st"
  "buffered_text (st\<lparr>ss_request_id := x\<rparr>) = buffered_text st" "buffered_text (st\<lparr>ss_buffer := ss_buffer st @ [t]\<rparr>) = buffered_text st @ t"
  by (simp_all add: emitted_text_def buffered_text_def)

interpretation openai_choices: text_stream openai_choice choice_text emitted_text
  by unfold_locales (auto simp: openai_choice_def choice_text_def text_or_empty_def Let_def split: option.splits)

interpretation openai_chunks: text_stream openai_chunk chunk_text emitted_text
proof
  fix c st st' r
  assume run: "openai_chunk c st = (st', r)"
  define st1 where "st1 = (if ck_id c \<noteq> [] then st\<lparr>ss_request_id := Some (ck_id c)\<rparr> else st)"
  have st1: "emitted_text st1 = emitted_text st" by (simp add: st1_def)
  let ?m = "case ck_usage c of None \<Rightarrow> Inr st1
    | Some (i, out) \<Rightarrow> gw_bind (mk_usage i out) (\<lambda>u. Inr (st1\<lparr>ss_usage := Some u\<rparr>))"
  show "\<exists>t. emitted_text st' = emitted_text st @ t \<and> (if r = None then t = chunk_text c else prefix t (chunk_text c))"
  proof (cases ?m)
    case (Inl e)
    with run have "st' = st1" "r \<noteq> None" by (auto simp: openai_chunk_def st1_def[symmetric] Let_def)
    with st1 show ?thesis by (intro exI[of _ "[]"]) auto
  next
    case (Inr st2)
    then have "emitted_text st2 = emitted_text st" using st1 by (auto simp: gw_iffs split: option.splits)
    moreover have "stream_loop openai_choice (ck_choices c) st2 = (st', r)"
      using run Inr by (simp add: openai_chunk_def st1_def[symmetric] Let_def)
    from openai_choices.loop_text[OF this] calculation show ?thesis unfolding chunk_text_def by simp
  qed
qed

text \<open>The other adapters emit text, or buffer it where structured output is asked for.\<close>

lemma openrouter_choice_text:
  assumes "openrouter_choice request c st = (st', r)"
  shows "\<exists>t. (if gr_response_schema request = [] then emitted_text st' = emitted_text st @ t \<and> buffered_text st' = buffered_text st
       else buffered_text st' = buffered_text st @ t \<and> emitted_text st' = emitted_text st) \<and>
    (if r = None then t = choice_text c else prefix t (choice_text c))"
proof (cases "embedded_error (cx_error c) (cx_extra_error c) \<noteq> None \<or> cx_finish_reason c = Some ''error''")
  case True
  with assms have "st' = st" "r \<noteq> None" by (auto simp: openrouter_choice_def split: option.splits if_splits)
  then show ?thesis by (intro exI[of _ "[]"]) auto
next
  case False
  define st1 where "st1 = (case cx_finish_reason c of None \<Rightarrow> st | Some x \<Rightarrow> st\<lparr>ss_finish_reason := Some x\<rparr>)"
  have st1: "emitted_text st1 = emitted_text st" "buffered_text st1 = buffered_text st"
    by (simp_all add: st1_def split: option.split)
  have "(st', r) = (case cx_content c of None \<Rightarrow> (st1, None)
     | Some x \<Rightarrow> if gr_response_schema request \<noteq> [] then (st1\<lparr>ss_buffer := ss_buffer st1 @ [x]\<rparr>, None) else (emit x st1, None))"
    using assms False by (simp add: openrouter_choice_def Let_def st1_def[symmetric])
  with st1 show ?thesis
    by (cases "cx_content c") (auto simp: choice_text_def text_or_empty_def split: if_splits)
qed

definition visible_text :: "GatewayRequest \<Rightarrow> stream_state \<Rightarrow> utext" where
  "visible_text request st = (if gr_response_schema request = [] then emitted_text st else buffered_text st)"

definition quiet_text :: "GatewayRequest \<Rightarrow> stream_state \<Rightarrow> utext" where
  "quiet_text request st = (if gr_response_schema request = [] then buffered_text st else emitted_text st)"

lemma openrouter_choice_visible: "text_stream (openrouter_choice request) choice_text (visible_text request)"
proof
  fix c st st' r
  assume "openrouter_choice request c st = (st', r)"
  from openrouter_choice_text[OF this]
  show "\<exists>t. visible_text request st' = visible_text request st @ t \<and> (if r = None then t = choice_text c else prefix t (choice_text c))"
    by (auto simp: visible_text_def split: if_splits)
qed

text \<open>The part of a text that is not shown stays empty; it is a stream of empty pieces.\<close>

lemma openrouter_choice_quiet: "text_stream (openrouter_choice request) (\<lambda>_. []) (quiet_text request)"
proof
  fix c st st' r
  assume "openrouter_choice request c st = (st', r)"
  from openrouter_choice_text[OF this]
  show "\<exists>t. quiet_text request st' = quiet_text request st @ t \<and> (if r = None then t = [] else prefix t [])"
    by (auto simp: quiet_text_def split: if_splits)
qed

text \<open>Metadata of a chunk never touches the text.\<close>

definition keeps_text :: "(stream_state \<Rightarrow> utext) \<Rightarrow> bool" where
  "keeps_text out \<longleftrightarrow> (\<forall>st x y. out (st\<lparr>ss_request_id := x\<rparr>) = out st \<and> out (st\<lparr>ss_usage := y\<rparr>) = out st \<and>
     out (st\<lparr>ss_finish_reason := x\<rparr>) = out st)"

lemma keeps_texts: "keeps_text (visible_text request)" "keeps_text (quiet_text request)" "keeps_text emitted_text" "keeps_text buffered_text"
  by (simp_all add: keeps_text_def visible_text_def quiet_text_def)

lemma openrouter_chunk_text:
  assumes choices: "text_stream (openrouter_choice request) f out" and keep: "keeps_text out"
  shows "text_stream (openrouter_chunk request) (\<lambda>k. concat (map f (ck_choices k))) out"
proof
  fix c st st' r
  assume run: "openrouter_chunk request c st = (st', r)"
  let ?goal = "\<exists>t. out st' = out st @ t \<and>
    (if r = None then t = concat (map f (ck_choices c)) else prefix t (concat (map f (ck_choices c))))"
  show ?goal
  proof (cases "embedded_error (ck_error c) (ck_extra_error c)")
    case (Some e)
    with run have "st' = st" "r \<noteq> None" by (auto simp: openrouter_chunk_def)
    then show ?thesis by (intro exI[of _ "[]"]) auto
  next
    case None
    define st1 where "st1 = (if ck_id c \<noteq> [] then st\<lparr>ss_request_id := Some (ck_id c)\<rparr> else st)"
    have st1: "out st1 = out st" using keep by (simp add: st1_def keeps_text_def)
    let ?m = "case ck_usage c of None \<Rightarrow> Inr st1
      | Some (i, out) \<Rightarrow> gw_bind (mk_usage i out) (\<lambda>u. Inr (st1\<lparr>ss_usage := Some u\<rparr>))"
    show ?thesis
    proof (cases ?m)
      case (Inl e)
      with run None have "st' = st1" "r \<noteq> None" by (auto simp: openrouter_chunk_def st1_def[symmetric] Let_def)
      with st1 show ?thesis by (intro exI[of _ "[]"]) auto
    next
      case (Inr st2)
      then have "out st2 = out st" using keep st1 by (auto simp: keeps_text_def gw_iffs split: option.splits)
      moreover have "stream_loop (openrouter_choice request) (ck_choices c) st2 = (st', r)"
        using run None Inr by (simp add: openrouter_chunk_def st1_def[symmetric] Let_def)
      from text_stream.loop_text[OF choices this] calculation show ?thesis by simp
    qed
  qed
qed

lemma gemini_chunk_text:
  assumes "gemini_chunk request c st = (st', r)"
  shows "\<exists>t. (if gr_response_schema request = [] then emitted_text st' = emitted_text st @ t \<and> buffered_text st' = buffered_text st
       else buffered_text st' = buffered_text st @ t \<and> emitted_text st' = emitted_text st) \<and>
    (if r = None then t = gemini_text c else prefix t (gemini_text c))"
proof -
  define st1 where "st1 = (case ge_response_id c of None \<Rightarrow> st | Some i \<Rightarrow> if i \<noteq> [] then st\<lparr>ss_request_id := Some i\<rparr> else st)"
  have st1: "emitted_text st1 = emitted_text st" "buffered_text st1 = buffered_text st"
    by (simp_all add: st1_def split: option.split)
  show ?thesis
  proof (cases "gemini_usage c")
    case (Inl e)
    with assms have "st' = st1" "r \<noteq> None" by (auto simp: gemini_chunk_def st1_def[symmetric] Let_def)
    with st1 show ?thesis by (intro exI[of _ "[]"]) auto
  next
    case (Inr usage)
    define st2 where "st2 = (case usage of None \<Rightarrow> st1 | Some u \<Rightarrow> st1\<lparr>ss_usage := Some u\<rparr>)"
    define st3 where "st3 = (case response_finish_reason c of None \<Rightarrow> st2 | Some x \<Rightarrow> st2\<lparr>ss_finish_reason := Some x\<rparr>)"
    have st3: "emitted_text st3 = emitted_text st" "buffered_text st3 = buffered_text st"
      by (simp_all add: st3_def st2_def st1 split: option.split)
    have "gemini_chunk request c st = (case ge_text c of None \<Rightarrow> (st3, None)
      | Some x \<Rightarrow> if gr_response_schema request \<noteq> [] then (st3\<lparr>ss_buffer := ss_buffer st3 @ [x]\<rparr>, None) else (emit x st3, None))"
      unfolding gemini_chunk_def Let_def Inr sum.case st3_def st2_def st1_def ..
    with st3 assms show ?thesis
      by (cases "ge_text c") (auto simp: gemini_text_def text_or_empty_def split: if_splits)
  qed
qed

lemma gemini_chunk_visible: "text_stream (gemini_chunk request) gemini_text (visible_text request)"
proof
  fix c st st' r
  assume "gemini_chunk request c st = (st', r)"
  from gemini_chunk_text[OF this]
  show "\<exists>t. visible_text request st' = visible_text request st @ t \<and> (if r = None then t = gemini_text c else prefix t (gemini_text c))"
    by (auto simp: visible_text_def split: if_splits)
qed

lemma gemini_chunk_quiet: "text_stream (gemini_chunk request) (\<lambda>_. []) (quiet_text request)"
proof
  fix c st st' r
  assume "gemini_chunk request c st = (st', r)"
  from gemini_chunk_text[OF this]
  show "\<exists>t. quiet_text request st' = quiet_text request st @ t \<and> (if r = None then t = [] else prefix t [])"
    by (auto simp: quiet_text_def split: if_splits)
qed

lemma anthropic_step_text:
  assumes "anthropic_event_step request c st = (st', r)"
  shows "r = None \<and> visible_text request (as_stream st') = visible_text request (as_stream st) @ delta_of_event c \<and>
    quiet_text request (as_stream st') = quiet_text request (as_stream st)"
proof (cases c)
  case (TextDelta t)
  with assms show ?thesis
    by (auto simp: anthropic_event_step_def visible_text_def quiet_text_def delta_of_event_def split: if_splits)
next
  case (MessageDelta x i out)
  with assms show ?thesis
    by (auto simp: anthropic_event_step_def visible_text_def quiet_text_def delta_of_event_def Let_def split: option.splits)
qed (use assms in \<open>auto simp: anthropic_event_step_def visible_text_def quiet_text_def delta_of_event_def\<close>)

lemma anthropic_step_visible:
  "text_stream (anthropic_event_step request) delta_of_event (\<lambda>st. visible_text request (as_stream st))"
  by unfold_locales (auto dest!: anthropic_step_text)

lemma anthropic_step_quiet:
  "text_stream (anthropic_event_step request) (\<lambda>_. []) (\<lambda>st. quiet_text request (as_stream st))"
  by unfold_locales (auto dest!: anthropic_step_text)

section \<open>Whole streams\<close>

text \<open>What was delivered is a beginning of the provider's text, and all of it if the stream ends normally.\<close>

definition delivers :: "event_stream \<Rightarrow> utext \<Rightarrow> 'e option \<Rightarrow> bool" where
  "delivers result t failure \<longleftrightarrow> prefix (delta_text (fst result)) t \<and>
     (snd result = None \<longrightarrow> failure = None \<and> delta_text (fst result) = t)"

lemma delivers_nothing: "delivers ([], Some e) t failure"
  by (simp add: delivers_def)

lemma fresh_text [simp]: "emitted_text fresh_stream = []" "buffered_text fresh_stream = []" "visible_text request fresh_stream = []"
  "quiet_text request fresh_stream = []"
  by (simp_all add: fresh_stream_def emitted_text_def buffered_text_def visible_text_def quiet_text_def)

lemma consume_delivers:
  assumes stream: "text_stream body piece out" and out: "\<And>st. out st = delta_text (ss_events st)"
    and finish: "\<And>st. delta_text (fst (finish st)) = delta_text (ss_events st)"
  shows "delivers (consume_stream collapse body finish (Inr (chunks, failure))) (concat (map piece chunks)) failure"
proof -
  obtain st r where loop: "stream_loop body chunks fresh_stream = (st, r)" by fastforce
  from text_stream.loop_text[OF stream loop] obtain t where t: "delta_text (ss_events st) = t"
    "if r = None then t = concat (map piece chunks) else prefix t (concat (map piece chunks))"
    unfolding out by (auto simp: fresh_stream_def)
  show ?thesis
  proof (cases r)
    case (Some e)
    with loop t show ?thesis by (simp add: consume_stream_def delivers_def)
  next
    case None
    with loop t finish[of st] show ?thesis
      by (cases failure) (auto simp: consume_stream_def delivers_def)
  qed
qed

lemma terminal_text: "terminal_event x y z w = Inr e \<Longrightarrow> delta_text [e] = []"
  by (auto simp: terminal_event_def delta_text_def split: if_splits)

lemma stream_of_text:
  assumes "\<And>es. m = Inr es \<Longrightarrow> delta_text es = []"
  shows "delta_text (fst (stream_of emitted m)) = delta_text emitted"
  using assms by (cases m) (auto simp: stream_of_def)

lemma finishes_text:
  "delta_text (fst (openai_finish st)) = delta_text (ss_events st)"
  "delta_text (fst (openrouter_finish validate request st)) = delta_text (ss_events st)"
  "delta_text (fst (gemini_finish validate request st)) = delta_text (ss_events st)"
  unfolding openai_finish_def openrouter_finish_def gemini_finish_def
  by (auto simp: gw_iffs terminal_text intro!: stream_of_text)

lemma anthropic_finish_text: "delta_text (fst (anthropic_finish validate request st)) = delta_text (ss_events (as_stream st))"
proof -
  let ?m = "gw_bind (mk_usage (as_input_tokens st) (as_output_tokens st)) (\<lambda>usage.
     gw_bind (terminal_event None (ss_finish_reason (as_stream st)) (Some usage) (ss_request_id (as_stream st))) (\<lambda>e. Inr [e]))"
  have m: "delta_text (fst (stream_of emitted ?m)) = delta_text emitted" for emitted
    by (rule stream_of_text) (auto simp: gw_iffs terminal_text)
  show ?thesis
    by (auto simp: anthropic_finish_def Let_def m gw_iffs terminal_text split: option.splits sum.splits)
qed

lemma anthropic_delivers:
  assumes "gr_response_schema request = []"
    and "an_stream (sdk key (seconds (gr_timeout_ms request)) 0) (anthropic_call_of True request context system messages) = Inr (events, failure)"
    and "anthropic_translate_messages request = Inr (system, messages)" "ac_api_key context = Some key"
  shows "delivers (anthropic_stream sdk validate request context) (concat (map delta_of_event events)) failure"
proof -
  obtain st r where loop: "stream_loop (anthropic_event_step request) events
      \<lparr>as_stream = fresh_stream, as_input_tokens = None, as_output_tokens = None\<rparr> = (st, r)" by fastforce
  from text_stream.loop_text[OF anthropic_step_visible loop] assms(1)
  have t: "if r = None then emitted_text (as_stream st) = concat (map delta_of_event events)
    else prefix (emitted_text (as_stream st)) (concat (map delta_of_event events))" by (auto simp: visible_text_def split: if_splits)
  have fin: "delta_text (fst (anthropic_finish validate request st)) = emitted_text (as_stream st)"
    unfolding anthropic_finish_text emitted_text_def ..
  show ?thesis
  proof (cases "gr_stream request \<and> ac_provider context = Anthropic \<and> strip key \<noteq> []")
    case False
    with assms(4) show ?thesis
      by (auto simp: anthropic_stream_def anthropic_client_for_def adapter_key_def gw_guard_def delivers_nothing)
  next
    case True
    then have "anthropic_stream sdk validate request context =
        (case r of Some e \<Rightarrow> (ss_events (as_stream st), Some e)
         | None \<Rightarrow> (case failure of Some e \<Rightarrow> (ss_events (as_stream st), Some (normalize_anthropic_error e))
             | None \<Rightarrow> anthropic_finish validate request st))"
      using assms loop by (auto simp: anthropic_stream_def anthropic_client_for_def adapter_key_def gw_guard_def split: option.splits)
    with t fin show ?thesis
      by (cases r; cases failure) (auto simp: delivers_def emitted_text_def)
  qed
qed

lemma openai_delivers:
  assumes "cc_stream (sdk key None (seconds (gr_timeout_ms request)) 0) (chat_call_of True request context) = Inr (chunks, failure)"
    and "ac_api_key context = Some key"
  shows "delivers (openai_stream sdk request context) (concat (map chunk_text chunks)) failure"
proof (cases "gr_stream request \<and> ac_provider context = Openai \<and> strip key \<noteq> []")
  case False
  with assms(2) show ?thesis
    by (auto simp: openai_stream_def openai_client_def adapter_key_def gw_guard_def delivers_nothing)
next
  case True
  then have eq: "openai_stream sdk request context =
      consume_stream normalize_openai_error openai_chunk openai_finish (Inr (chunks, failure))"
    using assms by (auto simp: openai_stream_def openai_client_def adapter_key_def gw_guard_def)
  show ?thesis unfolding eq
    by (rule consume_delivers[OF openai_chunks.text_stream_axioms emitted_text_def finishes_text(1)])
qed

lemma openrouter_delivers:
  assumes "gr_response_schema request = []"
    and "cc_stream (sdk key (Some OPENROUTER_BASE_URL) (seconds (gr_timeout_ms request)) 0) (chat_call_of True request context) =
      Inr (chunks, failure)" and "ac_api_key context = Some key"
  shows "delivers (openrouter_stream sdk validate request context) (concat (map chunk_text chunks)) failure"
proof (cases "gr_stream request \<and> ac_provider context = Openrouter \<and> strip key \<noteq> []")
  case False
  with assms(3) show ?thesis
    by (auto simp: openrouter_stream_def openrouter_client_def adapter_key_def gw_guard_def delivers_nothing)
next
  case True
  then have eq: "openrouter_stream sdk validate request context =
      consume_stream normalize_openrouter_error (openrouter_chunk request) (openrouter_finish validate request) (Inr (chunks, failure))"
    using assms by (auto simp: openrouter_stream_def openrouter_client_def adapter_key_def gw_guard_def)
  have "text_stream (openrouter_chunk request) chunk_text (visible_text request)"
    using openrouter_chunk_text[OF openrouter_choice_visible keeps_texts(1)] unfolding chunk_text_def[abs_def] .
  from consume_delivers[OF this _ finishes_text(2)] assms(1) show ?thesis
    unfolding eq by (simp add: visible_text_def emitted_text_def)
qed

lemma gemini_delivers:
  assumes "gr_response_schema request = []" and "gemini_translate_messages request = Inr (system, contents)"
    and "ge_stream (sdk key False) (generation_config request context system contents) = Inr (chunks, failure)"
    and "ac_api_key context = Some key"
  shows "delivers (gemini_stream sdk validate request context) (concat (map gemini_text chunks)) failure"
proof (cases "gr_stream request \<and> ac_provider context = Gemini \<and> strip key \<noteq> []")
  case False
  with assms show ?thesis
    by (auto simp: gemini_stream_def gemini_client_for_def adapter_key_def gw_guard_def delivers_nothing)
next
  case True
  then have eq: "gemini_stream sdk validate request context =
      consume_stream normalize_gemini_error (gemini_chunk request) (gemini_finish validate request) (Inr (chunks, failure))"
    using assms by (auto simp: gemini_stream_def gemini_client_for_def adapter_key_def gw_guard_def)
  from consume_delivers[OF gemini_chunk_visible[of request] _ finishes_text(3)] assms(1) show ?thesis
    unfolding eq by (simp add: visible_text_def emitted_text_def)
qed

section \<open>The interface of an adapter\<close>

text \<open>
  \<open>LLMAdapter.generate\<close>: \<open>refused\<close> says that the provider answers the call under a key with an
  authentication failure, \<open>in_range\<close> that its answer stays within its documented ranges (no negative
  token counts, no empty finish reason).
\<close>

locale llm_adapter =
  fixes served :: provider
    and generate :: "GatewayRequest \<Rightarrow> AdapterContext \<Rightarrow> GatewayResponse gateway_result"
    and refused :: "string \<Rightarrow> GatewayRequest \<Rightarrow> AdapterContext \<Rightarrow> bool"
    and in_range :: "string \<Rightarrow> GatewayRequest \<Rightarrow> AdapterContext \<Rightarrow> bool"
  assumes response: "generate r c = Inr resp \<Longrightarrow> \<not> gr_stream r \<and> ac_provider c = served \<and>
      (\<exists>key. ac_api_key c = Some key \<and> strip key \<noteq> [] \<and> \<not> refused key r c) \<and> rs_provider resp = served \<and>
      (if gr_response_schema r = [] then rs_content resp \<noteq> None \<and> rs_structured resp = [] else rs_content resp = None)"
    and auth_failure: "generate r c = Inl (GatewayProviderError PROVIDER_AUTH_FAILED m) \<Longrightarrow> ac_provider c = served \<and>
      (case ac_api_key c of None \<Rightarrow> True | Some key \<Rightarrow> strip key = [] \<or> refused key r c)"
    and escape: "generate r c = Inl GatewayValidationError \<Longrightarrow> \<exists>key. ac_api_key c = Some key \<and> \<not> in_range key r c"

definition auth_status :: "sdk_error \<Rightarrow> bool" where
  "auth_status e = (case e of APIStatusError cls code \<Rightarrow> cls \<in> {AuthenticationError, PermissionDeniedError} \<or> code \<in> {401, 403} | _ \<Rightarrow> False)"

definition usage_in_range :: "(int option \<times> int option) option \<Rightarrow> bool" where
  "usage_in_range u = (case u of None \<Rightarrow> True | Some (i, out) \<Rightarrow> non_negative i \<and> non_negative out)"

definition openai_answer :: "chat_sdk \<Rightarrow> string \<Rightarrow> GatewayRequest \<Rightarrow> AdapterContext \<Rightarrow> sdk_error + chat_completion" where
  "openai_answer sdk key r c = cc_create (sdk key None (seconds (gr_timeout_ms r)) 0) (chat_call_of False r c)"

definition openrouter_answer :: "chat_sdk \<Rightarrow> string \<Rightarrow> GatewayRequest \<Rightarrow> AdapterContext \<Rightarrow> sdk_error + chat_completion" where
  "openrouter_answer sdk key r c =
     cc_create (sdk key (Some OPENROUTER_BASE_URL) (seconds (gr_timeout_ms r)) 0) (chat_call_of False r c)"

definition sdk_refuses :: "sdk_error + 'a \<Rightarrow> bool" where
  "sdk_refuses answer = (case answer of Inl e \<Rightarrow> auth_status e | Inr _ \<Rightarrow> False)"

definition chat_in_range :: "sdk_error + chat_completion \<Rightarrow> AdapterContext \<Rightarrow> bool" where
  "chat_in_range answer c = (case answer of Inl _ \<Rightarrow> True
     | Inr m \<Rightarrow> ac_upstream_model c \<noteq> [] \<and> usage_in_range (cp_usage m) \<and> list_all (\<lambda>x. cx_finish_reason x \<noteq> Some []) (cp_choices m))"

lemma openai_error_auth:
  "normalize_openai_error e = GatewayProviderError PROVIDER_AUTH_FAILED m \<Longrightarrow> auth_status e"
  by (cases e) (auto simp: normalize_openai_error_def unavailable_def invalid_request_def auth_status_def split: if_splits)

lemma openai_error_shape: "normalize_openai_error e \<noteq> GatewayValidationError"
  by (cases e) (auto simp: normalize_openai_error_def unavailable_def invalid_request_def)

lemma adapter_key_cases:
  "adapter_key p a b c = Inr key \<longleftrightarrow> ac_provider c = p \<and> ac_api_key c = Some key \<and> strip key \<noteq> []"
  "adapter_key p a b c = Inl e \<Longrightarrow> e \<noteq> GatewayValidationError \<and>
     (\<forall>m. e = GatewayProviderError PROVIDER_AUTH_FAILED m \<longrightarrow>
        ac_provider c = p \<and> (case ac_api_key c of None \<Rightarrow> True | Some key \<Rightarrow> strip key = []))"
  by (auto simp: adapter_key_def invalid_request_def split: if_splits option.splits)

lemma mk_usage_iff: "mk_usage i out = Inl e \<longleftrightarrow> \<not> (non_negative i \<and> non_negative out) \<and> e = GatewayValidationError"
  by (auto simp: mk_usage_def)

lemma chat_usage_iff: "chat_usage u = Inl e \<longleftrightarrow> \<not> usage_in_range u \<and> e = GatewayValidationError"
  by (cases u) (auto simp: chat_usage_def usage_in_range_def mk_usage_iff, simp add: mk_usage_def non_negative_def)

lemma mk_response_cases:
  "mk_response a b p m u r i = Inl e \<Longrightarrow> e = GatewayValidationError \<and> (m = [] \<or> r = [])"
  "mk_response a b p m u r i = Inr x \<Longrightarrow> rs_provider x = p \<and> rs_content x = a \<and> rs_structured x = b"
  by (auto simp: mk_response_def split: if_splits)

lemma openai_completion_cases:
  "openai_normalize_completion validate m r c = Inl e \<Longrightarrow>
     (\<exists>s. e = unavailable s) \<or> (e = GatewayValidationError \<and> \<not> chat_in_range (Inr m) c)"
  "openai_normalize_completion validate m r c = Inr x \<Longrightarrow> rs_provider x = Openai \<and>
     (if gr_response_schema r = [] then rs_content x \<noteq> None \<and> rs_structured x = [] else rs_content x = None)"
  by (auto simp: openai_normalize_completion_def gw_iffs chat_usage_iff chat_in_range_def reason_str_def
      dest!: mk_response_cases split: list.splits option.splits if_splits)

text \<open>How a call of \<open>generate\<close> ends, for any adapter.\<close>

definition well_shaped :: "provider \<Rightarrow> GatewayRequest \<Rightarrow> GatewayResponse \<Rightarrow> bool" where
  "well_shaped p r resp \<longleftrightarrow> rs_provider resp = p \<and>
     (if gr_response_schema r = [] then rs_content resp \<noteq> None \<and> rs_structured resp = [] else rs_content resp = None)"

definition fails_safely :: "bool \<Rightarrow> bool \<Rightarrow> gateway_exn \<Rightarrow> bool" where
  "fails_safely refuses in_range e \<longleftrightarrow> (e = GatewayValidationError \<longrightarrow> \<not> in_range) \<and>
     (\<forall>m. e = GatewayProviderError PROVIDER_AUTH_FAILED m \<longrightarrow> refuses)"

lemma adapter_laws:
  assumes "\<And>r c e. gen r c = Inl e \<Longrightarrow> (\<exists>s. e = invalid_request s) \<or> adapter_key p a b c = Inl e \<or>
      (\<exists>key. adapter_key p a b c = Inr key \<and> fails_safely (refused key r c) (in_range key r c) e)"
    and "\<And>r c resp. gen r c = Inr resp \<Longrightarrow> \<not> gr_stream r \<and> (\<exists>key. adapter_key p a b c = Inr key \<and> \<not> refused key r c) \<and> well_shaped p r resp"
  shows "llm_adapter p gen refused in_range"
proof
  fix r c resp
  assume "gen r c = Inr resp"
  from assms(2)[OF this] show "\<not> gr_stream r \<and> ac_provider c = p \<and>
      (\<exists>key. ac_api_key c = Some key \<and> strip key \<noteq> [] \<and> \<not> refused key r c) \<and> rs_provider resp = p \<and>
      (if gr_response_schema r = [] then rs_content resp \<noteq> None \<and> rs_structured resp = [] else rs_content resp = None)"
    unfolding adapter_key_cases(1) well_shaped_def by blast
next
  fix r c m
  assume "gen r c = Inl (GatewayProviderError PROVIDER_AUTH_FAILED m)"
  from assms(1)[OF this] show "ac_provider c = p \<and> (case ac_api_key c of None \<Rightarrow> True | Some key \<Rightarrow> strip key = [] \<or> refused key r c)"
    using adapter_key_cases(2)[of p a b c] by (auto simp: invalid_request_def adapter_key_cases(1) fails_safely_def split: option.splits)
next
  fix r c
  assume "gen r c = Inl GatewayValidationError"
  from assms(1)[OF this] show "\<exists>key. ac_api_key c = Some key \<and> \<not> in_range key r c"
    using adapter_key_cases(2)[of p a b c] by (auto simp: invalid_request_def adapter_key_cases(1) fails_safely_def)
qed

lemma fails_safely_unavailable [simp]: "fails_safely refuses in_range (unavailable s)"
  by (simp add: fails_safely_def unavailable_def)

lemma fails_safely_invalid [simp]: "fails_safely refuses in_range (invalid_request s)"
  by (simp add: fails_safely_def invalid_request_def)

text \<open>An adapter that checks the mode, the messages and the key, and then asks the provider.\<close>

lemma keyed_laws:
  assumes eq: "\<And>r c. gen r c = (if gr_stream r then Inl (invalid_request s)
      else (case early r of Some x \<Rightarrow> Inl (invalid_request x)
        | None \<Rightarrow> (case adapter_key p a b c of Inl e \<Rightarrow> Inl e | Inr key \<Rightarrow> ask key r c)))"
    and failed: "\<And>key r c e. ask key r c = Inl e \<Longrightarrow> fails_safely (refused key r c) (in_range key r c) e"
    and answered: "\<And>key r c resp. ask key r c = Inr resp \<Longrightarrow> \<not> refused key r c \<and> well_shaped p r resp"
  shows "llm_adapter p gen refused in_range"
proof (rule adapter_laws[where a = a and b = b])
  show "(\<exists>s. e = invalid_request s) \<or> adapter_key p a b c = Inl e \<or>
      (\<exists>key. adapter_key p a b c = Inr key \<and> fails_safely (refused key r c) (in_range key r c) e)"
    if "gen r c = Inl e" for r c e
    using that failed by (auto simp: eq split: if_splits option.splits sum.splits)
  show "\<not> gr_stream r \<and> (\<exists>key. adapter_key p a b c = Inr key \<and> \<not> refused key r c) \<and> well_shaped p r resp"
    if "gen r c = Inr resp" for r c resp
    using that answered by (auto simp: eq split: if_splits option.splits sum.splits)
qed

subsection \<open>OpenAI\<close>

definition openai_ask :: "chat_sdk \<Rightarrow> json_validator \<Rightarrow> string \<Rightarrow> GatewayRequest \<Rightarrow> AdapterContext \<Rightarrow> GatewayResponse gateway_result" where
  "openai_ask sdk validate key r c =
     (case openai_answer sdk key r c of Inl e \<Rightarrow> Inl (normalize_openai_error e) | Inr m \<Rightarrow> openai_normalize_completion validate m r c)"

lemma openai_generate_ask:
  "openai_generate sdk validate r c = (if gr_stream r then Inl (invalid_request ''Use the streaming adapter path when stream=true.'')
     else (case None of Some x \<Rightarrow> Inl (invalid_request x)
       | None \<Rightarrow> (case adapter_key Openai ''OpenAI adapter received a non-OpenAI provider context.'' ''OpenAI credentials are unavailable.'' c of
           Inl e \<Rightarrow> Inl e | Inr key \<Rightarrow> openai_ask sdk validate key r c)))"
  by (auto simp: openai_generate_def openai_client_def openai_answer_def openai_ask_def gw_guard_def gw_bind_def split: sum.split)

interpretation openai: llm_adapter Openai "openai_generate sdk validate"
  "\<lambda>key r c. sdk_refuses (openai_answer sdk key r c)" "\<lambda>key r c. chat_in_range (openai_answer sdk key r c) c"
  for sdk validate
proof (rule keyed_laws[OF openai_generate_ask])
  show "fails_safely (sdk_refuses (openai_answer sdk key r c)) (chat_in_range (openai_answer sdk key r c) c) e"
    if "openai_ask sdk validate key r c = Inl e" for key r c e
  proof (cases "openai_answer sdk key r c")
    case (Inl x)
    with that openai_error_auth openai_error_shape show ?thesis by (auto simp: openai_ask_def fails_safely_def sdk_refuses_def)
  next
    case (Inr m)
    with that openai_completion_cases(1)[of validate m r c e] show ?thesis
      by (auto simp: openai_ask_def fails_safely_def unavailable_def)
  qed
  show "\<not> sdk_refuses (openai_answer sdk key r c) \<and> well_shaped Openai r resp" if "openai_ask sdk validate key r c = Inr resp" for key r c resp
    using that openai_completion_cases(2)[of validate _ r c resp]
    by (auto simp: openai_ask_def sdk_refuses_def well_shaped_def split: sum.splits)
qed

subsection \<open>OpenRouter\<close>

text \<open>An authentication failure may also be embedded into the first choice of an answer.\<close>

definition router_auth :: "router_error \<Rightarrow> bool" where
  "router_auth err \<longleftrightarrow> re_metadata err \<in> {Some (Some (ErrorType ''authentication'')), Some (Some (ErrorType ''permission_denied''))} \<or>
     re_code err \<in> {Some (CodeInt 401), Some (CodeInt 403)}"

definition openrouter_refuses :: "sdk_error + chat_completion \<Rightarrow> bool" where
  "openrouter_refuses answer =
     (case answer of
        Inl e \<Rightarrow> auth_status e
      | Inr m \<Rightarrow> (case cp_choices m of
                    [] \<Rightarrow> False
                  | x # _ \<Rightarrow> (case embedded_error (cx_error x) (cx_extra_error x) of None \<Rightarrow> False | Some err \<Rightarrow> router_auth err)))"

lemma openrouter_error_auth: "normalize_openrouter_error e = GatewayProviderError PROVIDER_AUTH_FAILED m \<Longrightarrow> auth_status e"
  by (cases e) (auto simp: normalize_openrouter_error_def unavailable_def invalid_request_def auth_status_def split: if_splits)

lemma openrouter_error_shape: "normalize_openrouter_error e \<noteq> GatewayValidationError"
  by (cases e) (auto simp: normalize_openrouter_error_def unavailable_def invalid_request_def)

lemma embedded_shape: "normalize_embedded_openrouter_error err \<noteq> GatewayValidationError"
  by (auto simp: normalize_embedded_openrouter_error_def unavailable_def invalid_request_def Let_def
      split: option.splits router_code.splits router_type.splits)

lemma embedded_auth: "normalize_embedded_openrouter_error err = GatewayProviderError PROVIDER_AUTH_FAILED m \<Longrightarrow> router_auth err"
  by (auto simp: normalize_embedded_openrouter_error_def unavailable_def invalid_request_def router_auth_def Let_def
      split: option.splits router_code.splits router_type.splits if_splits)

lemma openrouter_completion_cases:
  "openrouter_normalize_completion validate m r c = Inl e \<Longrightarrow> (\<exists>s. e = unavailable s) \<or> e = GatewayValidationError \<or>
     (\<exists>x xs err. cp_choices m = x # xs \<and> embedded_error (cx_error x) (cx_extra_error x) = Some err \<and>
        e = normalize_embedded_openrouter_error err)"
  "openrouter_normalize_completion validate m r c = Inr y \<Longrightarrow> \<not> openrouter_refuses (Inr m) \<and> well_shaped Openrouter r y"
  by (auto simp: openrouter_normalize_completion_def openrouter_parse_structured_def gw_iffs chat_usage_iff openrouter_refuses_def
      well_shaped_def dest!: mk_response_cases split: list.splits option.splits if_splits)

definition openrouter_ask :: "chat_sdk \<Rightarrow> json_validator \<Rightarrow> string \<Rightarrow> GatewayRequest \<Rightarrow> AdapterContext \<Rightarrow> GatewayResponse gateway_result" where
  "openrouter_ask sdk validate key r c =
     (case openrouter_answer sdk key r c of
        Inl e \<Rightarrow> Inl (normalize_openrouter_error e)
      | Inr m \<Rightarrow> (case openrouter_normalize_completion validate m r c of Inl e \<Rightarrow> Inl (openrouter_caught e) | Inr y \<Rightarrow> Inr y))"

lemma openrouter_generate_ask:
  "openrouter_generate sdk validate r c = (if gr_stream r then Inl (invalid_request ''Use the streaming adapter path when stream=true.'')
     else (case None of Some x \<Rightarrow> Inl (invalid_request x)
       | None \<Rightarrow> (case adapter_key Openrouter ''OpenRouter adapter received a non-OpenRouter provider context.''
             ''OpenRouter credentials are unavailable.'' c of
           Inl e \<Rightarrow> Inl e | Inr key \<Rightarrow> openrouter_ask sdk validate key r c)))"
  by (auto simp: openrouter_generate_def openrouter_client_def openrouter_answer_def openrouter_ask_def gw_guard_def gw_bind_def
      split: sum.split)

interpretation openrouter: llm_adapter Openrouter "openrouter_generate sdk validate"
  "\<lambda>key r c. openrouter_refuses (openrouter_answer sdk key r c)" "\<lambda>key r c. True"
  for sdk validate
proof (rule keyed_laws[OF openrouter_generate_ask])
  show "fails_safely (openrouter_refuses (openrouter_answer sdk key r c)) True e"
    if "openrouter_ask sdk validate key r c = Inl e" for key r c e
  proof (cases "openrouter_answer sdk key r c")
    case (Inl x)
    with that openrouter_error_auth openrouter_error_shape show ?thesis
      by (auto simp: openrouter_ask_def fails_safely_def openrouter_refuses_def)
  next
    case (Inr m)
    with that obtain y where "openrouter_normalize_completion validate m r c = Inl y" "e = openrouter_caught y"
      by (auto simp: openrouter_ask_def split: sum.splits)
    with openrouter_completion_cases(1)[of validate m r c y] embedded_auth[OF sym] embedded_shape Inr show ?thesis
      by (auto simp: openrouter_caught_def fails_safely_def openrouter_refuses_def unavailable_def normalize_openrouter_error_def
          split: gateway_exn.splits)
  qed
  show "\<not> openrouter_refuses (openrouter_answer sdk key r c) \<and> well_shaped Openrouter r resp"
    if "openrouter_ask sdk validate key r c = Inr resp" for key r c resp
    using that openrouter_completion_cases(2)[of validate _ r c resp] by (auto simp: openrouter_ask_def split: sum.splits)
qed

subsection \<open>Anthropic\<close>

lemma translate_fails: "translate_messages (invalid_request x) (invalid_request y) r = Inl e \<Longrightarrow> \<exists>s. e = invalid_request s"
proof -
  have "split_messages late ms systems messages = Inl e \<Longrightarrow> e = late" for late ms systems messages e
    by (induction late ms systems messages rule: split_messages.induct) (auto split: if_splits)
  then show "translate_messages (invalid_request x) (invalid_request y) r = Inl e \<Longrightarrow> \<exists>s. e = invalid_request s"
    unfolding translate_messages_def gw_bind_Inl_iff by (auto simp: gw_iffs) blast
qed

definition anthropic_answer ::
  "anthropic_sdk \<Rightarrow> string \<Rightarrow> GatewayRequest \<Rightarrow> AdapterContext \<Rightarrow> utext option \<times> (string \<times> utext) list \<Rightarrow> sdk_error + anthropic_message" where
  "anthropic_answer sdk key r c p =
     an_create (sdk key (seconds (gr_timeout_ms r)) 0) (anthropic_call_of False r c (fst p) (snd p))"

definition anthropic_ask ::
  "anthropic_sdk \<Rightarrow> json_validator \<Rightarrow> string \<Rightarrow> GatewayRequest \<Rightarrow> AdapterContext \<Rightarrow> GatewayResponse gateway_result" where
  "anthropic_ask sdk validate key r c =
     gw_bind (anthropic_translate_messages r) (\<lambda>p.
       case anthropic_answer sdk key r c p of Inl e \<Rightarrow> Inl (normalize_anthropic_error e) | Inr m \<Rightarrow> normalize_message validate m r c)"

definition anthropic_refuses :: "anthropic_sdk \<Rightarrow> string \<Rightarrow> GatewayRequest \<Rightarrow> AdapterContext \<Rightarrow> bool" where
  "anthropic_refuses sdk key r c =
     (case anthropic_translate_messages r of Inl _ \<Rightarrow> False | Inr p \<Rightarrow> sdk_refuses (anthropic_answer sdk key r c p))"

definition anthropic_in_range :: "anthropic_sdk \<Rightarrow> string \<Rightarrow> GatewayRequest \<Rightarrow> AdapterContext \<Rightarrow> bool" where
  "anthropic_in_range sdk key r c =
     (case anthropic_translate_messages r of
        Inl _ \<Rightarrow> True
      | Inr p \<Rightarrow>
          (case anthropic_answer sdk key r c p of
             Inl _ \<Rightarrow> True
           | Inr m \<Rightarrow> ac_upstream_model c \<noteq> [] \<and> 0 \<le> am_input_tokens m \<and> 0 \<le> am_output_tokens m \<and> am_stop_reason m \<noteq> Some []))"

lemma anthropic_error_auth: "normalize_anthropic_error e = GatewayProviderError PROVIDER_AUTH_FAILED m \<Longrightarrow> auth_status e"
  by (cases e) (auto simp: normalize_anthropic_error_def unavailable_def invalid_request_def auth_status_def split: if_splits)

lemma anthropic_error_shape: "normalize_anthropic_error e \<noteq> GatewayValidationError"
  by (cases e) (auto simp: normalize_anthropic_error_def unavailable_def invalid_request_def)

lemma text_parts_fails: "text_parts bs = Inl e \<Longrightarrow> \<exists>s. e = unavailable s"
  by (induction bs rule: text_parts.induct) (auto simp: gw_iffs)

lemma normalize_message_cases:
  "normalize_message validate m r c = Inl e \<Longrightarrow> (\<exists>s. e = unavailable s) \<or> (e = GatewayValidationError \<and>
     \<not> (ac_upstream_model c \<noteq> [] \<and> 0 \<le> am_input_tokens m \<and> 0 \<le> am_output_tokens m \<and> am_stop_reason m \<noteq> Some []))"
  "normalize_message validate m r c = Inr y \<Longrightarrow> well_shaped Anthropic r y"
  by (auto simp: normalize_message_def message_text_def gw_iffs mk_usage_iff non_negative_def well_shaped_def
      dest!: mk_response_cases text_parts_fails split: option.splits if_splits)

lemma anthropic_generate_ask:
  "anthropic_generate sdk validate r c = (if gr_stream r then Inl (invalid_request ''Use the streaming adapter path when stream=true.'')
     else (case None of Some x \<Rightarrow> Inl (invalid_request x)
       | None \<Rightarrow> (case adapter_key Anthropic ''Anthropic adapter received a non-Anthropic provider context.''
             ''Anthropic credentials are unavailable.'' c of
           Inl e \<Rightarrow> Inl e | Inr key \<Rightarrow> anthropic_ask sdk validate key r c)))"
  by (auto simp: anthropic_generate_def anthropic_client_for_def anthropic_answer_def anthropic_ask_def gw_guard_def gw_bind_def
      split: sum.split prod.split)

interpretation anthropic: llm_adapter Anthropic "anthropic_generate sdk validate" "anthropic_refuses sdk" "anthropic_in_range sdk"
  for sdk validate
proof (rule keyed_laws[OF anthropic_generate_ask])
  show "fails_safely (anthropic_refuses sdk key r c) (anthropic_in_range sdk key r c) e"
    if "anthropic_ask sdk validate key r c = Inl e" for key r c e
  proof (cases "anthropic_translate_messages r")
    case (Inl x)
    then obtain s where "x = invalid_request s" by (auto simp: anthropic_translate_messages_def gw_iffs dest: translate_fails)
    with that Inl show ?thesis by (auto simp: anthropic_ask_def)
  next
    case (Inr p)
    then show ?thesis
      using that anthropic_error_auth anthropic_error_shape normalize_message_cases(1)[of validate _ r c e]
      by (cases "anthropic_answer sdk key r c p")
        (auto simp: anthropic_ask_def anthropic_refuses_def anthropic_in_range_def sdk_refuses_def fails_safely_def unavailable_def)
  qed
  show "\<not> anthropic_refuses sdk key r c \<and> well_shaped Anthropic r resp" if "anthropic_ask sdk validate key r c = Inr resp" for key r c resp
  proof (cases "anthropic_translate_messages r")
    case (Inr p)
    with that obtain m where "anthropic_answer sdk key r c p = Inr m" "normalize_message validate m r c = Inr resp"
      by (cases "anthropic_answer sdk key r c p") (auto simp: anthropic_ask_def)
    with Inr normalize_message_cases(2) show ?thesis by (auto simp: anthropic_refuses_def sdk_refuses_def)
  qed (use that in \<open>simp add: anthropic_ask_def\<close>)
qed

subsection \<open>Gemini\<close>

definition gemini_answer ::
  "gemini_sdk \<Rightarrow> string \<Rightarrow> GatewayRequest \<Rightarrow> AdapterContext \<Rightarrow> utext option \<times> (string \<times> utext) list \<Rightarrow> gemini_error + gemini_response" where
  "gemini_answer sdk key r c p = ge_create (sdk key False) (generation_config r c (fst p) (snd p))"

definition gemini_ask ::
  "gemini_sdk \<Rightarrow> json_validator \<Rightarrow> string \<Rightarrow> GatewayRequest \<Rightarrow> AdapterContext \<Rightarrow> GatewayResponse gateway_result" where
  "gemini_ask sdk validate key r c =
     gw_bind (gemini_translate_messages r) (\<lambda>p.
       case gemini_answer sdk key r c p of
         Inl e \<Rightarrow> Inl (normalize_gemini_error e)
       | Inr m \<Rightarrow> (case gemini_normalize_response validate m r c of Inl e \<Rightarrow> Inl (gemini_caught e) | Inr y \<Rightarrow> Inr y))"

definition gemini_refuses :: "gemini_sdk \<Rightarrow> string \<Rightarrow> GatewayRequest \<Rightarrow> AdapterContext \<Rightarrow> bool" where
  "gemini_refuses sdk key r c =
     (case gemini_translate_messages r of
        Inl _ \<Rightarrow> False
      | Inr p \<Rightarrow> gemini_answer sdk key r c p \<in> {Inl (GeminiAPIError 401), Inl (GeminiAPIError 403)})"

definition gemini_early :: "GatewayRequest \<Rightarrow> string option" where
  "gemini_early r =
     (case gemini_translate_messages r of Inl (GatewayProviderError _ m) \<Rightarrow> Some m | _ \<Rightarrow> None)"

lemma gemini_translate_fails: "gemini_translate_messages r = Inl e \<Longrightarrow> \<exists>s. e = invalid_request s"
  by (auto simp: gemini_translate_messages_def gw_iffs dest: translate_fails)

lemma gemini_error_auth:
  "normalize_gemini_error e = GatewayProviderError PROVIDER_AUTH_FAILED m \<Longrightarrow> e \<in> {GeminiAPIError 401, GeminiAPIError 403}"
  by (cases e) (auto simp: normalize_gemini_error_def unavailable_def invalid_request_def split: if_splits)

lemma gemini_error_shape: "normalize_gemini_error e \<noteq> GatewayValidationError"
  by (cases e) (auto simp: normalize_gemini_error_def unavailable_def invalid_request_def)

lemma gemini_response_fails:
  "gemini_normalize_response validate m r c = Inl e \<Longrightarrow> (\<exists>s. e = unavailable s) \<or> e = GatewayValidationError"
  by (auto simp: gemini_normalize_response_def gemini_parse_structured_def gemini_usage_def gw_iffs mk_usage_iff
      dest!: mk_response_cases(1) split: option.splits if_splits)

lemma gemini_response_shape: "gemini_normalize_response validate m r c = Inr y \<Longrightarrow> well_shaped Gemini r y"
  by (cases "ge_text m"; cases "gr_response_schema r = []")
    (auto simp: gemini_normalize_response_def gw_iffs well_shaped_def dest!: mk_response_cases(2) split: option.splits if_splits)

lemma gemini_generate_ask:
  "gemini_generate sdk validate r c = (if gr_stream r then Inl (invalid_request ''Use the streaming adapter path when stream=true.'')
     else (case gemini_early r of Some x \<Rightarrow> Inl (invalid_request x)
       | None \<Rightarrow> (case adapter_key Gemini ''Gemini adapter received a non-Gemini provider context.''
             ''Gemini credentials are unavailable.'' c of
           Inl e \<Rightarrow> Inl e | Inr key \<Rightarrow> gemini_ask sdk validate key r c)))"
proof (cases "gemini_translate_messages r")
  case (Inl e)
  with gemini_translate_fails[OF Inl] show ?thesis
    by (auto simp: gemini_generate_def gemini_early_def gw_guard_def invalid_request_def)
next
  case (Inr p)
  then show ?thesis
    by (auto simp: gemini_generate_def gemini_client_for_def gemini_answer_def gemini_ask_def gemini_early_def gw_guard_def gw_bind_def
        split: sum.split prod.split)
qed

interpretation gemini: llm_adapter Gemini "gemini_generate sdk validate" "gemini_refuses sdk" "\<lambda>key r c. True"
  for sdk validate
proof (rule keyed_laws[OF gemini_generate_ask])
  show "fails_safely (gemini_refuses sdk key r c) True e" if "gemini_ask sdk validate key r c = Inl e" for key r c e
  proof (cases "gemini_translate_messages r")
    case (Inl x)
    with that gemini_translate_fails[OF Inl] show ?thesis by (auto simp: gemini_ask_def)
  next
    case (Inr p)
    show ?thesis
    proof (cases "gemini_answer sdk key r c p")
      case (Inl x)
      with that \<open>gemini_translate_messages r = Inr p\<close> gemini_error_auth[of x] gemini_error_shape[of x] show ?thesis
        by (auto simp: gemini_ask_def gemini_refuses_def fails_safely_def)
    next
      case (Inr m)
      with that \<open>gemini_translate_messages r = Inr p\<close> obtain y where
        "gemini_normalize_response validate m r c = Inl y" "e = gemini_caught y" by (auto simp: gemini_ask_def split: sum.splits)
      with gemini_response_fails[of validate m r c y] show ?thesis
        by (auto simp: gemini_caught_def fails_safely_def unavailable_def normalize_gemini_error_def invalid_request_def)
    qed
  qed
  show "\<not> gemini_refuses sdk key r c \<and> well_shaped Gemini r resp" if "gemini_ask sdk validate key r c = Inr resp" for key r c resp
  proof (cases "gemini_translate_messages r")
    case (Inr p)
    with that obtain m where "gemini_answer sdk key r c p = Inr m" "gemini_normalize_response validate m r c = Inr resp"
      by (cases "gemini_answer sdk key r c p") (auto simp: gemini_ask_def split: sum.splits)
    with Inr gemini_response_shape show ?thesis by (auto simp: gemini_refuses_def)
  qed (use that in \<open>simp add: gemini_ask_def\<close>)
qed

end
