(* ===== verification/Gateway_Service.thy ===== *)
theory Gateway_Service
  imports Gateway_Laws
begin

text \<open>
  The private HTTP service of the LLM gateway: the provider connectivity test (\<open>connectivity.py\<close>), the
  boundary that authenticates and bounds requests before they are parsed (\<open>http_boundary.py\<close>), the
  embedding route (\<open>routing/embeddings.py\<close>) and the deterministic adapter behind it
  (\<open>adapters/fake.py\<close>).

  Arguments of the model are the SDKs, pydantic's whitespace stripping (\<open>trim\<close>) and request parsing,
  \<open>sha256(...).digest()\<close>, and the application behind the boundary.
\<close>

section \<open>The internal token\<close>

datatype gateway_http =
    HTTPException int string string
  | UnhandledError

type_synonym 'a http_result = "gateway_http + 'a"

definition http_bind :: "'a http_result \<Rightarrow> ('a \<Rightarrow> 'b http_result) \<Rightarrow> 'b http_result" where
  "http_bind r f = (case r of Inl e \<Rightarrow> Inl e | Inr x \<Rightarrow> f x)"

lemma http_bind_simps [simp]: "http_bind (Inl e) f = Inl e" "http_bind (Inr x) f = f x"
  by (simp_all add: http_bind_def)

definition require_internal_token :: "string \<Rightarrow> string option \<Rightarrow> unit http_result" where
  "require_internal_token expected authorization =
     (if expected = [] then Inl (HTTPException 503 ''INTERNAL_GATEWAY_AUTH_UNAVAILABLE'' ''Gateway unavailable.'')
      else
        let supplied = (case authorization of
              None \<Rightarrow> []
            | Some a \<Rightarrow> if startswith a ''Bearer '' then drop (length ''Bearer '') a else [])
        in if supplied = [] then Inl (HTTPException 401 ''UNAUTHORIZED'' ''Unauthorized.'')
           else (case compare_digest supplied expected of
                   None \<Rightarrow> Inl UnhandledError
                 | Some equal \<Rightarrow> if equal then Inr () else Inl (HTTPException 401 ''UNAUTHORIZED'' ''Unauthorized.'')))"

section \<open>Provider connectivity\<close>

definition CONNECTIVITY_TEST_MODELS :: "provider \<Rightarrow> string" where
  "CONNECTIVITY_TEST_MODELS p =
     (case p of Openai \<Rightarrow> ''gpt-5-nano'' | Anthropic \<Rightarrow> ''claude-haiku-4-5-20251001''
      | Gemini \<Rightarrow> ''gemini-3.5-flash-lite'' | Openrouter \<Rightarrow> ''openrouter/free'')"

definition CONNECTIVITY_TEST_PROMPT :: utext where
  "CONNECTIVITY_TEST_PROMPT = cps ''Reply with OK.''"

definition CONNECTIVITY_TEST_MAX_OUTPUT_TOKENS :: int where
  "CONNECTIVITY_TEST_MAX_OUTPUT_TOKENS = 4"

definition CONNECTIVITY_TEST_TIMEOUT_MS :: int where
  "CONNECTIVITY_TEST_TIMEOUT_MS = 5000"

record ProviderConnectivityRequest =
  cq_tenant_id :: uuid
  cq_provider :: provider
  cq_api_key :: string
  cq_correlation_id :: string

definition connectivity_request_ok :: "ProviderConnectivityRequest \<Rightarrow> bool" where
  "connectivity_request_ok q \<longleftrightarrow> 1 \<le> length (cq_api_key q) \<and> length (cq_api_key q) \<le> 4096 \<and>
     1 \<le> length (cq_correlation_id q) \<and> length (cq_correlation_id q) \<le> 256"

type_synonym ProviderConnectivityResponse = "bool \<times> gateway_code option"

definition mk_connectivity_response :: "bool \<Rightarrow> gateway_code option \<Rightarrow> ProviderConnectivityResponse gateway_result" where
  "mk_connectivity_response ok code =
     (if ok \<and> code \<noteq> None \<or> \<not> ok \<and> code = None then Inl GatewayValidationError else Inr (ok, code))"

record provider_sdks =
  ps_openai :: chat_sdk
  ps_anthropic :: anthropic_sdk
  ps_gemini :: gemini_sdk
  ps_openrouter :: chat_sdk

type_synonym adapter = "GatewayRequest \<Rightarrow> AdapterContext \<Rightarrow> GatewayResponse gateway_result"

definition adapter_for :: "provider_sdks \<Rightarrow> json_validator \<Rightarrow> provider \<Rightarrow> adapter" where
  "adapter_for sdks validate p =
     (case p of
        Openai \<Rightarrow> openai_generate (ps_openai sdks) validate
      | Anthropic \<Rightarrow> anthropic_generate (ps_anthropic sdks) validate
      | Gemini \<Rightarrow> gemini_generate (ps_gemini sdks) validate
      | Openrouter \<Rightarrow> openrouter_generate (ps_openrouter sdks) validate)"

definition connectivity_request :: "(string \<Rightarrow> string) \<Rightarrow> ProviderConnectivityRequest \<Rightarrow> GatewayRequest" where
  "connectivity_request trim q =
     \<lparr>gr_tenant_id = cq_tenant_id q, gr_model_alias = ''__serviq_provider_connectivity_test__'', gr_purpose = CLASSIFICATION,
      gr_messages = [\<lparr>gm_role = USER, gm_content = CONNECTIVITY_TEST_PROMPT\<rparr>], gr_response_schema = [],
      gr_max_output_tokens = CONNECTIVITY_TEST_MAX_OUTPUT_TOKENS, gr_timeout_ms = CONNECTIVITY_TEST_TIMEOUT_MS,
      gr_stream = False, gr_correlation_id = trim (cq_correlation_id q)\<rparr>"

text \<open>A failure other than \<open>GatewayProviderError\<close> leaves the function.\<close>

definition run_connectivity_test ::
  "(string \<Rightarrow> string) \<Rightarrow> adapter \<Rightarrow> ProviderConnectivityRequest \<Rightarrow> ProviderConnectivityResponse gateway_result" where
  "run_connectivity_test trim target q =
     gw_bind (mk_request (connectivity_request trim q)) (\<lambda>gateway_request.
       case mk_context (cq_provider q) (CONNECTIVITY_TEST_MODELS (cq_provider q)) (Some (cq_api_key q)) of
         Inl _ \<Rightarrow> Inl GatewayValidationError
       | Inr context \<Rightarrow>
           (case target gateway_request context of
              Inl (GatewayProviderError code _) \<Rightarrow> mk_connectivity_response False (Some code)
            | Inl GatewayValidationError \<Rightarrow> Inl GatewayValidationError
            | Inr _ \<Rightarrow> mk_connectivity_response True None))"

definition provider_connectivity_test ::
  "string \<Rightarrow> (string \<Rightarrow> string) \<Rightarrow> provider_sdks \<Rightarrow> json_validator \<Rightarrow> ProviderConnectivityRequest \<Rightarrow> string option
     \<Rightarrow> ProviderConnectivityResponse http_result" where
  "provider_connectivity_test expected trim sdks validate q authorization =
     http_bind (require_internal_token expected authorization) (\<lambda>_.
       case run_connectivity_test trim (adapter_for sdks validate (cq_provider q)) q of
         Inl _ \<Rightarrow> Inl UnhandledError
       | Inr r \<Rightarrow> Inr r)"

section \<open>The boundary in front of the private routes\<close>

definition MAX_INTERNAL_REQUEST_BODY_BYTES :: int where
  "MAX_INTERNAL_REQUEST_BODY_BYTES = MAX_EMBEDDING_BATCH_SIZE * MAX_EMBEDDING_INPUT_CHARS * 6 + 128 * 1024"

definition INTERNAL_PREFIX :: string where
  "INTERNAL_PREFIX = ''/internal/v1/''"

definition BODY_METHODS :: "string list" where
  "BODY_METHODS = [''POST'', ''PUT'', ''PATCH'']"

datatype asgi_message = HttpRequest string bool | HttpDisconnect

text \<open>
  An application awaits messages, sends its own and ends.  A receive that raises
  \<open>_RequestBodyTooLarge\<close> is the answer None, which the application may catch or let pass.
\<close>

datatype 's asgi_app =
    Receive "asgi_message option \<Rightarrow> 's asgi_app"
  | Send 's "'s asgi_app"
  | Return
  | RaiseTooLarge
  | RaiseOther

datatype 's sent = AppSent 's | BoundaryReply int string string

datatype app_end = Returned | EscapedTooLarge | EscapedOther

text \<open>The messages the application was given, what was sent, and how the call ends.\<close>

type_synonym 's asgi_run = "asgi_message list \<times> 's sent list \<times> app_end"

record asgi_scope =
  sc_type :: string
  sc_path :: string
  sc_method :: string
  sc_headers :: "(string \<times> string) list"

definition body_size :: "asgi_message \<Rightarrow> int" where
  "body_size m = (case m of HttpRequest b _ \<Rightarrow> int (length b) | HttpDisconnect \<Rightarrow> 0)"

text \<open>After its last message the client is gone.\<close>

definition next_message :: "asgi_message list \<Rightarrow> asgi_message \<times> asgi_message list" where
  "next_message ms = (case ms of [] \<Rightarrow> (HttpDisconnect, []) | m # rest \<Rightarrow> (m, rest))"

definition received_too_much :: "int option \<Rightarrow> asgi_message \<Rightarrow> int \<Rightarrow> bool" where
  "received_too_much cap m received =
     (case (cap, m) of (Some limit, HttpRequest _ _) \<Rightarrow> received > limit | _ \<Rightarrow> False)"

primrec run_app :: "'s asgi_app \<Rightarrow> int option \<Rightarrow> int \<Rightarrow> asgi_message list \<Rightarrow> 's asgi_run" where
  "run_app (Receive k) cap received ms =
     (let (m, rest) = next_message ms; received' = received + body_size m
      in if received_too_much cap m received' then run_app (k None) cap received' rest
         else (case run_app (k (Some m)) cap received' rest of (got, out, e) \<Rightarrow> (m # got, out, e)))"
| "run_app (Send s k) cap received ms = (case run_app k cap received ms of (got, out, e) \<Rightarrow> (got, AppSent s # out, e))"
| "run_app Return cap received ms = ([], [], Returned)"
| "run_app RaiseTooLarge cap received ms = ([], [], EscapedTooLarge)"
| "run_app RaiseOther cap received ms = ([], [], EscapedOther)"

definition internal_body_route :: "asgi_scope \<Rightarrow> bool" where
  "internal_body_route sc \<longleftrightarrow> sc_type sc = ''http'' \<and> startswith (sc_path sc) INTERNAL_PREFIX \<and> sc_method sc \<in> set BODY_METHODS"

definition detail_response :: "int \<Rightarrow> string \<Rightarrow> string \<Rightarrow> 's asgi_run" where
  "detail_response status code message = ([], [BoundaryReply status code message], Returned)"

text \<open>The declared length, if any: None for one that is acceptable, otherwise the refusal.\<close>

definition declared_length_refusal :: "asgi_scope \<Rightarrow> 's asgi_run option" where
  "declared_length_refusal sc =
     (case map_of (sc_headers sc) ''content-length'' of
        None \<Rightarrow> None
      | Some declared_length \<Rightarrow>
          (case py_int10 declared_length of
             None \<Rightarrow> Some (detail_response 400 ''INVALID_CONTENT_LENGTH'' ''Invalid Content-Length header.'')
           | Some body_length \<Rightarrow>
               if body_length < 0 then Some (detail_response 400 ''INVALID_CONTENT_LENGTH'' ''Invalid Content-Length header.'')
               else if body_length > MAX_INTERNAL_REQUEST_BODY_BYTES
               then Some (detail_response 413 ''REQUEST_BODY_TOO_LARGE'' ''Request body exceeds the allowed size.'')
               else None))"

definition InternalGatewayBoundaryMiddleware :: "string \<Rightarrow> 's asgi_app \<Rightarrow> asgi_scope \<Rightarrow> asgi_message list \<Rightarrow> 's asgi_run" where
  "InternalGatewayBoundaryMiddleware expected app sc ms =
     (if \<not> internal_body_route sc then run_app app None 0 ms
      else (case require_internal_token expected (map_of (sc_headers sc) ''authorization'') of
              Inl (HTTPException status code message) \<Rightarrow> detail_response status code message
            | Inl UnhandledError \<Rightarrow> ([], [], EscapedOther)
            | Inr _ \<Rightarrow>
                (case declared_length_refusal sc of
                   Some refusal \<Rightarrow> refusal
                 | None \<Rightarrow>
                     (case run_app app (Some MAX_INTERNAL_REQUEST_BODY_BYTES) 0 ms of
                        (got, out, EscapedTooLarge) \<Rightarrow>
                          (got, out @ [BoundaryReply 413 ''REQUEST_BODY_TOO_LARGE'' ''Request body exceeds the allowed size.''], Returned)
                      | finished \<Rightarrow> finished))))"

section \<open>The deterministic adapter\<close>

datatype fake_scenario =
    TEXT_SUCCESS | STRUCTURED_SUCCESS | STREAM_SUCCESS | TIMEOUT | RATE_LIMITED | UNAVAILABLE | AUTH_FAILED | MALFORMED_STRUCTURED

definition scenario_value :: "fake_scenario \<Rightarrow> string" where
  "scenario_value s =
     (case s of
        TEXT_SUCCESS \<Rightarrow> ''text_success'' | STRUCTURED_SUCCESS \<Rightarrow> ''structured_success'' | STREAM_SUCCESS \<Rightarrow> ''stream_success''
      | TIMEOUT \<Rightarrow> ''timeout'' | RATE_LIMITED \<Rightarrow> ''rate_limited'' | UNAVAILABLE \<Rightarrow> ''unavailable'' | AUTH_FAILED \<Rightarrow> ''auth_failed''
      | MALFORMED_STRUCTURED \<Rightarrow> ''malformed_structured'')"

record FakeScenarioDefinition =
  fd_content :: "utext option"
  fd_structured :: "json_object option"
  fd_stream_chunks :: "utext list"
  fd_error :: "(gateway_code \<times> string) option"

definition FAKE_TEXT :: utext where
  "FAKE_TEXT = cps ''Serviq deterministic fake response.''"

definition FAKE_STRUCTURED :: json_object where
  "FAKE_STRUCTURED = [(cps ''answer'', WStr (cps ''deterministic'')), (cps ''confidence'', WFloat (cps ''1.0''))]"

definition FAKE_MALFORMED_STRUCTURED :: json_object where
  "FAKE_MALFORMED_STRUCTURED = [(cps ''answer'', WInt 123), (cps ''confidence'', WStr (cps ''not-a-number''))]"

definition no_fake :: FakeScenarioDefinition where
  "no_fake = \<lparr>fd_content = None, fd_structured = None, fd_stream_chunks = [], fd_error = None\<rparr>"

definition FAKE_SCENARIOS :: "fake_scenario \<Rightarrow> FakeScenarioDefinition" where
  "FAKE_SCENARIOS s =
     (case s of
        TEXT_SUCCESS \<Rightarrow> no_fake\<lparr>fd_content := Some FAKE_TEXT\<rparr>
      | STRUCTURED_SUCCESS \<Rightarrow> no_fake\<lparr>fd_structured := Some FAKE_STRUCTURED\<rparr>
      | STREAM_SUCCESS \<Rightarrow> no_fake\<lparr>fd_content := Some FAKE_TEXT,
          fd_stream_chunks := [cps ''Serviq deter'', cps ''ministic fake r'', cps ''esponse.'']\<rparr>
      | TIMEOUT \<Rightarrow> no_fake\<lparr>fd_error := Some (PROVIDER_TIMEOUT, ''Deterministic fake provider timed out.'')\<rparr>
      | RATE_LIMITED \<Rightarrow> no_fake\<lparr>fd_error := Some (PROVIDER_RATE_LIMITED, ''Deterministic fake provider was rate limited.'')\<rparr>
      | UNAVAILABLE \<Rightarrow> no_fake\<lparr>fd_error := Some (PROVIDER_UNAVAILABLE, ''Deterministic fake provider is unavailable.'')\<rparr>
      | AUTH_FAILED \<Rightarrow> no_fake\<lparr>fd_error := Some (PROVIDER_AUTH_FAILED, ''Deterministic fake provider authentication failed.'')\<rparr>
      | MALFORMED_STRUCTURED \<Rightarrow> no_fake\<lparr>fd_structured := Some FAKE_MALFORMED_STRUCTURED\<rparr>)"

definition raise_if_failure :: "FakeScenarioDefinition \<Rightarrow> unit gateway_result" where
  "raise_if_failure d = (case fd_error d of None \<Rightarrow> Inr () | Some (code, message) \<Rightarrow> Inl (GatewayProviderError code message))"

text \<open>\<open>str.encode("utf-8")\<close>, on Unicode scalar values\<close>

definition utf8_char :: "int \<Rightarrow> int list" where
  "utf8_char c =
     (if c < 128 then [c]
      else if c < 2048 then [192 + c div 64, 128 + c mod 64]
      else if c < 65536 then [224 + c div 4096, 128 + c div 64 mod 64, 128 + c mod 64]
      else [240 + c div 262144, 128 + c div 4096 mod 64, 128 + c div 64 mod 64, 128 + c mod 64])"

definition utf8_bytes :: "utext \<Rightarrow> string" where
  "utf8_bytes t = map char_of (concat (map utf8_char t))"

text \<open>\<open>json.dumps(..., sort_keys=True, separators=(",", ":"), ensure_ascii=True)\<close>\<close>

definition hex4 :: "int \<Rightarrow> utext" where
  "hex4 n = [hex_char (n div 4096), hex_char (n div 256 mod 16), hex_char (n div 16 mod 16), hex_char (n mod 16)]"

definition ascii_escape :: "int \<Rightarrow> utext" where
  "ascii_escape c =
     (if c < 127 then escape_char c
      else if c < 65536 then [92, 117] @ hex4 c
      else [92, 117] @ hex4 (55296 + (c - 65536) div 1024) @ [92, 117] @ hex4 (56320 + (c - 65536) mod 1024))"

definition ascii_quote :: "utext \<Rightarrow> utext" where
  "ascii_quote s = [34] @ concat (map ascii_escape s) @ [34]"

fun ascii_dumps :: "wjson \<Rightarrow> utext" where
  "ascii_dumps WNull = cps ''null''"
| "ascii_dumps (WBool b) = (if b then cps ''true'' else cps ''false'')"
| "ascii_dumps (WInt n) = decimal n"
| "ascii_dumps (WFloat t) = t"
| "ascii_dumps (WStr s) = ascii_quote s"
| "ascii_dumps (WArr vs) = [91] @ u_join [44] (map ascii_dumps vs) @ [93]"
| "ascii_dumps (WObj kvs) =
     [123] @ u_join [44] (map (\<lambda>(k, t). ascii_quote k @ [58] @ t) (sort_key fst (map (\<lambda>(k, v). (k, ascii_dumps v)) kvs))) @ [125]"

definition purpose_value :: "gateway_purpose \<Rightarrow> string" where
  "purpose_value p =
     (case p of CLASSIFICATION \<Rightarrow> ''classification'' | GENERATION \<Rightarrow> ''generation'' | EVALUATION \<Rightarrow> ''evaluation'' | EMBEDDING \<Rightarrow> ''embedding'')"

text \<open>\<open>request.model_dump(mode="json", by_alias=True)\<close>\<close>

definition request_json :: "GatewayRequest \<Rightarrow> wjson" where
  "request_json r =
     WObj [(cps ''tenantId'', WStr (cps (uuid_str (gr_tenant_id r)))), (cps ''modelAlias'', WStr (cps (gr_model_alias r))),
           (cps ''purpose'', WStr (cps (purpose_value (gr_purpose r)))),
           (cps ''messages'', WArr (map (\<lambda>m. WObj [(cps ''role'', WStr (cps (role_value (gm_role m)))), (cps ''content'', WStr (gm_content m))])
              (gr_messages r))),
           (cps ''responseSchema'', WObj (gr_response_schema r)), (cps ''maxOutputTokens'', WInt (gr_max_output_tokens r)),
           (cps ''timeoutMs'', WInt (gr_timeout_ms r)), (cps ''stream'', WBool (gr_stream r)),
           (cps ''correlationId'', WStr (cps (gr_correlation_id r)))]"

record GatewayEmbeddingRequest =
  er_tenant_id :: uuid
  er_model_alias :: string
  er_inputs :: "utext list"
  er_correlation_id :: string

definition embedding_request_ok :: "GatewayEmbeddingRequest \<Rightarrow> bool" where
  "embedding_request_ok r \<longleftrightarrow> er_model_alias r \<noteq> [] \<and> er_correlation_id r \<noteq> [] \<and> er_inputs r \<noteq> [] \<and>
     int (length (er_inputs r)) \<le> MAX_EMBEDDING_BATCH_SIZE \<and>
     list_all (\<lambda>t. t \<noteq> [] \<and> int (length t) \<le> MAX_EMBEDDING_INPUT_CHARS) (er_inputs r)"

definition embedding_request_json :: "GatewayEmbeddingRequest \<Rightarrow> wjson" where
  "embedding_request_json r =
     WObj [(cps ''tenantId'', WStr (cps (uuid_str (er_tenant_id r)))), (cps ''modelAlias'', WStr (cps (er_model_alias r))),
           (cps ''purpose'', WStr (cps (purpose_value EMBEDDING))), (cps ''inputs'', WArr (map WStr (er_inputs r))),
           (cps ''correlationId'', WStr (cps (er_correlation_id r)))]"

type_synonym sha256 = "string \<Rightarrow> string"

definition hexdigest :: "sha256 \<Rightarrow> string \<Rightarrow> string" where
  "hexdigest sha bs = concat (map (\<lambda>c. to_hex 2 (of_char c)) (sha bs))"

definition deterministic_request_id :: "sha256 \<Rightarrow> wjson \<Rightarrow> AdapterContext \<Rightarrow> fake_scenario \<Rightarrow> string" where
  "deterministic_request_id sha request context scenario =
     (let canonical = WObj [(cps ''request'', request), (cps ''provider'', WStr (cps (provider_key (ac_provider context)))),
            (cps ''upstreamModel'', WStr (cps (ac_upstream_model context))), (cps ''scenario'', WStr (cps (scenario_value scenario)))]
      in ''fake_'' @ take 24 (hexdigest sha (utf8_bytes (ascii_dumps canonical))))"

definition fake_generate :: "sha256 \<Rightarrow> fake_scenario \<Rightarrow> adapter" where
  "fake_generate sha scenario request context =
     (let d = FAKE_SCENARIOS scenario
      in gw_bind (raise_if_failure d) (\<lambda>_. gw_bind (mk_usage (Some 42) (Some 7)) (\<lambda>usage.
           mk_response (fd_content d) (case fd_structured d of None \<Rightarrow> [] | Some obj \<Rightarrow> obj) (ac_provider context) (ac_upstream_model context)
             usage ''stop'' (Some (deterministic_request_id sha (request_json request) context scenario)))))"

definition fake_stream :: "sha256 \<Rightarrow> fake_scenario \<Rightarrow> GatewayRequest \<Rightarrow> AdapterContext \<Rightarrow> event_stream" where
  "fake_stream sha scenario request context =
     (let d = FAKE_SCENARIOS scenario
      in case gw_bind (raise_if_failure d) (\<lambda>_.
             gw_guard (scenario = STREAM_SUCCESS) (invalid_request ''Selected fake scenario does not define streaming output.'')) of
           Inl e \<Rightarrow> ([], Some e)
         | Inr _ \<Rightarrow>
             stream_of (map content_event (fd_stream_chunks d))
               (gw_bind (mk_usage (Some 42) (Some 7)) (\<lambda>usage.
                gw_bind (terminal_event None (Some ''stop'') (Some usage)
                  (Some (deterministic_request_id sha (request_json request) context scenario))) (\<lambda>e. Inr [e]))))"

section \<open>Embeddings\<close>

definition EMBEDDING_DOMAIN :: string where
  "EMBEDDING_DOMAIN = ''serviq-fake-embedding-v1'' @ [CHR 0x00]"

text \<open>\<open>block.to_bytes(4, "big")\<close>\<close>

definition to_bytes4 :: "nat \<Rightarrow> string" where
  "to_bytes4 n = map char_of [n div 16777216, n div 65536 mod 256, n div 256 mod 256, n mod 256]"

text \<open>\<open>(byte - 127.5) / 127.5\<close>, without the rounding of floats\<close>

definition byte_value :: "char \<Rightarrow> rat" where
  "byte_value c = (of_int (of_char c) - 255 / 2) / (255 / 2)"

partial_function (option) embedding_loop :: "sha256 \<Rightarrow> string \<Rightarrow> rat list \<Rightarrow> nat \<Rightarrow> rat list option" where
  "embedding_loop sha encoded values block =
     (if length values < EMBEDDING_DIMENSION
      then embedding_loop sha encoded (values @ map byte_value (sha (EMBEDDING_DOMAIN @ to_bytes4 block @ encoded))) (Suc block)
      else Some (take EMBEDDING_DIMENSION values))"

definition deterministic_embedding :: "sha256 \<Rightarrow> utext \<Rightarrow> rat list option" where
  "deterministic_embedding sha t = embedding_loop sha (utf8_bytes t) [] 0"

record GatewayEmbeddingResponse =
  ep_embeddings :: "rat list list"
  ep_provider :: provider
  ep_upstream_model :: string
  ep_usage :: GatewayUsage
  ep_request_id :: "string option"

definition mk_embedding_response ::
  "rat list list \<Rightarrow> provider \<Rightarrow> string \<Rightarrow> GatewayUsage \<Rightarrow> string option \<Rightarrow> GatewayEmbeddingResponse gateway_result" where
  "mk_embedding_response embeddings p upstream_model usage request_id =
     (if embeddings \<noteq> [] \<and> int (length embeddings) \<le> MAX_EMBEDDING_BATCH_SIZE \<and>
         list_all (\<lambda>v. length v = EMBEDDING_DIMENSION) embeddings \<and> upstream_model \<noteq> []
      then Inr \<lparr>ep_embeddings = embeddings, ep_provider = p, ep_upstream_model = upstream_model, ep_usage = usage, ep_request_id = request_id\<rparr>
      else Inl GatewayValidationError)"

text \<open>None: an embedding is never finished.\<close>

definition fake_embed ::
  "sha256 \<Rightarrow> fake_scenario \<Rightarrow> GatewayEmbeddingRequest \<Rightarrow> AdapterContext \<Rightarrow> GatewayEmbeddingResponse gateway_result option" where
  "fake_embed sha scenario request context =
     (case raise_if_failure (FAKE_SCENARIOS scenario) of
        Inl e \<Rightarrow> Some (Inl e)
      | Inr _ \<Rightarrow>
          map_option (\<lambda>embeddings.
              gw_bind (mk_usage (Some (int (length (er_inputs request)) * 10)) (Some 0)) (\<lambda>usage.
                mk_embedding_response embeddings (ac_provider context) (ac_upstream_model context) usage
                  (Some (deterministic_request_id sha (embedding_request_json request) context scenario))))
            (those (map (deterministic_embedding sha) (er_inputs request))))"

definition EMBEDDING_MODEL_ALIAS :: string where
  "EMBEDDING_MODEL_ALIAS = ''serviq-embedding-v1''"

definition resolve_adapter :: "string \<Rightarrow> (fake_scenario \<times> AdapterContext) gateway_result" where
  "resolve_adapter model_alias =
     (if model_alias \<noteq> EMBEDDING_MODEL_ALIAS then Inl (unavailable ''Embedding profile is unavailable.'')
      else (case mk_context Openai ''serviq-fake-v1'' None of
              Inl _ \<Rightarrow> Inl GatewayValidationError
            | Inr context \<Rightarrow> Inr (TEXT_SUCCESS, context)))"

definition embedding_http :: "gateway_exn \<Rightarrow> gateway_http" where
  "embedding_http e =
     (case e of GatewayProviderError code message \<Rightarrow> HTTPException 503 (error_text code) message | GatewayValidationError \<Rightarrow> UnhandledError)"

definition checked_batch :: "GatewayEmbeddingRequest \<Rightarrow> GatewayEmbeddingResponse \<Rightarrow> GatewayEmbeddingResponse http_result" where
  "checked_batch request response =
     (if length (ep_embeddings response) \<noteq> length (er_inputs request)
      then Inl (embedding_http (unavailable ''Embedding provider returned an invalid batch response.''))
      else Inr response)"

definition generate_embeddings ::
  "string \<Rightarrow> sha256 \<Rightarrow> GatewayEmbeddingRequest \<Rightarrow> string option \<Rightarrow> GatewayEmbeddingResponse http_result option" where
  "generate_embeddings expected sha request authorization =
     (case require_internal_token expected authorization of
        Inl e \<Rightarrow> Some (Inl e)
      | Inr _ \<Rightarrow>
          (case resolve_adapter (er_model_alias request) of
             Inl e \<Rightarrow> Some (Inl (embedding_http e))
           | Inr (scenario, context) \<Rightarrow>
               map_option (\<lambda>answer. case answer of Inl e \<Rightarrow> Inl (embedding_http e) | Inr response \<Rightarrow> checked_batch request response)
                 (fake_embed sha scenario request context)))"

end
