(* ===== verification/Gateway_System.thy ===== *)
theory Gateway_System
  imports Gateway_Service
begin

text \<open>
  What the LLM gateway promises: the API's provider test against the gateway reflects what the provider
  answered, streams deliver the provider's text, the boundary bounds and authenticates what it lets
  through, and embeddings come in the order and the shape of the batch.
\<close>

section \<open>The connectivity test over any adapter\<close>

definition connectivity_context :: "ProviderConnectivityRequest \<Rightarrow> AdapterContext" where
  "connectivity_context q =
     \<lparr>ac_provider = cq_provider q, ac_upstream_model = CONNECTIVITY_TEST_MODELS (cq_provider q), ac_api_key = Some (cq_api_key q)\<rparr>"

lemma connectivity_context: "mk_context (cq_provider q) (CONNECTIVITY_TEST_MODELS (cq_provider q)) (Some (cq_api_key q)) = Inr (connectivity_context q)"
proof -
  have "strip (CONNECTIVITY_TEST_MODELS p) \<noteq> []" for p by (induction p; code_simp)
  then show ?thesis by (simp add: mk_context_def connectivity_context_def)
qed

lemma connectivity_request_valid: "mk_request (connectivity_request trim q) =
    (if trim (cq_correlation_id q) = [] then Inl GatewayValidationError else Inr (connectivity_request trim q))"
  by (simp add: mk_request_def gateway_request_ok_def connectivity_request_def CONNECTIVITY_TEST_PROMPT_def cps_def
      CONNECTIVITY_TEST_MAX_OUTPUT_TOKENS_def CONNECTIVITY_TEST_TIMEOUT_MS_def MAX_OUTPUT_TOKENS_def MAX_TIMEOUT_MS_def)

definition test_outcome :: "'a gateway_result \<Rightarrow> ProviderConnectivityResponse gateway_result" where
  "test_outcome answer =
     (case answer of
        Inr _ \<Rightarrow> Inr (True, None)
      | Inl (GatewayProviderError code _) \<Rightarrow> Inr (False, Some code)
      | Inl GatewayValidationError \<Rightarrow> Inl GatewayValidationError)"

lemma run_connectivity_test_outcome:
  assumes "trim (cq_correlation_id q) \<noteq> []"
  shows "run_connectivity_test trim target q = test_outcome (target (connectivity_request trim q) (connectivity_context q))"
  using assms
  by (auto simp: run_connectivity_test_def connectivity_request_valid connectivity_context mk_connectivity_response_def test_outcome_def
      split: sum.split gateway_exn.split)

lemma test_outcome_iffs:
  "test_outcome a = Inr (True, x) \<longleftrightarrow> x = None \<and> (\<exists>y. a = Inr y)"
  "test_outcome a = Inr (False, Some code) \<longleftrightarrow> (\<exists>m. a = Inl (GatewayProviderError code m))"
  by (auto simp: test_outcome_def split: sum.splits gateway_exn.splits)

context llm_adapter
begin

lemma connectivity_accepts:
  assumes "trim (cq_correlation_id q) \<noteq> []" "run_connectivity_test trim generate q = Inr (True, x)"
  shows "cq_provider q = served \<and> strip (cq_api_key q) \<noteq> [] \<and>
    \<not> refused (cq_api_key q) (connectivity_request trim q) (connectivity_context q)"
  using assms(2) response[of "connectivity_request trim q" "connectivity_context q"]
  unfolding run_connectivity_test_outcome[of trim q generate, OF assms(1)] test_outcome_iffs
  by (auto simp: connectivity_context_def)

lemma connectivity_blames_key:
  assumes "trim (cq_correlation_id q) \<noteq> []" "run_connectivity_test trim generate q = Inr (False, Some PROVIDER_AUTH_FAILED)"
  shows "strip (cq_api_key q) = [] \<or> refused (cq_api_key q) (connectivity_request trim q) (connectivity_context q)"
  using assms(2) auth_failure[of "connectivity_request trim q" "connectivity_context q"]
  unfolding run_connectivity_test_outcome[of trim q generate, OF assms(1)] test_outcome_iffs
  by (auto simp: connectivity_context_def)

end

text \<open>The provider answers the test call of its adapter under this key with an authentication failure.\<close>

definition provider_refuses :: "provider_sdks \<Rightarrow> provider \<Rightarrow> string \<Rightarrow> GatewayRequest \<Rightarrow> AdapterContext \<Rightarrow> bool" where
  "provider_refuses sdks p key r c =
     (case p of
        Openai \<Rightarrow> sdk_refuses (openai_answer (ps_openai sdks) key r c)
      | Anthropic \<Rightarrow> anthropic_refuses (ps_anthropic sdks) key r c
      | Gemini \<Rightarrow> gemini_refuses (ps_gemini sdks) key r c
      | Openrouter \<Rightarrow> openrouter_refuses (openrouter_answer (ps_openrouter sdks) key r c))"

lemma adapter_test_accepts:
  assumes "trim (cq_correlation_id q) \<noteq> []" "run_connectivity_test trim (adapter_for sdks validate (cq_provider q)) q = Inr (True, x)"
  shows "strip (cq_api_key q) \<noteq> [] \<and>
    \<not> provider_refuses sdks (cq_provider q) (cq_api_key q) (connectivity_request trim q) (connectivity_context q)"
  using assms(2) openai.connectivity_accepts[of trim q, OF assms(1)] anthropic.connectivity_accepts[of trim q, OF assms(1)]
    gemini.connectivity_accepts[of trim q, OF assms(1)] openrouter.connectivity_accepts[of trim q, OF assms(1)]
  by (cases "cq_provider q") (auto simp: adapter_for_def provider_refuses_def)

lemma adapter_test_blames_key:
  assumes "trim (cq_correlation_id q) \<noteq> []"
    "run_connectivity_test trim (adapter_for sdks validate (cq_provider q)) q = Inr (False, Some PROVIDER_AUTH_FAILED)"
  shows "strip (cq_api_key q) = [] \<or>
    provider_refuses sdks (cq_provider q) (cq_api_key q) (connectivity_request trim q) (connectivity_context q)"
  using assms(2) openai.connectivity_blames_key[of trim q, OF assms(1)] anthropic.connectivity_blames_key[of trim q, OF assms(1)]
    gemini.connectivity_blames_key[of trim q, OF assms(1)] openrouter.connectivity_blames_key[of trim q, OF assms(1)]
  by (cases "cq_provider q") (auto simp: adapter_for_def provider_refuses_def)

section \<open>The API's test against the gateway\<close>

text \<open>
  The gateway as the API's HTTP client sees it: a POST to its test route whose body \<open>parse\<close> reads as a
  \<open>ProviderConnectivityRequest\<close>; a refused body is answered with status 422, an unhandled failure with 500.
\<close>

definition gateway_endpoint ::
  "string \<Rightarrow> (string \<Rightarrow> string) \<Rightarrow> ((string \<times> string) list \<Rightarrow> ProviderConnectivityRequest option) \<Rightarrow> provider_sdks \<Rightarrow> json_validator
     \<Rightarrow> gateway_post" where
  "gateway_endpoint expected trim parse sdks validate url headers payload =
     (case require_internal_token expected (map_of headers ''Authorization'') of
        Inl (HTTPException status _ _) \<Rightarrow> GatewayReply status None
      | Inl UnhandledError \<Rightarrow> GatewayReply 500 None
      | Inr _ \<Rightarrow>
          (case parse payload of
             None \<Rightarrow> GatewayReply 422 None
           | Some q \<Rightarrow>
               (case provider_connectivity_test expected trim sdks validate q (map_of headers ''Authorization'') of
                  Inl (HTTPException status _ _) \<Rightarrow> GatewayReply status None
                | Inl UnhandledError \<Rightarrow> GatewayReply 500 None
                | Inr r \<Rightarrow> GatewayReply 200 (Some r))))"

lemma token_accepted: "token \<noteq> [] \<Longrightarrow> is_ascii token \<Longrightarrow> require_internal_token token (Some (''Bearer '' @ token)) = Inr ()"
  by (simp add: require_internal_token_def compare_digest_def startswith_def)

lemma token_needed: "require_internal_token expected auth = Inr () \<longleftrightarrow>
    expected \<noteq> [] \<and> is_ascii expected \<and> auth = Some (''Bearer '' @ expected)"
proof
  assume need: "require_internal_token expected auth = Inr ()"
  then obtain a where a: "auth = Some a" "startswith a ''Bearer ''" "is_ascii expected" "expected \<noteq> []" "drop (length ''Bearer '') a = expected"
    by (cases auth) (auto simp: require_internal_token_def compare_digest_def Let_def split: if_splits)
  then have "a = ''Bearer '' @ expected" using append_take_drop_id[of "length ''Bearer ''" a] unfolding startswith_def by simp
  with a show "expected \<noteq> [] \<and> is_ascii expected \<and> auth = Some (''Bearer '' @ expected)" by simp
qed (metis token_accepted)

text \<open>The exact outcome of the API's test.\<close>

definition api_outcome :: "'a gateway_result \<Rightarrow> ProviderConnectivityOutcome" where
  "api_outcome answer =
     (case answer of
        Inr _ \<Rightarrow> \<lparr>po_ok = True, po_error_code = None\<rparr>
      | Inl (GatewayProviderError code _) \<Rightarrow> failed_test code
      | Inl GatewayValidationError \<Rightarrow> failed_test PROVIDER_UNAVAILABLE)"

lemma gateway_test_outcome:
  assumes "token \<noteq> []" "is_ascii token" "trim (cq_correlation_id q) \<noteq> []"
    and "parse [(''tenantId'', uuid_str (cq_tenant_id q)), (''provider'', provider_key (cq_provider q)), (''apiKey'', cq_api_key q),
      (''correlationId'', cq_correlation_id q)] = Some q"
  shows "gateway_test (HttpProviderConnectivityGateway url token (gateway_endpoint token trim parse sdks validate))
      (cq_tenant_id q) (cq_provider q) (cq_api_key q) (cq_correlation_id q) =
    api_outcome (adapter_for sdks validate (cq_provider q) (connectivity_request trim q) (connectivity_context q))"
  using assms token_accepted[OF assms(1,2)]
  by (auto simp: gateway_test_def HttpProviderConnectivityGateway_def gateway_endpoint_def provider_connectivity_test_def
      run_connectivity_test_outcome[of trim q, OF assms(3)] test_outcome_def api_outcome_def failed_test_def split: sum.split gateway_exn.split)

section \<open>Streams\<close>

text \<open>A loop that no item stops reaches its end; what an item establishes and every item keeps holds there.\<close>

lemma stream_loop_runs: "list_all (\<lambda>c. \<forall>st. snd (body c st) = None) cs \<Longrightarrow> snd (stream_loop body cs st) = None"
proof (induction cs arbitrary: st)
  case (Cons c cs)
  then show ?case by (cases "body c st") (auto dest: spec[of _ st])
qed simp

lemma stream_loop_keeps:
  assumes "\<And>c st. P st \<Longrightarrow> P (fst (body c st))"
  shows "P st \<Longrightarrow> P (fst (stream_loop body cs st))"
proof (induction cs arbitrary: st)
  case (Cons c cs)
  obtain st1 r where b: "body c st = (st1, r)" by fastforce
  with assms[OF Cons.prems, of c] Cons.IH[of st1] show ?case by (cases r) auto
qed simp

lemma stream_loop_sets:
  assumes keeps: "\<And>c st. P st \<Longrightarrow> P (fst (body c st))" and sets: "\<And>st. P (fst (body d st))"
    and "d \<in> set cs" "list_all (\<lambda>c. \<forall>st. snd (body c st) = None) cs"
  shows "P (fst (stream_loop body cs st))"
  using assms(3,4)
proof (induction cs arbitrary: st)
  case (Cons c cs)
  then have "snd (body c st) = None" by simp
  then obtain st1 where b: "body c st = (st1, None)" by (metis prod.collapse)
  show ?case
  proof (cases "c = d")
    case True
    with sets[of st] b have "P st1" by simp
    from stream_loop_keeps[of P body, OF keeps this] b show ?thesis by simp
  next
    case False
    with Cons b show ?thesis by simp
  qed
qed simp

definition identified :: "stream_state \<Rightarrow> bool" where
  "identified st \<longleftrightarrow> ss_request_id st \<noteq> None"

lemma identified_simps [simp]: "identified (emit t st) = identified st" "identified (st\<lparr>ss_finish_reason := x\<rparr>) = identified st"
  "identified (st\<lparr>ss_usage := y\<rparr>) = identified st" "identified (st\<lparr>ss_buffer := b\<rparr>) = identified st"
  "identified (st\<lparr>ss_request_id := Some i\<rparr>)"
  by (simp_all add: identified_def emit_def)

text \<open>Chunks that stay within the documented ranges, and carry no failure.\<close>

definition sound_choice :: "chat_choice \<Rightarrow> bool" where
  "sound_choice x \<longleftrightarrow> embedded_error (cx_error x) (cx_extra_error x) = None \<and> cx_finish_reason x \<noteq> Some ''error''"

definition sound_chunk :: "chat_chunk \<Rightarrow> bool" where
  "sound_chunk k \<longleftrightarrow> embedded_error (ck_error k) (ck_extra_error k) = None \<and> usage_in_range (ck_usage k) \<and> list_all sound_choice (ck_choices k)"

lemma mk_usage_in_range: "usage_in_range (Some (i, out)) \<Longrightarrow> mk_usage i out = Inr \<lparr>gu_input_tokens = i, gu_output_tokens = out\<rparr>"
  by (simp add: usage_in_range_def mk_usage_def)

lemma openai_choice_runs: "snd (stream_loop openai_choice xs st) = None"
  by (rule stream_loop_runs) (simp add: openai_choice_def Let_def list_all_iff)

lemma openai_choice_identified: "identified st \<Longrightarrow> identified (fst (stream_loop openai_choice xs st))"
  by (rule stream_loop_keeps) (auto simp: openai_choice_def Let_def split: option.split)

lemma openrouter_choice_runs: "list_all sound_choice xs \<Longrightarrow> snd (stream_loop (openrouter_choice request) xs st) = None"
  by (rule stream_loop_runs) (auto simp: sound_choice_def openrouter_choice_def Let_def list_all_iff split: option.split)

lemma openrouter_choice_identified: "identified st \<Longrightarrow> identified (fst (stream_loop (openrouter_choice request) xs st))"
  by (rule stream_loop_keeps) (auto simp: openrouter_choice_def Let_def split: option.split)

lemma openai_chunk_runs: "sound_chunk k \<Longrightarrow> snd (openai_chunk k st) = None"
  by (auto simp: openai_chunk_def sound_chunk_def mk_usage_in_range Let_def openai_choice_runs split: option.split)

lemma openrouter_chunk_runs: "sound_chunk k \<Longrightarrow> snd (openrouter_chunk request k st) = None"
  by (auto simp: openrouter_chunk_def sound_chunk_def mk_usage_in_range Let_def openrouter_choice_runs split: option.split)

lemma openai_chunk_identified: "identified st \<or> ck_id k \<noteq> [] \<Longrightarrow> identified (fst (openai_chunk k st))"
  by (auto simp: openai_chunk_def Let_def gw_iffs openai_choice_identified split: option.splits sum.splits)

lemma openrouter_chunk_identified: "identified st \<or> ck_id k \<noteq> [] \<and> sound_chunk k \<Longrightarrow> identified (fst (openrouter_chunk request k st))"
  by (auto simp: openrouter_chunk_def sound_chunk_def Let_def gw_iffs openrouter_choice_identified split: option.splits sum.splits)

definition sound_response :: "gemini_response \<Rightarrow> bool" where
  "sound_response c \<longleftrightarrow> usage_in_range (ge_usage_metadata c)"

lemma gemini_chunk_runs: "sound_response c \<Longrightarrow> snd (gemini_chunk request c st) = None"
  by (auto simp: gemini_chunk_def gemini_usage_def sound_response_def mk_usage_in_range Let_def split: option.split)

lemma gemini_chunk_identified: "identified st \<or> (case ge_response_id c of None \<Rightarrow> False | Some i \<Rightarrow> i \<noteq> []) \<Longrightarrow> identified (fst (gemini_chunk request c st))"
  unfolding gemini_chunk_def Let_def by (auto split: option.split sum.split)

definition anthropic_clean :: "anthropic_state \<Rightarrow> bool" where
  "anthropic_clean st \<longleftrightarrow> non_negative (as_input_tokens st) \<and> non_negative (as_output_tokens st)"

definition sound_event :: "anthropic_event \<Rightarrow> bool" where
  "sound_event e = (case e of MessageStart _ n \<Rightarrow> 0 \<le> n | MessageDelta _ i out \<Rightarrow> non_negative i \<and> 0 \<le> out | _ \<Rightarrow> True)"

lemma anthropic_runs: "snd (stream_loop (anthropic_event_step request) es st) = None"
  by (rule stream_loop_runs) (auto simp: list_all_iff anthropic_event_step_def Let_def split: anthropic_event.split)

lemma anthropic_step_fields:
  "ss_request_id (as_stream (fst (anthropic_event_step request e st))) =
     (case e of MessageStart i _ \<Rightarrow> Some i | _ \<Rightarrow> ss_request_id (as_stream st))"
  "ss_finish_reason (as_stream (fst (anthropic_event_step request e st))) =
     (case e of MessageDelta (Some x) _ _ \<Rightarrow> Some x | _ \<Rightarrow> ss_finish_reason (as_stream st))"
  "as_input_tokens (fst (anthropic_event_step request e st)) =
     (case e of MessageStart _ n \<Rightarrow> Some n | MessageDelta _ (Some n) _ \<Rightarrow> Some n | _ \<Rightarrow> as_input_tokens st)"
  "as_output_tokens (fst (anthropic_event_step request e st)) = (case e of MessageDelta _ _ out \<Rightarrow> Some out | _ \<Rightarrow> as_output_tokens st)"
  by (cases e; simp add: anthropic_event_step_def emit_def Let_def split: option.split)+

lemma anthropic_step_keeps:
  "identified (as_stream st) \<Longrightarrow> identified (as_stream (fst (anthropic_event_step request e st)))"
  "ss_finish_reason (as_stream st) \<noteq> None \<Longrightarrow> ss_finish_reason (as_stream (fst (anthropic_event_step request e st))) \<noteq> None"
  "sound_event e \<Longrightarrow> anthropic_clean st \<Longrightarrow> anthropic_clean (fst (anthropic_event_step request e st))"
  unfolding identified_def anthropic_clean_def anthropic_step_fields sound_event_def non_negative_def
  by (simp_all split: anthropic_event.splits option.splits)

lemma anthropic_loop_clean:
  "list_all sound_event es \<Longrightarrow> anthropic_clean st \<Longrightarrow> anthropic_clean (fst (stream_loop (anthropic_event_step request) es st))"
proof (induction es arbitrary: st)
  case (Cons e es)
  obtain st1 where b: "anthropic_event_step request e st = (st1, None)"
    using anthropic_step_text[of request e st] by (cases "anthropic_event_step request e st") auto
  with Cons anthropic_step_keeps(3)[of e st request] show ?case by simp
qed simp

definition sound_chunks :: "chat_chunk list \<Rightarrow> bool" where
  "sound_chunks cs \<longleftrightarrow> list_all sound_chunk cs \<and> list_ex (\<lambda>k. ck_id k \<noteq> []) cs"

definition sound_responses :: "gemini_response list \<Rightarrow> bool" where
  "sound_responses cs \<longleftrightarrow> list_all sound_response cs \<and> list_ex (\<lambda>c. case ge_response_id c of None \<Rightarrow> False | Some i \<Rightarrow> i \<noteq> []) cs"

definition sound_events :: "anthropic_event list \<Rightarrow> bool" where
  "sound_events es \<longleftrightarrow> list_all sound_event es \<and> list_ex (\<lambda>e. case e of MessageStart _ _ \<Rightarrow> True | _ \<Rightarrow> False) es \<and>
     list_ex (\<lambda>e. case e of MessageDelta (Some _) _ _ \<Rightarrow> True | _ \<Rightarrow> False) es"

lemma sound_events_terminal:
  assumes "sound_events es"
  obtains i n x k out where "MessageStart i n \<in> set es" "MessageDelta (Some x) k out \<in> set es"
proof -
  from assms obtain a b where ab: "a \<in> set es" "case a of MessageStart _ _ \<Rightarrow> True | _ \<Rightarrow> False"
    "b \<in> set es" "case b of MessageDelta (Some _) _ _ \<Rightarrow> True | _ \<Rightarrow> False"
    by (auto simp: sound_events_def list_ex_iff)
  from ab(2) obtain i n where "a = MessageStart i n" by (cases a) auto
  moreover from ab(4) obtain x k out where "b = MessageDelta (Some x) k out" by (cases b) (auto split: option.splits)
  ultimately show thesis using ab(1,3) that by blast
qed

lemma anthropic_loop_terminal:
  assumes "MessageStart i n \<in> set es" "MessageDelta (Some r) k out \<in> set es"
  shows "identified (as_stream (fst (stream_loop (anthropic_event_step request) es st)))"
    "ss_finish_reason (as_stream (fst (stream_loop (anthropic_event_step request) es st))) \<noteq> None"
proof -
  have runs: "list_all (\<lambda>c. \<forall>st. snd (anthropic_event_step request c st) = None) es"
    using anthropic_step_text[OF prod.collapse[symmetric]] by (simp add: list_all_iff)
  show "identified (as_stream (fst (stream_loop (anthropic_event_step request) es st)))"
    by (rule stream_loop_sets[where P = "\<lambda>st. identified (as_stream st)", OF anthropic_step_keeps(1) _ assms(1) runs])
      (simp_all add: identified_def anthropic_step_fields)
  show "ss_finish_reason (as_stream (fst (stream_loop (anthropic_event_step request) es st))) \<noteq> None"
    by (rule stream_loop_sets[where P = "\<lambda>st. ss_finish_reason (as_stream st) \<noteq> None", OF anthropic_step_keeps(2) _ assms(2) runs])
      (simp_all add: anthropic_step_fields)
qed

text \<open>Streams whose items are sound end normally.\<close>

lemma consume_normal:
  assumes "snd (stream_loop body chunks fresh_stream) = None" "identified (fst (stream_loop body chunks fresh_stream))"
    and "\<And>st. identified st \<Longrightarrow> snd (finish st) = None"
  shows "snd (consume_stream collapse body finish (Inr (chunks, None))) = None"
  using assms by (cases "stream_loop body chunks fresh_stream") (auto simp: consume_stream_def)

lemma finishes_normally:
  "identified st \<Longrightarrow> snd (openai_finish st) = None"
  "gr_response_schema request = [] \<Longrightarrow> identified st \<Longrightarrow> snd (openrouter_finish validate request st) = None"
  "gr_response_schema request = [] \<Longrightarrow> identified st \<Longrightarrow> snd (gemini_finish validate request st) = None"
  by (auto simp: identified_def openai_finish_def openrouter_finish_def gemini_finish_def stream_of_def terminal_event_def)

lemma chat_streams_end:
  assumes "sound_chunks chunks"
  shows "snd (consume_stream collapse openai_chunk openai_finish (Inr (chunks, None))) = None"
    "gr_response_schema request = [] \<Longrightarrow>
      snd (consume_stream collapse (openrouter_chunk request) (openrouter_finish validate request) (Inr (chunks, None))) = None"
proof -
  from assms obtain k where k: "k \<in> set chunks" "ck_id k \<noteq> []" by (auto simp: sound_chunks_def list_ex_iff)
  with assms have sound: "sound_chunk k" by (auto simp: sound_chunks_def list_all_iff)
  have runs: "list_all (\<lambda>c. \<forall>st. snd (openai_chunk c st) = None) chunks"
    "list_all (\<lambda>c. \<forall>st. snd (openrouter_chunk request c st) = None) chunks"
    using assms openai_chunk_runs openrouter_chunk_runs by (auto simp: sound_chunks_def list_all_iff)
  show "snd (consume_stream collapse openai_chunk openai_finish (Inr (chunks, None))) = None"
    by (rule consume_normal[OF stream_loop_runs[OF runs(1)] stream_loop_sets[where P = identified, OF _ _ k(1) runs(1)]])
      (simp_all add: openai_chunk_identified k finishes_normally)
  show "snd (consume_stream collapse (openrouter_chunk request) (openrouter_finish validate request) (Inr (chunks, None))) = None"
    if "gr_response_schema request = []"
    by (rule consume_normal[OF stream_loop_runs[OF runs(2)] stream_loop_sets[where P = identified, OF _ _ k(1) runs(2)]])
      (simp_all add: openrouter_chunk_identified k sound finishes_normally that)
qed

lemma gemini_streams_end:
  assumes "sound_responses chunks" "gr_response_schema request = []"
  shows "snd (consume_stream collapse (gemini_chunk request) (gemini_finish validate request) (Inr (chunks, None))) = None"
proof -
  from assms(1) obtain k where k: "k \<in> set chunks" "case ge_response_id k of None \<Rightarrow> False | Some i \<Rightarrow> i \<noteq> []" by (auto simp: sound_responses_def list_ex_iff)
  have runs: "list_all (\<lambda>c. \<forall>st. snd (gemini_chunk request c st) = None) chunks"
    using assms(1) gemini_chunk_runs by (auto simp: sound_responses_def list_all_iff)
  show ?thesis
    by (rule consume_normal[OF stream_loop_runs[OF runs] stream_loop_sets[where P = identified, OF _ _ k(1) runs]])
      (simp_all only: gemini_chunk_identified k finishes_normally assms simp_thms)
qed

lemma anthropic_finishes:
  assumes "gr_response_schema request = []" "identified (as_stream st)" "ss_finish_reason (as_stream st) \<noteq> None" "anthropic_clean st"
  shows "snd (anthropic_finish validate request st) = None"
  using assms by (auto simp: anthropic_finish_def identified_def anthropic_clean_def mk_usage_def terminal_event_def stream_of_def Let_def)

definition adapter_stream :: "provider_sdks \<Rightarrow> json_validator \<Rightarrow> provider \<Rightarrow> GatewayRequest \<Rightarrow> AdapterContext \<Rightarrow> event_stream" where
  "adapter_stream sdks validate p =
     (case p of
        Openai \<Rightarrow> openai_stream (ps_openai sdks)
      | Anthropic \<Rightarrow> anthropic_stream (ps_anthropic sdks) validate
      | Gemini \<Rightarrow> gemini_stream (ps_gemini sdks) validate
      | Openrouter \<Rightarrow> openrouter_stream (ps_openrouter sdks) validate)"

text \<open>
  What the provider streams under a key: its text, whether the stream ends without an exception of the
  SDK, and whether its items are sound and name the request; None if it cannot be opened.
\<close>

definition chat_upstream :: "sdk_error + (chat_chunk list \<times> sdk_error option) \<Rightarrow> (utext \<times> bool \<times> bool) option" where
  "chat_upstream s =
     (case s of
        Inl _ \<Rightarrow> None
      | Inr (chunks, failure) \<Rightarrow>
          Some (concat (map chunk_text chunks), failure = None, sound_chunks chunks))"

definition anthropic_upstream :: "sdk_error + (anthropic_event list \<times> sdk_error option) \<Rightarrow> (utext \<times> bool \<times> bool) option" where
  "anthropic_upstream s =
     (case s of
        Inl _ \<Rightarrow> None
      | Inr (events, failure) \<Rightarrow>
          Some (concat (map delta_of_event events), failure = None, sound_events events))"

definition gemini_upstream :: "gemini_error + (gemini_response list \<times> gemini_error option) \<Rightarrow> (utext \<times> bool \<times> bool) option" where
  "gemini_upstream s =
     (case s of
        Inl _ \<Rightarrow> None
      | Inr (chunks, failure) \<Rightarrow>
          Some (concat (map gemini_text chunks), failure = None, sound_responses chunks))"

definition upstream :: "provider_sdks \<Rightarrow> provider \<Rightarrow> string \<Rightarrow> GatewayRequest \<Rightarrow> AdapterContext \<Rightarrow> (utext \<times> bool \<times> bool) option" where
  "upstream sdks p key r c =
     (case p of
        Openai \<Rightarrow> chat_upstream (cc_stream (ps_openai sdks key None (seconds (gr_timeout_ms r)) 0) (chat_call_of True r c))
      | Anthropic \<Rightarrow>
          (case anthropic_translate_messages r of
             Inl _ \<Rightarrow> None
           | Inr (system, messages) \<Rightarrow>
               anthropic_upstream (an_stream (ps_anthropic sdks key (seconds (gr_timeout_ms r)) 0) (anthropic_call_of True r c system messages)))
      | Gemini \<Rightarrow>
          (case gemini_translate_messages r of
             Inl _ \<Rightarrow> None
           | Inr (system, contents) \<Rightarrow> gemini_upstream (ge_stream (ps_gemini sdks key False) (generation_config r c system contents)))
      | Openrouter \<Rightarrow>
          chat_upstream (cc_stream (ps_openrouter sdks key (Some OPENROUTER_BASE_URL) (seconds (gr_timeout_ms r)) 0) (chat_call_of True r c)))"

text \<open>What an adapter makes of such a stream.\<close>

definition faithful_stream :: "event_stream \<Rightarrow> utext \<Rightarrow> bool \<Rightarrow> bool \<Rightarrow> bool" where
  "faithful_stream s t ends usable \<longleftrightarrow> prefix (delta_text (fst s)) t \<and> (snd s = None \<longrightarrow> ends \<and> delta_text (fst s) = t) \<and>
     (ends \<and> usable \<longrightarrow> snd s = None)"

lemma delivers_faithful: "delivers s t failure \<Longrightarrow> (failure = None \<Longrightarrow> usable \<Longrightarrow> snd s = None) \<Longrightarrow> faithful_stream s t (failure = None) usable"
  by (auto simp: delivers_def faithful_stream_def)

definition stream_admitted :: "provider \<Rightarrow> GatewayRequest \<Rightarrow> AdapterContext \<Rightarrow> bool" where
  "stream_admitted p r c \<longleftrightarrow> gr_stream r \<and> ac_provider c = p \<and> (case ac_api_key c of None \<Rightarrow> False | Some key \<Rightarrow> strip key \<noteq> [])"

lemma openai_faithful:
  assumes "upstream sdks Openai key r c = Some (t, ends, sound)" "ac_api_key c = Some key"
  shows "faithful_stream (openai_stream (ps_openai sdks) r c) t ends (stream_admitted Openai r c \<and> sound)"
proof -
  from assms(1) obtain chunks failure where up:
    "cc_stream (ps_openai sdks key None (seconds (gr_timeout_ms r)) 0) (chat_call_of True r c) = Inr (chunks, failure)"
    "t = concat (map chunk_text chunks)" "ends = (failure = None)"
    "sound = sound_chunks chunks"
    by (auto simp: upstream_def chat_upstream_def split: sum.splits)
  show ?thesis unfolding up(2,3)
  proof (rule delivers_faithful[OF openai_delivers[of "ps_openai sdks", OF up(1) assms(2)]])
    assume "failure = None" "stream_admitted Openai r c \<and> sound"
    with up assms(2) chat_streams_end(1)[of chunks] show "snd (openai_stream (ps_openai sdks) r c) = None"
      by (simp add: openai_stream_def openai_client_def adapter_key_def gw_guard_def stream_admitted_def)
  qed
qed

lemma openrouter_faithful:
  assumes "upstream sdks Openrouter key r c = Some (t, ends, sound)" "ac_api_key c = Some key" "gr_response_schema r = []"
  shows "faithful_stream (openrouter_stream (ps_openrouter sdks) validate r c) t ends (stream_admitted Openrouter r c \<and> sound)"
proof -
  from assms(1) obtain chunks failure where up:
    "cc_stream (ps_openrouter sdks key (Some OPENROUTER_BASE_URL) (seconds (gr_timeout_ms r)) 0) (chat_call_of True r c) = Inr (chunks, failure)"
    "t = concat (map chunk_text chunks)" "ends = (failure = None)"
    "sound = sound_chunks chunks"
    by (auto simp: upstream_def chat_upstream_def split: sum.splits)
  show ?thesis unfolding up(2,3)
  proof (rule delivers_faithful[OF openrouter_delivers[of r "ps_openrouter sdks", OF assms(3) up(1) assms(2)]])
    assume "failure = None" "stream_admitted Openrouter r c \<and> sound"
    with up assms(2,3) chat_streams_end(2)[of chunks r] show "snd (openrouter_stream (ps_openrouter sdks) validate r c) = None"
      by (simp add: openrouter_stream_def openrouter_client_def adapter_key_def gw_guard_def stream_admitted_def)
  qed
qed

lemma gemini_faithful:
  assumes "upstream sdks Gemini key r c = Some (t, ends, sound)" "ac_api_key c = Some key" "gr_response_schema r = []"
  shows "faithful_stream (gemini_stream (ps_gemini sdks) validate r c) t ends (stream_admitted Gemini r c \<and> sound)"
proof -
  from assms(1) obtain system contents chunks failure where up:
    "gemini_translate_messages r = Inr (system, contents)"
    "ge_stream (ps_gemini sdks key False) (generation_config r c system contents) = Inr (chunks, failure)"
    "t = concat (map gemini_text chunks)" "ends = (failure = None)"
    "sound = sound_responses chunks"
    by (auto simp: upstream_def gemini_upstream_def split: sum.splits)
  show ?thesis unfolding up(3,4)
  proof (rule delivers_faithful[OF gemini_delivers[of r _ _ "ps_gemini sdks", OF assms(3) up(1,2) assms(2)]])
    assume "failure = None" "stream_admitted Gemini r c \<and> sound"
    with up assms(2,3) gemini_streams_end[of chunks r] show "snd (gemini_stream (ps_gemini sdks) validate r c) = None"
      by (simp add: gemini_stream_def gemini_client_for_def adapter_key_def gw_guard_def stream_admitted_def)
  qed
qed

lemma anthropic_faithful:
  assumes "upstream sdks Anthropic key r c = Some (t, ends, sound)" "ac_api_key c = Some key" "gr_response_schema r = []"
  shows "faithful_stream (anthropic_stream (ps_anthropic sdks) validate r c) t ends (stream_admitted Anthropic r c \<and> sound)"
proof -
  from assms(1) obtain system messages es failure where up:
    "anthropic_translate_messages r = Inr (system, messages)"
    "an_stream (ps_anthropic sdks key (seconds (gr_timeout_ms r)) 0) (anthropic_call_of True r c system messages) = Inr (es, failure)"
    "t = concat (map delta_of_event es)" "ends = (failure = None)"
    "sound = sound_events es"
    by (auto simp: upstream_def anthropic_upstream_def split: sum.splits)
  show ?thesis unfolding up(3,4)
  proof (rule delivers_faithful[OF anthropic_delivers[of r "ps_anthropic sdks", OF assms(3) up(2,1) assms(2)]])
    assume none: "failure = None" and ok: "stream_admitted Anthropic r c \<and> sound"
    let ?start = "\<lparr>as_stream = fresh_stream, as_input_tokens = None, as_output_tokens = None\<rparr>"
    obtain st where st: "stream_loop (anthropic_event_step r) es ?start = (st, None)"
      using anthropic_runs[of r es ?start] by (cases "stream_loop (anthropic_event_step r) es ?start") auto
    from ok obtain i n x k out where "MessageStart i n \<in> set es" "MessageDelta (Some x) k out \<in> set es"
      unfolding up(5) by (auto elim: sound_events_terminal)
    from anthropic_loop_terminal[OF this, of r ?start] anthropic_loop_clean[of es ?start r] ok st
    have "snd (anthropic_finish validate r st) = None"
      by (intro anthropic_finishes[OF assms(3)]) (simp_all add: up(5) sound_events_def anthropic_clean_def non_negative_def)
    with up none ok assms(2) st show "snd (anthropic_stream (ps_anthropic sdks) validate r c) = None"
      by (simp add: anthropic_stream_def anthropic_client_for_def adapter_key_def gw_guard_def stream_admitted_def)
  qed
qed

section \<open>Streams of structured output\<close>

text \<open>
  Asked for structured output, the adapters for Anthropic, Gemini and OpenRouter keep the text back
  and hand over the object it parses to.
\<close>

definition structured_deltas :: "GatewayStreamEvent list \<Rightarrow> json_object list" where
  "structured_deltas es = List.map_filter se_structured_delta es"

lemma structured_deltas_simps [simp]: "structured_deltas [] = []" "structured_deltas (es @ fs) = structured_deltas es @ structured_deltas fs"
  "structured_deltas (e # es) = (case se_structured_delta e of None \<Rightarrow> structured_deltas es | Some obj \<Rightarrow> obj # structured_deltas es)"
  by (simp_all add: structured_deltas_def map_filter_simps List.map_filter_def split: option.split)

definition unstructured :: "stream_state \<Rightarrow> bool" where
  "unstructured st = list_all (\<lambda>e. se_structured_delta e = None) (ss_events st)"

lemma unstructured_simps [simp]: "unstructured (st\<lparr>ss_finish_reason := x\<rparr>) = unstructured st"
  "unstructured (st\<lparr>ss_usage := y\<rparr>) = unstructured st" "unstructured (st\<lparr>ss_request_id := x\<rparr>) = unstructured st"
  "unstructured (emit t st) = unstructured st" "unstructured (st\<lparr>ss_buffer := b\<rparr>) = unstructured st" "unstructured fresh_stream"
  by (simp_all add: unstructured_def emit_def content_event_def fresh_stream_def)

lemma structured_deltas_none: "list_all (\<lambda>e. se_structured_delta e = None) es \<Longrightarrow> structured_deltas es = []"
  unfolding structured_deltas_def List.map_filter_def by (auto simp: filter_empty_conv list_all_iff)

lemma unstructured_deltas: "unstructured st \<Longrightarrow> structured_deltas (ss_events st) = []"
  by (simp add: unstructured_def structured_deltas_none)

lemma chunks_unstructured:
  "unstructured st \<Longrightarrow> unstructured (fst (openrouter_choice request x st))"
  "unstructured st \<Longrightarrow> unstructured (fst (gemini_chunk request y st))"
  "unstructured (as_stream ast) \<Longrightarrow> unstructured (as_stream (fst (anthropic_event_step request z ast)))"
proof -
  show "unstructured st \<Longrightarrow> unstructured (fst (openrouter_choice request x st))"
    by (auto simp: openrouter_choice_def Let_def split: option.split)
  show "unstructured st \<Longrightarrow> unstructured (fst (gemini_chunk request y st))"
    unfolding gemini_chunk_def Let_def by (auto split: option.split sum.split)
  show "unstructured (as_stream ast) \<Longrightarrow> unstructured (as_stream (fst (anthropic_event_step request z ast)))"
    by (cases z) (auto simp: anthropic_event_step_def Let_def split: option.split)
qed

lemma openrouter_chunk_unstructured: "unstructured st \<Longrightarrow> unstructured (fst (openrouter_chunk request k st))"
  by (auto simp: openrouter_chunk_def Let_def gw_iffs stream_loop_keeps[of unstructured, OF chunks_unstructured(1)]
      split: option.splits sum.splits)

text \<open>
  No text is shown; an object that is shown is the one the whole text parses to; a normal end has
  shown exactly one; and a usable stream of parsable text ends normally.
\<close>

definition object_stream :: "json_validator \<Rightarrow> event_stream \<Rightarrow> utext \<Rightarrow> bool \<Rightarrow> bool \<Rightarrow> bool" where
  "object_stream validate s t ends usable \<longleftrightarrow> delta_text (fst s) = [] \<and>
     (\<forall>obj \<in> set (structured_deltas (fst s)). validate t = Some obj) \<and>
     (snd s = None \<longrightarrow> ends \<and> length (structured_deltas (fst s)) = 1) \<and>
     (ends \<and> usable \<and> t \<noteq> [] \<and> validate t \<noteq> None \<longrightarrow> snd s = None)"

lemma object_stream_nothing: "\<not> usable \<Longrightarrow> object_stream validate ([], Some e) t ends usable"
  by (simp add: object_stream_def)

lemma object_stream_cut:
  "emitted_text st = [] \<Longrightarrow> unstructured st \<Longrightarrow> \<not> (ends \<and> usable) \<Longrightarrow> object_stream validate (ss_events st, Some e) t ends usable"
  by (auto simp: object_stream_def unstructured_deltas emitted_text_def)

lemma finishes_object:
  assumes "gr_response_schema request \<noteq> []" "unstructured st" "emitted_text st = []"
  shows "object_stream validate (openrouter_finish validate request st) (buffered_text st) True (identified st)"
    "object_stream validate (gemini_finish validate request st) (buffered_text st) True (identified st)"
  using assms unstructured_deltas[OF assms(2)]
  by (auto simp: object_stream_def finishes_text emitted_text_def)
    (auto simp: openrouter_finish_def gemini_finish_def stream_of_def terminal_event_def openrouter_parse_structured_def
      gemini_parse_structured_def buffered_text_def identified_def split: if_splits option.splits sum.splits)

lemma anthropic_finish_object:
  assumes "gr_response_schema request \<noteq> []" "unstructured (as_stream st)" "emitted_text (as_stream st) = []"
  shows "object_stream validate (anthropic_finish validate request st) (buffered_text (as_stream st)) True
    (identified (as_stream st) \<and> ss_finish_reason (as_stream st) \<noteq> None \<and> anthropic_clean st)"
proof -
  note none = unstructured_deltas[OF assms(2)]
  have content: "delta_text (fst (anthropic_finish validate request st)) = []"
    using assms(3) by (simp add: anthropic_finish_text emitted_text_def)
  show ?thesis
  proof (cases "validate (concat (ss_buffer (as_stream st)))")
    case None
    then show ?thesis using assms(1) none content by (auto simp: object_stream_def anthropic_finish_def Let_def buffered_text_def)
  next
    case (Some obj)
    then show ?thesis using assms(1) none content unfolding object_stream_def buffered_text_def
      by (auto simp: anthropic_finish_def Let_def terminal_event_def stream_of_def identified_def anthropic_clean_def
          mk_usage_def split: if_splits sum.splits)
  qed
qed

lemma concat_nothing [simp]: "concat (map (\<lambda>_. []) xs) = []"
  by (induction xs) simp_all

lemma consume_object:
  assumes vis: "text_stream body piece (visible_text request)" and quiet: "text_stream body (\<lambda>_. []) (quiet_text request)"
    and schema: "gr_response_schema request \<noteq> []" and un: "\<And>c st. unstructured st \<Longrightarrow> unstructured (fst (body c st))"
    and fin: "\<And>st. unstructured st \<Longrightarrow> emitted_text st = [] \<Longrightarrow>
      object_stream validate (finish st) (buffered_text st) True (identified st)"
    and usable: "failure = None \<Longrightarrow> usable \<Longrightarrow>
      snd (stream_loop body chunks fresh_stream) = None \<and> identified (fst (stream_loop body chunks fresh_stream))"
  shows "object_stream validate (consume_stream collapse body finish (Inr (chunks, failure))) (concat (map piece chunks)) (failure = None) usable"
proof -
  obtain st r where loop: "stream_loop body chunks fresh_stream = (st, r)" by fastforce
  have un: "unstructured st" using stream_loop_keeps[of unstructured body fresh_stream chunks, OF un] loop by simp
  have quiet: "emitted_text st = []"
    using text_stream.loop_text[OF quiet loop] schema by (auto simp: quiet_text_def split: if_splits)
  show ?thesis
  proof (cases "r = None \<and> failure = None")
    case True
    then have content: "buffered_text st = concat (map piece chunks)"
      using text_stream.loop_text[OF vis loop] schema by (auto simp: visible_text_def)
    have run: "consume_stream collapse body finish (Inr (chunks, failure)) = finish st"
      using True loop by (simp add: consume_stream_def)
    show ?thesis using fin[OF un quiet] usable True loop unfolding run content object_stream_def by auto
  next
    case False
    have "\<exists>e. consume_stream collapse body finish (Inr (chunks, failure)) = (ss_events st, Some e)"
      using False loop by (cases r; cases failure) (auto simp: consume_stream_def)
    moreover have "\<not> (failure = None \<and> usable)" using False usable loop by auto
    ultimately show ?thesis using object_stream_cut[OF quiet un] by auto
  qed
qed

lemma chat_loop_usable:
  assumes "sound_chunks chunks"
  shows "snd (stream_loop (openrouter_chunk request) chunks st) = None \<and> identified (fst (stream_loop (openrouter_chunk request) chunks st))"
proof -
  from assms obtain k where k: "k \<in> set chunks" "ck_id k \<noteq> []" by (auto simp: sound_chunks_def list_ex_iff)
  with assms have sound: "sound_chunk k" by (auto simp: sound_chunks_def list_all_iff)
  have runs: "list_all (\<lambda>c. \<forall>st. snd (openrouter_chunk request c st) = None) chunks"
    using assms openrouter_chunk_runs by (auto simp: sound_chunks_def list_all_iff)
  show ?thesis
    using stream_loop_runs[OF runs] stream_loop_sets[where P = identified, OF _ _ k(1) runs]
    by (simp add: openrouter_chunk_identified k sound)
qed

lemma gemini_loop_usable:
  assumes "sound_responses chunks"
  shows "snd (stream_loop (gemini_chunk request) chunks st) = None \<and> identified (fst (stream_loop (gemini_chunk request) chunks st))"
proof -
  from assms obtain k where k: "k \<in> set chunks" "case ge_response_id k of None \<Rightarrow> False | Some i \<Rightarrow> i \<noteq> []"
    by (auto simp: sound_responses_def list_ex_iff)
  have runs: "list_all (\<lambda>c. \<forall>st. snd (gemini_chunk request c st) = None) chunks"
    using assms gemini_chunk_runs by (auto simp: sound_responses_def list_all_iff)
  have "identified (fst (stream_loop (gemini_chunk request) chunks st))"
    by (rule stream_loop_sets[where P = identified, OF _ _ k(1) runs]) (simp_all only: gemini_chunk_identified k simp_thms)
  then show ?thesis using stream_loop_runs[OF runs] by blast
qed

lemma openrouter_object:
  assumes "upstream sdks Openrouter key r c = Some (t, ends, sound)" "ac_api_key c = Some key" "gr_response_schema r \<noteq> []"
  shows "object_stream validate (openrouter_stream (ps_openrouter sdks) validate r c) t ends (stream_admitted Openrouter r c \<and> sound)"
proof (cases "stream_admitted Openrouter r c")
  case False
  with assms(2) show ?thesis
    by (auto simp: openrouter_stream_def openrouter_client_def adapter_key_def gw_guard_def stream_admitted_def object_stream_nothing)
next
  case True
  from assms(1) obtain chunks failure where up:
    "cc_stream (ps_openrouter sdks key (Some OPENROUTER_BASE_URL) (seconds (gr_timeout_ms r)) 0) (chat_call_of True r c) = Inr (chunks, failure)"
    "t = concat (map chunk_text chunks)" "ends = (failure = None)" "sound = sound_chunks chunks"
    by (auto simp: upstream_def chat_upstream_def split: sum.splits)
  have eq: "openrouter_stream (ps_openrouter sdks) validate r c =
      consume_stream normalize_openrouter_error (openrouter_chunk r) (openrouter_finish validate r) (Inr (chunks, failure))"
    using True up(1) assms(2) by (auto simp: openrouter_stream_def openrouter_client_def adapter_key_def gw_guard_def stream_admitted_def)
  have vis: "text_stream (openrouter_chunk r) chunk_text (visible_text r)"
    using openrouter_chunk_text[OF openrouter_choice_visible keeps_texts(1)] unfolding chunk_text_def[abs_def] .
  have quiet: "text_stream (openrouter_chunk r) (\<lambda>_. []) (quiet_text r)"
    using openrouter_chunk_text[OF openrouter_choice_quiet keeps_texts(2)] by simp
  show ?thesis unfolding eq up(2-4)
    by (rule consume_object[OF vis quiet assms(3) openrouter_chunk_unstructured finishes_object(1)[OF assms(3)]])
      (simp_all add: chat_loop_usable)
qed

lemma gemini_object:
  assumes "upstream sdks Gemini key r c = Some (t, ends, sound)" "ac_api_key c = Some key" "gr_response_schema r \<noteq> []"
  shows "object_stream validate (gemini_stream (ps_gemini sdks) validate r c) t ends (stream_admitted Gemini r c \<and> sound)"
proof -
  from assms(1) obtain system contents chunks failure where up:
    "gemini_translate_messages r = Inr (system, contents)"
    "ge_stream (ps_gemini sdks key False) (generation_config r c system contents) = Inr (chunks, failure)"
    "t = concat (map gemini_text chunks)" "ends = (failure = None)" "sound = sound_responses chunks"
    by (auto simp: upstream_def gemini_upstream_def split: sum.splits)
  show ?thesis
  proof (cases "stream_admitted Gemini r c")
    case False
    with assms(2) up(1) show ?thesis
      by (auto simp: gemini_stream_def gemini_client_for_def adapter_key_def gw_guard_def stream_admitted_def object_stream_nothing)
  next
    case True
    have eq: "gemini_stream (ps_gemini sdks) validate r c =
        consume_stream normalize_gemini_error (gemini_chunk r) (gemini_finish validate r) (Inr (chunks, failure))"
      using True up(1,2) assms(2) by (auto simp: gemini_stream_def gemini_client_for_def adapter_key_def gw_guard_def stream_admitted_def)
    show ?thesis unfolding eq up(3-5)
      by (rule consume_object[OF gemini_chunk_visible gemini_chunk_quiet assms(3) chunks_unstructured(2) finishes_object(2)[OF assms(3)]])
        (simp_all add: gemini_loop_usable)
  qed
qed

lemma anthropic_object:
  assumes "upstream sdks Anthropic key r c = Some (t, ends, sound)" "ac_api_key c = Some key" "gr_response_schema r \<noteq> []"
  shows "object_stream validate (anthropic_stream (ps_anthropic sdks) validate r c) t ends (stream_admitted Anthropic r c \<and> sound)"
proof -
  from assms(1) obtain system messages es failure where up:
    "anthropic_translate_messages r = Inr (system, messages)"
    "an_stream (ps_anthropic sdks key (seconds (gr_timeout_ms r)) 0) (anthropic_call_of True r c system messages) = Inr (es, failure)"
    "t = concat (map delta_of_event es)" "ends = (failure = None)" "sound = sound_events es"
    by (auto simp: upstream_def anthropic_upstream_def split: sum.splits)
  let ?start = "\<lparr>as_stream = fresh_stream, as_input_tokens = None, as_output_tokens = None\<rparr>"
  obtain st where st: "stream_loop (anthropic_event_step r) es ?start = (st, None)"
    using anthropic_runs[of r es ?start] by (cases "stream_loop (anthropic_event_step r) es ?start") auto
  have un: "unstructured (as_stream st)"
    using stream_loop_keeps[of "\<lambda>st. unstructured (as_stream st)" "anthropic_event_step r" ?start es, OF chunks_unstructured(3)] st by simp
  have quiet: "emitted_text (as_stream st) = []" and content: "buffered_text (as_stream st) = t"
    using text_stream.loop_text[OF anthropic_step_quiet st] text_stream.loop_text[OF anthropic_step_visible st] assms(3)
    by (auto simp: quiet_text_def visible_text_def up(3))
  have done_ok: "identified (as_stream st) \<and> ss_finish_reason (as_stream st) \<noteq> None \<and> anthropic_clean st" if "sound_events es"
  proof -
    from that obtain i n x k out where "MessageStart i n \<in> set es" "MessageDelta (Some x) k out \<in> set es" by (rule sound_events_terminal)
    from anthropic_loop_terminal[OF this, of r ?start] anthropic_loop_clean[of es ?start r] that st
    show ?thesis by (simp add: sound_events_def anthropic_clean_def non_negative_def)
  qed
  show ?thesis
  proof (cases "stream_admitted Anthropic r c")
    case False
    with assms(2) up(1) show ?thesis
      by (auto simp: anthropic_stream_def anthropic_client_for_def adapter_key_def gw_guard_def stream_admitted_def object_stream_nothing)
  next
    case True
    have eq: "anthropic_stream (ps_anthropic sdks) validate r c = (case failure of
        Some e \<Rightarrow> (ss_events (as_stream st), Some (normalize_anthropic_error e)) | None \<Rightarrow> anthropic_finish validate r st)"
      using True up(1,2) assms(2) st
      by (auto simp: anthropic_stream_def anthropic_client_for_def adapter_key_def gw_guard_def stream_admitted_def)
    show ?thesis
    proof (cases failure)
      case None
      with anthropic_finish_object[OF assms(3) un quiet, of validate] done_ok show ?thesis
        unfolding eq content up(4,5) by (auto simp: object_stream_def)
    next
      case (Some e)
      with object_stream_cut[OF quiet un] show ?thesis unfolding eq up(4) by simp
    qed
  qed
qed

section \<open>The boundary\<close>

definition body_bytes :: "asgi_message list \<Rightarrow> int" where
  "body_bytes ms = sum_list (map body_size ms)"

lemma body_bytes_simps [simp]: "body_bytes [] = 0" "body_bytes (m # ms) = body_size m + body_bytes ms"
  by (simp_all add: body_bytes_def)

lemma body_size_nonneg [simp]: "0 \<le> body_size m"
  by (simp add: body_size_def split: asgi_message.split)

lemma body_bytes_nonneg [simp]: "0 \<le> body_bytes ms"
  by (induction ms) auto

lemma next_message_bytes: "next_message ms = (m, rest) \<Longrightarrow> body_bytes ms = body_size m + body_bytes rest"
  by (auto simp: next_message_def body_size_def split: list.splits)

lemma too_much_iff: "received_too_much (Some limit) m n \<longleftrightarrow> (\<exists>b more. m = HttpRequest b more) \<and> n > limit"
  by (auto simp: received_too_much_def split: asgi_message.splits)

lemma run_app_receive:
  assumes "next_message ms = (m, rest)"
  shows "run_app (Receive k) cap received ms =
    (if received_too_much cap m (received + body_size m) then run_app (k None) cap (received + body_size m) rest
     else (case run_app (k (Some m)) cap (received + body_size m) rest of (got, out, e) \<Rightarrow> (m # got, out, e)))"
  by (simp add: assms Let_def)

text \<open>The application never gets more than the cap, whatever it does when a receive fails.\<close>

lemma run_app_capped: "run_app app (Some limit) received ms = (got, out, e) \<Longrightarrow> body_bytes got \<le> max 0 (limit - received)"
proof (induction app arbitrary: received ms got out e)
  case (Receive k)
  obtain m rest where nxt: "next_message ms = (m, rest)" by fastforce
  show ?case
  proof (cases "received_too_much (Some limit) m (received + body_size m)")
    case True
    with Receive.prems have "run_app (k None) (Some limit) (received + body_size m) rest = (got, out, e)"
      by (simp add: run_app_receive[OF nxt] del: run_app.simps)
    from Receive.IH[OF rangeI this] True show ?thesis by (simp add: too_much_iff)
  next
    case False
    then obtain got' where run: "run_app (k (Some m)) (Some limit) (received + body_size m) rest = (got', out, e)" "got = m # got'"
      using Receive.prems by (auto simp: run_app_receive[OF nxt] simp del: run_app.simps split: prod.splits)
    show ?thesis
    proof (cases m)
      case HttpDisconnect
      with Receive.IH[OF rangeI run(1)] run(2) show ?thesis by (simp add: body_size_def)
    next
      case (HttpRequest b more)
      with False have "received + body_size m \<le> limit" by (simp add: too_much_iff)
      with Receive.IH[OF rangeI run(1)] run(2) show ?thesis by simp
    qed
  qed
next
  case (Send s k)
  then show ?case by (cases "run_app k (Some limit) received ms") auto
qed auto

text \<open>A body within the cap is passed on unchanged.\<close>

lemma run_app_transparent: "n + body_bytes ms \<le> limit \<Longrightarrow> run_app app (Some limit) n ms = run_app app None n' ms"
proof (induction app arbitrary: n n' ms)
  case (Receive k)
  obtain m rest where nxt: "next_message ms = (m, rest)" by fastforce
  from Receive.prems next_message_bytes[OF nxt] have fits: "(n + body_size m) + body_bytes rest \<le> limit" by simp
  then have "\<not> received_too_much (Some limit) m (n + body_size m)" using body_bytes_nonneg[of rest] unfolding too_much_iff by linarith
  moreover have "\<not> received_too_much None m (n' + body_size m)" by (simp add: received_too_much_def)
  ultimately show ?case
    unfolding run_app_receive[OF nxt] using Receive.IH[OF rangeI fits, of "Some m" "n' + body_size m"] by simp
next
  case (Send s k)
  then show ?case by simp
qed simp_all

definition authorised :: "string \<Rightarrow> asgi_scope \<Rightarrow> bool" where
  "authorised expected sc \<longleftrightarrow> expected \<noteq> [] \<and> is_ascii expected \<and> map_of (sc_headers sc) ''authorization'' = Some (''Bearer '' @ expected)"

lemma authorised_iff: "authorised expected sc \<longleftrightarrow> require_internal_token expected (map_of (sc_headers sc) ''authorization'') = Inr ()"
  unfolding authorised_def token_needed by simp

lemma token_refusals: "require_internal_token expected auth = Inl (HTTPException status code message) \<Longrightarrow> status = 401 \<or> status = 503"
  by (auto simp: require_internal_token_def Let_def split: option.splits if_splits)

lemma boundary_run:
  assumes "internal_body_route sc" "authorised expected sc"
  shows "InternalGatewayBoundaryMiddleware expected app sc ms =
    (case declared_length_refusal sc of
       Some refusal \<Rightarrow> refusal
     | None \<Rightarrow>
         (case run_app app (Some MAX_INTERNAL_REQUEST_BODY_BYTES) 0 ms of
            (got, out, EscapedTooLarge) \<Rightarrow>
              (got, out @ [BoundaryReply 413 ''REQUEST_BODY_TOO_LARGE'' ''Request body exceeds the allowed size.''], Returned)
          | finished \<Rightarrow> finished))"
  using assms by (simp add: InternalGatewayBoundaryMiddleware_def authorised_iff)

lemma length_refusal:
  "declared_length_refusal sc = Some (got, out, e) \<Longrightarrow> got = [] \<and> e = Returned \<and>
     (\<exists>status code message. out = [BoundaryReply status code message] \<and> (status = 400 \<or> status = 413))"
  by (auto simp: declared_length_refusal_def detail_response_def split: option.splits if_splits)

lemma boundary_refuses:
  assumes "internal_body_route sc" "\<not> authorised expected sc" "InternalGatewayBoundaryMiddleware expected app sc ms = (got, out, e)"
  shows "got = [] \<and> (out = [] \<and> e = EscapedOther \<or>
     (\<exists>status code message. out = [BoundaryReply status code message] \<and> (status = 401 \<or> status = 503) \<and> e = Returned))"
  using assms token_refusals[of expected "map_of (sc_headers sc) ''authorization''"]
  by (auto simp: InternalGatewayBoundaryMiddleware_def authorised_iff detail_response_def split: sum.splits gateway_http.splits)

lemma boundary_bounded:
  assumes "internal_body_route sc" "InternalGatewayBoundaryMiddleware expected app sc ms = (got, out, e)"
  shows "body_bytes got \<le> MAX_INTERNAL_REQUEST_BODY_BYTES \<and> e \<noteq> EscapedTooLarge"
proof (cases "authorised expected sc")
  case False
  from boundary_refuses[OF assms(1) False assms(2)] show ?thesis
    by (auto simp: MAX_INTERNAL_REQUEST_BODY_BYTES_def MAX_EMBEDDING_BATCH_SIZE_def MAX_EMBEDDING_INPUT_CHARS_def)
next
  case True
  obtain g ou en where run: "run_app app (Some MAX_INTERNAL_REQUEST_BODY_BYTES) 0 ms = (g, ou, en)" by (metis prod_cases3)
  have "0 \<le> MAX_INTERNAL_REQUEST_BODY_BYTES"
    by (simp add: MAX_INTERNAL_REQUEST_BODY_BYTES_def MAX_EMBEDDING_BATCH_SIZE_def MAX_EMBEDDING_INPUT_CHARS_def)
  with run_app_capped[OF run] have "body_bytes g \<le> MAX_INTERNAL_REQUEST_BODY_BYTES" by simp
  with assms(2) run \<open>0 \<le> MAX_INTERNAL_REQUEST_BODY_BYTES\<close> show ?thesis
    unfolding boundary_run[OF assms(1) True]
    by (auto dest: length_refusal split: option.splits app_end.splits)
qed

lemma boundary_passes:
  assumes "internal_body_route sc" "authorised expected sc" "declared_length_refusal sc = (None :: 's asgi_run option)"
    and "body_bytes ms \<le> MAX_INTERNAL_REQUEST_BODY_BYTES" "run_app (app :: 's asgi_app) None 0 ms = (got, out, e)" "e \<noteq> EscapedTooLarge"
  shows "InternalGatewayBoundaryMiddleware expected app sc ms = (got, out, e)"
  using assms(3-6) run_app_transparent[of 0 ms MAX_INTERNAL_REQUEST_BODY_BYTES app 0]
  unfolding boundary_run[OF assms(1,2)] by (auto split: app_end.splits)

section \<open>Embeddings\<close>

definition unit_interval :: "rat list \<Rightarrow> bool" where
  "unit_interval v = list_all (\<lambda>x. - 1 \<le> x \<and> x \<le> 1) v"

lemma byte_value_range: "- 1 \<le> byte_value c" "byte_value c \<le> 1"
proof -
  have "(of_char c :: int) = int (of_char c)" by (simp only: of_nat_of_char)
  moreover have "of_char c < (256 :: nat)" by (rule nat_of_char_less_256)
  ultimately have "0 \<le> (of_char c :: int)" "(of_char c :: int) \<le> 255" by linarith+
  then have "0 \<le> (of_int (of_char c) :: rat)" "(of_int (of_char c) :: rat) \<le> of_int 255" unfolding of_int_0_le_iff of_int_le_iff .
  then show "- 1 \<le> byte_value c" "byte_value c \<le> 1" by (simp_all add: byte_value_def field_simps)
qed

lemma embedding_loop_returns:
  assumes "\<And>x. length (sha x) = 32"
  shows "length vals = 32 * block \<Longrightarrow> block \<le> 48 \<Longrightarrow> unit_interval vals \<Longrightarrow>
    \<exists>v. embedding_loop sha encoded vals block = Some v \<and> length v = EMBEDDING_DIMENSION \<and> unit_interval v"
proof (induction "48 - block" arbitrary: vals block)
  case 0
  then have "block = 48" by simp
  with 0 show ?case
    by (subst embedding_loop.simps) (auto simp: EMBEDDING_DIMENSION_def unit_interval_def list_all_iff dest: in_set_takeD)
next
  case (Suc n)
  let ?vals = "vals @ map byte_value (sha (EMBEDDING_DOMAIN @ to_bytes4 block @ encoded))"
  have "length ?vals = 32 * Suc block" "unit_interval ?vals" "n = 48 - Suc block" "Suc block \<le> 48" "length vals < EMBEDDING_DIMENSION"
    using Suc.prems Suc.hyps(2) assms byte_value_range by (auto simp: unit_interval_def list_all_iff EMBEDDING_DIMENSION_def)
  then show ?case using Suc.hyps(1)[of "Suc block" ?vals] by (subst embedding_loop.simps) simp
qed

lemma embedding_returns:
  assumes "\<And>x. length (sha x) = 32"
  shows "\<exists>v. deterministic_embedding sha t = Some v \<and> length v = EMBEDDING_DIMENSION \<and> unit_interval v"
  unfolding deterministic_embedding_def
  by (rule embedding_loop_returns[of sha, OF assms]) (simp_all add: unit_interval_def)

definition embeds :: "sha256 \<Rightarrow> utext \<Rightarrow> rat list \<Rightarrow> bool" where
  "embeds sha t v \<longleftrightarrow> deterministic_embedding sha t = Some v \<and> length v = EMBEDDING_DIMENSION \<and> unit_interval v"

lemma embeddings_return:
  assumes "\<And>x. length (sha x) = 32"
  shows "\<exists>vs. those (map (deterministic_embedding sha) ts) = Some vs \<and> list_all2 (embeds sha) ts vs"
proof (induction ts)
  case (Cons t ts)
  then obtain vs where "those (map (deterministic_embedding sha) ts) = Some vs" "list_all2 (embeds sha) ts vs" by blast
  moreover obtain v where "deterministic_embedding sha t = Some v" "embeds sha t v"
    using embedding_returns[of sha t, OF assms] unfolding embeds_def by blast
  ultimately show ?case by simp
qed simp

lemma embeddings_answered:
  assumes "\<And>x. length (sha x) = 32" "embedding_request_ok r" "er_model_alias r = EMBEDDING_MODEL_ALIAS"
    and "require_internal_token expected auth = Inr ()"
  shows "\<exists>resp. generate_embeddings expected sha r auth = Some (Inr resp) \<and> list_all2 (embeds sha) (er_inputs r) (ep_embeddings resp)"
proof -
  from embeddings_return[of sha "er_inputs r", OF assms(1)] obtain vs where
    vs: "those (map (deterministic_embedding sha) (er_inputs r)) = Some vs" "list_all2 (embeds sha) (er_inputs r) vs" by blast
  have len: "length vs = length (er_inputs r)" using vs(2) by (simp add: list_all2_lengthD)
  have dims: "list_all (\<lambda>v. length v = EMBEDDING_DIMENSION) vs"
    using vs(2) by (auto simp: list_all_length list_all2_conv_all_nth embeds_def)
  have ctx: "mk_context Openai ''serviq-fake-v1'' None = Inr \<lparr>ac_provider = Openai, ac_upstream_model = ''serviq-fake-v1'', ac_api_key = None\<rparr>"
    unfolding mk_context_def by code_simp
  have shape: "er_inputs r \<noteq> []" "int (length (er_inputs r)) \<le> MAX_EMBEDDING_BATCH_SIZE"
    using assms(2) by (simp_all add: embedding_request_ok_def)
  show ?thesis
    using vs len dims shape assms(3,4)
    by (auto simp: generate_embeddings_def resolve_adapter_def ctx fake_embed_def raise_if_failure_def FAKE_SCENARIOS_def no_fake_def
        mk_usage_def non_negative_def mk_embedding_response_def checked_batch_def)
qed

section \<open>Failures the gateway does not normalise\<close>

text \<open>A bearer token with a character beyond ASCII is not refused: the comparison itself fails.\<close>

lemma non_ascii_token_unhandled:
  "expected \<noteq> [] \<Longrightarrow> \<not> is_ascii supplied \<Longrightarrow> require_internal_token expected (Some (''Bearer '' @ supplied)) = Inl UnhandledError"
  by (auto simp: require_internal_token_def compare_digest_def startswith_def is_ascii_def)

text \<open>
  The cap allows six bytes per character, but a character beyond the basic plane escapes into two
  escapes of six bytes: a batch within the contract can exceed the cap.
\<close>

lemma escaped_batch_exceeds_cap:
  "MAX_INTERNAL_REQUEST_BODY_BYTES < MAX_EMBEDDING_BATCH_SIZE * MAX_EMBEDDING_INPUT_CHARS * int (length (ascii_escape 128512))"
  by code_simp

text \<open>OpenAI streams carry no structured delta, whatever schema the request has.\<close>

lemma openai_choice_unstructured: "unstructured st \<Longrightarrow> unstructured (fst (stream_loop openai_choice xs st))"
  by (rule stream_loop_keeps) (auto simp: openai_choice_def Let_def split: option.split)

lemma openai_chunk_unstructured: "unstructured st \<Longrightarrow> unstructured (fst (openai_chunk k st))"
  by (auto simp: openai_chunk_def Let_def gw_iffs openai_choice_unstructured split: option.splits sum.splits)

lemma openai_finish_unstructured: "unstructured st \<Longrightarrow> list_all (\<lambda>e. se_structured_delta e = None) (fst (openai_finish st))"
  by (auto simp: openai_finish_def unstructured_def stream_of_def terminal_event_def)

lemma openai_unstructured: "list_all (\<lambda>e. se_structured_delta e = None) (fst (openai_stream sdk r c))"
proof -
  have "unstructured (fst (stream_loop openai_chunk chunks fresh_stream))" for chunks
    by (rule stream_loop_keeps[of unstructured openai_chunk, OF openai_chunk_unstructured]) (simp_all add: unstructured_def fresh_stream_def)
  then have "unstructured st" if "stream_loop openai_chunk chunks fresh_stream = (st, e)" for chunks st e
    using that by (metis fst_conv)
  then show ?thesis
    by (auto simp: openai_stream_def consume_stream_def openai_finish_unstructured unstructured_def[symmetric] split: sum.split prod.split option.split)
qed

section \<open>A concrete gateway\<close>

definition demo_chunk :: "string \<Rightarrow> string option \<Rightarrow> chat_chunk" where
  "demo_chunk t r = \<lparr>ck_id = ''chat-1'', ck_choices = [\<lparr>cx_content = Some (cps t), cx_finish_reason = r, cx_error = None, cx_extra_error = None\<rparr>],
     ck_usage = None, ck_error = None, ck_extra_error = None\<rparr>"

text \<open>Providers that know the key \<open>good\<close> and refuse every other.\<close>

definition demo_chat :: chat_sdk where
  "demo_chat key url timeout retries =
     \<lparr>cc_create = (\<lambda>_. if key = ''good''
        then Inr \<lparr>cp_id = Some ''chat-1'',
          cp_choices = [\<lparr>cx_content = Some (cps ''OK''), cx_finish_reason = Some ''stop'', cx_error = None, cx_extra_error = None\<rparr>],
          cp_usage = Some (Some 3, Some 1)\<rparr>
        else Inl (APIStatusError AuthenticationError 401)),
      cc_stream = (\<lambda>_. Inr ([demo_chunk ''not '' None, demo_chunk ''json'' (Some ''stop'')], None))\<rparr>"

definition demo_sdks :: provider_sdks where
  "demo_sdks = \<lparr>ps_openai = demo_chat,
     ps_anthropic = (\<lambda>_ _ _. \<lparr>an_create = (\<lambda>_. Inl OtherSdkError), an_stream = (\<lambda>_. Inl OtherSdkError)\<rparr>),
     ps_gemini = (\<lambda>_ _. \<lparr>ge_create = (\<lambda>_. Inl GeminiOtherError), ge_stream = (\<lambda>_. Inl GeminiOtherError)\<rparr>),
     ps_openrouter = demo_chat\<rparr>"

definition demo_test :: "string \<Rightarrow> ProviderConnectivityRequest" where
  "demo_test key = \<lparr>cq_tenant_id = 7, cq_provider = Openai, cq_api_key = key, cq_correlation_id = ''provider-test''\<rparr>"

definition demo_request :: "json_object \<Rightarrow> GatewayRequest" where
  "demo_request schema = (connectivity_request strip (demo_test ''good''))\<lparr>gr_response_schema := schema, gr_stream := True\<rparr>"

definition demo_context :: "provider \<Rightarrow> AdapterContext" where
  "demo_context p = \<lparr>ac_provider = p, ac_upstream_model = ''gpt-5-nano'', ac_api_key = Some ''good''\<rparr>"

definition demo_scope :: asgi_scope where
  "demo_scope = \<lparr>sc_type = ''http'', sc_path = ''/internal/v1/embeddings'', sc_method = ''POST'',
     sc_headers = [(''authorization'', ''Bearer token''), (''content-length'', ''2'')]\<rparr>"

text \<open>An application that reads one message and answers.\<close>

definition demo_app :: "bool asgi_app" where
  "demo_app = Receive (\<lambda>m. case m of None \<Rightarrow> RaiseTooLarge | Some _ \<Rightarrow> Send True Return)"

definition demo_embedding :: GatewayEmbeddingRequest where
  "demo_embedding = \<lparr>er_tenant_id = 7, er_model_alias = EMBEDDING_MODEL_ALIAS, er_inputs = [cps ''a'', cps ''b''], er_correlation_id = ''c''\<rparr>"

section \<open>Properties\<close>

lemma api_outcome_iffs:
  "po_ok (api_outcome a) \<longleftrightarrow> test_outcome a = Inr (True, None)"
  "po_error_code (api_outcome a) = Some PROVIDER_AUTH_FAILED \<longleftrightarrow> test_outcome a = Inr (False, Some PROVIDER_AUTH_FAILED)"
  by (auto simp: api_outcome_def test_outcome_def failed_test_def split: sum.splits gateway_exn.splits)

text \<open>
  C35: the API's connectivity test against a gateway with the same internal token ends exactly as the
  adapter's call of the provider ends.  It succeeds only for a key that is not blank and that the
  provider does not refuse, and blames the key only if it is blank or the provider refuses it.
\<close>

theorem api_test_reflects_provider:
  assumes "token \<noteq> []" "is_ascii token" "trim (cq_correlation_id q) \<noteq> []"
    and "parse [(''tenantId'', uuid_str (cq_tenant_id q)), (''provider'', provider_key (cq_provider q)), (''apiKey'', cq_api_key q),
      (''correlationId'', cq_correlation_id q)] = Some q"
  shows "let outcome = gateway_test (HttpProviderConnectivityGateway url token (gateway_endpoint token trim parse sdks validate))
        (cq_tenant_id q) (cq_provider q) (cq_api_key q) (cq_correlation_id q);
      refused = provider_refuses sdks (cq_provider q) (cq_api_key q) (connectivity_request trim q) (connectivity_context q)
    in outcome = api_outcome (adapter_for sdks validate (cq_provider q) (connectivity_request trim q) (connectivity_context q)) \<and>
      (po_ok outcome \<longrightarrow> strip (cq_api_key q) \<noteq> [] \<and> \<not> refused) \<and>
      (po_error_code outcome = Some PROVIDER_AUTH_FAILED \<longrightarrow> strip (cq_api_key q) = [] \<or> refused)"
  unfolding gateway_test_outcome[of token trim q parse, OF assms] Let_def api_outcome_iffs
    run_connectivity_test_outcome[of trim q, OF assms(3), symmetric]
  using adapter_test_accepts[of trim q, OF assms(3)] adapter_test_blames_key[of trim q, OF assms(3)] by blast

theorem api_test_reflects_provider_witness:
  "po_ok (gateway_test (HttpProviderConnectivityGateway ''http://gateway'' ''token''
        (gateway_endpoint ''token'' strip (\<lambda>_. Some (demo_test ''good'')) demo_sdks (\<lambda>_. None))) 7 Openai ''good'' ''provider-test'') \<and>
   po_error_code (gateway_test (HttpProviderConnectivityGateway ''http://gateway'' ''token''
        (gateway_endpoint ''token'' strip (\<lambda>_. Some (demo_test ''bad'')) demo_sdks (\<lambda>_. None))) 7 Openai ''bad'' ''provider-test'') =
     Some PROVIDER_AUTH_FAILED"
proof -
  have pre: "''token'' \<noteq> []" "is_ascii ''token''" "strip (cq_correlation_id (demo_test k)) \<noteq> []" for k
    by (code_simp, code_simp, simp only: demo_test_def ProviderConnectivityRequest.simps, code_simp)
  have good: "api_outcome (adapter_for demo_sdks (\<lambda>_. None) (cq_provider (demo_test ''good'')) (connectivity_request strip (demo_test ''good''))
      (connectivity_context (demo_test ''good''))) = \<lparr>po_ok = True, po_error_code = None\<rparr>" by code_simp
  have bad: "api_outcome (adapter_for demo_sdks (\<lambda>_. None) (cq_provider (demo_test ''bad'')) (connectivity_request strip (demo_test ''bad''))
      (connectivity_context (demo_test ''bad''))) = failed_test PROVIDER_AUTH_FAILED" by code_simp
  show ?thesis
    using api_test_reflects_provider[of "''token''" strip "demo_test ''good''" "\<lambda>_. Some (demo_test ''good'')" "''http://gateway''" demo_sdks
        "\<lambda>_. None", OF pre refl]
      api_test_reflects_provider[of "''token''" strip "demo_test ''bad''" "\<lambda>_. Some (demo_test ''bad'')" "''http://gateway''" demo_sdks
        "\<lambda>_. None", OF pre refl]
    unfolding Let_def good bad by (simp add: demo_test_def failed_test_def)
qed

text \<open>
  C36: what an adapter makes of the provider's stream.  Without a response schema, and for OpenAI with one
  as well, the text it delivers is always a beginning of the text the provider streams, a stream
  that ends normally has delivered all of it, and a stream that is admitted, sound and not cut off by
  the provider does end normally.  With a response schema the other three adapters deliver no text:
  an object they deliver is the one the whole text parses to, a stream that ends normally has
  delivered exactly one, and a stream that is admitted, sound, not cut off and parsable ends
  normally.
\<close>

theorem streams_deliver_text:
  assumes "upstream sdks p key r c = Some (t, ends, sound)" "ac_api_key c = Some key"
  shows "let s = adapter_stream sdks validate p r c
    in if p = Openai \<or> gr_response_schema r = []
       then prefix (delta_text (fst s)) t \<and> (snd s = None \<longrightarrow> ends \<and> delta_text (fst s) = t) \<and>
         (stream_admitted p r c \<and> ends \<and> sound \<longrightarrow> snd s = None)
       else delta_text (fst s) = [] \<and> (\<forall>obj \<in> set (structured_deltas (fst s)). validate t = Some obj) \<and>
         (snd s = None \<longrightarrow> ends \<and> length (structured_deltas (fst s)) = 1) \<and>
         (stream_admitted p r c \<and> ends \<and> sound \<and> t \<noteq> [] \<and> validate t \<noteq> None \<longrightarrow> snd s = None)"
proof (cases "p = Openai \<or> gr_response_schema r = []")
  case True
  then show ?thesis
    using openai_faithful[of sdks key r c t ends sound] openrouter_faithful[of sdks key r c t ends sound validate]
      gemini_faithful[of sdks key r c t ends sound validate] anthropic_faithful[of sdks key r c t ends sound validate] assms
    by (cases p) (auto simp: adapter_stream_def faithful_stream_def Let_def)
next
  case False
  then have "object_stream validate (adapter_stream sdks validate p r c) t ends (stream_admitted p r c \<and> sound)"
    using openrouter_object[of sdks key r c t ends sound validate] gemini_object[of sdks key r c t ends sound validate]
      anthropic_object[of sdks key r c t ends sound validate] assms
    by (cases p) (simp_all add: adapter_stream_def)
  with False show ?thesis by (simp add: object_stream_def Let_def)
qed

abbreviation demo_schema :: json_object where
  "demo_schema \<equiv> [(cps ''type'', WStr (cps ''object''))]"

theorem streams_deliver_text_witness:
  "delta_text (fst (adapter_stream demo_sdks (\<lambda>_. None) Openrouter (demo_request []) (demo_context Openrouter))) = cps ''not json'' \<and>
   snd (adapter_stream demo_sdks (\<lambda>_. None) Openrouter (demo_request []) (demo_context Openrouter)) = None \<and>
   delta_text (fst (adapter_stream demo_sdks (\<lambda>_. Some []) Openrouter (demo_request demo_schema) (demo_context Openrouter))) = [] \<and>
   snd (adapter_stream demo_sdks (\<lambda>_. Some []) Openrouter (demo_request demo_schema) (demo_context Openrouter)) = None"
proof -
  let ?c = "demo_context Openrouter"
  have up: "upstream demo_sdks Openrouter ''good'' (demo_request []) ?c = Some (cps ''not json'', True, True)"
    "upstream demo_sdks Openrouter ''good'' (demo_request demo_schema) ?c = Some (cps ''not json'', True, True)" by code_simp+
  have key: "ac_api_key ?c = Some ''good''" by code_simp
  have adm: "stream_admitted Openrouter (demo_request []) ?c" "stream_admitted Openrouter (demo_request demo_schema) ?c"
    "gr_response_schema (demo_request []) = []" "gr_response_schema (demo_request demo_schema) \<noteq> []" "cps ''not json'' \<noteq> []"
    by code_simp+
  show ?thesis
    using streams_deliver_text[OF up(1) key, of "\<lambda>_. None"] streams_deliver_text[OF up(2) key, of "\<lambda>_. Some []"] adm
    unfolding Let_def by simp
qed

text \<open>
  C37: on a private route, the application behind the boundary is given at most the allowed number of
  body bytes, however it reacts to a failing receive, and the failure never leaves the boundary.  Without
  the configured token it is not run at all and the request body is not read; with the token, an
  acceptable declared length and a body within the limit the boundary changes nothing.
\<close>

theorem boundary_contains_requests:
  assumes "internal_body_route sc" "InternalGatewayBoundaryMiddleware expected (app :: 's asgi_app) sc ms = (got, out, e)"
  shows "body_bytes got \<le> MAX_INTERNAL_REQUEST_BODY_BYTES \<and> e \<noteq> EscapedTooLarge \<and>
    (\<not> authorised expected sc \<longrightarrow> got = [] \<and> (out = [] \<and> e = EscapedOther \<or>
       (\<exists>status code message. out = [BoundaryReply status code message] \<and> (status = 401 \<or> status = 503) \<and> e = Returned))) \<and>
    (authorised expected sc \<and> declared_length_refusal sc = (None :: 's asgi_run option) \<and>
       body_bytes ms \<le> MAX_INTERNAL_REQUEST_BODY_BYTES \<and> snd (snd (run_app app None 0 ms)) \<noteq> EscapedTooLarge \<longrightarrow>
       run_app app None 0 ms = (got, out, e))"
proof (intro conjI impI)
  show "body_bytes got \<le> MAX_INTERNAL_REQUEST_BODY_BYTES" "e \<noteq> EscapedTooLarge" using boundary_bounded[OF assms] by simp_all
  show "got = []" "out = [] \<and> e = EscapedOther \<or>
      (\<exists>status code message. out = [BoundaryReply status code message] \<and> (status = 401 \<or> status = 503) \<and> e = Returned)"
    if "\<not> authorised expected sc" using boundary_refuses[OF assms(1) that assms(2)] by simp_all
  assume ok: "authorised expected sc \<and> declared_length_refusal sc = (None :: 's asgi_run option) \<and>
    body_bytes ms \<le> MAX_INTERNAL_REQUEST_BODY_BYTES \<and> snd (snd (run_app app None 0 ms)) \<noteq> EscapedTooLarge"
  obtain g ou en where run: "run_app app None 0 ms = (g, ou, en)" by (metis prod_cases3)
  with ok have "InternalGatewayBoundaryMiddleware expected app sc ms = (g, ou, en)"
    by (intro boundary_passes[OF assms(1)]) simp_all
  with assms(2) run show "run_app app None 0 ms = (got, out, e)" by simp
qed

theorem boundary_contains_requests_witness:
  "InternalGatewayBoundaryMiddleware ''token'' demo_app demo_scope [HttpRequest ''{}'' False] = ([HttpRequest ''{}'' False], [AppSent True], Returned) \<and>
   run_app demo_app None 0 [HttpRequest ''{}'' False] = ([HttpRequest ''{}'' False], [AppSent True], Returned) \<and>
   body_bytes [HttpRequest ''{}'' False] \<le> MAX_INTERNAL_REQUEST_BODY_BYTES"
proof -
  have run: "InternalGatewayBoundaryMiddleware ''token'' demo_app demo_scope [HttpRequest ''{}'' False] =
    ([HttpRequest ''{}'' False], [AppSent True], Returned)" by code_simp
  have "internal_body_route demo_scope" "authorised ''token'' demo_scope" "declared_length_refusal demo_scope = (None :: bool asgi_run option)"
    by code_simp+
  moreover have "body_bytes [HttpRequest ''{}'' False] \<le> MAX_INTERNAL_REQUEST_BODY_BYTES"
    "snd (snd (run_app demo_app None 0 [HttpRequest ''{}'' False])) \<noteq> EscapedTooLarge" by code_simp+
  ultimately show ?thesis using boundary_contains_requests[OF _ run] run by blast
qed

text \<open>
  C38: for a request within the contract, the embedding route with the internal token always answers, with
  one vector for each input, in the order of the inputs, each of exactly the contract's dimension with
  values between -1 and 1, and depending on its input alone.
\<close>

theorem embeddings_follow_inputs:
  assumes "\<And>x. length (sha x) = 32" "embedding_request_ok r" "er_model_alias r = EMBEDDING_MODEL_ALIAS"
    and "token \<noteq> []" "is_ascii token"
  shows "\<exists>resp. generate_embeddings token sha r (Some (''Bearer '' @ token)) = Some (Inr resp) \<and>
    list_all2 (\<lambda>t v. deterministic_embedding sha t = Some v \<and> length v = EMBEDDING_DIMENSION \<and> list_all (\<lambda>x. - 1 \<le> x \<and> x \<le> 1) v)
      (er_inputs r) (ep_embeddings resp)"
  using embeddings_answered[of sha, OF assms(1-3) token_accepted[OF assms(4,5)]] unfolding embeds_def[abs_def] unit_interval_def .

theorem embeddings_follow_inputs_witness:
  "\<exists>resp. generate_embeddings ''token'' (\<lambda>_. replicate 32 CHR ''x'') demo_embedding (Some ''Bearer token'') = Some (Inr resp) \<and>
    length (ep_embeddings resp) = 2 \<and> list_all (\<lambda>v. length v = EMBEDDING_DIMENSION) (ep_embeddings resp)"
proof -
  have "embedding_request_ok demo_embedding" "er_model_alias demo_embedding = EMBEDDING_MODEL_ALIAS" "is_ascii ''token''" by code_simp+
  from embeddings_follow_inputs[of "\<lambda>_. replicate 32 CHR ''x''", OF _ this(1,2) _ this(3)] obtain resp where
    "generate_embeddings ''token'' (\<lambda>_. replicate 32 CHR ''x'') demo_embedding (Some ''Bearer token'') = Some (Inr resp)"
    and all: "list_all2 (\<lambda>t v. deterministic_embedding (\<lambda>_. replicate 32 CHR ''x'') t = Some v \<and> length v = EMBEDDING_DIMENSION \<and>
      list_all (\<lambda>x. - 1 \<le> x \<and> x \<le> 1) v) (er_inputs demo_embedding) (ep_embeddings resp)" by auto
  moreover from all have "length (ep_embeddings resp) = 2" by (auto simp: demo_embedding_def dest: list_all2_lengthD)
  moreover from all have "list_all (\<lambda>v. length v = EMBEDDING_DIMENSION) (ep_embeddings resp)"
    by (auto simp: list_all_length list_all2_conv_all_nth)
  ultimately show ?thesis by blast
qed

text \<open>
  C39: a response schema is asked for, and the provider streams, soundly and to the end, a text that is no
  such object.  The OpenAI adapter ends its stream normally, having delivered that text and no
  structured output; each of the other three adapters fails, having delivered nothing.
\<close>

theorem openai_stream_skips_schema:
  assumes "upstream sdks p key r c = Some (t, True, True)" "ac_api_key c = Some key" "stream_admitted p r c"
    and "gr_response_schema r \<noteq> []" "validate t = None"
  shows "let s = adapter_stream sdks validate p r c
    in if p = Openai then snd s = None \<and> delta_text (fst s) = t \<and> structured_deltas (fst s) = []
       else snd s \<noteq> None \<and> delta_text (fst s) = [] \<and> structured_deltas (fst s) = []"
proof (cases "p = Openai")
  case True
  have "structured_deltas (fst (openai_stream (ps_openai sdks) r c)) = []"
    using openai_unstructured[of "ps_openai sdks" r c] by (simp add: structured_deltas_none)
  with openai_faithful[of sdks key r c t True True] assms True show ?thesis
    by (simp add: adapter_stream_def faithful_stream_def Let_def)
next
  case False
  then have "object_stream validate (adapter_stream sdks validate p r c) t True (stream_admitted p r c \<and> True)"
    using openrouter_object[of sdks key r c t True True validate] gemini_object[of sdks key r c t True True validate]
      anthropic_object[of sdks key r c t True True validate] assms
    by (cases p) (simp_all add: adapter_stream_def)
  with False assms(5) show ?thesis
    by (cases "structured_deltas (fst (adapter_stream sdks validate p r c))") (auto simp: object_stream_def Let_def)
qed

theorem openai_stream_skips_schema_witness:
  "snd (openai_stream demo_chat (demo_request demo_schema) (demo_context Openai)) = None \<and>
   delta_text (fst (openai_stream demo_chat (demo_request demo_schema) (demo_context Openai))) = cps ''not json'' \<and>
   snd (openrouter_stream demo_chat (\<lambda>_. None) (demo_request demo_schema) (demo_context Openrouter)) \<noteq> None"
proof -
  have up: "upstream demo_sdks Openai ''good'' (demo_request demo_schema) (demo_context Openai) = Some (cps ''not json'', True, True)"
    "upstream demo_sdks Openrouter ''good'' (demo_request demo_schema) (demo_context Openrouter) = Some (cps ''not json'', True, True)"
    by code_simp+
  have pre: "ac_api_key (demo_context Openai) = Some ''good''" "stream_admitted Openai (demo_request demo_schema) (demo_context Openai)"
    "ac_api_key (demo_context Openrouter) = Some ''good''" "stream_admitted Openrouter (demo_request demo_schema) (demo_context Openrouter)"
    "gr_response_schema (demo_request demo_schema) \<noteq> []" by code_simp+
  have sdks: "ps_openai demo_sdks = demo_chat" "ps_openrouter demo_sdks = demo_chat" by (simp_all add: demo_sdks_def)
  show ?thesis
    using openai_stream_skips_schema[OF up(1) pre(1,2,5), of "\<lambda>_. None", OF refl]
      openai_stream_skips_schema[OF up(2) pre(3,4,5), of "\<lambda>_. None", OF refl]
    unfolding Let_def adapter_stream_def by (simp add: sdks)
qed

end
