(* ===== verification/Spec2Isabelle.thy ===== *)
theory Spec2Isabelle
  imports Cleanup_Worker Content_Normalization Sync_Consumer Workforce_System Provider_System Gateway_System
begin

text \<open>
  \<^bold>\<open>Serviq: a verification library of its three services.\<close>

  Serviq is a multi-tenant support platform.  The \<^emph>\<open>API\<close> (\<open>services/api\<close>) serves organizations, members,
  invitations, provider connections and knowledge sources; the \<^emph>\<open>worker\<close> (\<open>services/worker\<close>) publishes the
  events the API commits, fetches and normalises knowledge and cleans up failed uploads; the \<^emph>\<open>LLM gateway\<close>
  (\<open>services/llm-gateway\<close>) talks to the model providers.  They share one PostgreSQL database, an object
  store, a Kafka broker and a Valkey server.  An upload reserves quota, writes an object and commits a
  source; starting a sync commits a version together with an outbox event; the publisher delivers the
  event; the consumer runs the sync job, which fetches the content, stores it and hands the document on; a
  provider connection is stored with a secret and tested through the gateway.

  \<^bold>\<open>How the code is modelled.\<close>  Exceptions are values: an operation returns \<open>Inl e\<close> or \<open>Inr v\<close>, one
  constructor per exception class.  A database is a record of tables, a query a function of it, and a
  transaction a body run by \<open>in_txn\<close> with a \<open>commit_outcome\<close>: committed, aborted, or applied but not
  acknowledged.  The schema's constraints are \<open>schema_ok\<close>.  Times are integers in microseconds, UUIDs are
  128-bit words, Python's unbounded integers are \<open>int\<close>.  Identifiers and keys are \<open>string\<close>s, content
  of any language is a list of code points.  Clocks, fresh identifiers and random tokens are arguments.
  Code outside \<open>src/\<close> (SDKs, pydantic, the HTTP and S3 clients, Fernet, SHA-256, the DNS) is an argument, and
  what the code relies on is a named hypothesis.

  \<^bold>\<open>Theories.\<close>
  \<^item> \<open>Prelude\<close>, \<open>Unicode_Text\<close>, \<open>Regex\<close>, \<open>Json\<close>, \<open>Urls\<close>: results, \<open>str\<close> methods, the used part of \<open>re\<close>,
    \<open>json\<close> with its round trip, \<open>urllib.parse\<close> and the \<open>idna\<close> codec.
  \<^item> \<open>Identifiers\<close>: UUID text and raw object keys (\<open>core/object_storage.py\<close>), with the exact
    language of the key parser.
  \<^item> \<open>Database\<close>: the tables of \<open>modules/*/models.py\<close> and the migrations' constraints; transactions.
  \<^item> \<open>Tenancy\<close>, \<open>Workforce\<close>, \<open>Organizations\<close>, \<open>Members\<close>, \<open>Invitations\<close> (\<open>modules/*\<close>) and
    \<open>Workforce_System\<close>, their interleaving as an inductive step relation: effective permissions are exact,
    organizations keep an active owner, invitations are accepted once, a login resolves to one user.
  \<^item> \<open>Knowledge_Store\<close>, \<open>Quota\<close>, \<open>Uploads\<close>, \<open>Object_Storage\<close>, \<open>Upload_Cleanup\<close>, \<open>Knowledge_Service\<close>
    (\<open>modules/knowledge\<close>, \<open>core/object_storage.py\<close>): admission within the limits, upload validation against a
    declarative rule, the adapters as refinements of an abstract bucket, the upload with its compensation,
    atomic start of a sync.  \<open>Cleanup_Protocol\<close> states what any transaction may do to a cleanup row; the
    API and \<open>Cleanup_Worker\<close> (\<open>jobs/knowledge_upload_cleanup.py\<close>) are interpretations of it; both delete
    only objects of rows they claimed, and the worker's claim is compared with the API's on every due row.
  \<^item> \<open>Secret_Store\<close>, \<open>Rate_Limits\<close>, \<open>Providers\<close>, \<open>Provider_System\<close> (\<open>core/secret_store.py\<close>,
    \<open>core/rate_limits.py\<close>, \<open>modules/providers\<close>): secrets per tenant, admission windows, connections and
    models; requests are cut where the code leaves the database or the store and interleaved freely.
  \<^item> \<open>Broker\<close>, \<open>Outbox\<close>, \<open>Public_Fetch\<close>, \<open>Knowledge_Sync\<close>, \<open>Sync_Consumer\<close> (\<open>worker/app\<close>): at-least-once
    publication, the fetch boundary, exactly-once hand-off, no lost message.
  \<^item> \<open>Normalization\<close>, \<open>Html_Normalization\<close>, \<open>Markdown_Normalization\<close>, \<open>Content_Normalization\<close>, \<open>Chunking\<close>
    (\<open>worker/app/core\<close>): bounded segments, the HTML collector as a state machine, and the chunker against
    a reference definition with lossless windows.
  \<^item> \<open>Gateway_Contract\<close>, \<open>Gateway_Adapters\<close>, \<open>Gateway_Laws\<close>, \<open>Gateway_Service\<close>, \<open>Gateway_System\<close>
    (\<open>llm-gateway/app\<close>): the contract C-4, the four provider adapters and the fake one, connectivity
    test, request boundary and embeddings; the API's test reflects the provider's answer, streams deliver
    the provider's text or the object it parses to.

  \<^bold>\<open>Interfaces.\<close>  \<open>cleanup_protocol\<close>, \<open>charge_weights\<close>, \<open>event_broker\<close>, \<open>valkey_counters\<close>,
  \<open>tenant_secret_store\<close> and \<open>provider_store\<close>, \<open>text_stream\<close> and \<open>llm_adapter\<close> are locales; each is interpreted on
  the model's own operations, and the properties rest on the interpretations.

  \<^bold>\<open>Bounds and fuel.\<close>  Loops are structural or have a measure, except: \<open>split_loop\<close> and \<open>embedding_loop\<close> are
  partial functions, proved to return (the latter after 48 digests of 32 bytes); the JSON reader has fuel
  \<open>2 * length + 2\<close>, enough for every document by its nesting; a fetch follows five redirects, hence makes at most six
  contacts.  A broker, a database or a provider that answers with an error, or does not acknowledge, is
  covered by quantifying over its outcomes.

  \<^bold>\<open>Not modelled.\<close>  FastAPI routers and the translation of errors to status codes, sign-in against the
  identity provider and browser sessions, multipart parsing, settings and connection set-up: glue or I/O around the modelled
  operations.  PDF extraction and HTML tokenisation are library code; the collector's events are its
  input.  The rounding of floats in embeddings and the processing time of a request are abstracted.

  \<^bold>\<open>Abstractions inside modelled code.\<close>  \<open>casefold\<close> is the Latin-1 part of \<open>str.casefold\<close> without its change of
  the micro sign; the used JSON values have no floats, of which only the text \<open>1.0\<close> equals 1; a code point is encoded
  in UTF-8 also if it is a lone surrogate, which the JSON reader refuses before; the resolver fails only with
  \<open>gaierror\<close>; committing, seeking and pausing the Kafka consumer and the last \<open>chmod\<close> of the secret file do not
  raise; \<open>gateway_endpoint\<close> joins the API's client and the gateway's route without a transport failure between them,
  whose branches in the client are modelled by \<open>gateway_test\<close> itself.  No property rests on what these leave out.
\<close>

end
